(* ===== verification/Floats.thy ===== *)
theory Floats
  imports Prelude
begin

text \<open>
  IEEE 754 binary32 and binary64 values, as far as the code uses them: split ratios and
  column widths are \<open>f32\<close>, a few products are formed in \<open>f64\<close>. A finite value is its
  rational; the operations compute exactly and round to nearest, ties to even. The two
  zeros are one value here: no expression of the modelled code tells them apart (it
  compares, rounds to integers and divides by sums of widths only).
\<close>

datatype flt = FNaN | FInf bool | FFin rat

type_synonym f32 = flt
type_synonym f64 = flt

section \<open>Rounding to nearest, ties to even\<close>

definition pow2 :: "int \<Rightarrow> rat" where
  "pow2 e = (if 0 \<le> e then 2 ^ nat e else 1 / 2 ^ nat (- e))"

fun log2_nat :: "nat \<Rightarrow> nat" where
  "log2_nat n = (if n < 2 then 0 else Suc (log2_nat (n div 2)))"

declare log2_nat.simps [simp del]

text \<open>The exponent of a positive rational: \<open>2 ^ e \<le> q < 2 ^ (e + 1)\<close>.\<close>

definition rat_exponent :: "rat \<Rightarrow> int" where
  "rat_exponent q =
     (if 1 \<le> q then int (log2_nat (nat \<lfloor>q\<rfloor>))
      else - int (Suc (log2_nat (nat (\<lceil>1 / q\<rceil> - 1)))))"

definition round_half_even :: "rat \<Rightarrow> int" where
  "round_half_even x =
     (let f = \<lfloor>x\<rfloor>; r = x - of_int f
      in if r < 1 / 2 then f else if 1 / 2 < r then f + 1
         else if even f then f else f + 1)"

definition fl_round :: "nat \<Rightarrow> int \<Rightarrow> int \<Rightarrow> rat \<Rightarrow> flt" where
  "fl_round p emin emax q =
     (if q = 0 then FFin 0
      else let u = pow2 (max (rat_exponent \<bar>q\<bar>) emin - (int p - 1));
               v = of_int (round_half_even (\<bar>q\<bar> / u)) * u
           in if pow2 (emax + 1) \<le> v then FInf (q < 0)
              else FFin (if q < 0 then - v else v))"

definition f32_round :: "rat \<Rightarrow> f32" where
  "f32_round = fl_round 24 (- 126) 127"

definition f64_round :: "rat \<Rightarrow> f64" where
  "f64_round = fl_round 53 (- 1022) 1023"

section \<open>Arithmetic, comparison and conversion\<close>

fun fl_neg_sign :: "flt \<Rightarrow> bool" where
  "fl_neg_sign FNaN = False"
| "fl_neg_sign (FInf s) = s"
| "fl_neg_sign (FFin q) = (q < 0)"

fun fl_mul :: "(rat \<Rightarrow> flt) \<Rightarrow> flt \<Rightarrow> flt \<Rightarrow> flt" where
  "fl_mul rnd (FFin a) (FFin b) = rnd (a * b)"
| "fl_mul rnd FNaN y = FNaN"
| "fl_mul rnd x FNaN = FNaN"
| "fl_mul rnd x y =
     (if x = FFin 0 \<or> y = FFin 0 then FNaN else FInf (fl_neg_sign x \<noteq> fl_neg_sign y))"

fun fl_add :: "(rat \<Rightarrow> flt) \<Rightarrow> flt \<Rightarrow> flt \<Rightarrow> flt" where
  "fl_add rnd (FFin a) (FFin b) = rnd (a + b)"
| "fl_add rnd FNaN y = FNaN"
| "fl_add rnd x FNaN = FNaN"
| "fl_add rnd (FInf s) (FInf t) = (if s = t then FInf s else FNaN)"
| "fl_add rnd (FInf s) y = FInf s"
| "fl_add rnd x (FInf t) = FInf t"

fun fl_div :: "(rat \<Rightarrow> flt) \<Rightarrow> flt \<Rightarrow> flt \<Rightarrow> flt" where
  "fl_div rnd (FFin a) (FFin b) =
     (if b = 0 then (if a = 0 then FNaN else FInf (a < 0)) else rnd (a / b))"
| "fl_div rnd FNaN y = FNaN"
| "fl_div rnd x FNaN = FNaN"
| "fl_div rnd (FInf s) (FInf t) = FNaN"
| "fl_div rnd (FInf s) y = FInf (s \<noteq> fl_neg_sign y)"
| "fl_div rnd x (FInf t) = FFin 0"

text \<open>\<open>==\<close>, \<open><\<close> and \<open>clamp\<close> of \<open>f32\<close>: every comparison with NaN is false.\<close>

fun fl_eq :: "flt \<Rightarrow> flt \<Rightarrow> bool" where
  "fl_eq FNaN y = False"
| "fl_eq x FNaN = False"
| "fl_eq x y = (x = y)"

fun fl_less :: "flt \<Rightarrow> flt \<Rightarrow> bool" where
  "fl_less FNaN y = False"
| "fl_less x FNaN = False"
| "fl_less (FFin a) (FFin b) = (a < b)"
| "fl_less (FInf s) (FInf t) = (s \<and> \<not> t)"
| "fl_less (FInf s) (FFin b) = s"
| "fl_less (FFin a) (FInf t) = (\<not> t)"

definition fl_le :: "flt \<Rightarrow> flt \<Rightarrow> bool" where
  "fl_le x y = (fl_less x y \<or> fl_eq x y)"

fun fl_neg :: "flt \<Rightarrow> flt" where
  "fl_neg (FFin q) = FFin (- q)"
| "fl_neg (FInf s) = FInf (\<not> s)"
| "fl_neg FNaN = FNaN"

definition fl_sub :: "(rat \<Rightarrow> flt) \<Rightarrow> flt \<Rightarrow> flt \<Rightarrow> flt" where
  "fl_sub rnd x y = fl_add rnd x (fl_neg y)"

fun fl_is_finite :: "flt \<Rightarrow> bool" where
  "fl_is_finite (FFin _) = True"
| "fl_is_finite _ = False"

definition fl_clamp :: "flt \<Rightarrow> flt \<Rightarrow> flt \<Rightarrow> flt" where
  "fl_clamp lo hi x =
     (let y = (if fl_less x lo then lo else x) in if fl_less hi y then hi else y)"

text \<open>\<open>f32::round\<close> (halves away from zero) and the saturating \<open>as\<close> cast to an unsigned
  integer type with largest value \<open>m\<close>.\<close>

definition round_half_away :: "rat \<Rightarrow> int" where
  "round_half_away q = (if 0 \<le> q then \<lfloor>q + 1 / 2\<rfloor> else - \<lfloor>- q + 1 / 2\<rfloor>)"

fun fl_round_int :: "flt \<Rightarrow> flt" where
  "fl_round_int (FFin q) = FFin (of_int (round_half_away q))"
| "fl_round_int x = x"

fun fl_to_uint :: "nat \<Rightarrow> flt \<Rightarrow> nat" where
  "fl_to_uint m FNaN = 0"
| "fl_to_uint m (FInf s) = (if s then 0 else m)"
| "fl_to_uint m (FFin q) = (if q \<le> 0 then 0 else min m (nat \<lfloor>q\<rfloor>))"

section \<open>Rounding is exact on representable values\<close>

lemma log2_nat_bounds: "0 < n \<Longrightarrow> 2 ^ log2_nat n \<le> n \<and> n < 2 ^ Suc (log2_nat n)"
proof (induction n rule: log2_nat.induct)
  case (1 n)
  show ?case
  proof (cases "n < 2")
    case True
    with 1 show ?thesis by (simp add: log2_nat.simps [of n])
  next
    case False
    then have "2 ^ log2_nat (n div 2) \<le> n div 2" "n div 2 < 2 ^ Suc (log2_nat (n div 2))"
      using 1 by auto
    then have "2 * 2 ^ log2_nat (n div 2) \<le> n" "n < 2 * 2 ^ Suc (log2_nat (n div 2))"
      by linarith+
    with False show ?thesis by (simp add: log2_nat.simps [of n])
  qed
qed

lemma pow2_pos [simp]: "0 < pow2 e"
  by (simp add: pow2_def)

lemma pow2_nat: "pow2 (int n) = 2 ^ n"
  by (simp add: pow2_def)

lemma pow2_powi: "pow2 e = 2 powi e"
  by (simp add: pow2_def power_int_def divide_simps)

lemma pow2_add: "pow2 (a + b) = pow2 a * pow2 b"
  by (simp add: pow2_powi power_int_add)

lemma round_half_even_int: "round_half_even (of_int k) = k"
  by (simp add: round_half_even_def)

lemma rat_exponent_le:
  assumes "q < pow2 (int k + 1)"
  shows "rat_exponent q \<le> int k"
proof (cases "1 \<le> q")
  case True
  let ?n = "nat \<lfloor>q\<rfloor>"
  have "2 ^ log2_nat ?n \<le> ?n"
    using log2_nat_bounds [of ?n] True by simp
  then have "(2 :: rat) ^ log2_nat ?n \<le> of_nat ?n"
    by (metis of_nat_le_iff of_nat_numeral of_nat_power)
  also have "\<dots> \<le> q" using True by simp
  also have "\<dots> < 2 ^ Suc k"
    using assms pow2_nat [of "Suc k"] by (simp add: add.commute)
  finally have "log2_nat ?n < Suc k"
    by (rule power_less_imp_less_exp [rotated]) simp
  with True show ?thesis by (simp add: rat_exponent_def)
next
  case False
  then show ?thesis by (simp add: rat_exponent_def)
qed

text \<open>A multiple of \<open>2 ^ (k + 1 - p)\<close> below \<open>2 ^ (k + 1)\<close> is rounded to itself.\<close>

lemma fl_round_exact:
  assumes "0 \<le> q" and "q < pow2 (int k + 1)" and "q = of_int m * pow2 (int k - (int p - 1))"
    and "emin \<le> int k" and "int k \<le> emax"
  shows "fl_round p emin emax q = FFin q"
proof (cases "q = 0")
  case True
  then show ?thesis by (simp add: fl_round_def)
next
  case False
  with assms(1) have pos: "0 < q" by simp
  let ?e = "max (rat_exponent q) emin"
  have e: "?e \<le> int k"
    using rat_exponent_le [OF assms(2)] assms(4) by simp
  then obtain j where j: "int k - ?e = int j"
    by (metis diff_ge_0_iff_ge zero_le_imp_eq_int)
  define U where "U = pow2 (?e - (int p - 1))"
  have "int k - (int p - 1) = int j + (?e - (int p - 1))"
    using j by simp
  then have "pow2 (int k - (int p - 1)) = 2 ^ j * U"
    by (simp only: pow2_add pow2_nat U_def)
  with assms(3) have qU: "q = of_int (m * 2 ^ j) * U" by simp
  have "0 < U" by (simp add: U_def)
  with qU have "q / U = of_int (m * 2 ^ j)" by simp
  then have "round_half_even (q / U) = m * 2 ^ j"
    by (simp only: round_half_even_int)
  with qU have v: "of_int (round_half_even (q / U)) * U = q" by simp
  have "pow2 (int k + 1) \<le> pow2 (emax + 1)"
    using assms(5) by (simp add: pow2_powi power_int_increasing)
  with assms(2) have "\<not> pow2 (emax + 1) \<le> q" by simp
  with v pos show ?thesis
    by (simp add: fl_round_def U_def)
qed

text \<open>Evaluation of the operations on numerals by the simplifier.\<close>

lemma ceiling_divide_numeral [simp]:
  "\<lceil>numeral a / numeral b :: rat\<rceil> = - (- numeral a div numeral b)"
  using ceiling_divide_eq_div [of "numeral a" "numeral b", where 'a = rat] by simp

lemma floor_divide_numeral [simp]:
  "\<lfloor>numeral a / numeral b :: rat\<rfloor> = numeral a div numeral b"
  using floor_divide_of_int_eq [of "numeral a" "numeral b", where 'a = rat] by simp

lemma floor_one_divide_numeral [simp]: "\<lfloor>1 / numeral b :: rat\<rfloor> = 1 div numeral b"
  using floor_divide_of_int_eq [of 1 "numeral b", where 'a = rat] by simp

lemmas fl_eval = f32_round_def f64_round_def fl_round_def rat_exponent_def pow2_def Let_def
  round_half_even_def round_half_away_def log2_nat.simps

lemma fl_to_uint_le: "fl_to_uint m x \<le> m"
  by (cases x) auto

end
