(* ===== verification/SplitTree.thy ===== *)
theory SplitTree
  imports Floats "HOL-Library.Multiset"
begin

text \<open>
  The split tree of one screen: \<open>Node\<close>, \<open>StackPanes\<close> and their operations
  (\<open>cmux-tui-core/src/model.rs\<close>). A \<open>&mut self\<close> method that reports success becomes
  a function returning the new tree and the flag. \<open>StackPanes\<close> is a list whose only
  constructor rejects the empty one; \<open>node_wf\<close> is that type invariant.
\<close>

datatype split_dir = DirRight | DirDown

datatype node =
    Leaf pane_id
  | Split split_id split_dir f32 node node
  | Stack "pane_id list" pane_id

datatype viewport_column = ColBase | ColSplit split_id

type_synonym viewport_splits = "split_id \<rightharpoonup> f32"

section \<open>Construction\<close>

definition stack_panes_new :: "pane_id list \<Rightarrow> pane_id list option" where
  "stack_panes_new panes = (if panes \<noteq> [] then Some panes else None)"

definition node_stack :: "pane_id list \<Rightarrow> node option" where
  "node_stack panes =
     (case panes of [] \<Rightarrow> None
      | _ \<Rightarrow> map_option (\<lambda>ps. Stack ps (last panes)) (stack_panes_new panes))"

definition stack_with_expanded :: "pane_id list \<Rightarrow> pane_id \<Rightarrow> node option" where
  "stack_with_expanded panes expanded =
     Option.bind (stack_panes_new panes)
       (\<lambda>ps. if expanded \<in> set ps then Some (Stack ps expanded) else None)"

fun node_wf :: "node \<Rightarrow> bool" where
  "node_wf (Leaf _) = True"
| "node_wf (Split _ _ _ a b) = (node_wf a \<and> node_wf b)"
| "node_wf (Stack panes expanded) = (panes \<noteq> [] \<and> expanded \<in> set panes)"

section \<open>Queries\<close>

fun pane_ids :: "node \<Rightarrow> pane_id list \<Rightarrow> pane_id list" where
  "pane_ids (Leaf i) out = out @ [i]"
| "pane_ids (Split _ _ _ a b) out = pane_ids b (pane_ids a out)"
| "pane_ids (Stack panes _) out = out @ panes"

definition pane_ids_vec :: "node \<Rightarrow> pane_id list" where
  "pane_ids_vec t = pane_ids t []"

fun contains :: "node \<Rightarrow> pane_id \<Rightarrow> bool" where
  "contains (Leaf i) target = (i = target)"
| "contains (Split _ _ _ a b) target = (contains a target \<or> contains b target)"
| "contains (Stack panes _) target = (target \<in> set panes)"

fun contains_stack_pane :: "node \<Rightarrow> pane_id \<Rightarrow> bool" where
  "contains_stack_pane (Leaf _) target = False"
| "contains_stack_pane (Split _ _ _ a b) target =
     (contains_stack_pane a target \<or> contains_stack_pane b target)"
| "contains_stack_pane (Stack panes _) target = (target \<in> set panes)"

fun stack_expanded_pane :: "node \<Rightarrow> pane_id option" where
  "stack_expanded_pane (Leaf _) = None"
| "stack_expanded_pane (Split _ _ _ a b) =
     (case stack_expanded_pane a of Some p \<Rightarrow> Some p | None \<Rightarrow> stack_expanded_pane b)"
| "stack_expanded_pane (Stack _ expanded) = Some expanded"

fun first_visible_pane :: "node \<Rightarrow> pane_id" where
  "first_visible_pane (Leaf pane) = pane"
| "first_visible_pane (Split _ _ _ a _) = first_visible_pane a"
| "first_visible_pane (Stack _ expanded) = expanded"

fun contains_split :: "node \<Rightarrow> split_id \<Rightarrow> bool" where
  "contains_split (Leaf _) target = False"
| "contains_split (Split i _ _ a b) target =
     (i = target \<or> contains_split a target \<or> contains_split b target)"
| "contains_split (Stack _ _) target = False"

fun split_ratio :: "node \<Rightarrow> split_id \<Rightarrow> f32 option" where
  "split_ratio (Leaf _) target = None"
| "split_ratio (Stack _ _) target = None"
| "split_ratio (Split i _ ratio a b) target =
     (if i = target then Some ratio
      else (case split_ratio a target of Some r \<Rightarrow> Some r | None \<Rightarrow> split_ratio b target))"

text \<open>The inner \<open>walk\<close> of \<open>deepest_split_for_pane\<close>: whether the pane is below the
  node, and the deepest split of the wanted direction on the way to it.\<close>

fun deepest_walk :: "node \<Rightarrow> pane_id \<Rightarrow> split_dir \<Rightarrow> bool \<times> split_id option" where
  "deepest_walk (Leaf i) target dir = (i = target, None)"
| "deepest_walk (Split i split_dir _ a b) target dir =
     (let (a_contains, a_split) = deepest_walk a target dir in
      if a_split \<noteq> None then (True, a_split) else
      let (b_contains, b_split) = deepest_walk b target dir in
      if b_split \<noteq> None then (True, b_split) else
      let here = (a_contains \<or> b_contains) in
      if here \<and> split_dir = dir then (True, Some i) else (here, None))"
| "deepest_walk (Stack panes _) target dir = (target \<in> set panes, None)"

definition deepest_split_for_pane :: "node \<Rightarrow> pane_id \<Rightarrow> split_dir \<Rightarrow> split_id option" where
  "deepest_split_for_pane t target dir = snd (deepest_walk t target dir)"

fun viewport_column_owner ::
    "node \<Rightarrow> pane_id \<Rightarrow> viewport_splits \<Rightarrow> viewport_column option" where
  "viewport_column_owner (Split i d r a b) target vs =
     (if vs i \<noteq> None
      then (if contains b target then Some (ColSplit i)
            else viewport_column_owner a target vs)
      else (if contains (Split i d r a b) target then Some ColBase else None))"
| "viewport_column_owner t target vs = (if contains t target then Some ColBase else None)"

section \<open>Updates\<close>

fun expand_stack_pane :: "node \<Rightarrow> pane_id \<Rightarrow> node \<times> bool" where
  "expand_stack_pane (Leaf i) target = (Leaf i, False)"
| "expand_stack_pane (Split i d r a b) target =
     (let (a', ok) = expand_stack_pane a target in
      if ok then (Split i d r a' b, True)
      else let (b', ok) = expand_stack_pane b target in (Split i d r a' b', ok))"
| "expand_stack_pane (Stack panes expanded) target =
     (if target \<in> set panes \<and> expanded \<noteq> target then (Stack panes target, True)
      else (Stack panes expanded, False))"

type_synonym stack_expansions = "pane_id list \<rightharpoonup> pane_id"

fun collect_stack_expansions :: "node \<Rightarrow> stack_expansions \<Rightarrow> stack_expansions" where
  "collect_stack_expansions (Leaf _) m = m"
| "collect_stack_expansions (Split _ _ _ a b) m =
     collect_stack_expansions b (collect_stack_expansions a m)"
| "collect_stack_expansions (Stack panes expanded) m = m(sort panes \<mapsto> expanded)"

fun restore_stack_expansions :: "node \<Rightarrow> stack_expansions \<Rightarrow> node" where
  "restore_stack_expansions (Leaf i) m = Leaf i"
| "restore_stack_expansions (Split i d r a b) m =
     Split i d r (restore_stack_expansions a m) (restore_stack_expansions b m)"
| "restore_stack_expansions (Stack panes expanded) m =
     (case m (sort panes) of
        Some current \<Rightarrow> Stack panes (if current \<in> set panes then current else expanded)
      | None \<Rightarrow> Stack panes expanded)"

definition swap_id :: "pane_id \<Rightarrow> pane_id \<Rightarrow> pane_id \<Rightarrow> pane_id" where
  "swap_id first second p = (if p = first then second else if p = second then first else p)"

fun swap_leaf_ids :: "node \<Rightarrow> pane_id \<Rightarrow> pane_id \<Rightarrow> node" where
  "swap_leaf_ids (Leaf i) first second = Leaf (swap_id first second i)"
| "swap_leaf_ids (Split i d r a b) first second =
     Split i d r (swap_leaf_ids a first second) (swap_leaf_ids b first second)"
| "swap_leaf_ids (Stack panes expanded) first second =
     (let first_in_stack = first \<in> set panes;
          second_in_stack = second \<in> set panes;
          panes' = map (swap_id first second) panes
      in Stack panes'
           (if first_in_stack \<noteq> second_in_stack then swap_id first second expanded
            else expanded))"

definition swap_leaves :: "node \<Rightarrow> pane_id \<Rightarrow> pane_id \<Rightarrow> node \<times> bool" where
  "swap_leaves t first second =
     (if first = second \<or> \<not> contains t first \<or> \<not> contains t second then (t, False)
      else (swap_leaf_ids t first second, True))"

text \<open>The literal \<open>0.5\<close>.\<close>

definition half :: f32 where
  "half = FFin (1 / 2)"

fun split_leaf :: "node \<Rightarrow> pane_id \<Rightarrow> split_id \<Rightarrow> split_dir \<Rightarrow> pane_id \<Rightarrow> node \<times> bool" where
  "split_leaf (Leaf i) target sid dir new_pane =
     (if i = target then (Split sid dir half (Leaf i) (Leaf new_pane), True)
      else (Leaf i, False))"
| "split_leaf (Split i d r a b) target sid dir new_pane =
     (let (a', ok) = split_leaf a target sid dir new_pane in
      if ok then (Split i d r a' b, True)
      else let (b', ok) = split_leaf b target sid dir new_pane in (Split i d r a' b', ok))"
| "split_leaf (Stack panes expanded) target sid dir new_pane =
     (if target \<in> set panes
      then (Split sid dir half (Stack panes target) (Leaf new_pane), True)
      else (Stack panes expanded, False))"

fun remove_leaf :: "node \<Rightarrow> pane_id \<Rightarrow> node option" where
  "remove_leaf (Leaf i) target = (if i = target then None else Some (Leaf i))"
| "remove_leaf (Split i d r a b) target =
     (case (remove_leaf a target, remove_leaf b target) of
        (Some a', Some b') \<Rightarrow> Some (Split i d r a' b')
      | (Some a', None) \<Rightarrow> Some a'
      | (None, Some b') \<Rightarrow> Some b'
      | (None, None) \<Rightarrow> None)"
| "remove_leaf (Stack panes expanded) target =
     (if target \<notin> set panes then Some (Stack panes expanded)
      else let panes' = filter (\<lambda>p. p \<noteq> target) panes in
        (case panes' of
           [] \<Rightarrow> None
         | [pane] \<Rightarrow> Some (Leaf pane)
         | _ \<Rightarrow> Some (Stack panes' (if expanded = target then last panes' else expanded))))"

fun set_split_ratio :: "node \<Rightarrow> split_id \<Rightarrow> f32 \<Rightarrow> node \<times> bool" where
  "set_split_ratio (Leaf i) target new_ratio = (Leaf i, False)"
| "set_split_ratio (Split i d r a b) target new_ratio =
     (if i = target then (Split i d new_ratio a b, True)
      else let (a', ok) = set_split_ratio a target new_ratio in
        if ok then (Split i d r a' b, True)
        else let (b', ok) = set_split_ratio b target new_ratio in (Split i d r a' b', ok))"
| "set_split_ratio (Stack panes e) target new_ratio = (Stack panes e, False)"

section \<open>Pane lists\<close>

lemma pane_ids_append: "pane_ids t out = out @ pane_ids t []"
proof (induction t arbitrary: out)
  case (Split i d r a b)
  show ?case
    using Split.IH(1) [of out] Split.IH(2) [of "pane_ids a out"] Split.IH(2) [of "pane_ids a []"]
    by simp
qed simp_all

lemma pane_ids_vec_simps [simp]:
  "pane_ids_vec (Leaf i) = [i]"
  "pane_ids_vec (Split i d r a b) = pane_ids_vec a @ pane_ids_vec b"
  "pane_ids_vec (Stack panes e) = panes"
  by (simp_all add: pane_ids_vec_def) (metis pane_ids_append)

lemma contains_iff [simp]: "contains t p \<longleftrightarrow> p \<in> set (pane_ids_vec t)"
  by (induction t) auto

declare contains.simps [simp del]

lemma pane_ids_vec_nonempty: "node_wf t \<Longrightarrow> pane_ids_vec t \<noteq> []"
  by (induction t) auto

lemma first_visible_pane_in: "node_wf t \<Longrightarrow> first_visible_pane t \<in> set (pane_ids_vec t)"
  by (induction t) auto

lemma stack_with_expanded_wf: "stack_with_expanded ps e = Some t \<Longrightarrow> node_wf t"
  by (auto simp: stack_with_expanded_def stack_panes_new_def bind_eq_Some_conv split: if_splits)

lemma node_stack_wf: "node_stack ps = Some t \<Longrightarrow> node_wf t \<and> pane_ids_vec t = ps"
  by (cases ps) (auto simp: node_stack_def stack_panes_new_def)

section \<open>Swapping\<close>

lemma swap_id_involutive [simp]: "swap_id a b (swap_id a b p) = p"
  by (simp add: swap_id_def)

lemma inj_swap_id: "inj (swap_id a b)"
  by (rule inj_on_inverseI [where g = "swap_id a b"]) simp

lemma swap_id_image [simp]:
  "a \<in> swap_id a b ` S \<longleftrightarrow> b \<in> S" "b \<in> swap_id a b ` S \<longleftrightarrow> a \<in> S"
  by (force simp: swap_id_def image_iff)+

lemma pane_ids_swap: "pane_ids_vec (swap_leaf_ids t a b) = map (swap_id a b) (pane_ids_vec t)"
  by (induction t) (auto simp: Let_def)

lemma swap_leaf_ids_involutive: "swap_leaf_ids (swap_leaf_ids t a b) a b = t"
  by (induction t) (auto simp: Let_def comp_def)

lemma node_wf_swap: "node_wf t \<Longrightarrow> node_wf (swap_leaf_ids t a b)"
proof (induction t)
  case (Stack ps e)
  have "e = a \<or> e = b \<or> swap_id a b e = e"
    by (auto simp: swap_id_def)
  with Stack show ?case
    by (auto simp: Let_def intro: rev_image_eqI)
qed simp_all

lemma distinct_swap: "distinct (pane_ids_vec t) \<Longrightarrow> distinct (pane_ids_vec (swap_leaf_ids t a b))"
  by (simp add: pane_ids_swap distinct_map inj_on_subset [OF inj_swap_id])

section \<open>Splitting a leaf\<close>

lemma split_leaf_ok: "snd (split_leaf t p s d n) \<longleftrightarrow> p \<in> set (pane_ids_vec t)"
  by (induction t) (auto simp: Let_def split: prod.splits)

lemma split_leaf_missing: "p \<notin> set (pane_ids_vec t) \<Longrightarrow> fst (split_leaf t p s d n) = t"
proof (induction t)
  case (Split i dir r a b)
  then show ?case
    using split_leaf_ok [of a p s d n] by (auto simp: Let_def split: prod.splits)
qed auto

lemma split_leaf_Split:
  "split_leaf (Split i dir r a b) p s d n =
     (if p \<in> set (pane_ids_vec a) then (Split i dir r (fst (split_leaf a p s d n)) b, True)
      else (Split i dir r a (fst (split_leaf b p s d n)), p \<in> set (pane_ids_vec b)))"
  using split_leaf_ok [of a p s d n] split_leaf_ok [of b p s d n] split_leaf_missing [of p a s d n]
  by (auto simp: Let_def split: prod.splits)

lemma mset_split_leaf:
  "p \<in> set (pane_ids_vec t) \<Longrightarrow>
   mset (pane_ids_vec (fst (split_leaf t p s d n))) = add_mset n (mset (pane_ids_vec t))"
  by (induction t) (auto simp: split_leaf_Split simp del: split_leaf.simps(2))

lemma node_wf_split_leaf: "node_wf t \<Longrightarrow> node_wf (fst (split_leaf t p s d n))"
  by (induction t) (auto simp: split_leaf_Split simp del: split_leaf.simps(2))

lemma distinct_split_leaf:
  assumes "distinct (pane_ids_vec t)" and "n \<notin> set (pane_ids_vec t)"
  shows "distinct (pane_ids_vec (fst (split_leaf t p s d n)))"
proof (cases "p \<in> set (pane_ids_vec t)")
  case True
  then show ?thesis
    using assms by (metis mset_split_leaf distinct.simps(2) mset.simps(2) mset_eq_imp_distinct_iff)
next
  case False
  with assms show ?thesis by (simp add: split_leaf_missing)
qed

section \<open>Removing a leaf\<close>

lemma remove_leaf_missing: "p \<notin> set (pane_ids_vec t) \<Longrightarrow> remove_leaf t p = Some t"
  by (induction t) auto

lemma remove_leaf_Stack_cases:
  "p \<in> set ps \<Longrightarrow> remove_leaf (Stack ps e) p =
     (let ps' = filter (\<lambda>q. q \<noteq> p) ps in
      if ps' = [] then None
      else if length ps' = 1 then Some (Leaf (hd ps'))
      else Some (Stack ps' (if e = p then last ps' else e)))"
  by (auto simp: Let_def split: list.splits)

lemma remove_leaf_spec:
  "node_wf t \<Longrightarrow>
   (case remove_leaf t p of
      None \<Rightarrow> filter (\<lambda>q. q \<noteq> p) (pane_ids_vec t) = []
    | Some t' \<Rightarrow> node_wf t' \<and> pane_ids_vec t' = filter (\<lambda>q. q \<noteq> p) (pane_ids_vec t))"
proof (induction t)
  case (Split i d r a b)
  then show ?case
    by (auto split: option.splits)
next
  case (Stack ps e)
  show ?case
  proof (cases "p \<in> set ps")
    case False
    with Stack show ?thesis by (auto intro!: filter_True [symmetric])
  next
    case True
    let ?ps' = "filter (\<lambda>q. q \<noteq> p) ps"
    have "\<exists>x. ?ps' = [x]" if "length ?ps' = 1"
      using that by (metis One_nat_def length_0_conv length_Suc_conv)
    moreover have "last ?ps' \<in> set ?ps'" if "?ps' \<noteq> []"
      using that by (rule last_in_set)
    ultimately show ?thesis
      using Stack True by (auto simp: remove_leaf_Stack_cases Let_def simp del: remove_leaf.simps)
  qed
qed auto

lemma remove_leaf_SomeD:
  "node_wf t \<Longrightarrow> remove_leaf t p = Some t' \<Longrightarrow>
   node_wf t' \<and> pane_ids_vec t' = filter (\<lambda>q. q \<noteq> p) (pane_ids_vec t)"
  using remove_leaf_spec [of t p] by simp

lemma remove_leaf_None_iff:
  assumes "node_wf t"
  shows "remove_leaf t p = None \<longleftrightarrow> set (pane_ids_vec t) = {p}"
proof
  assume "remove_leaf t p = None"
  then have "filter (\<lambda>q. q \<noteq> p) (pane_ids_vec t) = []"
    using remove_leaf_spec [OF assms, of p] by simp
  then show "set (pane_ids_vec t) = {p}"
    using pane_ids_vec_nonempty [OF assms] by (fastforce simp: filter_empty_conv neq_Nil_conv)
next
  assume only: "set (pane_ids_vec t) = {p}"
  show "remove_leaf t p = None"
  proof (rule ccontr)
    assume "remove_leaf t p \<noteq> None"
    then obtain t' where "remove_leaf t p = Some t'" by auto
    then have "node_wf t'" "pane_ids_vec t' = []"
      using remove_leaf_SomeD [OF assms] only by (auto simp: filter_empty_conv)
    then show False using pane_ids_vec_nonempty by blast
  qed
qed

section \<open>Expanding a stack\<close>

lemma expand_missing: "p \<notin> set (pane_ids_vec t) \<Longrightarrow> expand_stack_pane t p = (t, False)"
  by (induction t) auto

lemma pane_ids_expand [simp]: "pane_ids_vec (fst (expand_stack_pane t p)) = pane_ids_vec t"
  by (induction t) (auto simp: Let_def split: prod.splits)

lemma node_wf_expand: "node_wf t \<Longrightarrow> node_wf (fst (expand_stack_pane t p))"
  by (induction t) (auto simp: Let_def split: prod.splits)

lemma expand_unchanged: "\<not> snd (expand_stack_pane t p) \<Longrightarrow> fst (expand_stack_pane t p) = t"
  by (induction t) (auto simp: Let_def split: prod.splits if_splits)

text \<open>Closing a freshly split pane gives the old tree back, with the split pane selected
  in its stack.\<close>

lemma remove_split_leaf:
  assumes "distinct (pane_ids_vec t)" and "n \<notin> set (pane_ids_vec t)" and "p \<in> set (pane_ids_vec t)"
  shows "remove_leaf (fst (split_leaf t p s d n)) n = Some (fst (expand_stack_pane t p))"
  using assms
proof (induction t)
  case (Split i dir r a b)
  have sub: "n \<notin> set (pane_ids_vec a)" "n \<notin> set (pane_ids_vec b)"
    using Split.prems by auto
  show ?case
  proof (cases "p \<in> set (pane_ids_vec a)")
    case True
    then have "p \<notin> set (pane_ids_vec b)" using Split.prems by auto
    with True sub Split.IH(1) Split.prems show ?thesis
      by (auto simp: split_leaf_Split remove_leaf_missing expand_missing Let_def expand_unchanged
          simp del: split_leaf.simps(2) split: prod.splits)
  next
    case False
    with sub Split.IH(2) Split.prems show ?thesis
      by (auto simp: split_leaf_Split remove_leaf_missing expand_missing Let_def
          simp del: split_leaf.simps(2) split: prod.splits)
  qed
qed (auto simp: filter_id_conv)

section \<open>Ratios\<close>

lemma set_split_ratio_ok: "snd (set_split_ratio t i r) \<longleftrightarrow> contains_split t i"
  by (induction t) (auto simp: Let_def split: prod.splits)

lemma set_split_ratio_missing: "\<not> contains_split t i \<Longrightarrow> fst (set_split_ratio t i r) = t"
proof (induction t)
  case (Split j d q a b)
  then show ?case
    using set_split_ratio_ok [of a i r] by (auto simp: Let_def split: prod.splits)
qed auto

lemma set_split_ratio_Split:
  "fst (set_split_ratio (Split j d q a b) i r) =
     (if j = i then Split j d r a b
      else if contains_split a i then Split j d q (fst (set_split_ratio a i r)) b
      else Split j d q a (fst (set_split_ratio b i r)))"
  using set_split_ratio_ok [of a i r] set_split_ratio_missing [of a i r]
  by (auto simp: Let_def split: prod.splits)

lemma split_ratio_None_iff: "split_ratio t i = None \<longleftrightarrow> \<not> contains_split t i"
  by (induction t) (auto split: option.splits)

lemma split_ratio_missing: "\<not> contains_split t i \<Longrightarrow> split_ratio t i = None"
  by (simp add: split_ratio_None_iff)

lemma split_ratio_set:
  "contains_split t i \<Longrightarrow> split_ratio (fst (set_split_ratio t i r)) i = Some r"
  by (induction t)
    (auto simp: set_split_ratio_Split split_ratio_missing simp del: set_split_ratio.simps(2)
      split: option.splits)

lemma contains_split_set [simp]:
  "contains_split (fst (set_split_ratio t i r)) j \<longleftrightarrow> contains_split t j"
  by (induction t) (auto simp: set_split_ratio_Split simp del: set_split_ratio.simps(2))

lemma split_ratio_set_other:
  "j \<noteq> i \<Longrightarrow> split_ratio (fst (set_split_ratio t i r)) j = split_ratio t j"
  by (induction t)
    (auto simp: set_split_ratio_Split simp del: set_split_ratio.simps(2) split: option.splits)

lemma pane_ids_set_split_ratio [simp]:
  "pane_ids_vec (fst (set_split_ratio t i r)) = pane_ids_vec t"
  by (induction t) (auto simp: set_split_ratio_Split simp del: set_split_ratio.simps(2))

lemma node_wf_set_split_ratio: "node_wf t \<Longrightarrow> node_wf (fst (set_split_ratio t i r))"
  by (induction t) (auto simp: set_split_ratio_Split simp del: set_split_ratio.simps(2))

section \<open>The deepest split of a direction\<close>

fun subnodes :: "node \<Rightarrow> node list" where
  "subnodes (Leaf i) = [Leaf i]"
| "subnodes (Split i d r a b) = Split i d r a b # subnodes a @ subnodes b"
| "subnodes (Stack ps e) = [Stack ps e]"

text \<open>\<open>splits_above t p d\<close> says that some split of direction \<open>d\<close> below \<open>t\<close> contains \<open>p\<close>.\<close>

fun splits_above :: "node \<Rightarrow> pane_id \<Rightarrow> split_dir \<Rightarrow> bool" where
  "splits_above (Leaf _) p d = False"
| "splits_above (Stack _ _) p d = False"
| "splits_above (Split i d' r a b) p d =
     ((d' = d \<and> p \<in> set (pane_ids_vec a) \<union> set (pane_ids_vec b))
      \<or> splits_above a p d \<or> splits_above b p d)"

lemma fst_deepest_walk: "fst (deepest_walk t p d) \<longleftrightarrow> p \<in> set (pane_ids_vec t)"
  and snd_deepest_walk_contains: "snd (deepest_walk t p d) \<noteq> None \<Longrightarrow> p \<in> set (pane_ids_vec t)"
proof (induction t)
  case (Split i dir r a b)
  {
    case 1
    show ?case
      using Split by (auto simp: Let_def split: prod.splits)
  next
    case 2
    then show ?case
      using Split by (auto simp: Let_def split: prod.splits if_splits)
  }
qed auto

lemma deepest_walk_None_iff: "snd (deepest_walk t p d) = None \<longleftrightarrow> \<not> splits_above t p d"
proof (induction t)
  case (Split i dir r a b)
  then show ?case
    using fst_deepest_walk [of a p d] fst_deepest_walk [of b p d]
    by (auto simp: Let_def split: prod.splits)
qed auto

lemma subnodes_pane_ids: "s \<in> set (subnodes t) \<Longrightarrow> set (pane_ids_vec s) \<subseteq> set (pane_ids_vec t)"
  by (induction t) auto

lemma deepest_walk_Some:
  "snd (deepest_walk t p d) = Some s \<Longrightarrow>
   \<exists>r a b. Split s d r a b \<in> set (subnodes t) \<and> p \<in> set (pane_ids_vec (Split s d r a b))
     \<and> \<not> splits_above a p d \<and> \<not> splits_above b p d"
proof (induction t)
  case (Split i dir r a b)
  consider (left) "snd (deepest_walk a p d) = Some s"
    | (right) "snd (deepest_walk a p d) = None" "snd (deepest_walk b p d) = Some s"
    | (here) "snd (deepest_walk a p d) = None" "snd (deepest_walk b p d) = None"
        "dir = d" "i = s" "p \<in> set (pane_ids_vec a) \<or> p \<in> set (pane_ids_vec b)"
    using Split.prems fst_deepest_walk [of a p d] fst_deepest_walk [of b p d]
    by (auto simp: Let_def split: prod.splits if_splits)
  then show ?case
  proof cases
    case left
    then show ?thesis using Split.IH(1) by fastforce
  next
    case right
    then show ?thesis using Split.IH(2) by fastforce
  next
    case here
    then show ?thesis by (auto simp: deepest_walk_None_iff)
  qed
qed auto

section \<open>Stack selections across undo\<close>

text \<open>Two trees that differ in their stack selections only.\<close>

fun same_but_expanded :: "node \<Rightarrow> node \<Rightarrow> bool" where
  "same_but_expanded (Leaf i) (Leaf j) = (i = j)"
| "same_but_expanded (Split i d r a b) (Split j d' r' a' b') =
     (i = j \<and> d = d' \<and> r = r' \<and> same_but_expanded a a' \<and> same_but_expanded b b')"
| "same_but_expanded (Stack ps e) (Stack qs f) = (ps = qs)"
| "same_but_expanded _ _ = False"

fun stack_keys :: "node \<Rightarrow> pane_id list set" where
  "stack_keys (Leaf _) = {}"
| "stack_keys (Split _ _ _ a b) = stack_keys a \<union> stack_keys b"
| "stack_keys (Stack ps _) = {sort ps}"

lemma collect_other_key: "k \<notin> stack_keys t \<Longrightarrow> collect_stack_expansions t m k = m k"
  by (induction t arbitrary: m) auto

lemma stack_keys_in:
  "node_wf t \<Longrightarrow> k \<in> stack_keys t \<Longrightarrow> set k \<subseteq> set (pane_ids_vec t) \<and> k \<noteq> []"
proof (induction t)
  case (Stack ps e)
  then show ?case by (metis node_wf.simps(3) order_refl pane_ids_vec_simps(3) set_empty set_sort
        singletonD stack_keys.simps(3))
qed auto

lemma restore_cong:
  "(\<And>k. k \<in> stack_keys t \<Longrightarrow> m k = m' k) \<Longrightarrow>
   restore_stack_expansions t m = restore_stack_expansions t m'"
  by (induction t) auto

lemma stack_keys_same: "same_but_expanded t s \<Longrightarrow> stack_keys s = stack_keys t"
  by (induction t s rule: same_but_expanded.induct) auto

lemma stack_keys_disjoint:
  assumes "node_wf a" "node_wf b" "set (pane_ids_vec a) \<inter> set (pane_ids_vec b) = {}"
    and "k \<in> stack_keys a"
  shows "k \<notin> stack_keys b"
proof
  assume "k \<in> stack_keys b"
  then have "set k \<subseteq> set (pane_ids_vec a) \<inter> set (pane_ids_vec b)" "k \<noteq> []"
    using assms(1,2,4) stack_keys_in [of a k] stack_keys_in [of b k] by auto
  with assms(3) show False by simp
qed

lemma restore_collect:
  "same_but_expanded t s \<Longrightarrow> node_wf t \<Longrightarrow> distinct (pane_ids_vec t) \<Longrightarrow>
   restore_stack_expansions s (collect_stack_expansions t m) = t"
proof (induction t s arbitrary: m rule: same_but_expanded.induct)
  case (2 i d r a b j d' r' a' b')
  let ?m = "collect_stack_expansions a m"
  have "restore_stack_expansions a' (collect_stack_expansions b ?m) = restore_stack_expansions a' ?m"
  proof (rule restore_cong)
    fix k assume "k \<in> stack_keys a'"
    then have "k \<in> stack_keys a"
      using "2.prems" stack_keys_same [of a a'] by auto
    then have "k \<notin> stack_keys b"
      using "2.prems" by (intro stack_keys_disjoint [of a b]) auto
    then show "collect_stack_expansions b ?m k = ?m k"
      by (rule collect_other_key)
  qed
  with 2 show ?case by auto
qed auto

section \<open>Viewport columns\<close>

lemma viewport_column_owner_Some_iff:
  "viewport_column_owner t p vs \<noteq> None \<longleftrightarrow> p \<in> set (pane_ids_vec t)"
  by (induction t p vs rule: viewport_column_owner.induct) auto

section \<open>Properties\<close>

text \<open>C2. Splitting a leaf. When the target pane is in the tree and the new pane is not,
  \<open>split_leaf\<close> succeeds, adds exactly the new pane, keeps the tree well formed and
  its panes distinct, and closing the new pane gives back the old tree, with the split
  pane selected in its stack.\<close>

theorem split_leaf_then_close:
  assumes "node_wf t" and "distinct (pane_ids_vec t)"
    and "p \<in> set (pane_ids_vec t)" and "n \<notin> set (pane_ids_vec t)"
  shows "\<exists>t'. split_leaf t p s d n = (t', True) \<and> node_wf t' \<and> distinct (pane_ids_vec t')
     \<and> mset (pane_ids_vec t') = add_mset n (mset (pane_ids_vec t))
     \<and> remove_leaf t' n = Some (fst (expand_stack_pane t p))"
proof (intro exI conjI)
  show "split_leaf t p s d n = (fst (split_leaf t p s d n), True)"
    using assms(3) split_leaf_ok [of t p s d n] by (simp add: prod_eq_iff)
qed (use assms in \<open>simp_all add: node_wf_split_leaf distinct_split_leaf mset_split_leaf remove_split_leaf\<close>)

theorem split_leaf_then_close_witness:
  "\<exists>t'. split_leaf (Split 9 DirRight half (Leaf 1) (Stack [2, 3] 2)) 3 10 DirDown 4 = (t', True)
     \<and> node_wf t' \<and> distinct (pane_ids_vec t') \<and> mset (pane_ids_vec t') = {#4, 1, 2, 3#}
     \<and> remove_leaf t' 4 = Some (Split 9 DirRight half (Leaf 1) (Stack [2, 3] 3))"
  using split_leaf_then_close [of "Split 9 DirRight half (Leaf 1) (Stack [2, 3] 2)" 3 4 10 DirDown]
  by (simp add: add_mset_commute)

text \<open>Removing a leaf. \<open>remove_leaf\<close> drops exactly the given pane, keeps the order
  of the others and the invariant of the tree, and answers \<open>None\<close> exactly when nothing
  is left; a pane that is not there leaves the tree as it is.\<close>

theorem remove_leaf_keeps_others:
  assumes "node_wf t"
  shows "(remove_leaf t p = None \<longleftrightarrow> set (pane_ids_vec t) = {p})
     \<and> (\<forall>t'. remove_leaf t p = Some t' \<longrightarrow>
          node_wf t' \<and> pane_ids_vec t' = filter (\<lambda>q. q \<noteq> p) (pane_ids_vec t))
     \<and> (p \<notin> set (pane_ids_vec t) \<longrightarrow> remove_leaf t p = Some t)"
  using remove_leaf_None_iff [OF assms] remove_leaf_SomeD [OF assms] remove_leaf_missing by blast

theorem remove_leaf_keeps_others_witness:
  "remove_leaf (Split 9 DirRight half (Leaf 1) (Stack [2, 3] 3)) 3
     = Some (Split 9 DirRight half (Leaf 1) (Leaf 2))
   \<and> pane_ids_vec (Split 9 DirRight half (Leaf 1) (Leaf 2)) = [1, 2]"
  using remove_leaf_keeps_others [of "Split 9 DirRight half (Leaf 1) (Stack [2, 3] 3)" 3] by simp

text \<open>Swapping two panes. \<open>swap_leaves\<close> succeeds exactly for two different panes of
  the tree; it then exchanges the two ids in the pane order and nothing else, and it is
  its own inverse.\<close>

theorem swap_leaves_exchanges:
  "(snd (swap_leaves t p q) \<longleftrightarrow> p \<noteq> q \<and> p \<in> set (pane_ids_vec t) \<and> q \<in> set (pane_ids_vec t))
   \<and> pane_ids_vec (fst (swap_leaves t p q))
       = (if snd (swap_leaves t p q) then map (swap_id p q) (pane_ids_vec t) else pane_ids_vec t)
   \<and> fst (swap_leaves (fst (swap_leaves t p q)) p q) = t"
  by (simp add: swap_leaves_def pane_ids_swap swap_leaf_ids_involutive)

text \<open>C6. The tree invariant. A swap, an expansion and a ratio update of a well-formed tree
  with distinct panes give a well-formed tree with distinct panes.\<close>

theorem updates_preserve_tree:
  assumes "node_wf t" and "distinct (pane_ids_vec t)"
  shows "node_wf (fst (swap_leaves t p q)) \<and> distinct (pane_ids_vec (fst (swap_leaves t p q)))
     \<and> node_wf (fst (expand_stack_pane t p)) \<and> distinct (pane_ids_vec (fst (expand_stack_pane t p)))
     \<and> node_wf (fst (set_split_ratio t s r)) \<and> distinct (pane_ids_vec (fst (set_split_ratio t s r)))"
  using assms
  by (simp add: swap_leaves_def node_wf_swap distinct_swap node_wf_expand node_wf_set_split_ratio)

theorem updates_preserve_tree_witness:
  "node_wf (fst (swap_leaves (Stack [1, 2, 3] 2) 1 2))
     \<and> fst (swap_leaves (Stack [1, 2, 3] 2) 1 2) = Stack [2, 1, 3] 2
     \<and> distinct (pane_ids_vec (fst (expand_stack_pane (Stack [1, 2, 3] 2) 1)))"
  using updates_preserve_tree [of "Stack [1, 2, 3] 2" 1 2 0 half]
  by (simp add: swap_leaves_def swap_id_def)

text \<open>Split ratios. \<open>set_split_ratio\<close> succeeds exactly on a split of the tree; the ratio
  read back is then the new one, every other split keeps its ratio, and the panes and
  the splits of the tree stay.\<close>

theorem set_split_ratio_lookup:
  "(snd (set_split_ratio t s r) \<longleftrightarrow> contains_split t s)
   \<and> split_ratio (fst (set_split_ratio t s r)) j
       = (if j = s \<and> contains_split t s then Some r else split_ratio t j)
   \<and> (split_ratio t j = None \<longleftrightarrow> \<not> contains_split t j)
   \<and> contains_split (fst (set_split_ratio t s r)) j = contains_split t j
   \<and> pane_ids_vec (fst (set_split_ratio t s r)) = pane_ids_vec t"
  by (cases "contains_split t s")
    (auto simp: set_split_ratio_ok split_ratio_set split_ratio_set_other split_ratio_None_iff
      set_split_ratio_missing)

text \<open>The split a keyboard resize moves. \<open>deepest_split_for_pane\<close> finds a split exactly
  when some split of the direction is above the pane, and the split it finds has the
  direction, contains the pane and has no split of the direction between itself and the
  pane.\<close>

theorem deepest_split_for_pane_spec:
  "(deepest_split_for_pane t p d = None \<longleftrightarrow> \<not> splits_above t p d)
   \<and> (\<forall>s. deepest_split_for_pane t p d = Some s \<longrightarrow>
        (\<exists>r a b. Split s d r a b \<in> set (subnodes t) \<and> p \<in> set (pane_ids_vec a @ pane_ids_vec b)
           \<and> \<not> splits_above a p d \<and> \<not> splits_above b p d))"
  using deepest_walk_None_iff [of t p d] deepest_walk_Some [of t p d]
  by (simp add: deepest_split_for_pane_def)

theorem deepest_split_for_pane_spec_witness:
  "deepest_split_for_pane (Split 9 DirRight half (Leaf 1)
      (Split 8 DirDown half (Split 7 DirRight half (Leaf 2) (Leaf 3)) (Leaf 4))) 4 DirRight = Some 9"
proof -
  let ?t = "Split 9 DirRight half (Leaf 1)
      (Split 8 DirDown half (Split 7 DirRight half (Leaf 2) (Leaf 3)) (Leaf 4))"
  have "deepest_split_for_pane ?t 4 DirRight \<noteq> None"
    using deepest_split_for_pane_spec [of ?t 4 DirRight] by simp
  then show ?thesis
    by (simp add: deepest_split_for_pane_def)
qed

text \<open>Undo keeps the selections of the stacks. Restoring into a tree that differs in its
  stack selections only the selections collected from a well-formed tree with distinct
  panes gives that tree back.\<close>

theorem restore_collected_expansions:
  assumes "node_wf t" and "distinct (pane_ids_vec t)" and "same_but_expanded t s"
  shows "restore_stack_expansions s (collect_stack_expansions t Map.empty) = t"
  using assms by (simp add: restore_collect)

theorem restore_collected_expansions_witness:
  "restore_stack_expansions (Split 9 DirRight half (Leaf 1) (Stack [3, 2] 2))
     (collect_stack_expansions (Split 9 DirRight half (Leaf 1) (Stack [3, 2] 3)) Map.empty)
   = Split 9 DirRight half (Leaf 1) (Stack [3, 2] 3)"
  by (rule restore_collected_expansions) simp_all

end
