(* ===== verification/Geometry.thy ===== *)
theory Geometry
  imports SplitTree
begin

text \<open>
  Rectangles, directional focus and their result records
  (\<open>cmux-tui-core/src/layout.rs\<close>, lines 1 to 385). Coordinates keep their width:
  \<open>Rect\<close> is four \<open>u16\<close>s, \<open>VirtualRect\<close> has a \<open>u64\<close> horizontal axis. The four
  neighbor searches share one ordered choice, stated as the locale \<open>strict_weak\<close> and
  interpreted on the orders the code passes to \<open>min_by_key\<close> and \<open>max_by\<close>.
\<close>

record rect =
  rx :: u16
  ry :: u16
  rw :: u16
  rh :: u16

record vrect =
  vx :: u64
  vy :: u16
  vw :: u64
  vh :: u16

definition rect_contains :: "rect \<Rightarrow> u16 \<Rightarrow> u16 \<Rightarrow> bool" where
  "rect_contains r x y = (rx r \<le> x \<and> x < rx r + rw r \<and> ry r \<le> y \<and> y < ry r + rh r)"

definition vrect_contains :: "vrect \<Rightarrow> u64 \<Rightarrow> u16 \<Rightarrow> bool" where
  "vrect_contains r x y =
     (vx r \<le> x \<and> x < sat_add (vx r) (vw r) \<and> vy r \<le> y \<and> y < sat_add (vy r) (vh r))"

definition vrect_from_rect :: "rect \<Rightarrow> vrect" where
  "vrect_from_rect r = \<lparr>vx = ucast (rx r), vy = ry r, vw = ucast (rw r), vh = rh r\<rparr>"

record viewport_column_rect =
  col_owner :: viewport_column
  col_representative :: pane_id
  col_rect :: vrect

record layout_result =
  panes :: "(pane_id \<times> rect) list"
  stacked_headers :: "pane_id set"
  virtual_width :: u16

record viewport_layout_result =
  vpanes :: "(pane_id \<times> vrect) list"
  columns :: "viewport_column_rect list"
  vstacked_headers :: "pane_id set"
  vvirtual_width :: u64

section \<open>Looking a pane up\<close>

definition rect_of :: "layout_result \<Rightarrow> pane_id \<Rightarrow> rect option" where
  "rect_of l pane = map_option snd (List.find (\<lambda>(i, _). i = pane) (panes l))"

definition pane_at :: "layout_result \<Rightarrow> u16 \<Rightarrow> u16 \<Rightarrow> pane_id option" where
  "pane_at l x y = map_option fst (List.find (\<lambda>(_, r). rect_contains r x y) (panes l))"

definition vrect_of :: "viewport_layout_result \<Rightarrow> pane_id \<Rightarrow> vrect option" where
  "vrect_of l pane = map_option snd (List.find (\<lambda>(i, _). i = pane) (vpanes l))"

definition vpane_at :: "viewport_layout_result \<Rightarrow> u64 \<Rightarrow> u16 \<Rightarrow> pane_id option" where
  "vpane_at l x y = map_option fst (List.find (\<lambda>(_, r). vrect_contains r x y) (vpanes l))"

section \<open>Directional scores\<close>

datatype direction = DLeft | DRight | DUp | DDown

record 'v neighbor_score =
  overlap :: 'v
  distance :: 'v

definition direction_from_delta :: "int \<Rightarrow> int \<Rightarrow> direction option" where
  "direction_from_delta dx dy =
     (if dx < 0 then Some DLeft else if 0 < dx then Some DRight
      else if dy < 0 then Some DUp else if 0 < dy then Some DDown else None)"

definition overlap_len :: "'a::len word \<Rightarrow> 'a word \<Rightarrow> 'a word \<Rightarrow> 'a word \<Rightarrow> 'a word" where
  "overlap_len a_start a_len b_start b_len =
     (let start = max a_start b_start;
          stop = min (sat_add a_start a_len) (sat_add b_start b_len)
      in sat_sub stop start)"

text \<open>\<open>(overlap > 0).then_some(...)\<close>.\<close>

definition positive_score :: "'w::len word \<Rightarrow> 'w word \<Rightarrow> 'w word neighbor_score option" where
  "positive_score ov d =
     (if 0 < ov then Some \<lparr>overlap = ov, distance = d\<rparr> else None)"

fun score :: "direction \<Rightarrow> rect \<Rightarrow> rect \<Rightarrow> u16 neighbor_score option" where
  "score DLeft cur cand =
     (let cur_min = rx cur; cand_max = sat_add (rx cand) (rw cand) in
      if cur_min < cand_max then None
      else positive_score (overlap_len (ry cur) (rh cur) (ry cand) (rh cand)) (cur_min - cand_max))"
| "score DRight cur cand =
     (let cur_max = sat_add (rx cur) (rw cur) in
      if rx cand < cur_max then None
      else positive_score (overlap_len (ry cur) (rh cur) (ry cand) (rh cand)) (rx cand - cur_max))"
| "score DUp cur cand =
     (let cur_min = ry cur; cand_max = sat_add (ry cand) (rh cand) in
      if cur_min < cand_max then None
      else positive_score (overlap_len (rx cur) (rw cur) (rx cand) (rw cand)) (cur_min - cand_max))"
| "score DDown cur cand =
     (let cur_max = sat_add (ry cur) (rh cur) in
      if ry cand < cur_max then None
      else positive_score (overlap_len (rx cur) (rw cur) (rx cand) (rw cand)) (ry cand - cur_max))"

fun score_virtual :: "direction \<Rightarrow> vrect \<Rightarrow> vrect \<Rightarrow> u64 neighbor_score option" where
  "score_virtual DLeft cur cand =
     (let cand_max = sat_add (vx cand) (vw cand) in
      if vx cur < cand_max then None
      else positive_score
        (overlap_len (ucast (vy cur)) (ucast (vh cur)) (ucast (vy cand)) (ucast (vh cand)))
        (vx cur - cand_max))"
| "score_virtual DRight cur cand =
     (let cur_max = sat_add (vx cur) (vw cur) in
      if vx cand < cur_max then None
      else positive_score
        (overlap_len (ucast (vy cur)) (ucast (vh cur)) (ucast (vy cand)) (ucast (vh cand)))
        (vx cand - cur_max))"
| "score_virtual DUp cur cand =
     (let cur_min = ucast (vy cur); cand_max = sat_add (ucast (vy cand)) (ucast (vh cand)) in
      if cur_min < cand_max then None
      else positive_score (overlap_len (vx cur) (vw cur) (vx cand) (vw cand)) (cur_min - cand_max))"
| "score_virtual DDown cur cand =
     (let cur_max = sat_add (ucast (vy cur)) (ucast (vh cur)); cand_min = ucast (vy cand) in
      if cand_min < cur_max then None
      else positive_score (overlap_len (vx cur) (vw cur) (vx cand) (vw cand)) (cand_min - cur_max))"

section \<open>Choosing a neighbor\<close>

text \<open>The iterator pipeline of all four searches: enumerate the panes, drop the current
  one and the empty ones, keep those the scorer accepts.\<close>

definition candidates ::
    "(pane_id \<times> 'r) list \<Rightarrow> pane_id \<Rightarrow> ('r \<Rightarrow> bool) \<Rightarrow> ('r \<Rightarrow> 's option)
     \<Rightarrow> (nat \<times> pane_id \<times> 's) list" where
  "candidates ps from visible scorer =
     List.map_filter
       (\<lambda>(order, i, r). if i \<noteq> from \<and> visible r
          then map_option (\<lambda>s. (order, i, s)) (scorer r) else None)
       (enumerate 0 ps)"

text \<open>\<open>min_by_key (Reverse overlap, distance, order)\<close> and the \<open>max_by\<close> of the recency
  searches: recency first, then the smaller index.\<close>

definition score_lt ::
    "nat \<times> pane_id \<times> 'w::len word neighbor_score \<Rightarrow> nat \<times> pane_id \<times> 'w word neighbor_score \<Rightarrow> bool" where
  "score_lt a b =
     (case (a, b) of ((o1, _, s1), (o2, _, s2)) \<Rightarrow>
        overlap s2 < overlap s1 \<or>
        overlap s1 = overlap s2 \<and>
          (distance s1 < distance s2 \<or> distance s1 = distance s2 \<and> o1 < o2))"

definition recency_lt :: "'r::linorder \<times> nat \<times> pane_id \<Rightarrow> 'r \<times> nat \<times> pane_id \<Rightarrow> bool" where
  "recency_lt a b =
     (case (a, b) of ((r1, o1, _), (r2, o2, _)) \<Rightarrow> r1 < r2 \<or> r1 = r2 \<and> o2 < o1)"

definition rect_visible :: "rect \<Rightarrow> bool" where
  "rect_visible r = (0 < rw r \<and> 0 < rh r)"

definition vrect_visible :: "vrect \<Rightarrow> bool" where
  "vrect_visible r = (0 < vw r \<and> 0 < vh r)"

definition find_pane :: "(pane_id \<times> 'r) list \<Rightarrow> pane_id \<Rightarrow> 'r option" where
  "find_pane ps pane = map_option snd (List.find (\<lambda>(i, _). i = pane) ps)"

definition directional_neighbor ::
    "(pane_id \<times> rect) list \<Rightarrow> pane_id \<Rightarrow> int \<Rightarrow> int \<Rightarrow> pane_id option" where
  "directional_neighbor ps from dx dy =
     (case find_pane ps from of None \<Rightarrow> None | Some cur \<Rightarrow>
      (case (if dx < 0 then Some DLeft else if 0 < dx then Some DRight
             else if dy < 0 then Some DUp else if 0 < dy then Some DDown else None) of
         None \<Rightarrow> None
       | Some dir \<Rightarrow>
           map_option (\<lambda>(_, i, _). i)
             (min_by score_lt (candidates ps from rect_visible (score dir cur)))))"

text \<open>\<open>filter (distance == 0 && overlap > 0)\<close> of the recency searches.\<close>

definition touching :: "'w::len word neighbor_score option \<Rightarrow> 'w word neighbor_score option" where
  "touching s = (case s of None \<Rightarrow> None
     | Some sc \<Rightarrow> if distance sc = 0 \<and> 0 < overlap sc then Some sc else None)"

definition directional_neighbor_by_recency ::
    "(pane_id \<times> rect) list \<Rightarrow> pane_id \<Rightarrow> int \<Rightarrow> int \<Rightarrow> (pane_id \<Rightarrow> 'r::linorder) \<Rightarrow> pane_id option"
where
  "directional_neighbor_by_recency ps from dx dy recency =
     (case find_pane ps from of None \<Rightarrow> None | Some cur \<Rightarrow>
      (case direction_from_delta dx dy of None \<Rightarrow> None | Some dir \<Rightarrow>
         map_option (\<lambda>(_, _, i). i)
           (max_by recency_lt
             (map (\<lambda>(order, i, _). (recency i, order, i))
               (candidates ps from rect_visible (\<lambda>r. touching (score dir cur r)))))))"

definition virtual_directional_neighbor ::
    "(pane_id \<times> vrect) list \<Rightarrow> pane_id \<Rightarrow> int \<Rightarrow> int \<Rightarrow> pane_id option" where
  "virtual_directional_neighbor ps from dx dy =
     (case find_pane ps from of None \<Rightarrow> None | Some cur \<Rightarrow>
      (case direction_from_delta dx dy of None \<Rightarrow> None | Some dir \<Rightarrow>
         map_option (\<lambda>(_, i, _). i)
           (min_by score_lt (candidates ps from vrect_visible (score_virtual dir cur)))))"

definition virtual_directional_neighbor_by_recency ::
    "(pane_id \<times> vrect) list \<Rightarrow> pane_id \<Rightarrow> int \<Rightarrow> int \<Rightarrow> (pane_id \<Rightarrow> 'r::linorder) \<Rightarrow> pane_id option"
where
  "virtual_directional_neighbor_by_recency ps from dx dy recency =
     (case find_pane ps from of None \<Rightarrow> None | Some cur \<Rightarrow>
      (case direction_from_delta dx dy of None \<Rightarrow> None | Some dir \<Rightarrow>
         map_option (\<lambda>(_, _, i). i)
           (max_by recency_lt
             (map (\<lambda>(order, i, _). (recency i, order, i))
               (candidates ps from vrect_visible (\<lambda>r. touching (score_virtual dir cur r)))))))"

section \<open>The ordered choice\<close>

locale strict_weak =
  fixes lt :: "'a \<Rightarrow> 'a \<Rightarrow> bool"
  assumes irrefl: "\<not> lt x x"
    and neg_trans: "\<not> lt x y \<Longrightarrow> \<not> lt y z \<Longrightarrow> \<not> lt x z"
    and asym: "lt x y \<Longrightarrow> \<not> lt y x"
begin

lemma fold_min:
  "fold (\<lambda>y best. if lt y best then y else best) xs x \<in> insert x (set xs) \<and>
   (\<forall>y \<in> insert x (set xs). \<not> lt y (fold (\<lambda>y best. if lt y best then y else best) xs x))"
proof (induction xs arbitrary: x)
  case Nil
  then show ?case by (simp add: irrefl)
next
  case (Cons y ys)
  let ?x = "if lt y x then y else x"
  let ?m = "fold (\<lambda>y best. if lt y best then y else best) ys ?x"
  have m: "?m \<in> insert ?x (set ys)" "\<forall>z \<in> insert ?x (set ys). \<not> lt z ?m"
    using Cons.IH [of ?x] by blast+
  have x: "\<not> lt x ?x" and y: "\<not> lt y ?x"
    by (simp_all add: irrefl asym)
  have xm: "\<not> lt ?x ?m" using m(2) by simp
  note neg_trans [OF x xm] neg_trans [OF y xm]
  moreover have "fold (\<lambda>y best. if lt y best then y else best) (y # ys) x = ?m" by simp
  ultimately show ?case
    using m by (auto split: if_splits)
qed

lemma min_by_least:
  "min_by lt xs = Some m \<Longrightarrow> m \<in> set xs \<and> (\<forall>y \<in> set xs. \<not> lt y m)"
  by (cases xs) (use fold_min in auto)

lemma fold_max:
  "fold (\<lambda>y best. if lt y best then best else y) xs x \<in> insert x (set xs) \<and>
   (\<forall>y \<in> insert x (set xs). \<not> lt (fold (\<lambda>y best. if lt y best then best else y) xs x) y)"
proof (induction xs arbitrary: x)
  case Nil
  then show ?case by (simp add: irrefl)
next
  case (Cons y ys)
  let ?x = "if lt y x then x else y"
  let ?m = "fold (\<lambda>y best. if lt y best then best else y) ys ?x"
  have m: "?m \<in> insert ?x (set ys)" "\<forall>z \<in> insert ?x (set ys). \<not> lt ?m z"
    using Cons.IH [of ?x] by blast+
  have x: "\<not> lt ?x x" and y: "\<not> lt ?x y"
    by (simp_all add: irrefl asym)
  have mx: "\<not> lt ?m ?x" using m(2) by simp
  note neg_trans [OF mx x] neg_trans [OF mx y]
  moreover have "fold (\<lambda>y best. if lt y best then best else y) (y # ys) x = ?m" by simp
  ultimately show ?case
    using m by (auto split: if_splits)
qed

lemma max_by_greatest:
  "max_by lt xs = Some m \<Longrightarrow> m \<in> set xs \<and> (\<forall>y \<in> set xs. \<not> lt m y)"
  by (cases xs) (use fold_max in auto)

end

interpretation by_score: strict_weak score_lt
  by unfold_locales (auto simp: score_lt_def split: prod.splits)

interpretation by_recency: strict_weak recency_lt
  by unfold_locales (auto simp: recency_lt_def split: prod.splits)

section \<open>What a neighbor is\<close>

lemma map_filter_iff: "y \<in> set (List.map_filter f xs) \<longleftrightarrow> (\<exists>x \<in> set xs. f x = Some y)"
  by (force simp: List.map_filter_def)

lemma candidates_iff:
  "(k, i, s) \<in> set (candidates ps from vis sc) \<longleftrightarrow>
   k < length ps \<and> fst (ps ! k) = i \<and> i \<noteq> from \<and> vis (snd (ps ! k)) \<and> sc (snd (ps ! k)) = Some s"
  (is "?l \<longleftrightarrow> ?r")
proof
  assume ?l
  then show ?r
    by (auto simp: candidates_def map_filter_iff in_set_enumerate_eq split: if_splits)
next
  assume ?r
  then have "(k, ps ! k) \<in> set (enumerate 0 ps)"
    by (simp add: in_set_enumerate_eq)
  with \<open>?r\<close> show ?l
    unfolding candidates_def map_filter_iff
    by (cases "ps ! k") (auto intro!: bexI [of _ "(k, ps ! k)"])
qed

text \<open>What the two chosen entries are, independent of the scorer.\<close>

definition eligible ::
    "(pane_id \<times> 'r) list \<Rightarrow> pane_id \<Rightarrow> ('r \<Rightarrow> bool) \<Rightarrow> ('r \<Rightarrow> 's option) \<Rightarrow> nat \<Rightarrow> 's \<Rightarrow> bool" where
  "eligible ps from vis sc k s \<longleftrightarrow>
     k < length ps \<and> fst (ps ! k) \<noteq> from \<and> vis (snd (ps ! k)) \<and> sc (snd (ps ! k)) = Some s"

lemma candidates_eligible:
  "(k, i, s) \<in> set (candidates ps from vis sc) \<longleftrightarrow> eligible ps from vis sc k s \<and> i = fst (ps ! k)"
  by (auto simp: candidates_iff eligible_def)

lemma candidates_empty_iff:
  "candidates ps from vis sc = [] \<longleftrightarrow> (\<forall>k s. \<not> eligible ps from vis sc k s)"
proof
  assume "candidates ps from vis sc = []"
  then show "\<forall>k s. \<not> eligible ps from vis sc k s"
    using candidates_eligible [of _ _ _ ps "from" vis sc] by fastforce
next
  assume none: "\<forall>k s. \<not> eligible ps from vis sc k s"
  show "candidates ps from vis sc = []"
  proof (rule ccontr)
    assume "candidates ps from vis sc \<noteq> []"
    then obtain c where "c \<in> set (candidates ps from vis sc)"
      by (cases "candidates ps from vis sc") auto
    with none show False
      by (cases c) (simp add: candidates_eligible)
  qed
qed

lemma best_scored:
  assumes "map_option (\<lambda>(_, i, _). i) (min_by score_lt (candidates ps from vis sc)) = Some q"
  shows "\<exists>k s. eligible ps from vis sc k s \<and> fst (ps ! k) = q \<and>
    (\<forall>j s'. eligible ps from vis sc j s' \<longrightarrow>
      overlap s' < overlap s \<or> overlap s' = overlap s \<and>
        (distance s < distance s' \<or> distance s = distance s' \<and> k \<le> j))"
proof -
  obtain k s where m: "min_by score_lt (candidates ps from vis sc) = Some (k, q, s)"
    using assms by auto
  note best = by_score.min_by_least [OF m]
  have "overlap s' < overlap s \<or> overlap s' = overlap s \<and>
        (distance s < distance s' \<or> distance s = distance s' \<and> k \<le> j)"
    if "eligible ps from vis sc j s'" for j s'
  proof -
    have "(j, fst (ps ! j), s') \<in> set (candidates ps from vis sc)"
      using that by (simp add: candidates_eligible)
    then have "\<not> score_lt (j, fst (ps ! j), s') (k, q, s)" using best by blast
    then show ?thesis by (auto simp: score_lt_def not_less)
  qed
  moreover have "eligible ps from vis sc k s" "fst (ps ! k) = q"
    using best by (simp_all add: candidates_eligible)
  ultimately show ?thesis by blast
qed

lemma most_recent_candidate:
  fixes recency :: "pane_id \<Rightarrow> 'r::linorder"
  assumes "map_option (\<lambda>(_, _, i). i)
      (max_by recency_lt (map (\<lambda>(order, i, _). (recency i, order, i)) (candidates ps from vis sc))) = Some q"
  shows "\<exists>k s. eligible ps from vis sc k s \<and> fst (ps ! k) = q \<and>
    (\<forall>j s'. eligible ps from vis sc j s' \<longrightarrow>
      recency (fst (ps ! j)) < recency q \<or> recency (fst (ps ! j)) = recency q \<and> k \<le> j)"
proof -
  let ?cs = "map (\<lambda>(order, i, _). (recency i, order, i)) (candidates ps from vis sc)"
  obtain r k where m: "max_by recency_lt ?cs = Some (r, k, q)"
    using assms by auto
  note best = by_recency.max_by_greatest [OF m]
  from best obtain s where s: "(k, q, s) \<in> set (candidates ps from vis sc)" "r = recency q"
    by auto
  have "recency (fst (ps ! j)) < recency q \<or> recency (fst (ps ! j)) = recency q \<and> k \<le> j"
    if "eligible ps from vis sc j s'" for j s'
  proof -
    have "(j, fst (ps ! j), s') \<in> set (candidates ps from vis sc)"
      using that by (simp add: candidates_eligible)
    then have "(recency (fst (ps ! j)), j, fst (ps ! j)) \<in> set ?cs" by force
    then have "\<not> recency_lt (r, k, q) (recency (fst (ps ! j)), j, fst (ps ! j))" using best by blast
    then show ?thesis using s(2) by (auto simp: recency_lt_def not_less)
  qed
  with s(1) show ?thesis by (auto simp: candidates_eligible)
qed

section \<open>Panes as sets of lines\<close>

text \<open>The geometry that focus is about, without the code's arithmetic: a rectangle covers a
  range of columns and a range of rows, cut off at the last coordinate.\<close>

definition span :: "u16 \<Rightarrow> u16 \<Rightarrow> nat set" where
  "span start len = {unat start ..< min (unat start + unat len) 65535}"

definition span_end :: "u16 \<Rightarrow> u16 \<Rightarrow> nat" where
  "span_end start len = min (unat start + unat len) 65535"

text \<open>In direction \<open>dir\<close> of \<open>cur\<close>, how many lines lie between the two (nothing when \<open>cand\<close>
  is not entirely on that side), and how many lines they share across it.\<close>

fun gap_towards :: "direction \<Rightarrow> rect \<Rightarrow> rect \<Rightarrow> nat option" where
  "gap_towards DLeft cur cand =
     (if span_end (rx cand) (rw cand) \<le> unat (rx cur) then Some (unat (rx cur) - span_end (rx cand) (rw cand)) else None)"
| "gap_towards DRight cur cand =
     (if span_end (rx cur) (rw cur) \<le> unat (rx cand) then Some (unat (rx cand) - span_end (rx cur) (rw cur)) else None)"
| "gap_towards DUp cur cand =
     (if span_end (ry cand) (rh cand) \<le> unat (ry cur) then Some (unat (ry cur) - span_end (ry cand) (rh cand)) else None)"
| "gap_towards DDown cur cand =
     (if span_end (ry cur) (rh cur) \<le> unat (ry cand) then Some (unat (ry cand) - span_end (ry cur) (rh cur)) else None)"

definition shared_lines :: "direction \<Rightarrow> rect \<Rightarrow> rect \<Rightarrow> nat" where
  "shared_lines dir cur cand =
     (if dir = DLeft \<or> dir = DRight then card (span (ry cur) (rh cur) \<inter> span (ry cand) (rh cand))
      else card (span (rx cur) (rw cur) \<inter> span (rx cand) (rw cand)))"

definition towards :: "int \<Rightarrow> int \<Rightarrow> direction \<Rightarrow> bool" where
  "towards dx dy dir =
     (dir = DLeft \<and> dx < 0 \<or> dir = DRight \<and> 0 < dx
      \<or> dir = DUp \<and> dx = 0 \<and> dy < 0 \<or> dir = DDown \<and> dx = 0 \<and> 0 < dy)"

text \<open>A pane one can move to, at gap \<open>g\<close> and sharing \<open>n\<close> lines.\<close>

definition reachable_pane ::
    "(pane_id \<times> rect) list \<Rightarrow> pane_id \<Rightarrow> direction \<Rightarrow> rect \<Rightarrow> nat \<Rightarrow> nat \<Rightarrow> nat \<Rightarrow> bool" where
  "reachable_pane ps from dir cur k n g =
     (k < length ps \<and> fst (ps ! k) \<noteq> from \<and> 0 < unat (rw (snd (ps ! k))) \<and> 0 < unat (rh (snd (ps ! k)))
      \<and> gap_towards dir cur (snd (ps ! k)) = Some g \<and> n = shared_lines dir cur (snd (ps ! k)) \<and> 0 < n)"

lemma card_span_inter:
  "card (span a la \<inter> span b lb) = min (span_end a la) (span_end b lb) - max (unat a) (unat b)"
  by (simp add: span_def span_end_def Int_atLeastLessThan)

lemma unat_span_end: "unat (sat_add a b :: u16) = span_end a b"
  by (simp add: unat_sat_add span_end_def)

lemma unat_overlap_len: "unat (overlap_len a la b lb :: u16) = card (span a la \<inter> span b lb)"
  by (simp add: overlap_len_def Let_def card_span_inter unat_rules unat_span_end [symmetric])

lemma unat_positive: "0 < (w :: u16) \<longleftrightarrow> 0 < unat w"
  by (simp add: word_less_nat_alt)

text \<open>The code's score is this geometry.\<close>

lemma unat_u16_less: "unat (w :: u16) < 65536"
proof -
  have "unat w < 2 ^ LENGTH(16)"
    by (rule unsigned_less)
  then show ?thesis
    by simp
qed

lemma unat_eq_iff_word: "unat v = unat w \<longleftrightarrow> v = (w :: u16)"
  by (rule word_unat_eq_iff [symmetric])

lemma positive_score_Some:
  "positive_score (ov :: u16) d = Some s \<longleftrightarrow>
     unat (overlap s) = unat ov \<and> unat (distance s) = unat d \<and> 0 < unat (overlap s)"
proof (cases s)
  case (fields ov' d')
  then show ?thesis
    unfolding positive_score_def unat_positive by (auto simp: unat_eq_iff_word)
qed

lemma score_geometry:
  "score dir cur cand = Some s \<longleftrightarrow>
     gap_towards dir cur cand = Some (unat (distance s)) \<and> unat (overlap s) = shared_lines dir cur cand
     \<and> 0 < unat (overlap s)"
  by (cases dir)
    (auto simp: Let_def positive_score_Some shared_lines_def unat_overlap_len
      word_less_nat_alt unat_span_end unat_sub word_le_nat_alt)

lemma find_pane_map_of: "find_pane ps pane = map_of ps pane"
  by (induction ps) (auto simp: find_pane_def)

lemma direction_from_delta_towards: "direction_from_delta dx dy = Some dir \<longleftrightarrow> towards dx dy dir"
  by (auto simp: direction_from_delta_def towards_def)

lemma eligible_reachable:
  "eligible ps from rect_visible (score dir cur) k s \<longleftrightarrow>
     reachable_pane ps from dir cur k (unat (overlap s)) (unat (distance s))"
  by (auto simp: eligible_def reachable_pane_def rect_visible_def score_geometry unat_positive)

lemma reachable_eligible:
  assumes "reachable_pane ps from dir cur k n g"
  obtains s where "eligible ps from rect_visible (score dir cur) k s" "unat (overlap s) = n" "unat (distance s) = g"
proof -
  let ?r = "snd (ps ! k)"
  have gap: "gap_towards dir cur ?r = Some g" and n: "n = shared_lines dir cur ?r"
    using assms by (auto simp: reachable_pane_def)
  have "g < 65536"
    using gap unat_u16_less [of "rx cur"] unat_u16_less [of "rx ?r"] unat_u16_less [of "ry cur"] unat_u16_less [of "ry ?r"]
    by (cases dir) (auto split: if_splits)
  moreover have "n < 65536"
    unfolding n shared_lines_def
    using unat_u16_less [of "overlap_len (ry cur) (rh cur) (ry ?r) (rh ?r)"]
      unat_u16_less [of "overlap_len (rx cur) (rw cur) (rx ?r) (rw ?r)"]
    by (simp add: unat_overlap_len)
  ultimately have s: "unat (word_of_nat n :: u16) = n" "unat (word_of_nat g :: u16) = g"
    by (simp_all add: unat_word_of_nat_small)
  show ?thesis
    by (rule that [of "\<lparr>overlap = word_of_nat n, distance = word_of_nat g\<rparr>"])
      (use assms s in \<open>simp_all add: eligible_reachable\<close>)
qed

abbreviation (input) is_best ::
    "(pane_id \<times> rect) list \<Rightarrow> pane_id \<Rightarrow> direction \<Rightarrow> rect \<Rightarrow> nat \<Rightarrow> nat \<Rightarrow> nat \<Rightarrow> bool" where
  "is_best ps from dir cur k n g \<equiv> \<forall>j n' g'. reachable_pane ps from dir cur j n' g' \<longrightarrow>
      n' < n \<or> n' = n \<and> (g < g' \<or> g = g' \<and> k \<le> j)"

lemma is_best_unique:
  assumes "reachable_pane ps from dir cur k n g" and "is_best ps from dir cur k n g"
    and "reachable_pane ps from dir cur k' n' g'" and "is_best ps from dir cur k' n' g'"
  shows "k = k'"
  using assms by (metis le_antisym less_asym less_irrefl)

text \<open>What the scores choose, in terms of the geometry.\<close>

lemma chosen_is_best:
  assumes "map_option (\<lambda>(_, i, _). i) (min_by score_lt (candidates ps from rect_visible (score dir cur))) = Some p"
  shows "\<exists>k n g. reachable_pane ps from dir cur k n g \<and> fst (ps ! k) = p \<and> is_best ps from dir cur k n g"
proof -
  let ?el = "eligible ps from rect_visible (score dir cur)"
  obtain k s where k: "?el k s" "fst (ps ! k) = p"
    and best: "\<forall>j s'. ?el j s' \<longrightarrow> overlap s' < overlap s \<or> overlap s' = overlap s \<and>
        (distance s < distance s' \<or> distance s = distance s' \<and> k \<le> j)"
    using best_scored [OF assms] by blast
  have "is_best ps from dir cur k (unat (overlap s)) (unat (distance s))"
  proof (intro allI impI)
    fix j n' g'
    assume "reachable_pane ps from dir cur j n' g'"
    then obtain s' where "?el j s'" "unat (overlap s') = n'" "unat (distance s') = g'"
      by (rule reachable_eligible)
    then show "n' < unat (overlap s) \<or> n' = unat (overlap s) \<and>
        (unat (distance s) < g' \<or> unat (distance s) = g' \<and> k \<le> j)"
      using best unfolding word_less_nat_alt by (metis (no_types, opaque_lifting))
  qed
  then show ?thesis
    using k by (auto simp: eligible_reachable)
qed

lemma neighbor_towards:
  assumes cur: "map_of ps from = Some cur" and dir: "towards dx dy dir"
  shows "directional_neighbor ps from dx dy = None \<longleftrightarrow> \<not> (\<exists>k n g. reachable_pane ps from dir cur k n g)"
    and "directional_neighbor ps from dx dy = Some q \<longleftrightarrow>
      (\<exists>k n g. reachable_pane ps from dir cur k n g \<and> fst (ps ! k) = q \<and> is_best ps from dir cur k n g)"
proof -
  have n: "directional_neighbor ps from dx dy =
      map_option (\<lambda>(_, i, _). i) (min_by score_lt (candidates ps from rect_visible (score dir cur)))"
    using cur dir [folded direction_from_delta_towards]
    by (simp add: directional_neighbor_def direction_from_delta_def find_pane_map_of)
  note some = chosen_is_best [of ps "from" dir cur, folded n]
  show none: "directional_neighbor ps from dx dy = None \<longleftrightarrow> \<not> (\<exists>k n g. reachable_pane ps from dir cur k n g)"
    unfolding n using reachable_eligible eligible_reachable by (simp add: candidates_empty_iff) metis
  show "directional_neighbor ps from dx dy = Some q \<longleftrightarrow>
      (\<exists>k n g. reachable_pane ps from dir cur k n g \<and> fst (ps ! k) = q \<and> is_best ps from dir cur k n g)"
  proof
    assume "\<exists>k n g. reachable_pane ps from dir cur k n g \<and> fst (ps ! k) = q \<and> is_best ps from dir cur k n g"
    then obtain k n g where k: "reachable_pane ps from dir cur k n g" "fst (ps ! k) = q" "is_best ps from dir cur k n g"
      by (elim exE conjE)
    then obtain p where p: "directional_neighbor ps from dx dy = Some p"
      using none by blast
    obtain k' n' g' where k': "reachable_pane ps from dir cur k' n' g'" "fst (ps ! k') = p" "is_best ps from dir cur k' n' g'"
      using some [OF p] by (elim exE conjE)
    from is_best_unique [OF k(1,3) k'(1,3)] show "directional_neighbor ps from dx dy = Some q"
      using p k(2) k'(2) by simp
  qed (rule some)
qed

section \<open>Properties\<close>

text \<open>C5. Directional focus. Moving by \<open>(dx, dy)\<close> from a pane goes to \<open>q\<close> exactly when \<open>q\<close> is the best
  reachable pane in that direction: another non-empty rectangle entirely on that side (left of the
  current one for \<open>dx < 0\<close>, right for \<open>dx > 0\<close>, above or below for a vertical move) that shares rows, or
  columns for a vertical move, with the current pane; the best shares the most lines, then has the
  smallest gap, then comes first. There is no neighbor exactly when the pane is unknown, the delta is
  zero or no pane is reachable. Lines are counted as sets of coordinates.\<close>

theorem directional_neighbor_best:
  "(directional_neighbor ps from dx dy = Some q \<longleftrightarrow>
     (\<exists>cur dir k n g. map_of ps from = Some cur \<and> towards dx dy dir
        \<and> reachable_pane ps from dir cur k n g \<and> fst (ps ! k) = q
        \<and> (\<forall>j n' g'. reachable_pane ps from dir cur j n' g' \<longrightarrow>
             n' < n \<or> n' = n \<and> (g < g' \<or> g = g' \<and> k \<le> j))))
   \<and> (directional_neighbor ps from dx dy = None \<longleftrightarrow>
        \<not> (\<exists>cur dir k n g. map_of ps from = Some cur \<and> towards dx dy dir \<and> reachable_pane ps from dir cur k n g))"
proof (cases "\<exists>cur dir. map_of ps from = Some cur \<and> towards dx dy dir")
  case False
  then have "directional_neighbor ps from dx dy = None"
    unfolding direction_from_delta_towards [symmetric] find_pane_map_of [symmetric]
    by (auto simp: directional_neighbor_def direction_from_delta_def split: option.splits)
  with False show ?thesis by fastforce
next
  case True
  then obtain cur dir where cur: "map_of ps from = Some cur" and dir: "towards dx dy dir"
    by blast
  have "cur' = cur \<and> dir' = dir" if "map_of ps from = Some cur'" "towards dx dy dir'" for cur' dir'
    using that cur dir by (auto simp: towards_def)
  then have fixed: "(\<exists>cur' dir' k n g. map_of ps from = Some cur' \<and> towards dx dy dir' \<and> R cur' dir' k n g)
      \<longleftrightarrow> (\<exists>k n g. R cur dir k n g)" for R
    using cur dir by blast
  show ?thesis
    unfolding fixed using neighbor_towards [OF cur dir] by (intro conjI)
qed

theorem directional_neighbor_best_witness:
  "directional_neighbor
     [(1, \<lparr>rx = 0, ry = 0, rw = 5, rh = 4\<rparr>), (2, \<lparr>rx = 5, ry = 0, rw = 5, rh = 4\<rparr>)] 1 1 0 = Some 2"
proof -
  let ?ps = "[(1, \<lparr>rx = 0, ry = 0, rw = 5, rh = 4\<rparr>), (2, \<lparr>rx = 5, ry = 0, rw = 5, rh = 4\<rparr>)]
    :: (pane_id \<times> rect) list"
  have "reachable_pane ?ps 1 DRight \<lparr>rx = 0, ry = 0, rw = 5, rh = 4\<rparr> 1 4 0"
    by (simp add: reachable_pane_def span_end_def shared_lines_def span_def)
  moreover have "j = 1 \<and> n' = 4 \<and> g' = 0"
    if "reachable_pane ?ps 1 DRight \<lparr>rx = 0, ry = 0, rw = 5, rh = 4\<rparr> j n' g'" for j n' g'
    using that by (cases j) (auto simp: reachable_pane_def span_end_def shared_lines_def span_def less_Suc_eq)
  ultimately have best: "reachable_pane ?ps 1 DRight \<lparr>rx = 0, ry = 0, rw = 5, rh = 4\<rparr> 1 4 0 \<and> fst (?ps ! 1) = 2
      \<and> (\<forall>j n' g'. reachable_pane ?ps 1 DRight \<lparr>rx = 0, ry = 0, rw = 5, rh = 4\<rparr> j n' g' \<longrightarrow>
             n' < 4 \<or> n' = 4 \<and> (0 < g' \<or> 0 = g' \<and> 1 \<le> j))"
    by (intro conjI) (assumption, simp, blast)
  have "\<exists>cur dir k n g. map_of ?ps 1 = Some cur \<and> towards 1 0 dir
        \<and> reachable_pane ?ps 1 dir cur k n g \<and> fst (?ps ! k) = 2
        \<and> (\<forall>j n' g'. reachable_pane ?ps 1 dir cur j n' g' \<longrightarrow>
             n' < n \<or> n' = n \<and> (g < g' \<or> g = g' \<and> k \<le> j))"
    by (rule exI [of _ "\<lparr>rx = 0, ry = 0, rw = 5, rh = 4\<rparr>"], rule exI [of _ DRight], rule exI [of _ 1],
        rule exI [of _ 4], rule exI [of _ 0]) (use best in \<open>auto simp: towards_def\<close>)
  then show ?thesis
    using directional_neighbor_best [of ?ps 1 1 0 2] by blast
qed

text \<open>Directional focus by recency. The neighbor found on the virtual surface touches
  the current pane (distance zero, positive overlap), no touching pane was focused more
  recently, and ties go to the first pane; none is found exactly when no pane touches.\<close>

theorem virtual_neighbor_by_recency_most_recent:
  fixes recency :: "pane_id \<Rightarrow> 'r::linorder"
  shows "find_pane ps from = Some cur \<Longrightarrow> direction_from_delta dx dy = Some dir \<Longrightarrow>
   (\<forall>q. virtual_directional_neighbor_by_recency ps from dx dy recency = Some q \<longrightarrow>
      (\<exists>k s. eligible ps from vrect_visible (score_virtual dir cur) k s \<and> fst (ps ! k) = q
        \<and> distance s = 0 \<and> 0 < overlap s
        \<and> (\<forall>j s'. eligible ps from vrect_visible (\<lambda>r. touching (score_virtual dir cur r)) j s' \<longrightarrow>
             recency (fst (ps ! j)) < recency q \<or> recency (fst (ps ! j)) = recency q \<and> k \<le> j)))
   \<and> (virtual_directional_neighbor_by_recency ps from dx dy recency = None \<longleftrightarrow>
        (\<forall>k s. \<not> eligible ps from vrect_visible (\<lambda>r. touching (score_virtual dir cur r)) k s))"
  (is "_ \<Longrightarrow> _ \<Longrightarrow> (\<forall>q. ?n = Some q \<longrightarrow> ?P q) \<and> (_ \<longleftrightarrow> ?N)")
proof -
  assume cur: "find_pane ps from = Some cur" and dir: "direction_from_delta dx dy = Some dir"
  let ?sc = "\<lambda>r. touching (score_virtual dir cur r)"
  have n: "?n = map_option (\<lambda>(_, _, i). i) (max_by recency_lt
      (map (\<lambda>(order, i, _). (recency i, order, i)) (candidates ps from vrect_visible ?sc)))"
    using cur dir by (simp add: virtual_directional_neighbor_by_recency_def)
  have touch: "eligible ps from vrect_visible (score_virtual dir cur) k s \<and> distance s = 0 \<and> 0 < overlap s"
    if "eligible ps from vrect_visible ?sc k s" for k s
    using that by (auto simp: eligible_def touching_def split: option.splits if_splits)
  have "?P q" if "?n = Some q" for q
  proof -
    from most_recent_candidate [OF that [unfolded n]] obtain k s where
      k: "eligible ps from vrect_visible ?sc k s" "fst (ps ! k) = q"
        "\<forall>j s'. eligible ps from vrect_visible ?sc j s' \<longrightarrow>
          recency (fst (ps ! j)) < recency q \<or> recency (fst (ps ! j)) = recency q \<and> k \<le> j"
      by blast
    with touch [OF k(1)] show ?thesis by blast
  qed
  moreover have "?n = None \<longleftrightarrow> ?N"
    by (simp add: n candidates_empty_iff)
  ultimately show ?thesis by blast
qed

theorem virtual_neighbor_by_recency_witness:
  "virtual_directional_neighbor_by_recency
     [(1, \<lparr>vx = 0, vy = 0, vw = 5, vh = 4\<rparr>), (2, \<lparr>vx = 5, vy = 0, vw = 5, vh = 2\<rparr>),
      (3, \<lparr>vx = 5, vy = 2, vw = 5, vh = 2\<rparr>)] 1 1 0 (\<lambda>p. p) = Some 3"
proof -
  let ?ps = "[(1, \<lparr>vx = 0, vy = 0, vw = 5, vh = 4\<rparr>), (2, \<lparr>vx = 5, vy = 0, vw = 5, vh = 2\<rparr>),
      (3, \<lparr>vx = 5, vy = 2, vw = 5, vh = 2\<rparr>)] :: (pane_id \<times> vrect) list"
  have "eligible ?ps 1 vrect_visible
      (\<lambda>r. touching (score_virtual DRight \<lparr>vx = 0, vy = 0, vw = 5, vh = 4\<rparr> r)) 1
      \<lparr>overlap = 2, distance = 0\<rparr>"
    by (simp add: eligible_def vrect_visible_def positive_score_def overlap_len_def sat_add_def
        sat_sub_def Let_def touching_def)
  then have "virtual_directional_neighbor_by_recency ?ps 1 1 0 (\<lambda>p. p) \<noteq> None"
    using virtual_neighbor_by_recency_most_recent
      [of ?ps 1 "\<lparr>vx = 0, vy = 0, vw = 5, vh = 4\<rparr>" 1 0 DRight "\<lambda>p. p"]
    by (auto simp: find_pane_def direction_from_delta_def)
  then show ?thesis
    by (simp add: virtual_directional_neighbor_by_recency_def find_pane_def direction_from_delta_def
        candidates_def List.map_filter_def vrect_visible_def positive_score_def overlap_len_def
        sat_add_def sat_sub_def Let_def touching_def recency_lt_def)
qed

end
