(* ===== verification/Layout.thy ===== *)
theory Layout
  imports Geometry
begin

text \<open>
  Laying out a screen: \<open>layout_screen\<close>, its tree walk, the split arithmetic and the stack
  rows (\<open>cmux-tui-core/src/layout.rs\<close>). The output parameter \<open>out\<close> is threaded through
  the walk. What the walk needs of the split arithmetic is the locale \<open>extent_split\<close>,
  interpreted on the \<open>f32\<close> splitter of this theory and, in \<open>ViewportLayout\<close>, on the
  \<open>f64\<close> one. Correctness is stated against the cells of the grid: a layout covers every
  cell of its area exactly once.
\<close>

section \<open>Split arithmetic\<close>

definition split_extent :: "u16 \<Rightarrow> f32 \<Rightarrow> u16 \<times> u16" where
  "split_extent extent ratio =
     (if extent = 0 then (0, 0)
      else let first = word_of_nat (fl_to_uint 65535
                 (fl_round_int (fl_mul f32_round (FFin (of_nat (unat extent))) ratio)));
               first = clamp 1 (max (sat_sub extent 1) 1) first
           in (first, extent - first))"

fun split_sides :: "rect \<Rightarrow> split_dir \<Rightarrow> f32 \<Rightarrow> rect \<times> rect" where
  "split_sides area DirRight ratio =
     (let (first_width, second_width) = split_extent (rw area) ratio in
      (area\<lparr>rw := first_width\<rparr>,
       area\<lparr>rx := sat_add (rx area) first_width, rw := second_width\<rparr>))"
| "split_sides area DirDown ratio =
     (let (first_height, second_height) = split_extent (rh area) ratio in
      (area\<lparr>rh := first_height\<rparr>,
       area\<lparr>ry := sat_add (ry area) first_height, rh := second_height\<rparr>))"

definition too_small :: "split_dir \<Rightarrow> rect \<Rightarrow> bool" where
  "too_small dir area = (case dir of DirRight \<Rightarrow> rw area < 2 | DirDown \<Rightarrow> rh area < 2)"

section \<open>Stack rows\<close>

text \<open>The \<open>while\<close> loop that hands out the header rows around the expanded pane.\<close>

function header_loop :: "nat \<Rightarrow> nat \<Rightarrow> nat \<Rightarrow> nat \<Rightarrow> nat \<Rightarrow> nat \<times> nat" where
  "header_loop visible_headers available_before available_after headers_before headers_after =
     (if headers_before + headers_after < visible_headers then
        (let can_take_before = headers_before < available_before;
             can_take_after = headers_after < available_after
         in if can_take_before \<and> (\<not> can_take_after \<or> headers_before \<le> headers_after)
            then header_loop visible_headers available_before available_after
                   (Suc headers_before) headers_after
            else if can_take_after
            then header_loop visible_headers available_before available_after
                   headers_before (Suc headers_after)
            else (headers_before, headers_after))
      else (headers_before, headers_after))"
  by pat_completeness auto
termination
  by (relation "measure (\<lambda>(v, _, _, b, a). v - (b + a))") auto

declare header_loop.simps [simp del]

text \<open>What both stack walks compute before they emit rows: the index of the expanded pane,
  the headers above and below it, and its height. \<open>panes\<close> is non-empty.\<close>

definition stack_plan :: "pane_id list \<Rightarrow> pane_id \<Rightarrow> u16 \<Rightarrow> nat \<times> nat \<times> nat \<times> u16" where
  "stack_plan ps expanded height =
     (let expanded_index =
            (case position (\<lambda>p. p = expanded) ps of Some i \<Rightarrow> i | None \<Rightarrow> length ps - 1);
          visible_headers = min (unat (sat_sub height 1)) (length ps - 1);
          (headers_before, headers_after) =
            header_loop visible_headers expanded_index (length ps - expanded_index - 1) 0 0;
          expanded_height = sat_sub height (word_of_nat (headers_before + headers_after))
      in (expanded_index, headers_before, headers_after, expanded_height))"

definition row_height :: "nat \<Rightarrow> nat \<Rightarrow> nat \<Rightarrow> u16 \<Rightarrow> nat \<Rightarrow> u16" where
  "row_height expanded_index headers_before headers_after expanded_height index =
     (if index = expanded_index then expanded_height
      else if (expanded_index - headers_before \<le> index \<and> index < expanded_index)
              \<or> (expanded_index < index \<and> index \<le> expanded_index + headers_after) then 1
      else 0)"

definition push_pane :: "layout_result \<Rightarrow> pane_id \<Rightarrow> rect \<Rightarrow> layout_result" where
  "push_pane out pane r = out\<lparr>panes := panes out @ [(pane, r)]\<rparr>"

fun stack_rows ::
    "(nat \<Rightarrow> u16) \<Rightarrow> nat \<Rightarrow> rect \<Rightarrow> nat \<Rightarrow> u16 \<Rightarrow> pane_id list \<Rightarrow> layout_result \<Rightarrow> layout_result" where
  "stack_rows height expanded_index area index y [] out = out"
| "stack_rows height expanded_index area index y (pane # rest) out =
     (let h = height index;
          out = push_pane out pane (area\<lparr>ry := y, rh := h\<rparr>);
          out = (if h = 1 \<and> index \<noteq> expanded_index
                 then out\<lparr>stacked_headers := insert pane (stacked_headers out)\<rparr> else out)
      in stack_rows height expanded_index area (Suc index) (sat_add y h) rest out)"

definition walk_stack :: "pane_id list \<Rightarrow> pane_id \<Rightarrow> rect \<Rightarrow> layout_result \<Rightarrow> layout_result" where
  "walk_stack ps expanded area out =
     (let (e, hb, ha, eh) = stack_plan ps expanded (rh area)
      in stack_rows (row_height e hb ha eh) e area 0 (ry area) ps out)"

section \<open>The walk\<close>

definition stack_selection :: "pane_id option \<Rightarrow> pane_id list \<Rightarrow> pane_id \<Rightarrow> pane_id" where
  "stack_selection active ps expanded =
     (case active of Some p \<Rightarrow> (if p \<in> set ps then p else expanded) | None \<Rightarrow> expanded)"

fun walk :: "node \<Rightarrow> rect \<Rightarrow> pane_id option \<Rightarrow> layout_result \<Rightarrow> layout_result" where
  "walk (Leaf i) area active out = push_pane out i area"
| "walk (Split _ dir ratio a b) area active out =
     (if too_small dir area
      then walk b (area\<lparr>rw := 0, rh := 0\<rparr>) active (walk a area active out)
      else let (a_rect, b_rect) = split_sides area dir ratio
           in walk b b_rect active (walk a a_rect active out))"
| "walk (Stack ps expanded) area active out =
     walk_stack ps (stack_selection active ps expanded) area out"

definition layout_screen :: "node \<Rightarrow> rect \<Rightarrow> pane_id option \<Rightarrow> layout_result" where
  "layout_screen tree area active =
     walk tree area active \<lparr>panes = [], stacked_headers = {}, virtual_width = rw area\<rparr>"

section \<open>The interface of the split arithmetic\<close>

text \<open>A split of a non-empty extent loses nothing, and gives both sides at least one cell
  when there are two to give.\<close>

locale extent_split =
  fixes sp :: "'w::len word \<Rightarrow> f32 \<Rightarrow> 'w word \<times> 'w word"
  assumes sums: "unat (fst (sp e r)) + unat (snd (sp e r)) = unat e"
    and both_positive: "2 \<le> unat e \<Longrightarrow> 0 < unat (fst (sp e r)) \<and> 0 < unat (snd (sp e r))"
begin

lemma first_le: "unat (fst (sp e r)) \<le> unat e"
  using sums [of e r] by linarith

lemma second_le: "unat (snd (sp e r)) \<le> unat e"
  using sums [of e r] by linarith

lemma second_start: "unat x + unat e < 2 ^ LENGTH('w) \<Longrightarrow>
   unat (sat_add x (fst (sp e r))) = unat x + unat (fst (sp e r))"
  using first_le [of e r] by (simp add: unat_sat_add)

end

lemma clamped_split:
  fixes e f :: "'w::len word"
  assumes "1 < LENGTH('w)" and "e \<noteq> 0"
  shows "unat (clamp 1 (max (sat_sub e 1) 1) f) + unat (e - clamp 1 (max (sat_sub e 1) 1) f) = unat e"
    and "2 \<le> unat e \<Longrightarrow> 0 < unat (clamp 1 (max (sat_sub e 1) 1) f)
           \<and> 0 < unat (e - clamp 1 (max (sat_sub e 1) 1) f)"
proof -
  let ?c = "clamp 1 (max (sat_sub e 1) 1) f"
  have one: "unat (1 :: 'w word) = 1" by simp
  have e: "1 \<le> unat e" using assms(2) by (simp add: unat_gt_0 Suc_leI)
  have "1 \<le> ?c \<and> ?c \<le> max (sat_sub e 1) 1"
    by (rule clamp_bounds) simp
  then have c: "1 \<le> unat ?c" "unat ?c \<le> max (unat e - 1) 1"
    using one by (metis unat_max unat_sat_sub word_le_nat_alt)+
  then have le: "?c \<le> e" using e by (simp add: word_le_nat_alt max_def split: if_splits)
  then have d: "unat (e - ?c) = unat e - unat ?c" by (simp add: unat_sub)
  with le show "unat ?c + unat (e - ?c) = unat e"
    by (simp add: word_le_nat_alt)
  assume "2 \<le> unat e"
  with c d show "0 < unat ?c \<and> 0 < unat (e - ?c)" by auto
qed

interpretation f32_split: extent_split split_extent
proof
  fix e :: u16 and r
  show "unat (fst (split_extent e r)) + unat (snd (split_extent e r)) = unat e"
    by (auto simp: split_extent_def Let_def clamped_split)
  show "0 < unat (fst (split_extent e r)) \<and> 0 < unat (snd (split_extent e r))" if "2 \<le> unat e"
    using that clamped_split(2) [of e] by (auto simp: split_extent_def Let_def)
qed

section \<open>Cells\<close>

definition cells :: "rect \<Rightarrow> (nat \<times> nat) set" where
  "cells r = {unat (rx r) ..< unat (rx r) + unat (rw r)}
             \<times> {unat (ry r) ..< unat (ry r) + unat (rh r)}"

text \<open>The area ends inside the \<open>u16\<close> coordinate space.\<close>

definition fits :: "rect \<Rightarrow> bool" where
  "fits r = (unat (rx r) + unat (rw r) < 2 ^ 16 \<and> unat (ry r) + unat (rh r) < 2 ^ 16)"

definition cover_count :: "(pane_id \<times> rect) list \<Rightarrow> nat \<times> nat \<Rightarrow> nat" where
  "cover_count ps c = length (filter (\<lambda>(_, r). c \<in> cells r) ps)"

definition tiles :: "(pane_id \<times> rect) list \<Rightarrow> rect \<Rightarrow> bool" where
  "tiles ps area = (\<forall>c. cover_count ps c = (if c \<in> cells area then 1 else 0))"

lemma cover_count_append [simp]: "cover_count (xs @ ys) c = cover_count xs c + cover_count ys c"
  by (simp add: cover_count_def)

lemma cover_count_Cons [simp]:
  "cover_count ((i, r) # xs) c = (if c \<in> cells r then 1 else 0) + cover_count xs c"
  by (simp add: cover_count_def)

lemma cover_count_Nil [simp]: "cover_count [] c = 0"
  by (simp add: cover_count_def)

lemma tiles_append:
  "tiles xs a \<Longrightarrow> tiles ys b \<Longrightarrow> cells a \<union> cells b = cells area \<Longrightarrow> cells a \<inter> cells b = {} \<Longrightarrow>
   tiles (xs @ ys) area"
  unfolding tiles_def cover_count_append by (metis Int_iff Un_iff add_0 add_0_right empty_iff)

lemma rect_contains_cells:
  assumes "fits r"
  shows "rect_contains r x y \<longleftrightarrow> (unat x, unat y) \<in> cells r"
proof -
  have "unat (rx r + rw r) = unat (rx r) + unat (rw r)"
    "unat (ry r + rh r) = unat (ry r) + unat (rh r)"
    using assms by (simp_all add: fits_def unat_word_ariths)
  then show ?thesis
    by (auto simp: rect_contains_def cells_def word_le_nat_alt word_less_nat_alt)
qed

lemma split_sides_cells:
  assumes "fits area"
  shows "cells (fst (split_sides area dir r)) \<union> cells (snd (split_sides area dir r)) = cells area"
    and "cells (fst (split_sides area dir r)) \<inter> cells (snd (split_sides area dir r)) = {}"
    and "fits (fst (split_sides area dir r))" and "fits (snd (split_sides area dir r))"
proof -
  let ?a = "fst (split_sides area dir r)" and ?b = "snd (split_sides area dir r)"
  have "cells ?a \<union> cells ?b = cells area \<and> cells ?a \<inter> cells ?b = {} \<and> fits ?a \<and> fits ?b"
  proof (cases dir)
    case DirRight
    obtain f s where fs: "split_extent (rw area) r = (f, s)"
      by (cases "split_extent (rw area) r")
    have "unat f + unat s = unat (rw area)"
      using f32_split.sums [of "rw area" r] fs by simp
    moreover have "unat (sat_add (rx area) f) = unat (rx area) + unat f"
      using f32_split.second_start [of "rx area" "rw area" r] fs assms by (simp add: fits_def)
    ultimately show ?thesis
      using assms DirRight fs by (simp add: cells_def fits_def Let_def) auto
  next
    case DirDown
    obtain f s where fs: "split_extent (rh area) r = (f, s)"
      by (cases "split_extent (rh area) r")
    have "unat f + unat s = unat (rh area)"
      using f32_split.sums [of "rh area" r] fs by simp
    moreover have "unat (sat_add (ry area) f) = unat (ry area) + unat f"
      using f32_split.second_start [of "ry area" "rh area" r] fs assms by (simp add: fits_def)
    ultimately show ?thesis
      using assms DirDown fs by (simp add: cells_def fits_def Let_def) auto
  qed
  then show "cells ?a \<union> cells ?b = cells area" "cells ?a \<inter> cells ?b = {}" "fits ?a" "fits ?b"
    by blast+
qed

section \<open>Stacks tile their area\<close>

lemma header_loop_steps:
  "v \<le> hb + ha \<Longrightarrow> header_loop v ab aa hb ha = (hb, ha)"
  "hb + ha < v \<Longrightarrow> hb < ab \<Longrightarrow> \<not> ha < aa \<or> hb \<le> ha \<Longrightarrow>
     header_loop v ab aa hb ha = header_loop v ab aa (Suc hb) ha"
  "hb + ha < v \<Longrightarrow> \<not> (hb < ab \<and> (\<not> ha < aa \<or> hb \<le> ha)) \<Longrightarrow> ha < aa \<Longrightarrow>
     header_loop v ab aa hb ha = header_loop v ab aa hb (Suc ha)"
  "\<not> hb < ab \<Longrightarrow> \<not> ha < aa \<Longrightarrow> header_loop v ab aa hb ha = (hb, ha)"
  by (auto simp: header_loop.simps [of v ab aa hb ha] Let_def)

text \<open>The loop hands out exactly the visible headers, and as evenly as the two sides allow.\<close>

lemma header_loop_spec:
  "hb \<le> ab \<Longrightarrow> ha \<le> aa \<Longrightarrow> hb + ha \<le> v \<Longrightarrow> v \<le> ab + aa \<Longrightarrow>
   hb \<le> Suc ha \<or> ha = aa \<Longrightarrow> ha \<le> hb \<or> hb = ab \<Longrightarrow>
   header_loop v ab aa hb ha = (hb', ha') \<Longrightarrow>
   hb' \<le> ab \<and> ha' \<le> aa \<and> hb' + ha' = v \<and> (hb' \<le> Suc ha' \<or> ha' = aa) \<and> (ha' \<le> hb' \<or> hb' = ab)"
proof (induction "v - (hb + ha)" arbitrary: hb ha rule: less_induct)
  case less
  consider (finished) "v \<le> hb + ha"
    | (before) "hb + ha < v" "hb < ab" "\<not> ha < aa \<or> hb \<le> ha"
    | (after) "hb + ha < v" "\<not> (hb < ab \<and> (\<not> ha < aa \<or> hb \<le> ha))" "ha < aa"
    using less.prems by linarith
  then show ?case
  proof cases
    case finished
    with less.prems show ?thesis by (simp add: header_loop_steps(1))
  next
    case before
    with less.prems show ?thesis
      by (intro less.hyps [of "Suc hb" ha]) (auto simp: header_loop_steps(2))
  next
    case after
    with less.prems show ?thesis
      by (intro less.hyps [of hb "Suc ha"]) (auto simp: header_loop_steps(3))
  qed
qed

lemma stack_plan_spec:
  assumes "ps \<noteq> []" and plan: "stack_plan ps expanded h = (e, hb, ha, eh)"
  shows "e < length ps" and "hb \<le> e" and "ha \<le> length ps - e - 1"
    and "hb + ha = min (unat h - 1) (length ps - 1)" and "unat eh + hb + ha = unat h"
    and "0 < unat h \<Longrightarrow> 0 < unat eh" and "expanded \<in> set ps \<Longrightarrow> ps ! e = expanded"
proof -
  have e: "e = (case position (\<lambda>p. p = expanded) ps of Some i \<Rightarrow> i | None \<Rightarrow> length ps - 1)"
    and hl: "header_loop (min (unat (sat_sub h 1)) (length ps - 1)) e (length ps - e - 1) 0 0 = (hb, ha)"
    and eh: "eh = sat_sub h (word_of_nat (hb + ha))"
    using plan by (auto simp: stack_plan_def Let_def split: prod.splits)
  show len: "e < length ps"
    using assms(1) position_Some_less [of "\<lambda>p. p = expanded" ps]
    by (cases "position (\<lambda>p. p = expanded) ps") (auto simp: e)
  show "ps ! e = expanded" if "expanded \<in> set ps"
    using that position_Some_less [of "\<lambda>p. p = expanded" ps]
      position_None_iff [of "\<lambda>p. p = expanded" ps]
    by (cases "position (\<lambda>p. p = expanded) ps") (auto simp: e)
  from header_loop_spec [OF _ _ _ _ _ _ hl] len
  have h: "hb \<le> e \<and> ha \<le> length ps - e - 1 \<and> hb + ha = min (unat (sat_sub h 1)) (length ps - 1)"
    by simp
  then show "hb \<le> e" "ha \<le> length ps - e - 1" by simp_all
  show sum: "hb + ha = min (unat h - 1) (length ps - 1)"
    using h by (simp add: unat_sat_sub)
  then have le: "hb + ha \<le> unat h - 1" by simp
  have "hb + ha < 2 ^ LENGTH(16)"
    using le unat_le_max [of h] by simp
  then have "unat (word_of_nat (hb + ha) :: u16) = hb + ha"
    by (rule unat_word_of_nat_small)
  then have "unat eh = unat h - (hb + ha)"
    by (simp add: eh unat_sat_sub)
  with le show "unat eh + hb + ha = unat h" "0 < unat h \<Longrightarrow> 0 < unat eh" by simp_all
qed

lemma row_height_sum:
  assumes "e < n" and "hb \<le> e" and "ha \<le> n - e - 1"
  shows "(\<Sum>k<n. unat (row_height e hb ha eh k)) = unat eh + hb + ha"
proof -
  have split: "{..<n} = {..<e - hb} \<union> {e - hb..<e} \<union> {e} \<union> {Suc e..<Suc (e + ha)} \<union> {Suc (e + ha)..<n}"
    using assms by auto
  let ?f = "\<lambda>k. unat (row_height e hb ha eh k)"
  have "sum ?f {..<e - hb} = 0" "sum ?f {Suc (e + ha)..<n} = 0"
    by (intro sum.neutral; auto simp: row_height_def)+
  moreover have "sum ?f {e - hb..<e} = (\<Sum>k = e - hb..<e. 1)"
    "sum ?f {Suc e..<Suc (e + ha)} = (\<Sum>k = Suc e..<Suc (e + ha). 1)"
    by (intro sum.cong refl; auto simp: row_height_def)+
  moreover have "sum ?f {..<n} = sum ?f {..<e - hb} + sum ?f {e - hb..<e} + ?f e
      + sum ?f {Suc e..<Suc (e + ha)} + sum ?f {Suc (e + ha)..<n}"
    unfolding split by (subst sum.union_disjoint, simp, simp, force)+ simp
  ultimately show ?thesis
    using assms by (simp add: row_height_def)
qed

lemma panes_push_pane [simp]: "panes (push_pane out p r) = panes out @ [(p, r)]"
  by (simp add: push_pane_def)

lemma map_fst_stack_rows:
  "map fst (panes (stack_rows hf e area i y ps out)) = map fst (panes out) @ ps"
  by (induction hf e area i y ps out rule: stack_rows.induct) (auto simp: Let_def)

fun stack_rects :: "(nat \<Rightarrow> u16) \<Rightarrow> rect \<Rightarrow> nat \<Rightarrow> u16 \<Rightarrow> pane_id list \<Rightarrow> (pane_id \<times> rect) list" where
  "stack_rects hf area i y [] = []"
| "stack_rects hf area i y (p # ps) =
     (p, area\<lparr>ry := y, rh := hf i\<rparr>) # stack_rects hf area (Suc i) (sat_add y (hf i)) ps"

lemma panes_stack_rows:
  "panes (stack_rows hf e area i y ps out) = panes out @ stack_rects hf area i y ps"
  by (induction hf e area i y ps out rule: stack_rows.induct) (auto simp: Let_def)

lemma cover_stack_rects:
  "unat y + (\<Sum>k<length ps. unat (hf (i + k))) < 2 ^ 16 \<Longrightarrow>
   cover_count (stack_rects hf area i y ps) (cx, cy) =
     (if unat (rx area) \<le> cx \<and> cx < unat (rx area) + unat (rw area) \<and> unat y \<le> cy
         \<and> cy < unat y + (\<Sum>k<length ps. unat (hf (i + k))) then 1 else 0)"
proof (induction ps arbitrary: i y)
  case (Cons p ps)
  define S where "S = (\<Sum>k<length ps. unat (hf (Suc i + k)))"
  have sum: "(\<Sum>k<length (p # ps). unat (hf (i + k))) = unat (hf i) + S"
    by (simp add: S_def sum.lessThan_Suc_shift del: sum.lessThan_Suc)
  have y: "unat (sat_add y (hf i)) = unat y + unat (hf i)"
    using Cons.prems unfolding sum by (simp add: unat_sat_add)
  have IH: "cover_count (stack_rects hf area (Suc i) (sat_add y (hf i)) ps) (cx, cy) =
     (if unat (rx area) \<le> cx \<and> cx < unat (rx area) + unat (rw area) \<and> unat y + unat (hf i) \<le> cy
         \<and> cy < unat y + unat (hf i) + S then 1 else 0)"
    using Cons.IH [of "sat_add y (hf i)" "Suc i"] Cons.prems y unfolding sum S_def [symmetric] by simp
  show ?case
    unfolding sum by (auto simp: IH cells_def)
qed simp

lemma tiles_walk_stack:
  assumes "ps \<noteq> []" and "fits area"
  shows "cover_count (panes (walk_stack ps x area out)) c =
    cover_count (panes out) c + (if c \<in> cells area then 1 else 0)"
proof -
  obtain e hb ha eh where plan: "stack_plan ps x (rh area) = (e, hb, ha, eh)"
    by (metis prod_cases4)
  note P = stack_plan_spec [OF assms(1) plan]
  have "(\<Sum>k<length ps. unat (row_height e hb ha eh (0 + k))) = unat (rh area)"
    using row_height_sum [OF P(1-3)] P(5) by simp
  then have "cover_count (stack_rects (row_height e hb ha eh) area 0 (ry area) ps) c =
      (if c \<in> cells area then 1 else 0)"
    using cover_stack_rects [of "ry area" "row_height e hb ha eh" 0 ps area "fst c" "snd c"] assms(2)
    by (cases c) (simp add: cells_def fits_def)
  then show ?thesis
    by (simp add: walk_stack_def plan panes_stack_rows)
qed

section \<open>Layouts tile their area\<close>

lemma map_fst_walk: "map fst (panes (walk t area act out)) = map fst (panes out) @ pane_ids_vec t"
  by (induction t area act out rule: walk.induct)
    (auto simp: Let_def walk_stack_def map_fst_stack_rows split: prod.splits)

lemma cells_empty: "cells (area\<lparr>rw := 0, rh := 0\<rparr>) = {}"
  by (simp add: cells_def)

lemma cover_walk:
  "node_wf t \<Longrightarrow> fits area \<Longrightarrow>
   cover_count (panes (walk t area act out)) c =
   cover_count (panes out) c + (if c \<in> cells area then 1 else 0)"
proof (induction t area act out rule: walk.induct)
  case (2 i dir ratio a b area act out)
  show ?case
  proof (cases "too_small dir area")
    case True
    have "fits (area\<lparr>rw := 0, rh := 0\<rparr>)"
      using "2.prems" by (simp add: fits_def)
    with True 2 show ?thesis by (simp add: cells_empty)
  next
    case False
    obtain ra rb where sides: "split_sides area dir ratio = (ra, rb)"
      by (cases "split_sides area dir ratio")
    note S = split_sides_cells [OF \<open>fits area\<close>, of dir ratio, unfolded sides fst_conv snd_conv]
    from S(1,2) have "(if c \<in> cells ra then 1 else 0) + (if c \<in> cells rb then 1 else 0)
        = (if c \<in> cells area then 1 else (0 :: nat))" by auto
    with False 2 S(3,4) sides show ?thesis
      by simp
  qed
next
  case (3 ps x area act out)
  then show ?case by (simp add: tiles_walk_stack)
qed simp

lemma layout_screen_tiles:
  "node_wf t \<Longrightarrow> fits area \<Longrightarrow> tiles (panes (layout_screen t area act)) area"
  by (simp add: layout_screen_def tiles_def cover_walk)

lemma layout_screen_panes: "map fst (panes (layout_screen t area act)) = pane_ids_vec t"
  by (simp add: layout_screen_def map_fst_walk)

section \<open>Hit testing\<close>

lemma fits_stack_rects:
  "unat y + (\<Sum>k<length ps. unat (hf (i + k))) < 2 ^ 16 \<Longrightarrow>
   unat (rx area) + unat (rw area) < 2 ^ 16 \<Longrightarrow>
   (p, r) \<in> set (stack_rects hf area i y ps) \<Longrightarrow> fits r"
proof (induction ps arbitrary: i y)
  case (Cons q ps)
  define S where "S = (\<Sum>k<length ps. unat (hf (Suc i + k)))"
  have sum: "(\<Sum>k<length (q # ps). unat (hf (i + k))) = unat (hf i) + S"
    by (simp add: S_def sum.lessThan_Suc_shift del: sum.lessThan_Suc)
  have y: "unat (sat_add y (hf i)) = unat y + unat (hf i)"
    using Cons.prems(1) unfolding sum by (simp add: unat_sat_add)
  from Cons.prems(3) consider "r = area\<lparr>ry := y, rh := hf i\<rparr>"
    | "(p, r) \<in> set (stack_rects hf area (Suc i) (sat_add y (hf i)) ps)"
    by auto
  then show ?case
  proof cases
    case 1
    then show ?thesis using Cons.prems(1,2) unfolding sum by (simp add: fits_def)
  next
    case 2
    from Cons.prems(1) have "unat (sat_add y (hf i)) + S < 2 ^ 16"
      unfolding sum y by simp
    then show ?thesis
      using Cons.IH [OF _ Cons.prems(2) 2] by (simp only: S_def)
  qed
qed simp

definition all_fit :: "layout_result \<Rightarrow> bool" where
  "all_fit out = (\<forall>p \<in> set (panes out). fits (snd p))"

lemma fits_walk_stack:
  assumes "ps \<noteq> []" and "fits area" and "all_fit out"
  shows "all_fit (walk_stack ps x area out)"
proof -
  obtain e hb ha eh where plan: "stack_plan ps x (rh area) = (e, hb, ha, eh)"
    by (metis prod_cases4)
  note P = stack_plan_spec [OF assms(1) plan]
  have "(\<Sum>k<length ps. unat (row_height e hb ha eh (0 + k))) = unat (rh area)"
    using row_height_sum [OF P(1-3)] P(5) by simp
  then have "\<forall>(i, r) \<in> set (stack_rects (row_height e hb ha eh) area 0 (ry area) ps). fits r"
    using assms(2) fits_stack_rects [of "ry area" "row_height e hb ha eh" 0 ps area]
    by (auto simp: fits_def)
  with assms(3) show ?thesis
    by (auto simp: all_fit_def walk_stack_def plan panes_stack_rows)
qed

lemma fits_walk:
  "fits area \<Longrightarrow> node_wf t \<Longrightarrow> all_fit out \<Longrightarrow>
   all_fit (walk t area act out)"
proof (induction t area act out rule: walk.induct)
  case (1 i area act out)
  then show ?case by (auto simp: all_fit_def)
next
  case (2 i dir ratio a b area act out)
  note out = "2.prems"(3)
  show ?case
  proof (cases "too_small dir area")
    case True
    have "fits (area\<lparr>rw := 0, rh := 0\<rparr>)" using "2.prems"(1) by (simp add: fits_def)
    moreover have "all_fit (walk a area act out)"
      using "2.IH"(1) [OF True "2.prems"(1) _ out] "2.prems"(2) by simp
    ultimately show ?thesis
      using "2.IH"(2) [OF True] "2.prems"(2) True by simp
  next
    case False
    obtain ra rb where sides: "split_sides area dir ratio = (ra, rb)"
      by (cases "split_sides area dir ratio")
    then have "fits ra" "fits rb"
      using split_sides_cells(3,4) [OF "2.prems"(1), of dir ratio] by simp_all
    then show ?thesis
      using "2.IH"(3,4) [OF False sides [symmetric] refl] "2.prems"(2) out False sides by simp
  qed
next
  case (3 ps x area act out)
  then show ?case by (simp add: fits_walk_stack)
qed

lemma length_filter_one_find:
  assumes "length (filter P xs) = 1"
  shows "\<exists>x. List.find P xs = Some x \<and> filter P xs = [x]"
proof -
  from assms obtain x where x: "filter P xs = [x]"
    by (cases "filter P xs") auto
  then have "List.find P xs = Some x"
    by (induction xs) (auto split: if_splits)
  with x show ?thesis by blast
qed

lemma find_filter: "(\<And>x. x \<in> set xs \<Longrightarrow> P x = Q x) \<Longrightarrow> List.find P xs = List.find Q xs"
  by (induction xs) auto

section \<open>Properties\<close>

text \<open>C1. A layout is a tiling. The panes of the layout of a well-formed tree are the panes of
  the tree in order, and every cell of an area inside the coordinate space lies in
  exactly one of their rectangles, every other cell in none.\<close>

theorem layout_tiles_area:
  assumes "node_wf t" and "fits area"
  shows "map fst (panes (layout_screen t area act)) = pane_ids_vec t
     \<and> (\<forall>c. length (filter (\<lambda>(i, r). c \<in> cells r) (panes (layout_screen t area act)))
              = (if c \<in> cells area then 1 else 0))"
  using layout_screen_tiles [OF assms, of act]
  by (simp add: layout_screen_panes tiles_def cover_count_def)

theorem layout_tiles_area_witness:
  "length (filter (\<lambda>(i, r). (3, 1) \<in> cells r)
     (panes (layout_screen (Split 9 DirRight half (Leaf 1) (Stack [2, 3] 3))
        \<lparr>rx = 0, ry = 0, rw = 4, rh = 3\<rparr> None))) = 1"
  using layout_tiles_area [of "Split 9 DirRight half (Leaf 1) (Stack [2, 3] 3)"
    "\<lparr>rx = 0, ry = 0, rw = 4, rh = 3\<rparr>" None]
  by (simp add: fits_def cells_def)

text \<open>Hit testing. \<open>pane_at\<close> answers for every point of the area and for no other, and
  the pane it answers is the only one whose rectangle holds the point.\<close>

theorem pane_at_total_and_unique:
  assumes "node_wf t" and "fits area"
  shows "(pane_at (layout_screen t area act) x y \<noteq> None \<longleftrightarrow> rect_contains area x y)
     \<and> (\<forall>p. pane_at (layout_screen t area act) x y = Some p \<longrightarrow> p \<in> set (pane_ids_vec t)
          \<and> (\<exists>r. filter (\<lambda>(_, r). rect_contains r x y) (panes (layout_screen t area act)) = [(p, r)]))"
proof -
  let ?ps = "panes (layout_screen t area act)"
  let ?c = "(unat x, unat y)"
  have fit: "all_fit (layout_screen t area act)"
    unfolding layout_screen_def by (rule fits_walk [OF assms(2,1)]) (simp add: all_fit_def)
  then have same: "filter (\<lambda>(_, r). rect_contains r x y) ?ps = filter (\<lambda>(_, r). ?c \<in> cells r) ?ps"
    by (auto intro!: filter_cong simp: all_fit_def rect_contains_cells)
  have count: "length (filter (\<lambda>(_, r). rect_contains r x y) ?ps)
      = (if rect_contains area x y then 1 else 0)"
    using layout_screen_tiles [OF assms, of act]
    by (simp add: same tiles_def cover_count_def rect_contains_cells [OF assms(2)])
  show ?thesis
  proof (cases "rect_contains area x y")
    case True
    then obtain i r where "List.find (\<lambda>(_, r). rect_contains r x y) ?ps = Some (i, r)"
        "filter (\<lambda>(_, r). rect_contains r x y) ?ps = [(i, r)]"
      using length_filter_one_find [of "\<lambda>(_, r). rect_contains r x y" ?ps] count by auto
    moreover from this(2) have "(i, r) \<in> set ?ps"
      using filter_is_subset [of _ ?ps] by (metis list.set_intros(1) subsetD)
    then have "i \<in> set (pane_ids_vec t)"
      unfolding layout_screen_panes [of t area act, symmetric] by force
    ultimately show ?thesis using True by (simp add: pane_at_def)
  next
    case False
    with count have "List.find (\<lambda>(_, r). rect_contains r x y) ?ps = None"
      by (auto simp: find_None_iff filter_empty_conv)
    with False show ?thesis by (simp add: pane_at_def)
  qed
qed

theorem pane_at_total_and_unique_witness:
  "pane_at (layout_screen (Split 9 DirRight half (Leaf 1) (Stack [2, 3] 3))
        \<lparr>rx = 0, ry = 0, rw = 4, rh = 3\<rparr> None) 3 1 \<noteq> None"
  using pane_at_total_and_unique [of "Split 9 DirRight half (Leaf 1) (Stack [2, 3] 3)"
    "\<lparr>rx = 0, ry = 0, rw = 4, rh = 3\<rparr>" None 3 1]
  by (simp add: fits_def rect_contains_def)

text \<open>Stack rows. In a stack of \<open>height\<close> rows the expanded pane gets at least one row when
  there is one, every other shown pane exactly one header row, the rows add up to the
  height, and the headers above and below the expanded pane are balanced: the two counts
  differ by at most one unless one side has run out of panes.\<close>

theorem stack_rows_balanced:
  assumes "ps \<noteq> []" and "expanded \<in> set ps" and "stack_plan ps expanded height = (e, hb, ha, eh)"
  shows "ps ! e = expanded \<and> (\<Sum>k<length ps. unat (row_height e hb ha eh k)) = unat height
     \<and> hb + ha = min (unat height - 1) (length ps - 1)
     \<and> (0 < unat height \<longrightarrow> 0 < unat (row_height e hb ha eh e))
     \<and> (\<forall>k. k \<noteq> e \<longrightarrow> row_height e hb ha eh k \<in> {0, 1})
     \<and> (hb \<le> Suc ha \<or> ha = length ps - e - 1) \<and> (ha \<le> hb \<or> hb = e)"
proof -
  note P = stack_plan_spec [OF assms(1,3)]
  have hl: "header_loop (min (unat (sat_sub height 1)) (length ps - 1)) e (length ps - e - 1) 0 0 = (hb, ha)"
    using assms(3) by (auto simp: stack_plan_def Let_def split: prod.splits)
  from header_loop_spec [OF _ _ _ _ _ _ hl] P(1)
  have "(hb \<le> Suc ha \<or> ha = length ps - e - 1) \<and> (ha \<le> hb \<or> hb = e)"
    by simp
  moreover have "(\<Sum>k<length ps. unat (row_height e hb ha eh k)) = unat height"
    using row_height_sum [OF P(1-3)] P(5) by simp
  ultimately show ?thesis
    using P assms(2) by (auto simp: row_height_def)
qed

theorem stack_rows_balanced_witness:
  "stack_plan [1, 2, 3, 4] 2 6 = (1, 1, 2, 3)
   \<and> (\<Sum>k<4. unat (row_height 1 1 2 3 k)) = unat (6 :: u16)"
proof -
  have plan: "stack_plan [1, 2, 3, 4] 2 6 = (1, 1, 2, 3)"
    by (simp add: stack_plan_def header_loop.simps sat_sub_def Let_def)
  from stack_rows_balanced [OF _ _ plan] plan show ?thesis
    by (simp add: eval_nat_numeral)
qed

end
