(* ===== verification/EdgeSearch.thy ===== *)
theory EdgeSearch
  imports Layout
begin

text \<open>
  From a pane's border to the split behind it: \<open>split_for_pane_edge\<close> and
  \<open>exact_split_for_pane_edge\<close> (\<open>cmux-tui-core/src/layout.rs\<close>). The \<open>&mut best\<close>
  parameter is threaded. \<open>assigned\<close> is the abstract account of the walk: the area each
  node of the tree is laid out in.
\<close>

datatype split_edge = EdgeLeft | EdgeRight | EdgeTop | EdgeBottom

fun edge_dir :: "split_edge \<Rightarrow> split_dir" where
  "edge_dir EdgeLeft = DirRight"
| "edge_dir EdgeRight = DirRight"
| "edge_dir EdgeTop = DirDown"
| "edge_dir EdgeBottom = DirDown"

definition after_first :: "split_edge \<Rightarrow> bool" where
  "after_first edge = (edge = EdgeRight \<or> edge = EdgeBottom)"

record split_resize =
  sr_area :: rect
  set_pane :: pane_id

record exact_split_resize =
  es_area :: rect
  es_split :: split_id

definition first_some :: "'a option \<Rightarrow> 'a option \<Rightarrow> 'a option" where
  "first_some x y = (case x of None \<Rightarrow> y | Some v \<Rightarrow> Some v)"

fun leaf_without_crossing_dir :: "node \<Rightarrow> split_dir \<Rightarrow> pane_id option \<Rightarrow> pane_id option" where
  "leaf_without_crossing_dir (Leaf i) dir active = Some i"
| "leaf_without_crossing_dir (Split _ split_dir _ a b) dir active =
     (if split_dir = dir then None
      else first_some (leaf_without_crossing_dir a dir active) (leaf_without_crossing_dir b dir active))"
| "leaf_without_crossing_dir (Stack ps expanded) dir active =
     first_some (case active of Some p \<Rightarrow> (if p \<in> set ps then Some p else None) | None \<Rightarrow> None)
       (Some expanded)"

text \<open>The boundary test both walks make at a split whose direction is the edge's. The
  \<open>u16\<close> sums are the code's unchecked ones.\<close>

definition matches_boundary :: "split_edge \<Rightarrow> split_dir \<Rightarrow> rect \<Rightarrow> rect \<Rightarrow> bool \<Rightarrow> bool \<Rightarrow> bool" where
  "matches_boundary edge dir b_rect pane_rect pane_in_a pane_in_b =
     (let boundary = (case dir of DirRight \<Rightarrow> rx b_rect | DirDown \<Rightarrow> ry b_rect) in
      case edge of
        EdgeRight \<Rightarrow> pane_in_a \<and> rx pane_rect + rw pane_rect = boundary
      | EdgeLeft \<Rightarrow> pane_in_b \<and> rx pane_rect = boundary
      | EdgeBottom \<Rightarrow> pane_in_a \<and> ry pane_rect + rh pane_rect = boundary
      | EdgeTop \<Rightarrow> pane_in_b \<and> ry pane_rect = boundary)"

fun split_for_pane_edge_walk ::
    "node \<Rightarrow> rect \<Rightarrow> pane_id option \<Rightarrow> pane_id \<Rightarrow> rect \<Rightarrow> split_edge
     \<Rightarrow> split_resize option \<Rightarrow> split_resize option" where
  "split_for_pane_edge_walk (Split _ dir ratio a b) area active pane pane_rect edge best =
     (if too_small dir area then best
      else
        let (a_rect, b_rect) = split_sides area dir ratio;
            best =
              (if dir = edge_dir edge
                  \<and> matches_boundary edge dir b_rect pane_rect (contains a pane) (contains b pane)
               then
                 let first = leaf_without_crossing_dir a dir active;
                     second = leaf_without_crossing_dir b dir active
                 in case (if after_first edge then first_some second first
                          else first_some first second) of
                      Some p \<Rightarrow> Some \<lparr>sr_area = area, set_pane = p\<rparr>
                    | None \<Rightarrow> best
               else best)
        in if contains a pane
           then split_for_pane_edge_walk a a_rect active pane pane_rect edge best
           else if contains b pane
           then split_for_pane_edge_walk b b_rect active pane pane_rect edge best
           else best)"
| "split_for_pane_edge_walk _ area active pane pane_rect edge best = best"

fun exact_split_for_pane_edge_walk ::
    "node \<Rightarrow> rect \<Rightarrow> pane_id \<Rightarrow> rect \<Rightarrow> split_edge
     \<Rightarrow> exact_split_resize option \<Rightarrow> exact_split_resize option" where
  "exact_split_for_pane_edge_walk (Split i dir ratio a b) area pane pane_rect edge best =
     (if too_small dir area then best
      else
        let (a_rect, b_rect) = split_sides area dir ratio;
            pane_in_a = contains a pane;
            pane_in_b = contains b pane;
            best =
              (if dir = edge_dir edge
                  \<and> matches_boundary edge dir b_rect pane_rect pane_in_a pane_in_b
               then Some \<lparr>es_area = area, es_split = i\<rparr> else best)
        in if pane_in_a then exact_split_for_pane_edge_walk a a_rect pane pane_rect edge best
           else if pane_in_b then exact_split_for_pane_edge_walk b b_rect pane pane_rect edge best
           else best)"
| "exact_split_for_pane_edge_walk _ area pane pane_rect edge best = best"

definition split_for_pane_edge ::
    "node \<Rightarrow> rect \<Rightarrow> pane_id option \<Rightarrow> pane_id \<Rightarrow> split_edge \<Rightarrow> split_resize option" where
  "split_for_pane_edge tree area active pane edge =
     Option.bind (rect_of (layout_screen tree area active) pane)
       (\<lambda>pane_rect. split_for_pane_edge_walk tree area active pane pane_rect edge None)"

definition exact_split_for_pane_edge ::
    "node \<Rightarrow> rect \<Rightarrow> pane_id option \<Rightarrow> pane_id \<Rightarrow> split_edge \<Rightarrow> exact_split_resize option" where
  "exact_split_for_pane_edge tree area active pane edge =
     Option.bind (rect_of (layout_screen tree area active) pane)
       (\<lambda>pane_rect. exact_split_for_pane_edge_walk tree area pane pane_rect edge None)"

section \<open>The area of every node\<close>

text \<open>A split is drawn as two sides only in an area of at least two columns, or rows.\<close>

definition roomy :: "split_dir \<Rightarrow> rect \<Rightarrow> bool" where
  "roomy d area = (2 \<le> unat (case d of DirRight \<Rightarrow> rw area | DirDown \<Rightarrow> rh area))"

lemma roomy_too_small: "roomy d area \<longleftrightarrow> \<not> too_small d area"
  by (cases d) (simp_all add: roomy_def too_small_def word_less_nat_alt not_less)

inductive assigned :: "node \<Rightarrow> rect \<Rightarrow> node \<Rightarrow> rect \<Rightarrow> bool" where
  here: "assigned t area t area"
| first: "roomy d area \<Longrightarrow> assigned a (fst (split_sides area d r)) t' area' \<Longrightarrow>
    assigned (Split i d r a b) area t' area'"
| second: "roomy d area \<Longrightarrow> assigned b (snd (split_sides area d r)) t' area' \<Longrightarrow>
    assigned (Split i d r a b) area t' area'"

lemma assigned_first:
  "\<not> too_small d area \<Longrightarrow> assigned a (fst (split_sides area d r)) t' area' \<Longrightarrow>
   assigned (Split i d r a b) area t' area'"
  by (rule assigned.first) (simp_all add: roomy_too_small)

lemma assigned_second:
  "\<not> too_small d area \<Longrightarrow> assigned b (snd (split_sides area d r)) t' area' \<Longrightarrow>
   assigned (Split i d r a b) area t' area'"
  by (rule assigned.second) (simp_all add: roomy_too_small)

inductive_cases assigned_LeafE: "assigned (Leaf p) area t area'"
inductive_cases assigned_SplitE: "assigned (Split i d r a b) area t area'"

lemma assigned_subnode: "assigned t area t' area' \<Longrightarrow> t' \<in> set (subnodes t)"
proof (induction rule: assigned.induct)
  case (here t area)
  then show ?case by (cases t) auto
qed auto

lemma assigned_fits: "assigned t area t' area' \<Longrightarrow> fits area \<Longrightarrow> fits area' \<and> cells area' \<subseteq> cells area"
proof (induction rule: assigned.induct)
  case (first d area a r t' area' i b)
  then show ?case using split_sides_cells [of area d r] by auto
next
  case (second d area b r t' area' i a)
  then show ?case using split_sides_cells [of area d r] by auto
qed auto

text \<open>What a found split is, edge by edge: a drawn split across the edge with the pane on the side the
  edge faces away from, the line between its sides being the pane's border. The sums are those of
  \<open>u16\<close>.\<close>

definition edge_split :: "split_edge \<Rightarrow> pane_id \<Rightarrow> rect \<Rightarrow> node \<Rightarrow> rect \<Rightarrow> bool" where
  "edge_split edge pane pane_rect t area =
     (case t of Split i d r a b \<Rightarrow>
        let line = snd (split_sides area d r) in
        roomy d area \<and>
        (case edge of
           EdgeLeft \<Rightarrow> d = DirRight \<and> pane \<in> set (pane_ids_vec b) \<and> rx line = rx pane_rect
         | EdgeRight \<Rightarrow> d = DirRight \<and> pane \<in> set (pane_ids_vec a) \<and> rx line = rx pane_rect + rw pane_rect
         | EdgeTop \<Rightarrow> d = DirDown \<and> pane \<in> set (pane_ids_vec b) \<and> ry line = ry pane_rect
         | EdgeBottom \<Rightarrow> d = DirDown \<and> pane \<in> set (pane_ids_vec a) \<and> ry line = ry pane_rect + rh pane_rect)
      | _ \<Rightarrow> False)"

text \<open>The test of the code decides it.\<close>

lemma edge_split_code:
  "edge_split edge pane pr (Split i d r a b) area \<longleftrightarrow>
     d = edge_dir edge \<and> \<not> too_small d area
     \<and> matches_boundary edge d (snd (split_sides area d r)) pr (contains a pane) (contains b pane)"
  by (cases edge; cases d) (auto simp: edge_split_def matches_boundary_def roomy_too_small Let_def)

lemma edge_split_Split:
  "edge_split edge pane pr t area \<Longrightarrow> \<exists>i d r a b. t = Split i d r a b"
  by (cases t) (auto simp: edge_split_def)

section \<open>The pane chosen for a ratio update\<close>

lemma first_some_eq [simp]: "first_some None y = y" "first_some (Some v) y = Some v"
  by (simp_all add: first_some_def)

lemma first_some_Some: "first_some x y = Some v \<Longrightarrow> x = Some v \<or> y = Some v"
  by (cases x) auto

lemma splits_above_contains: "splits_above t p d \<Longrightarrow> p \<in> set (pane_ids_vec t)"
  by (induction t) auto

lemma leaf_without_crossing_sound:
  "leaf_without_crossing_dir t d act = Some p \<Longrightarrow> node_wf t \<Longrightarrow> distinct (pane_ids_vec t) \<Longrightarrow>
   p \<in> set (pane_ids_vec t) \<and> \<not> splits_above t p d"
proof (induction t)
  case (Split i d' r a b)
  then have "leaf_without_crossing_dir a d act = Some p \<or> leaf_without_crossing_dir b d act = Some p"
    and "d' \<noteq> d"
    by (auto split: if_splits dest: first_some_Some)
  with Split show ?case
    using splits_above_contains [of a p d] splits_above_contains [of b p d] by auto
next
  case (Stack ps e)
  then show ?case by (auto split: option.splits if_splits)
qed auto

lemma deepest_split_here:
  "p \<in> set (pane_ids_vec a) \<union> set (pane_ids_vec b) \<Longrightarrow> \<not> splits_above a p d \<Longrightarrow>
   \<not> splits_above b p d \<Longrightarrow> deepest_split_for_pane (Split s d r a b) p d = Some s"
  using deepest_walk_None_iff [of a p d] deepest_walk_None_iff [of b p d]
    fst_deepest_walk [of a p d] fst_deepest_walk [of b p d]
  by (auto simp: deepest_split_for_pane_def Let_def split: prod.splits)

lemma deepest_split_below:
  assumes "distinct (pane_ids_vec (Split i d' r a b))"
  shows "deepest_split_for_pane a p d = Some s \<Longrightarrow>
      deepest_split_for_pane (Split i d' r a b) p d = Some s"
    and "deepest_split_for_pane b p d = Some s \<Longrightarrow>
      deepest_split_for_pane (Split i d' r a b) p d = Some s"
proof -
  show "deepest_split_for_pane (Split i d' r a b) p d = Some s"
    if "deepest_split_for_pane a p d = Some s"
    using that by (auto simp: deepest_split_for_pane_def Let_def split: prod.splits)
  show "deepest_split_for_pane (Split i d' r a b) p d = Some s"
    if "deepest_split_for_pane b p d = Some s"
  proof -
    have "p \<in> set (pane_ids_vec b)"
      using that snd_deepest_walk_contains [of b p d] by (simp add: deepest_split_for_pane_def)
    then have "p \<notin> set (pane_ids_vec a)" using assms by auto
    then have "snd (deepest_walk a p d) = None"
      using snd_deepest_walk_contains [of a p d] by blast
    with that show ?thesis
      by (auto simp: deepest_split_for_pane_def Let_def split: prod.splits)
  qed
qed

definition ratio_target :: "split_edge \<Rightarrow> pane_id \<Rightarrow> rect \<Rightarrow> node \<Rightarrow> rect \<Rightarrow> split_resize option \<Rightarrow> bool" where
  "ratio_target edge pane pr t area res =
     (\<exists>sr s r a b. res = Some sr
        \<and> assigned t area (Split s (edge_dir edge) r a b) (sr_area sr)
        \<and> edge_split edge pane pr (Split s (edge_dir edge) r a b) (sr_area sr)
        \<and> deepest_split_for_pane t (set_pane sr) (edge_dir edge) = Some s)"

lemma ratio_target_below:
  assumes "distinct (pane_ids_vec (Split i d r a b))" and "\<not> too_small d area"
  shows "ratio_target edge pane pr a (fst (split_sides area d r)) res \<Longrightarrow>
      ratio_target edge pane pr (Split i d r a b) area res"
    and "ratio_target edge pane pr b (snd (split_sides area d r)) res \<Longrightarrow>
      ratio_target edge pane pr (Split i d r a b) area res"
proof -
  show "ratio_target edge pane pr (Split i d r a b) area res"
    if "ratio_target edge pane pr a (fst (split_sides area d r)) res"
    using that assigned_first [OF assms(2)] deepest_split_below(1) [OF assms(1)]
    unfolding ratio_target_def by (elim exE conjE) (intro exI conjI; (assumption | simp))
  show "ratio_target edge pane pr (Split i d r a b) area res"
    if "ratio_target edge pane pr b (snd (split_sides area d r)) res"
    using that assigned_second [OF assms(2)] deepest_split_below(2) [OF assms(1)]
    unfolding ratio_target_def by (elim exE conjE) (intro exI conjI; (assumption | simp))
qed

lemma split_walk_sound:
  "split_for_pane_edge_walk t area act pane pr edge best = res \<Longrightarrow> node_wf t \<Longrightarrow>
   distinct (pane_ids_vec t) \<Longrightarrow> res = best \<or> ratio_target edge pane pr t area res"
proof (induction t area act pane pr edge best rule: split_for_pane_edge_walk.induct)
  case (1 i dir ratio a b area act pane pr edge best)
  show ?case
  proof (cases "too_small dir area")
    case True
    with 1 show ?thesis by simp
  next
    case False
    obtain ra rb where sides: "split_sides area dir ratio = (ra, rb)"
      by (cases "split_sides area dir ratio")
    let ?first = "leaf_without_crossing_dir a dir act"
    let ?second = "leaf_without_crossing_dir b dir act"
    define best' where "best' = (if dir = edge_dir edge
        \<and> matches_boundary edge dir rb pr (contains a pane) (contains b pane)
      then let first = ?first; second = ?second
        in case (if after_first edge then first_some second first else first_some first second) of
             Some p \<Rightarrow> Some \<lparr>sr_area = area, set_pane = p\<rparr> | None \<Rightarrow> best
      else best)"
    have best': "best' = best \<or> ratio_target edge pane pr (Split i dir ratio a b) area best'"
    proof (cases "best' = best")
      case False
      then obtain p where p: "?first = Some p \<or> ?second = Some p"
        and eq: "best' = Some \<lparr>sr_area = area, set_pane = p\<rparr>" and dir: "dir = edge_dir edge"
        and m: "matches_boundary edge dir rb pr (contains a pane) (contains b pane)"
        by (auto simp: best'_def Let_def split: if_splits option.splits dest: first_some_Some)
      have "p \<in> set (pane_ids_vec a) \<union> set (pane_ids_vec b) \<and> \<not> splits_above a p dir
          \<and> \<not> splits_above b p dir"
        using p "1.prems" leaf_without_crossing_sound [of a dir act p]
          leaf_without_crossing_sound [of b dir act p]
          splits_above_contains [of a p dir] splits_above_contains [of b p dir]
        by auto
      then have "deepest_split_for_pane (Split i dir ratio a b) p dir = Some i"
        by (intro deepest_split_here) auto
      moreover have "edge_split edge pane pr (Split i dir ratio a b) area"
        using \<open>\<not> too_small dir area\<close> sides dir m by (simp add: edge_split_code)
      ultimately show ?thesis
        unfolding ratio_target_def eq using dir
        by (intro disjI2 exI [of _ "\<lparr>sr_area = area, set_pane = p\<rparr>"] exI [of _ i] exI)
          (auto intro: assigned.here)
    qed simp
    consider (a) "contains a pane" | (b) "\<not> contains a pane" "contains b pane"
      | (none) "\<not> contains a pane" "\<not> contains b pane" by blast
    then show ?thesis
    proof cases
      case a
      then have "split_for_pane_edge_walk a ra act pane pr edge best' = res"
        using "1.prems" False sides by (simp add: best'_def)
      then have "res = best' \<or> ratio_target edge pane pr a ra res"
        using "1.IH"(1) [OF False sides [symmetric] refl best'_def]
          a "1.prems" by (simp add: best'_def)
      with best' ratio_target_below(1) [OF "1.prems"(3) False, of edge pane pr res] sides
      show ?thesis by auto
    next
      case b
      then have "split_for_pane_edge_walk b rb act pane pr edge best' = res"
        using "1.prems" False sides by (simp add: best'_def)
      then have "res = best' \<or> ratio_target edge pane pr b rb res"
        using "1.IH"(2) [OF False sides [symmetric] refl best'_def]
          b "1.prems" by (simp add: best'_def)
      with best' ratio_target_below(2) [OF "1.prems"(3) False, of edge pane pr res] sides
      show ?thesis by auto
    next
      case none
      then have "res = best'"
        using "1.prems" False sides by (simp add: best'_def)
      with best' show ?thesis by blast
    qed
  qed
qed auto

section \<open>The search misses no split\<close>

lemma edge_split_contains:
  "edge_split edge pane pr t area \<Longrightarrow> pane \<in> set (pane_ids_vec t)"
  by (cases t; cases edge) (auto simp: edge_split_def Let_def)

lemma edge_split_pane:
  "assigned t area t' area' \<Longrightarrow> edge_split edge pane pr t' area' \<Longrightarrow> pane \<in> set (pane_ids_vec t)"
  using edge_split_contains subnodes_pane_ids assigned_subnode by blast

text \<open>The splits that qualify, and the innermost of them: it lies in every other one.\<close>

definition candidate :: "split_edge \<Rightarrow> pane_id \<Rightarrow> rect \<Rightarrow> node \<Rightarrow> rect \<Rightarrow> node \<Rightarrow> rect \<Rightarrow> bool" where
  "candidate edge pane pr t area n narea = (assigned t area n narea \<and> edge_split edge pane pr n narea)"

definition innermost :: "split_edge \<Rightarrow> pane_id \<Rightarrow> rect \<Rightarrow> node \<Rightarrow> rect \<Rightarrow> exact_split_resize \<Rightarrow> bool" where
  "innermost edge pane pr t area es =
     (\<exists>n d r a b. n = Split (es_split es) d r a b \<and> candidate edge pane pr t area n (es_area es)
        \<and> (\<forall>t' area'. candidate edge pane pr t area t' area' \<longrightarrow> assigned t' area' n (es_area es)))"

lemma candidate_Split:
  "candidate edge pane pr (Split i d r a b) area t' area' \<longleftrightarrow>
     (t' = Split i d r a b \<and> area' = area \<and> edge_split edge pane pr (Split i d r a b) area)
     \<or> (\<not> too_small d area \<and> (candidate edge pane pr a (fst (split_sides area d r)) t' area'
         \<or> candidate edge pane pr b (snd (split_sides area d r)) t' area'))"
  unfolding candidate_def
  by (auto elim!: assigned_SplitE intro: assigned.intros simp: roomy_too_small [symmetric])

lemma candidate_in: "candidate edge pane pr t area t' area' \<Longrightarrow> pane \<in> set (pane_ids_vec t)"
  using edge_split_pane by (auto simp: candidate_def)

text \<open>One level of the walk: with the pane on one side only that side and the split itself have
  candidates.\<close>

lemma innermost_level:
  assumes split: "\<And>t' area'. candidate edge pane pr t area t' area' \<longleftrightarrow>
      (t' = t \<and> area' = area \<and> self) \<or> candidate edge pane pr c carea t' area'"
    and down: "\<And>t' area'. assigned c carea t' area' \<Longrightarrow> assigned t area t' area'"
    and t: "t = Split i d r a b" and best': "best' = (if self then Some \<lparr>es_area = area, es_split = i\<rparr> else best)"
    and IH: "if \<exists>n narea. candidate edge pane pr c carea n narea
      then \<exists>es. res = Some es \<and> innermost edge pane pr c carea es else res = best'"
  shows "if \<exists>n narea. candidate edge pane pr t area n narea
      then \<exists>es. res = Some es \<and> innermost edge pane pr t area es else res = best"
proof (cases "\<exists>n narea. candidate edge pane pr c carea n narea")
  case True
  then obtain es n d' r' a' b' where res: "res = Some es" and n: "n = Split (es_split es) d' r' a' b'"
    and cand: "candidate edge pane pr c carea n (es_area es)"
    and inner: "\<forall>t' area'. candidate edge pane pr c carea t' area' \<longrightarrow> assigned t' area' n (es_area es)"
    using IH by (auto simp: innermost_def)
  have "candidate edge pane pr t area n (es_area es)"
    using cand split by blast
  moreover have "assigned t' area' n (es_area es)" if "candidate edge pane pr t area t' area'" for t' area'
    using that inner cand down unfolding split by (auto simp: candidate_def)
  ultimately have "innermost edge pane pr t area es"
    unfolding innermost_def using n by blast
  then show ?thesis
    using res cand split by auto
next
  case none: False
  show ?thesis
  proof (cases self)
    case True
    then have "res = Some \<lparr>es_area = area, es_split = i\<rparr>"
      using none IH best' by simp
    moreover have "candidate edge pane pr t area t area"
      using split True by blast
    moreover have "innermost edge pane pr t area \<lparr>es_area = area, es_split = i\<rparr>"
      using none split True t by (auto simp: innermost_def intro: assigned.here)
    ultimately show ?thesis by auto
  next
    case False
    then show ?thesis
      using none split IH best' by auto
  qed
qed

lemma candidate_leaf:
  "\<not> candidate edge pane pr (Leaf p) area n narea" "\<not> candidate edge pane pr (Stack ps p) area n narea"
  using edge_split_Split [of edge pane pr n narea] by (auto simp: candidate_def elim: assigned.cases)

lemma exact_walk_innermost:
  "distinct (pane_ids_vec t) \<Longrightarrow>
   (if \<exists>n narea. candidate edge pane pr t area n narea
    then \<exists>es. exact_split_for_pane_edge_walk t area pane pr edge best = Some es \<and> innermost edge pane pr t area es
    else exact_split_for_pane_edge_walk t area pane pr edge best = best)"
proof (induction t area pane pr edge best rule: exact_split_for_pane_edge_walk.induct)
  case (1 i dir ratio a b area pane pr edge best)
  let ?t = "Split i dir ratio a b"
  show ?case
  proof (cases "too_small dir area")
    case True
    then show ?thesis
      by (simp add: candidate_Split edge_split_code)
  next
    case False
    obtain ra rb where sides: "split_sides area dir ratio = (ra, rb)"
      by (cases "split_sides area dir ratio")
    define self where "self = edge_split edge pane pr ?t area"
    define best' where "best' = (if self then Some \<lparr>es_area = area, es_split = i\<rparr> else best)"
    have cond: "(dir = edge_dir edge \<and> matches_boundary edge dir rb pr (contains a pane) (contains b pane)) = self"
      using False sides by (simp add: self_def edge_split_code)
    have walk: "exact_split_for_pane_edge_walk ?t area pane pr edge best =
        (if contains a pane then exact_split_for_pane_edge_walk a ra pane pr edge best'
         else if contains b pane then exact_split_for_pane_edge_walk b rb pane pr edge best' else best')"
      unfolding exact_split_for_pane_edge_walk.simps sides Let_def case_prod_conv cond best'_def
      using False by (simp only: if_False)
    have disj: "set (pane_ids_vec a) \<inter> set (pane_ids_vec b) = {}" "distinct (pane_ids_vec a)" "distinct (pane_ids_vec b)"
      using "1.prems" by auto
    note cands = candidate_Split [of edge pane pr i dir ratio a b area, unfolded self_def [symmetric] sides fst_conv snd_conv]
    consider (a) "contains a pane" | (b) "\<not> contains a pane" "contains b pane"
      | (none) "\<not> contains a pane" "\<not> contains b pane" by blast
    then show ?thesis
    proof cases
      case a
      have "\<not> candidate edge pane pr b rb t' area'" for t' area'
        using a disj(1) candidate_in [of edge pane pr b rb t' area'] by auto
      then have "candidate edge pane pr ?t area t' area' \<longleftrightarrow>
          (t' = ?t \<and> area' = area \<and> self) \<or> candidate edge pane pr a ra t' area'" for t' area'
        using cands False by blast
      from innermost_level [OF this _ refl best'_def]
      show ?thesis
        using "1.IH"(1) [OF False sides [symmetric] refl refl refl refl a disj(2), unfolded cond, folded best'_def]
          assigned_first [OF False, of a ratio] sides a
        unfolding walk by simp
    next
      case b
      have "\<not> candidate edge pane pr a ra t' area'" for t' area'
        using b disj(1) candidate_in [of edge pane pr a ra t' area'] by auto
      then have "candidate edge pane pr ?t area t' area' \<longleftrightarrow>
          (t' = ?t \<and> area' = area \<and> self) \<or> candidate edge pane pr b rb t' area'" for t' area'
        using cands False by blast
      from innermost_level [OF this _ refl best'_def]
      show ?thesis
        using "1.IH"(2) [OF False sides [symmetric] refl refl refl refl b disj(3), unfolded cond, folded best'_def]
          assigned_second [OF False, of b ratio] sides b
        unfolding walk by simp
    next
      case none
      then have no: "\<not> candidate edge pane pr ?t area t' area'" for t' area'
        using candidate_in [of edge pane pr ?t area t' area'] by auto
      then have "\<not> self"
        using cands by blast
      then show ?thesis
        using no none unfolding walk by (simp add: best'_def)
    qed
  qed
qed (auto simp: candidate_leaf)

section \<open>Properties\<close>

text \<open>C4. Dragging a border. \<open>exact_split_for_pane_edge\<close> finds a split exactly when the drawn tree has one
  across the dragged edge of the pane: with the pane on its first side and the pane's right (or bottom)
  border on the line between the sides, or with the pane on its second side and the pane's left (or top)
  border on that line. What it returns is the innermost such split, which lies inside every other one,
  and the area that split is drawn in.\<close>

theorem exact_edge_search_correct:
  assumes "distinct (pane_ids_vec t)" and "rect_of (layout_screen t area act) pane = Some pr"
  shows "(\<forall>es. exact_split_for_pane_edge t area act pane edge = Some es \<longrightarrow>
       (\<exists>n d r a b. n = Split (es_split es) d r a b \<and> assigned t area n (es_area es)
          \<and> edge_split edge pane pr n (es_area es)
          \<and> (\<forall>t' area'. assigned t area t' area' \<and> edge_split edge pane pr t' area'
               \<longrightarrow> assigned t' area' n (es_area es))))
   \<and> (exact_split_for_pane_edge t area act pane edge = None \<longleftrightarrow>
       \<not> (\<exists>t' area'. assigned t area t' area' \<and> edge_split edge pane pr t' area'))"
proof -
  have w: "exact_split_for_pane_edge t area act pane edge
      = exact_split_for_pane_edge_walk t area pane pr edge None"
    using assms(2) by (simp add: exact_split_for_pane_edge_def)
  note walk = exact_walk_innermost [OF assms(1), of edge pane pr area None, folded w]
  show ?thesis
  proof (cases "\<exists>n narea. candidate edge pane pr t area n narea")
    case True
    then obtain es where es: "exact_split_for_pane_edge t area act pane edge = Some es"
      and inner: "innermost edge pane pr t area es"
      using walk by auto
    show ?thesis
      using inner True unfolding es innermost_def candidate_def by auto
  next
    case False
    then show ?thesis
      using walk by (auto simp: candidate_def)
  qed
qed

theorem exact_edge_search_correct_witness:
  "\<exists>es. exact_split_for_pane_edge (Split 9 DirRight half (Leaf 1) (Leaf 2))
     \<lparr>rx = 0, ry = 0, rw = 10, rh = 4\<rparr> None 1 EdgeRight = Some es"
proof -
  let ?t = "Split 9 DirRight half (Leaf 1) (Leaf 2)"
  let ?area = "\<lparr>rx = 0, ry = 0, rw = 10, rh = 4\<rparr>"
  have sides: "split_sides ?area DirRight half
      = (\<lparr>rx = 0, ry = 0, rw = 5, rh = 4\<rparr>, \<lparr>rx = 5, ry = 0, rw = 5, rh = 4\<rparr>)"
    by (simp add: split_extent_def half_def fl_eval sat_sub_def sat_add_def clamp_def)
  have pr: "rect_of (layout_screen ?t ?area None) 1 = Some \<lparr>rx = 0, ry = 0, rw = 5, rh = 4\<rparr>"
    using sides by (simp add: layout_screen_def rect_of_def too_small_def)
  have "edge_split EdgeRight 1 \<lparr>rx = 0, ry = 0, rw = 5, rh = 4\<rparr> ?t ?area"
    using sides by (simp add: edge_split_def roomy_def)
  moreover have "assigned ?t ?area ?t ?area" by (rule assigned.here)
  ultimately have "exact_split_for_pane_edge ?t ?area None 1 EdgeRight \<noteq> None"
    using exact_edge_search_correct [OF _ pr, of EdgeRight] by auto
  then show ?thesis by blast
qed

text \<open>Resizing at a border. The pane \<open>split_for_pane_edge\<close> hands to \<open>set_ratio\<close> makes that
  call move the split behind the border: it is a split of the edge's direction with the
  border on its line, and it is exactly the deepest split of that direction above the
  pane handed out.\<close>

theorem split_for_pane_edge_targets:
  assumes "node_wf t" and "distinct (pane_ids_vec t)"
    and "split_for_pane_edge t area act pane edge = Some sr"
  shows "\<exists>pr s r a b. rect_of (layout_screen t area act) pane = Some pr
     \<and> assigned t area (Split s (edge_dir edge) r a b) (sr_area sr)
     \<and> edge_split edge pane pr (Split s (edge_dir edge) r a b) (sr_area sr)
     \<and> deepest_split_for_pane t (set_pane sr) (edge_dir edge) = Some s"
proof -
  from assms(3) obtain pr where "rect_of (layout_screen t area act) pane = Some pr"
    and "split_for_pane_edge_walk t area act pane pr edge None = Some sr"
    by (auto simp: split_for_pane_edge_def bind_eq_Some_conv)
  with split_walk_sound [OF _ assms(1,2), of area act pane pr edge None "Some sr"]
  show ?thesis by (auto simp: ratio_target_def)
qed

theorem split_for_pane_edge_targets_witness:
  "\<exists>s. split_for_pane_edge (Split 9 DirRight half (Leaf 1) (Leaf 2))
       \<lparr>rx = 0, ry = 0, rw = 10, rh = 4\<rparr> None 1 EdgeRight
       = Some \<lparr>sr_area = \<lparr>rx = 0, ry = 0, rw = 10, rh = 4\<rparr>, set_pane = 2\<rparr>
     \<and> deepest_split_for_pane (Split 9 DirRight half (Leaf 1) (Leaf 2)) 2 DirRight = Some s"
proof -
  let ?t = "Split 9 DirRight half (Leaf 1) (Leaf 2)"
  let ?area = "\<lparr>rx = 0, ry = 0, rw = 10, rh = 4\<rparr>"
  have sides: "split_sides ?area DirRight half
      = (\<lparr>rx = 0, ry = 0, rw = 5, rh = 4\<rparr>, \<lparr>rx = 5, ry = 0, rw = 5, rh = 4\<rparr>)"
    by (simp add: split_extent_def half_def fl_eval sat_sub_def sat_add_def clamp_def)
  have res: "split_for_pane_edge ?t ?area None 1 EdgeRight = Some \<lparr>sr_area = ?area, set_pane = 2\<rparr>"
    using sides by (simp add: split_for_pane_edge_def layout_screen_def rect_of_def too_small_def
        matches_boundary_def after_first_def)
  from split_for_pane_edge_targets [OF _ _ res] show ?thesis
    using res by auto
qed

end
