(* ===== verification/ViewportLayout.thy ===== *)
theory ViewportLayout
  imports EdgeSearch
begin

text \<open>
  Layouts whose marked right splits extend the screen horizontally:
  \<open>layout_screen_with_viewport\<close>, \<open>walk_viewport\<close>, the column records and the edge search
  over them (\<open>cmux-tui-core/src/layout.rs\<close>). \<open>walk_viewport\<close> returns the output record
  and the first unused absolute x coordinate.
\<close>

text \<open>The constants \<open>0.1\<close> and \<open>1.0\<close>.\<close>

definition min_viewport_pane_width :: f32 where
  "min_viewport_pane_width = f32_round (1 / 10)"

definition max_viewport_pane_width :: f32 where
  "max_viewport_pane_width = FFin 1"

definition viewport_column_cells :: "u16 \<Rightarrow> f32 \<Rightarrow> u16" where
  "viewport_column_cells viewport_width width =
     (let width = fl_clamp min_viewport_pane_width max_viewport_pane_width width
      in clamp 1 (max viewport_width 1)
           (word_of_nat (fl_to_uint 65535
             (fl_round_int (fl_mul f32_round (FFin (of_nat (unat viewport_width))) width)))))"

text \<open>\<open>extent as f64\<close> rounds; \<open>f64::from(ratio)\<close> is exact.\<close>

definition split_virtual_extent :: "u64 \<Rightarrow> f32 \<Rightarrow> u64 \<times> u64" where
  "split_virtual_extent extent ratio =
     (if extent = 0 then (0, 0)
      else let first = word_of_nat (fl_to_uint (2 ^ 64 - 1)
                 (fl_round_int (fl_mul f64_round (f64_round (of_nat (unat extent))) ratio)));
               first = clamp 1 (max (sat_sub extent 1) 1) first
           in (first, extent - first))"

fun split_virtual_sides :: "vrect \<Rightarrow> split_dir \<Rightarrow> f32 \<Rightarrow> vrect \<times> vrect" where
  "split_virtual_sides area DirRight ratio =
     (let (first_width, second_width) = split_virtual_extent (vw area) ratio in
      (area\<lparr>vw := first_width\<rparr>,
       area\<lparr>vx := sat_add (vx area) first_width, vw := second_width\<rparr>))"
| "split_virtual_sides area DirDown ratio =
     (let (first_height, second_height) = split_extent (vh area) ratio in
      (area\<lparr>vh := first_height\<rparr>,
       area\<lparr>vy := sat_add (vy area) first_height, vh := second_height\<rparr>))"

definition vtoo_small :: "split_dir \<Rightarrow> vrect \<Rightarrow> bool" where
  "vtoo_small dir area = (case dir of DirRight \<Rightarrow> vw area < 2 | DirDown \<Rightarrow> vh area < 2)"

section \<open>Recording panes\<close>

definition extend_column :: "viewport_column_rect \<Rightarrow> vrect \<Rightarrow> viewport_column_rect" where
  "extend_column c r =
     (let q = col_rect c;
          right = max (sat_add (vx q) (vw q)) (sat_add (vx r) (vw r));
          bottom = max (sat_add (vy q) (vh q)) (sat_add (vy r) (vh r));
          x = min (vx q) (vx r);
          y = min (vy q) (vy r)
      in c\<lparr>col_rect := \<lparr>vx = x, vy = y, vw = sat_sub right x, vh = sat_sub bottom y\<rparr>\<rparr>)"

definition record_viewport_pane ::
    "viewport_layout_result \<Rightarrow> viewport_column \<Rightarrow> pane_id \<Rightarrow> vrect \<Rightarrow> viewport_layout_result" where
  "record_viewport_pane out owner pane r =
     (let out = out\<lparr>vpanes := vpanes out @ [(pane, r)]\<rparr> in
      if vw r = 0 \<or> vh r = 0 then out
      else if columns out \<noteq> [] \<and> col_owner (last (columns out)) = owner
      then out\<lparr>columns := butlast (columns out) @ [extend_column (last (columns out)) r]\<rparr>
      else out\<lparr>columns := columns out @
                 [\<lparr>col_owner = owner, col_representative = pane, col_rect = r\<rparr>]\<rparr>)"

definition viewport_result_default :: viewport_layout_result where
  "viewport_result_default =
     \<lparr>vpanes = [], columns = [], vstacked_headers = {}, vvirtual_width = 0\<rparr>"

definition viewport_from_layout :: "layout_result \<Rightarrow> viewport_layout_result" where
  "viewport_from_layout l =
     fold (\<lambda>(pane, r) out. record_viewport_pane out ColBase pane (vrect_from_rect r)) (panes l)
       (viewport_result_default\<lparr>vstacked_headers := stacked_headers l,
                                vvirtual_width := ucast (virtual_width l)\<rparr>)"

fun viewport_stack_rows ::
    "(nat \<Rightarrow> u16) \<Rightarrow> nat \<Rightarrow> vrect \<Rightarrow> viewport_column \<Rightarrow> nat \<Rightarrow> u16 \<Rightarrow> pane_id list
     \<Rightarrow> viewport_layout_result \<Rightarrow> viewport_layout_result" where
  "viewport_stack_rows height expanded_index area owner index y [] out = out"
| "viewport_stack_rows height expanded_index area owner index y (pane # rest) out =
     (let h = height index;
          out = record_viewport_pane out owner pane (area\<lparr>vy := y, vh := h\<rparr>);
          out = (if h = 1 \<and> index \<noteq> expanded_index
                 then out\<lparr>vstacked_headers := insert pane (vstacked_headers out)\<rparr> else out)
      in viewport_stack_rows height expanded_index area owner (Suc index) (sat_add y h) rest out)"

definition walk_viewport_stack ::
    "pane_id list \<Rightarrow> pane_id \<Rightarrow> vrect \<Rightarrow> viewport_column \<Rightarrow> viewport_layout_result
     \<Rightarrow> viewport_layout_result" where
  "walk_viewport_stack ps expanded area owner out =
     (let (e, hb, ha, eh) = stack_plan ps expanded (vh area)
      in viewport_stack_rows (row_height e hb ha eh) e area owner 0 (vy area) ps out)"

section \<open>The walk\<close>

fun walk_viewport ::
    "node \<Rightarrow> vrect \<Rightarrow> u16 \<Rightarrow> pane_id option \<Rightarrow> viewport_splits \<Rightarrow> viewport_column
     \<Rightarrow> viewport_layout_result \<Rightarrow> viewport_layout_result \<times> u64" where
  "walk_viewport (Leaf i) area viewport_width active vs owner out =
     (record_viewport_pane out owner i area, sat_add (vx area) (vw area))"
| "walk_viewport (Split i dir ratio a b) area viewport_width active vs owner out =
     (case (dir, vs i) of
        (DirRight, Some w) \<Rightarrow>
          let (out, a_end) = walk_viewport a area viewport_width active vs owner out;
              width = viewport_column_cells viewport_width w
          in walk_viewport b (area\<lparr>vx := a_end, vw := ucast width\<rparr>) viewport_width active vs
               (ColSplit i) out
      | _ \<Rightarrow>
          if vtoo_small dir area then
            let (out, a_end) = walk_viewport a area viewport_width active vs owner out;
                (out, b_end) = walk_viewport b (area\<lparr>vw := 0, vh := 0\<rparr>) viewport_width active vs
                                 owner out
            in (out, max a_end b_end)
          else
            let (a_rect, b_rect) = split_virtual_sides area dir ratio;
                (out, a_end) = walk_viewport a a_rect viewport_width active vs owner out;
                (out, b_end) = walk_viewport b b_rect viewport_width active vs owner out
            in (out, max a_end b_end))"
| "walk_viewport (Stack ps expanded) area viewport_width active vs owner out =
     (walk_viewport_stack ps (stack_selection active ps expanded) area owner out,
      sat_add (vx area) (vw area))"

definition viewport_base_area :: "rect \<Rightarrow> f32 \<Rightarrow> vrect" where
  "viewport_base_area area base_width =
     \<lparr>vx = ucast (rx area), vy = ry area,
      vw = ucast (viewport_column_cells (rw area) base_width), vh = rh area\<rparr>"

definition layout_screen_with_viewport ::
    "node \<Rightarrow> rect \<Rightarrow> pane_id option \<Rightarrow> f32 \<Rightarrow> viewport_splits \<Rightarrow> viewport_layout_result" where
  "layout_screen_with_viewport tree area active base_width vs =
     (let (out, stop) = walk_viewport tree (viewport_base_area area base_width) (rw area) active vs
                          ColBase viewport_result_default
      in out\<lparr>vvirtual_width := max (sat_sub stop (ucast (rx area))) (ucast (rw area))\<rparr>)"

section \<open>Edges of viewport layouts\<close>

record exact_viewport_split_resize =
  ev_area :: vrect
  ev_split :: split_id

definition exact_viewport_from_exact :: "exact_split_resize \<Rightarrow> exact_viewport_split_resize" where
  "exact_viewport_from_exact r = \<lparr>ev_area = vrect_from_rect (es_area r), ev_split = es_split r\<rparr>"

definition vmatches_boundary ::
    "split_edge \<Rightarrow> split_dir \<Rightarrow> vrect \<Rightarrow> vrect \<Rightarrow> bool \<Rightarrow> bool \<Rightarrow> bool" where
  "vmatches_boundary edge dir b_rect pane_rect pane_in_a pane_in_b =
     (let boundary = (case dir of DirRight \<Rightarrow> vx b_rect | DirDown \<Rightarrow> ucast (vy b_rect)) in
      case edge of
        EdgeRight \<Rightarrow> pane_in_a \<and> sat_add (vx pane_rect) (vw pane_rect) = boundary
      | EdgeLeft \<Rightarrow> pane_in_b \<and> vx pane_rect = boundary
      | EdgeBottom \<Rightarrow> pane_in_a \<and> ucast (sat_add (vy pane_rect) (vh pane_rect)) = boundary
      | EdgeTop \<Rightarrow> pane_in_b \<and> ucast (vy pane_rect) = boundary)"

text \<open>The two sides and the resize area of a split; \<open>None\<close> is the early return of a split
  too small to show both.\<close>

definition viewport_split_rects ::
    "node \<Rightarrow> split_id \<Rightarrow> split_dir \<Rightarrow> f32 \<Rightarrow> vrect \<Rightarrow> u16 \<Rightarrow> pane_id option \<Rightarrow> viewport_splits
     \<Rightarrow> (vrect \<times> vrect \<times> vrect) option" where
  "viewport_split_rects a i dir ratio area viewport_width active vs =
     (case (dir, vs i) of
        (DirRight, Some w) \<Rightarrow>
          let (_, a_end) = walk_viewport a area viewport_width active vs ColBase
                             viewport_result_default;
              width = viewport_column_cells viewport_width w;
              b_rect = area\<lparr>vx := a_end, vw := ucast width\<rparr>
          in Some (area, b_rect,
                   area\<lparr>vw := sat_sub (sat_add (vx b_rect) (vw b_rect)) (vx area)\<rparr>)
      | _ \<Rightarrow>
          if vtoo_small dir area then None
          else let (a_rect, b_rect) = split_virtual_sides area dir ratio
               in Some (a_rect, b_rect, area))"

fun exact_split_for_pane_edge_viewport_walk ::
    "node \<Rightarrow> vrect \<Rightarrow> u16 \<Rightarrow> pane_id option \<Rightarrow> viewport_splits \<Rightarrow> pane_id \<Rightarrow> vrect \<Rightarrow> split_edge
     \<Rightarrow> exact_viewport_split_resize option \<Rightarrow> exact_viewport_split_resize option" where
  "exact_split_for_pane_edge_viewport_walk (Split i dir ratio a b) area viewport_width active vs
       pane pane_rect edge best =
     (case viewport_split_rects a i dir ratio area viewport_width active vs of
        None \<Rightarrow> best
      | Some (a_rect, b_rect, split_area) \<Rightarrow>
          let pane_in_a = contains a pane;
              pane_in_b = contains b pane;
              best =
                (if dir = edge_dir edge
                    \<and> vmatches_boundary edge dir b_rect pane_rect pane_in_a pane_in_b
                 then Some \<lparr>ev_area = split_area, ev_split = i\<rparr> else best)
          in if pane_in_a
             then exact_split_for_pane_edge_viewport_walk a a_rect viewport_width active vs pane
                    pane_rect edge best
             else if pane_in_b
             then exact_split_for_pane_edge_viewport_walk b b_rect viewport_width active vs pane
                    pane_rect edge best
             else best)"
| "exact_split_for_pane_edge_viewport_walk _ area viewport_width active vs pane pane_rect edge best
     = best"

definition exact_split_for_pane_edge_with_viewport ::
    "node \<Rightarrow> rect \<Rightarrow> pane_id option \<Rightarrow> pane_id \<Rightarrow> split_edge \<Rightarrow> f32 \<Rightarrow> viewport_splits
     \<Rightarrow> exact_viewport_split_resize option" where
  "exact_split_for_pane_edge_with_viewport tree area active pane edge base_width vs =
     Option.bind (vrect_of (layout_screen_with_viewport tree area active base_width vs) pane)
       (\<lambda>pane_rect. exact_split_for_pane_edge_viewport_walk tree
          (viewport_base_area area base_width) (rw area) active vs pane pane_rect edge None)"

section \<open>The f64 splitter\<close>

interpretation f64_split: extent_split split_virtual_extent
proof
  fix e :: u64 and r
  show "unat (fst (split_virtual_extent e r)) + unat (snd (split_virtual_extent e r)) = unat e"
    by (auto simp: split_virtual_extent_def Let_def clamped_split)
  show "0 < unat (fst (split_virtual_extent e r)) \<and> 0 < unat (snd (split_virtual_extent e r))"
    if "2 \<le> unat e"
    using that clamped_split(2) [of e] by (auto simp: split_virtual_extent_def Let_def)
qed

lemma viewport_column_cells_bounds:
  "1 \<le> viewport_column_cells v w \<and> viewport_column_cells v w \<le> max v 1"
  unfolding viewport_column_cells_def Let_def by (rule clamp_bounds) simp

section \<open>Cells of a viewport layout\<close>

definition vcells :: "vrect \<Rightarrow> (nat \<times> nat) set" where
  "vcells r = {unat (vx r) ..< unat (vx r) + unat (vw r)}
              \<times> {unat (vy r) ..< unat (vy r) + unat (vh r)}"

definition vfits :: "vrect \<Rightarrow> bool" where
  "vfits r = (unat (vx r) + unat (vw r) < 2 ^ 64 \<and> unat (vy r) + unat (vh r) < 2 ^ 16)"

definition vcover_count :: "(pane_id \<times> vrect) list \<Rightarrow> nat \<times> nat \<Rightarrow> nat" where
  "vcover_count ps c = length (filter (\<lambda>(_, r). c \<in> vcells r) ps)"

lemma vcover_count_append [simp]: "vcover_count (xs @ ys) c = vcover_count xs c + vcover_count ys c"
  by (simp add: vcover_count_def)

lemma vcover_count_Cons [simp]:
  "vcover_count ((i, r) # xs) c = (if c \<in> vcells r then 1 else 0) + vcover_count xs c"
  by (simp add: vcover_count_def)

lemma vcover_count_Nil [simp]: "vcover_count [] c = 0"
  by (simp add: vcover_count_def)

lemma vpanes_record [simp]:
  "vpanes (record_viewport_pane out owner p r) = vpanes out @ [(p, r)]"
  by (simp add: record_viewport_pane_def Let_def)

section \<open>Viewport layouts tile their columns\<close>

fun viewport_stack_rects ::
    "(nat \<Rightarrow> u16) \<Rightarrow> vrect \<Rightarrow> nat \<Rightarrow> u16 \<Rightarrow> pane_id list \<Rightarrow> (pane_id \<times> vrect) list" where
  "viewport_stack_rects hf area i y [] = []"
| "viewport_stack_rects hf area i y (p # ps) =
     (p, area\<lparr>vy := y, vh := hf i\<rparr>) # viewport_stack_rects hf area (Suc i) (sat_add y (hf i)) ps"

lemma vpanes_stack_rows:
  "vpanes (viewport_stack_rows hf e area owner i y ps out)
     = vpanes out @ viewport_stack_rects hf area i y ps"
  by (induction hf e area owner i y ps out rule: viewport_stack_rows.induct) (auto simp: Let_def)

lemma map_fst_stack_rects: "map fst (viewport_stack_rects hf area i y ps) = ps"
  by (induction ps arbitrary: i y) auto

lemma vcover_stack_rects:
  "unat y + (\<Sum>k<length ps. unat (hf (i + k))) < 2 ^ 16 \<Longrightarrow>
   vcover_count (viewport_stack_rects hf area i y ps) (cx, cy) =
     (if unat (vx area) \<le> cx \<and> cx < unat (vx area) + unat (vw area) \<and> unat y \<le> cy
         \<and> cy < unat y + (\<Sum>k<length ps. unat (hf (i + k))) then 1 else 0)"
proof (induction ps arbitrary: i y)
  case (Cons p ps)
  define S where "S = (\<Sum>k<length ps. unat (hf (Suc i + k)))"
  have sum: "(\<Sum>k<length (p # ps). unat (hf (i + k))) = unat (hf i) + S"
    by (simp add: S_def sum.lessThan_Suc_shift del: sum.lessThan_Suc)
  have y: "unat (sat_add y (hf i)) = unat y + unat (hf i)"
    using Cons.prems unfolding sum by (simp add: unat_sat_add)
  have IH: "vcover_count (viewport_stack_rects hf area (Suc i) (sat_add y (hf i)) ps) (cx, cy) =
     (if unat (vx area) \<le> cx \<and> cx < unat (vx area) + unat (vw area) \<and> unat y + unat (hf i) \<le> cy
         \<and> cy < unat y + unat (hf i) + S then 1 else 0)"
    using Cons.IH [of "sat_add y (hf i)" "Suc i"] Cons.prems y unfolding sum S_def [symmetric] by simp
  show ?case
    unfolding sum by (auto simp: IH vcells_def)
qed simp

lemma vcover_walk_stack:
  assumes "ps \<noteq> []" and "vfits area"
  shows "vcover_count (vpanes (walk_viewport_stack ps x area owner out)) c =
    vcover_count (vpanes out) c + (if c \<in> vcells area then 1 else 0)"
proof -
  obtain e hb ha eh where plan: "stack_plan ps x (vh area) = (e, hb, ha, eh)"
    by (metis prod_cases4)
  note P = stack_plan_spec [OF assms(1) plan]
  have "(\<Sum>k<length ps. unat (row_height e hb ha eh (0 + k))) = unat (vh area)"
    using row_height_sum [OF P(1-3)] P(5) by simp
  then have "vcover_count (viewport_stack_rects (row_height e hb ha eh) area 0 (vy area) ps) c =
      (if c \<in> vcells area then 1 else 0)"
    using vcover_stack_rects [of "vy area" "row_height e hb ha eh" 0 ps area "fst c" "snd c"] assms(2)
    by (cases c) (simp add: vcells_def vfits_def)
  then show ?thesis
    by (simp add: walk_viewport_stack_def plan vpanes_stack_rows)
qed

lemma map_fst_walk_viewport:
  "map fst (vpanes (fst (walk_viewport t area v act vs owner out)))
     = map fst (vpanes out) @ pane_ids_vec t"
  by (induction t area v act vs owner out rule: walk_viewport.induct)
    (auto simp: Let_def walk_viewport_stack_def vpanes_stack_rows map_fst_stack_rects
      split: prod.splits option.splits split_dir.splits)

lemma walk_viewport_appends:
  "\<exists>new. vpanes (fst (walk_viewport t area v act vs owner out)) = vpanes out @ new"
proof (induction t arbitrary: area owner out)
  case (Split i dir r a b)
  have "\<exists>new. vpanes (fst (walk_viewport b rb v act vs o2 (fst (walk_viewport a ra v act vs o1 out)))) = vpanes out @ new"
    for ra rb o1 o2
    using Split.IH(1) [of ra o1 out] Split.IH(2) [of rb o2 "fst (walk_viewport a ra v act vs o1 out)"] by auto
  then show ?case
    by (simp add: Let_def case_prod_unfold split: split_dir.split option.split)
qed (auto simp: walk_viewport_stack_def vpanes_stack_rows Let_def split: prod.splits)

lemma walk_viewport_new:
  assumes "walk_viewport t area v act vs owner out = (out', stop)"
  obtains new where "vpanes out' = vpanes out @ new" and "map fst new = pane_ids_vec t"
proof -
  obtain new where "vpanes out' = vpanes out @ new"
    using walk_viewport_appends [of t area v act vs owner out] assms by auto
  moreover from this have "map fst new = pane_ids_vec t"
    using map_fst_walk_viewport [of t area v act vs owner out] assms by simp
  ultimately show ?thesis by (rule that)
qed

lemma split_virtual_sides_cells:
  assumes "vfits area" and "split_virtual_sides area dir r = (a, b)"
  shows "(if c \<in> vcells a then 1 else 0) + (if c \<in> vcells b then 1 else (0 :: nat))
      = (if c \<in> vcells area then 1 else 0)"
    and "vfits a" and "vfits b"
    and "max (unat (vx a) + unat (vw a)) (unat (vx b) + unat (vw b)) = unat (vx area) + unat (vw area)"
proof -
  have "(if c \<in> vcells a then 1 else 0) + (if c \<in> vcells b then 1 else (0 :: nat))
      = (if c \<in> vcells area then 1 else 0) \<and> vfits a \<and> vfits b
    \<and> max (unat (vx a) + unat (vw a)) (unat (vx b) + unat (vw b)) = unat (vx area) + unat (vw area)"
  proof (cases dir)
    case DirRight
    obtain f s where fs: "split_virtual_extent (vw area) r = (f, s)"
      by (cases "split_virtual_extent (vw area) r")
    have "unat f + unat s = unat (vw area)"
      using f64_split.sums [of "vw area" r] fs by simp
    moreover have "unat (sat_add (vx area) f) = unat (vx area) + unat f"
      using f64_split.second_start [of "vx area" "vw area" r] fs assms by (simp add: vfits_def)
    moreover have "a = area\<lparr>vw := f\<rparr>" "b = area\<lparr>vx := sat_add (vx area) f, vw := s\<rparr>"
      using assms(2) DirRight fs by auto
    ultimately show ?thesis
      using assms(1) by (cases c) (simp add: vcells_def vfits_def)
  next
    case DirDown
    obtain f s where fs: "split_extent (vh area) r = (f, s)"
      by (cases "split_extent (vh area) r")
    have "unat f + unat s = unat (vh area)"
      using f32_split.sums [of "vh area" r] fs by simp
    moreover have "unat (sat_add (vy area) f) = unat (vy area) + unat f"
      using f32_split.second_start [of "vy area" "vh area" r] fs assms by (simp add: vfits_def)
    moreover have "a = area\<lparr>vh := f\<rparr>" "b = area\<lparr>vy := sat_add (vy area) f, vh := s\<rparr>"
      using assms(2) DirDown fs by auto
    ultimately show ?thesis
      using assms(1) by (cases c) (auto simp: vcells_def vfits_def)
  qed
  then show "(if c \<in> vcells a then 1 else 0) + (if c \<in> vcells b then 1 else (0 :: nat))
      = (if c \<in> vcells area then 1 else 0)" "vfits a" "vfits b"
    "max (unat (vx a) + unat (vw a)) (unat (vx b) + unat (vw b)) = unat (vx area) + unat (vw area)"
    by blast+
qed

text \<open>A tree without marked splits, and the shape of every multi-column projection: marked
  splits on the left spine only.\<close>

fun plain_tree :: "viewport_splits \<Rightarrow> node \<Rightarrow> bool" where
  "plain_tree vs (Split i dir r a b) =
     ((dir = DirRight \<longrightarrow> vs i = None) \<and> plain_tree vs a \<and> plain_tree vs b)"
| "plain_tree vs t = True"

fun spine_tree :: "viewport_splits \<Rightarrow> node \<Rightarrow> bool" where
  "spine_tree vs (Split i dir r a b) =
     (if dir = DirRight \<and> vs i \<noteq> None then spine_tree vs a \<and> plain_tree vs b
      else plain_tree vs (Split i dir r a b))"
| "spine_tree vs t = True"

fun spine_extent :: "viewport_splits \<Rightarrow> u16 \<Rightarrow> nat \<Rightarrow> node \<Rightarrow> nat" where
  "spine_extent vs v base (Split i dir r a b) =
     (case (dir, vs i) of
        (DirRight, Some w) \<Rightarrow> spine_extent vs v base a + unat (viewport_column_cells v w)
      | _ \<Rightarrow> base)"
| "spine_extent vs v base t = base"

lemma plain_walk:
  "plain_tree vs t \<Longrightarrow> node_wf t \<Longrightarrow> vfits area \<Longrightarrow>
   walk_viewport t area v act vs owner out = (out', stop) \<Longrightarrow>
   unat stop = unat (vx area) + unat (vw area) \<and>
   vcover_count (vpanes out') c = vcover_count (vpanes out) c + (if c \<in> vcells area then 1 else 0)"
proof (induction t arbitrary: area owner out out' stop)
  case (Leaf i)
  then show ?case by (auto simp: unat_sat_add vfits_def)
next
  case (Stack ps e)
  then show ?case by (auto simp: unat_sat_add vfits_def vcover_walk_stack)
next
  case (Split i dir r a b)
  have plain: "\<not> (dir = DirRight \<and> vs i \<noteq> None)" using Split.prems by auto
  show ?case
  proof (cases "vtoo_small dir area")
    case True
    obtain o1 e1 where w1: "walk_viewport a area v act vs owner out = (o1, e1)" by fastforce
    obtain o2 e2 where w2: "walk_viewport b (area\<lparr>vw := 0, vh := 0\<rparr>) v act vs owner o1 = (o2, e2)"
      by fastforce
    have res: "out' = o2" "stop = max e1 e2"
      using Split.prems(4) plain True w1 w2
      by (auto simp: Let_def split: split_dir.splits option.splits)
    have "vfits (area\<lparr>vw := 0, vh := 0\<rparr>)" "c \<notin> vcells (area\<lparr>vw := 0, vh := 0\<rparr>)"
      using Split.prems(3) by (auto simp: vfits_def vcells_def)
    with Split.IH(1) [OF _ _ _ w1] Split.IH(2) [OF _ _ _ w2] Split.prems res
    show ?thesis by (simp add: unat_max)
  next
    case False
    obtain ra rb where sides: "split_virtual_sides area dir r = (ra, rb)"
      by (cases "split_virtual_sides area dir r")
    obtain o1 e1 where w1: "walk_viewport a ra v act vs owner out = (o1, e1)" by fastforce
    obtain o2 e2 where w2: "walk_viewport b rb v act vs owner o1 = (o2, e2)" by fastforce
    have res: "out' = o2" "stop = max e1 e2"
      using Split.prems(4) plain False w1 w2 sides
      by (auto simp: Let_def split: split_dir.splits option.splits)
    note S = split_virtual_sides_cells [OF Split.prems(3) sides]
    from Split.IH(1) [OF _ _ S(2) w1] Split.IH(2) [OF _ _ S(3) w2] Split.prems res S(1) [of c] S(4)
    show ?thesis by (simp add: unat_max)
  qed
qed

lemma unat_column_cells: "unat (ucast (viewport_column_cells v w) :: u64) = unat (viewport_column_cells v w)"
  by (rule unat_ucast_up) simp

lemma spine_walk:
  "spine_tree vs t \<Longrightarrow> node_wf t \<Longrightarrow> vfits area \<Longrightarrow>
   unat (vx area) + spine_extent vs v (unat (vw area)) t < 2 ^ 64 \<Longrightarrow>
   walk_viewport t area v act vs owner out = (out', stop) \<Longrightarrow>
   unat stop = unat (vx area) + spine_extent vs v (unat (vw area)) t \<and>
   vcover_count (vpanes out') (cx, cy) = vcover_count (vpanes out) (cx, cy) +
     (if unat (vx area) \<le> cx \<and> cx < unat (vx area) + spine_extent vs v (unat (vw area)) t
         \<and> unat (vy area) \<le> cy \<and> cy < unat (vy area) + unat (vh area) then 1 else 0)"
proof (induction t arbitrary: owner out out' stop)
  case (Split i dir r a b)
  show ?case
  proof (cases "dir = DirRight \<and> vs i \<noteq> None")
    case False
    then have "spine_extent vs v (unat (vw area)) (Split i dir r a b) = unat (vw area)"
      by (auto split: split_dir.splits option.splits)
    with False plain_walk [OF _ Split.prems(2,3,5)] Split.prems(1) show ?thesis
      by (simp add: vcells_def del: walk_viewport.simps plain_tree.simps)
  next
    case True
    then obtain w where w: "dir = DirRight" "vs i = Some w" by auto
    let ?w = "viewport_column_cells v w" and ?E = "spine_extent vs v (unat (vw area)) a"
    obtain o1 e1 where w1: "walk_viewport a area v act vs owner out = (o1, e1)" by fastforce
    let ?b = "area\<lparr>vx := e1, vw := ucast ?w\<rparr>"
    have w2: "walk_viewport b ?b v act vs (ColSplit i) o1 = (out', stop)"
      using Split.prems(5) w w1 by (simp add: Let_def)
    have ext: "spine_extent vs v (unat (vw area)) (Split i dir r a b) = ?E + unat ?w"
      using w by simp
    with Split.prems have bound: "unat (vx area) + (?E + unat ?w) < 2 ^ 64" by simp
    have A: "unat e1 = unat (vx area) + ?E \<and>
      vcover_count (vpanes o1) (cx, cy) = vcover_count (vpanes out) (cx, cy) +
       (if unat (vx area) \<le> cx \<and> cx < unat (vx area) + ?E
         \<and> unat (vy area) \<le> cy \<and> cy < unat (vy area) + unat (vh area) then 1 else 0)"
      using Split.IH(1) [OF _ _ Split.prems(3) _ w1] Split.prems(1,2) w bound by simp
    have "vfits ?b"
      using A bound Split.prems(3) by (simp add: vfits_def unat_column_cells)
    from plain_walk [OF _ _ this w2, of "(cx, cy)"] Split.prems(1,2) w A ext show ?thesis
      by (simp add: vcells_def unat_column_cells)
  qed
qed (auto simp: unat_sat_add vfits_def vcover_walk_stack vcells_def)

section \<open>Rounding of cell counts\<close>

lemma round_half_away_int: "round_half_away (of_int k) = k"
proof -
  have "\<lfloor>of_int k + 1 / 2 :: rat\<rfloor> = k" "\<lfloor>of_int (- k) + 1 / 2 :: rat\<rfloor> = - k"
    by (rule floor_unique; simp)+
  then show ?thesis by (simp only: round_half_away_def of_int_minus minus_minus if_cancel)
qed

lemma f32_round_small_nat:
  assumes "n \<le> 65535"
  shows "f32_round (of_nat n) = FFin (of_nat n)"
  unfolding f32_round_def
proof (rule fl_round_exact [where k = 23 and m = "int n"])
  have "(of_nat n :: rat) \<le> 65535"
    using assms by (metis of_nat_le_iff of_nat_numeral)
  then show "of_nat n < pow2 (int 23 + 1)"
    by (simp add: pow2_def)
qed (simp_all add: pow2_def)

lemma full_width_cells:
  assumes "n \<le> 65535"
  shows "fl_to_uint 65535 (fl_round_int (fl_mul f32_round (FFin (of_nat n)) (FFin 1))) = n"
proof -
  have "\<lfloor>of_nat n :: rat\<rfloor> = int n"
    using floor_of_int [of "int n", where 'a = rat] by simp
  moreover have "round_half_away (of_nat n) = int n"
    using round_half_away_int [of "int n"] by simp
  ultimately show ?thesis
    using assms by (auto simp: f32_round_small_nat)
qed

lemma viewport_layout_cover:
  assumes "node_wf t" and "spine_tree vs t" and "unat (ry area) + unat (rh area) < 2 ^ 16"
    and "W = spine_extent vs (rw area) (unat (viewport_column_cells (rw area) base)) t"
    and "W < 2 ^ 63"
  shows "map fst (vpanes (layout_screen_with_viewport t area act base vs)) = pane_ids_vec t
     \<and> unat (vvirtual_width (layout_screen_with_viewport t area act base vs)) = max W (unat (rw area))
     \<and> (\<forall>cx cy. length (filter (\<lambda>(i, r). (cx, cy) \<in> vcells r)
                  (vpanes (layout_screen_with_viewport t area act base vs)))
          = (if unat (rx area) \<le> cx \<and> cx < unat (rx area) + W
                \<and> unat (ry area) \<le> cy \<and> cy < unat (ry area) + unat (rh area) then 1 else 0))"
proof -
  let ?b = "viewport_base_area area base"
  obtain out stop where w: "walk_viewport t ?b (rw area) act vs ColBase viewport_result_default = (out, stop)"
    by fastforce
  have x: "unat (ucast (rx area) :: u64) = unat (rx area)" "unat (ucast (rw area) :: u64) = unat (rw area)"
    by (simp_all add: unat_ucast_up)
  have small: "unat (rx area) < 2 ^ 16" "unat (viewport_column_cells (rw area) base) < 2 ^ 16"
    using unsigned_less [of "rx area"] unsigned_less [of "viewport_column_cells (rw area) base"]
    by simp_all
  have vf: "vfits ?b"
    using small assms(3) by (simp add: vfits_def viewport_base_area_def x unat_column_cells)
  have "unat (vx ?b) + spine_extent vs (rw area) (unat (vw ?b)) t < 2 ^ 64"
    using assms(4,5) small by (simp add: viewport_base_area_def x unat_column_cells)
  note S = spine_walk [OF assms(2,1) vf this w]
  have "vcover_count (vpanes out) (cx, cy) =
      (if unat (rx area) \<le> cx \<and> cx < unat (rx area) + W
          \<and> unat (ry area) \<le> cy \<and> cy < unat (ry area) + unat (rh area) then 1 else 0)" for cx cy
    using S [of cx cy] assms(4)
    by (simp add: viewport_base_area_def x unat_column_cells viewport_result_default_def)
  moreover have "unat stop = unat (rx area) + W"
    using S assms(4) by (simp add: viewport_base_area_def x unat_column_cells)
  then have "unat (max (sat_sub stop (ucast (rx area))) (ucast (rw area))) = max W (unat (rw area))"
    by (simp add: unat_max unat_sat_sub x)
  moreover have "map fst (vpanes out) = pane_ids_vec t"
    using map_fst_walk_viewport [of t ?b "rw area" act vs ColBase viewport_result_default] w
    by (simp add: viewport_result_default_def)
  ultimately show ?thesis
    by (simp add: layout_screen_with_viewport_def w vcover_count_def)
qed

section \<open>Properties\<close>

text \<open>C3. A viewport layout tiles its columns. For a tree whose marked splits lie on the left
  spine the panes come in tree order, the columns follow each other without a gap from
  the left edge of the area, every cell of that band lies in exactly one pane and every
  other cell in none, and the reported width is the extent of the band, at least the
  width of the area.\<close>

theorem viewport_layout_tiles_columns:
  assumes "node_wf t" and "spine_tree vs t" and "unat (ry area) + unat (rh area) < 2 ^ 16"
    and "W = spine_extent vs (rw area) (unat (viewport_column_cells (rw area) base)) t"
    and "W < 2 ^ 63"
  shows "map fst (vpanes (layout_screen_with_viewport t area act base vs)) = pane_ids_vec t
     \<and> unat (vvirtual_width (layout_screen_with_viewport t area act base vs)) = max W (unat (rw area))
     \<and> (\<forall>cx cy. length (filter (\<lambda>(i, r). (cx, cy) \<in> vcells r)
                  (vpanes (layout_screen_with_viewport t area act base vs)))
          = (if unat (rx area) \<le> cx \<and> cx < unat (rx area) + W
                \<and> unat (ry area) \<le> cy \<and> cy < unat (ry area) + unat (rh area) then 1 else 0))"
  by (rule viewport_layout_cover [OF assms])

theorem viewport_layout_tiles_columns_witness:
  "unat (vvirtual_width (layout_screen_with_viewport
     (Split 9 DirRight half (Leaf 1) (Leaf 2)) \<lparr>rx = 2, ry = 0, rw = 10, rh = 4\<rparr> None
     (FFin 1) [9 \<mapsto> half])) = 15"
proof -
  have cells: "viewport_column_cells 10 (FFin 1) = 10" "viewport_column_cells 10 half = 5"
    by (simp_all add: viewport_column_cells_def half_def min_viewport_pane_width_def
        max_viewport_pane_width_def fl_clamp_def fl_eval clamp_def)
  let ?t = "Split 9 DirRight half (Leaf 1) (Leaf 2)" and ?area = "\<lparr>rx = 2, ry = 0, rw = 10, rh = 4\<rparr>"
  have wf: "node_wf ?t" "spine_tree [9 \<mapsto> half] ?t" "unat (ry ?area) + unat (rh ?area) < 2 ^ 16"
    "(15 :: nat) < 2 ^ 63"
    by simp_all
  have W: "15 = spine_extent [9 \<mapsto> half] (rw ?area) (unat (viewport_column_cells (rw ?area) (FFin 1))) ?t"
    by (simp add: cells)
  have "max 15 (unat (rw ?area)) = 15" by simp
  with viewport_layout_tiles_columns [OF wf(1-3) W wf(4), of None, THEN conjunct2, THEN conjunct1]
  show ?thesis by (rule trans)
qed

text \<open>Column widths. A column is at least one cell wide and never wider than the viewport
  (or one cell when the viewport is empty); a full-width column is the viewport itself.\<close>

theorem viewport_column_cells_range:
  "1 \<le> viewport_column_cells v w \<and> viewport_column_cells v w \<le> max v 1
   \<and> viewport_column_cells v max_viewport_pane_width = max v 1"
proof -
  have c: "fl_clamp min_viewport_pane_width max_viewport_pane_width max_viewport_pane_width = FFin 1"
    by (simp add: fl_clamp_def min_viewport_pane_width_def max_viewport_pane_width_def fl_eval)
  have "unat v \<le> 65535" using unat_le_max [of v] by simp
  note full_width_cells [OF this]
  then have "viewport_column_cells v max_viewport_pane_width = clamp 1 (max v 1) v"
    unfolding viewport_column_cells_def c Let_def by simp
  also have "\<dots> = max v 1"
  proof (cases "v = 0")
    case False
    then have "1 \<le> v" by (simp add: word_le_nat_alt unat_gt_0 Suc_leI)
    with False show ?thesis by (simp add: clamp_def max_def)
  qed (simp add: clamp_def)
  finally show ?thesis
    using viewport_column_cells_bounds by simp
qed

text \<open>The two splitters do not always agree. At ratio 0.7 and width 5 the ordinary layout,
  which multiplies in \<open>f32\<close>, gives the first side four cells, the virtual layout, which
  multiplies in \<open>f64\<close>, three.\<close>

theorem splitters_disagree:
  "split_extent 5 (f32_round (7 / 10)) = (4, 1)
   \<and> split_virtual_extent 5 (f32_round (7 / 10)) = (3, 2)"
  by (simp add: split_extent_def split_virtual_extent_def fl_eval sat_sub_def clamp_def)

end
