(* ===== verification/ZellijLayout.thy ===== *)
theory ZellijLayout
  imports SplitTree
begin

text \<open>
  Automatic layouts: \<open>zellij_default_pane_layout_with_ids\<close> and its helpers
  (\<open>cmux-tui-core/src/layout.rs\<close>). The \<open>FnMut\<close> that supplies split ids is a state
  transformer on an abstract state \<open>'s\<close>; \<open>counter\<close> is the one of
  \<open>zellij_default_pane_layout\<close> and of \<open>Mux::next_id\<close>. The outer \<open>None\<close> is a panic
  (\<open>remove(0)\<close> of an empty vector, \<open>expect\<close>).
\<close>

type_synonym 's id_supply = "'s \<Rightarrow> split_id \<times> 's"

definition counter :: "nat id_supply" where
  "counter n = (n, Suc n)"

text \<open>\<open>1.0 / (nodes.len() + 1) as f32\<close>.\<close>

definition equal_ratio :: "nat \<Rightarrow> f32" where
  "equal_ratio remaining = fl_div f32_round (FFin 1) (f32_round (of_nat (remaining + 1)))"

fun equal_nodes :: "node list \<Rightarrow> split_dir \<Rightarrow> 's id_supply \<Rightarrow> 's \<Rightarrow> (node \<times> 's) option" where
  "equal_nodes [] dir next s = None"
| "equal_nodes [n] dir next s = Some (n, s)"
| "equal_nodes (n # ns) dir next s =
     (let (i, s) = next s in
      map_option (\<lambda>(b, s). (Split i dir (equal_ratio (length ns)) n b, s))
        (equal_nodes ns dir next s))"

definition equal_split :: "pane_id list \<Rightarrow> split_dir \<Rightarrow> 's id_supply \<Rightarrow> 's \<Rightarrow> (node \<times> 's) option" where
  "equal_split panes dir next s = equal_nodes (map Leaf panes) dir next s"

fun chunks :: "nat \<Rightarrow> 'a list \<Rightarrow> 'a list list" where
  "chunks n xs = (if xs = [] \<or> n = 0 then [] else take n xs # chunks n (drop n xs))"

declare chunks.simps [simp del]

fun equal_columns :: "pane_id list list \<Rightarrow> 's id_supply \<Rightarrow> 's \<Rightarrow> (node list \<times> 's) option" where
  "equal_columns [] next s = Some ([], s)"
| "equal_columns (c # cs) next s =
     Option.bind (equal_split c DirDown next s) (\<lambda>(n, s).
       map_option (\<lambda>(ns, s). (n # ns, s)) (equal_columns cs next s))"

definition zellij_stacked_layout ::
    "pane_id list \<Rightarrow> 's id_supply \<Rightarrow> 's \<Rightarrow> (node \<times> 's) option" where
  "zellij_stacked_layout panes next s =
     (case panes of
        [] \<Rightarrow> None
      | p # ps \<Rightarrow>
          let (i, s) = next s in
          map_option (\<lambda>b. (Split i DirRight half (Leaf p) b, s)) (node_stack ps))"

definition first_column_len :: "nat \<Rightarrow> nat" where
  "first_column_len n = (if n \<le> 5 then 1 else if n mod 4 = 0 then 4 else n mod 4)"

definition zellij_default_pane_layout_with_ids ::
    "pane_id list \<Rightarrow> 's id_supply \<Rightarrow> 's \<Rightarrow> (node option \<times> 's) option" where
  "zellij_default_pane_layout_with_ids panes next s =
     (case panes of
        [] \<Rightarrow> Some (None, s)
      | [pane] \<Rightarrow> Some (Some (Leaf pane), s)
      | _ \<Rightarrow>
          map_option (\<lambda>(n, s). (Some n, s))
            (if 12 < length panes then zellij_stacked_layout panes next s
             else
               let k = first_column_len (length panes) in
               Option.bind (equal_columns (take k panes # chunks 4 (drop k panes)) next s)
                 (\<lambda>(columns, s). equal_nodes columns DirRight next s)))"

definition zellij_default_pane_layout :: "pane_id list \<Rightarrow> node option option" where
  "zellij_default_pane_layout panes =
     map_option fst (zellij_default_pane_layout_with_ids panes counter 1)"

section \<open>Every pane is placed once, in order\<close>

lemma concat_chunks: "0 < n \<Longrightarrow> concat (chunks n xs) = xs"
  by (induction n xs rule: chunks.induct) (simp add: chunks.simps)

lemma chunks_nonempty: "c \<in> set (chunks n xs) \<Longrightarrow> c \<noteq> []"
proof (induction n xs rule: chunks.induct)
  case (1 n xs)
  show ?case
  proof (cases "xs = [] \<or> n = 0")
    case True
    with "1.prems" show ?thesis by (auto simp: chunks.simps [of n xs])
  next
    case False
    with 1 show ?thesis by (auto simp: chunks.simps [of n xs])
  qed
qed

lemma equal_nodes_spec:
  "ns \<noteq> [] \<Longrightarrow> \<forall>n \<in> set ns. node_wf n \<Longrightarrow>
   \<exists>t s'. equal_nodes ns dir next s = Some (t, s') \<and> node_wf t
     \<and> pane_ids_vec t = concat (map pane_ids_vec ns)"
proof (induction ns dir "next" s rule: equal_nodes.induct)
  case (3 n m ms dir "next" s)
  obtain i s1 where "next s = (i, s1)" by (cases "next s")
  moreover from 3(1) [OF this [symmetric] refl] 3(3) obtain b s2 where
    "equal_nodes (m # ms) dir next s1 = Some (b, s2)" "node_wf b"
    "pane_ids_vec b = concat (map pane_ids_vec (m # ms))"
    by auto
  ultimately show ?case using 3(3) by (simp add: Let_def)
qed auto

lemma equal_split_spec:
  "ps \<noteq> [] \<Longrightarrow> \<exists>t s'. equal_split ps dir next s = Some (t, s') \<and> node_wf t \<and> pane_ids_vec t = ps"
  using equal_nodes_spec [of "map Leaf ps" dir "next" s]
  by (auto simp: equal_split_def comp_def)

lemma equal_columns_spec:
  "\<forall>c \<in> set cs. c \<noteq> [] \<Longrightarrow>
   \<exists>ns s'. equal_columns cs next s = Some (ns, s') \<and> (\<forall>n \<in> set ns. node_wf n)
     \<and> map pane_ids_vec ns = cs"
proof (induction cs arbitrary: s)
  case (Cons c cs)
  obtain t s1 where t: "equal_split c DirDown next s = Some (t, s1)" "node_wf t" "pane_ids_vec t = c"
    using equal_split_spec [of c DirDown "next" s] Cons.prems by auto
  obtain ns s2 where "equal_columns cs next s1 = Some (ns, s2)" "\<forall>n \<in> set ns. node_wf n"
      "map pane_ids_vec ns = cs"
    using Cons.IH [of s1] Cons.prems by auto
  with t show ?case by simp
qed auto

lemma zellij_spec:
  "\<exists>r s'. zellij_default_pane_layout_with_ids panes next s = Some (r, s')
     \<and> (case r of None \<Rightarrow> panes = [] | Some t \<Rightarrow> node_wf t \<and> pane_ids_vec t = panes)"
proof -
  consider "panes = []" | p where "panes = [p]" | (many) p q ps where "panes = p # q # ps"
    by (metis neq_Nil_conv)
  then show ?thesis
  proof cases
    case many
    show ?thesis
    proof (cases "12 < length panes")
      case True
      obtain i s1 where "next s = (i, s1)" by (cases "next s")
      with True many show ?thesis
        by (simp add: zellij_default_pane_layout_with_ids_def zellij_stacked_layout_def
            node_stack_def stack_panes_new_def)
    next
      case False
      let ?k = "first_column_len (length panes)"
      let ?cs = "take ?k panes # chunks 4 (drop ?k panes)"
      have "0 < ?k" by (simp add: first_column_len_def)
      moreover have "c \<noteq> []" if "c \<in> set (chunks 4 (drop ?k panes))" for c
        using that by (rule chunks_nonempty)
      moreover have "panes \<noteq> []" using many by simp
      ultimately have "\<forall>c \<in> set ?cs. c \<noteq> []" by (metis set_ConsD take_eq_Nil less_irrefl)
      from equal_columns_spec [OF this, of "next" s]
      obtain ns s1 where ns: "equal_columns ?cs next s = Some (ns, s1)"
          "\<forall>n \<in> set ns. node_wf n" "map pane_ids_vec ns = ?cs"
        by (elim exE conjE) (rule that)
      then have "ns \<noteq> []" by auto
      then obtain t s2 where t: "equal_nodes ns DirRight next s1 = Some (t, s2)" "node_wf t"
          "pane_ids_vec t = concat (map pane_ids_vec ns)"
        using equal_nodes_spec [OF _ ns(2), of DirRight "next" s1] by auto
      have "pane_ids_vec t = panes"
        using t(3) ns(3) by (simp add: concat_chunks)
      moreover have "zellij_default_pane_layout_with_ids panes next s = Some (Some t, s2)"
        using False many ns(1) t(1)
        by (simp add: zellij_default_pane_layout_with_ids_def Let_def del: equal_columns.simps)
      ultimately show ?thesis using t(2) by simp
    qed
  qed (simp_all add: zellij_default_pane_layout_with_ids_def)
qed

section \<open>Split ids\<close>

fun split_ids :: "node \<Rightarrow> split_id set" where
  "split_ids (Leaf _) = {}"
| "split_ids (Split i _ _ a b) = insert i (split_ids a \<union> split_ids b)"
| "split_ids (Stack _ _) = {}"

lemma contains_split_iff: "contains_split t i \<longleftrightarrow> i \<in> split_ids t"
  by (induction t) auto

text \<open>With the counter, the ids of a layout are the ones handed out during the call.\<close>

definition ids_from :: "nat \<Rightarrow> nat \<Rightarrow> node \<Rightarrow> bool" where
  "ids_from n m t = (n \<le> m \<and> split_ids t \<subseteq> {n..<m})"

lemma equal_nodes_ids:
  "equal_nodes ns dir counter k = Some (t, m) \<Longrightarrow> \<forall>x \<in> set ns. split_ids x \<subseteq> {n..<k} \<Longrightarrow> n \<le> k \<Longrightarrow>
   ids_from n m t \<and> k \<le> m"
proof (induction ns dir "counter" k arbitrary: t m rule: equal_nodes.induct)
  case (3 x y ys dir k)
  then obtain b where b: "equal_nodes (y # ys) dir counter (Suc k) = Some (b, m)"
      "t = Split k dir (equal_ratio (length (y # ys))) x b"
    by (auto simp: counter_def Let_def)
  have "\<forall>z \<in> set (y # ys). split_ids z \<subseteq> {n..<Suc k}"
    using "3.prems"(2) by fastforce
  then have "ids_from n m b \<and> Suc k \<le> m"
    using "3.hyps" [of "(k, Suc k)" k "Suc k"] b(1) "3.prems"(3) by (simp add: counter_def)
  then show ?case
    using b(2) "3.prems"(2,3) by (auto simp: ids_from_def subset_iff)
qed (auto simp: ids_from_def)

lemma equal_columns_ids:
  "equal_columns cs counter k = Some (ns, m) \<Longrightarrow> n \<le> k \<Longrightarrow>
   k \<le> m \<and> (\<forall>x \<in> set ns. split_ids x \<subseteq> {n..<m})"
proof (induction cs arbitrary: k ns)
  case (Cons c cs)
  then obtain t k1 ns' where t: "equal_split c DirDown counter k = Some (t, k1)"
      "equal_columns cs counter k1 = Some (ns', m)" "ns = t # ns'"
    by (auto simp: bind_eq_Some_conv)
  have "ids_from n k1 t \<and> k \<le> k1"
    using equal_nodes_ids [OF t(1) [unfolded equal_split_def], of n] Cons.prems(2) by auto
  moreover have "k1 \<le> m \<and> (\<forall>x \<in> set ns'. split_ids x \<subseteq> {n..<m})"
    using Cons.IH [OF t(2)] calculation Cons.prems(2) by simp
  ultimately show ?case using t(3) by (auto simp: ids_from_def)
qed auto

lemma zellij_ids:
  assumes "zellij_default_pane_layout_with_ids panes counter n = Some (Some t, m)"
  shows "n \<le> m \<and> split_ids t \<subseteq> {n..<m}"
proof -
  consider "panes = []" | p where "panes = [p]" | (many) p q ps where "panes = p # q # ps"
    by (metis neq_Nil_conv)
  then show ?thesis
  proof cases
    case many
    show ?thesis
    proof (cases "12 < length panes")
      case True
      with many assms show ?thesis
        by (auto simp: zellij_default_pane_layout_with_ids_def zellij_stacked_layout_def
            node_stack_def stack_panes_new_def counter_def)
    next
      case False
      let ?k = "first_column_len (length panes)"
      from assms many False obtain ns k where
        ns: "equal_columns (take ?k panes # chunks 4 (drop ?k panes)) counter n = Some (ns, k)"
        and t: "equal_nodes ns DirRight counter k = Some (t, m)"
        by (auto simp: zellij_default_pane_layout_with_ids_def Let_def bind_eq_Some_conv
            simp del: equal_columns.simps)
      from equal_columns_ids [OF ns order_refl] equal_nodes_ids [OF t, of n]
      show ?thesis by (auto simp: ids_from_def)
    qed
  qed (use assms in \<open>auto simp: zellij_default_pane_layout_with_ids_def\<close>)
qed

section \<open>Properties\<close>

text \<open>C7. Automatic layouts. \<open>zellij_default_pane_layout_with_ids\<close> never panics, answers
  \<open>None\<close> exactly for no panes, and otherwise gives a well-formed tree with exactly the given
  panes in their creation order.\<close>

theorem zellij_layout_places_all_panes:
  "\<exists>r s'. zellij_default_pane_layout_with_ids panes next s = Some (r, s')
     \<and> (r = None \<longleftrightarrow> panes = [])
     \<and> (\<forall>t. r = Some t \<longrightarrow> node_wf t \<and> pane_ids_vec t = panes)"
proof -
  obtain r s' where r: "zellij_default_pane_layout_with_ids panes next s = Some (r, s')"
    "case r of None \<Rightarrow> panes = [] | Some t \<Rightarrow> node_wf t \<and> pane_ids_vec t = panes"
    using zellij_spec [of panes "next" s] by (elim exE conjE) (rule that)
  then show ?thesis
    using pane_ids_vec_nonempty by (cases r) (auto simp: zellij_default_pane_layout_with_ids_def)
qed

theorem zellij_layout_places_all_panes_witness:
  "\<exists>t s'. zellij_default_pane_layout_with_ids [1, 2, 3, 4, 5, 6] counter 1 = Some (Some t, s')
     \<and> node_wf t \<and> pane_ids_vec t = [1, 2, 3, 4, 5, 6]"
  using zellij_layout_places_all_panes [of "[1, 2, 3, 4, 5, 6]" counter 1] by auto

end
