(* ===== verification/Screen.thy ===== *)
theory Screen
  imports ViewportLayout ZellijLayout
begin

text \<open>
  One screen: its layout fields, the horizontal column containers with the split tree
  derived from them, and the undo history (\<open>Screen\<close>, \<open>ScreenLayoutSnapshot\<close>,
  \<open>LayoutColumn\<close>, \<open>LayoutUndoEntry\<close> of \<open>cmux-tui-core/src/model.rs\<close>, and the
  functions on snapshots of \<open>cmux-tui-core/src/mux/resource_topology.rs\<close>).

  The seven layout fields a \<open>Screen\<close> and its snapshot share are the record
  \<open>layout_state\<close>; \<open>screen\<close> extends it, so a function the code has twice, once on the
  screen and once on the snapshot, is one definition on \<open>'a layout_state_scheme\<close>. The
  \<open>Node::Leaf(0)\<close> that \<open>mem::replace\<close> leaves behind is written only where it stays.
\<close>

record layout_column =
  lc_id :: split_id
  lc_width :: f32
  lc_root :: node
  lc_auto :: "pane_id list option"

record layout_state =
  lroot :: node
  active_pane :: pane_id
  zoomed_pane :: "pane_id option"
  auto_layout :: "pane_id list option"
  vsplits :: viewport_splits
  base_width :: "f32 option"
  lcolumns :: "layout_column list"

datatype resize_owner = InProcess nat | ControlClient nat

datatype mutation_key = Resize resize_owner nat

record undo_entry =
  before :: layout_state
  after_revision :: u64
  created_panes :: "pane_id list"
  coalesce :: "mutation_key option"

record screen = layout_state +
  sc_id :: screen_id
  sc_public :: string
  sc_name :: "string option"
  layout_revision :: u64
  layout_undo :: "undo_entry list"

definition layout_undo_limit :: nat where
  "layout_undo_limit = 32"

definition layout_snapshot :: "screen \<Rightarrow> layout_state" where
  "layout_snapshot s = layout_state.truncate s"

definition layout_columns_active :: "'a layout_state_scheme \<Rightarrow> bool" where
  "layout_columns_active s = (lcolumns s \<noteq> [])"

section \<open>Undo history\<close>

definition coalesces_layout_change :: "screen \<Rightarrow> mutation_key \<Rightarrow> bool" where
  "coalesces_layout_change s key =
     (case layout_undo s of [] \<Rightarrow> False
      | es \<Rightarrow> created_panes (last es) = [] \<and> coalesce (last es) = Some key
              \<and> after_revision (last es) = layout_revision s)"

definition snapshot_for_coalescing_change :: "screen \<Rightarrow> mutation_key option \<Rightarrow> layout_state option" where
  "snapshot_for_coalescing_change s key =
     (if (case key of Some k \<Rightarrow> coalesces_layout_change s k | None \<Rightarrow> False) then None
      else Some (layout_snapshot s))"

text \<open>\<open>while len > n { pop_front }\<close>.\<close>

fun trim_front :: "nat \<Rightarrow> 'a list \<Rightarrow> 'a list" where
  "trim_front n xs = (if n < length xs then trim_front n (tl xs) else xs)"

declare trim_front.simps [simp del]

text \<open>\<open>None\<close> is the panic of \<open>expect\<close>.\<close>

definition record_prepared_layout_change ::
    "screen \<Rightarrow> layout_state option \<Rightarrow> pane_id list \<Rightarrow> mutation_key option \<Rightarrow> screen option" where
  "record_prepared_layout_change s bef created key =
     (let s = s\<lparr>layout_revision := sat_add (layout_revision s) 1\<rparr> in
      if created = [] \<and> key \<noteq> None \<and> layout_undo s \<noteq> []
         \<and> created_panes (last (layout_undo s)) = [] \<and> coalesce (last (layout_undo s)) = key
         \<and> sat_add (after_revision (last (layout_undo s))) 1 = layout_revision s
      then Some (s\<lparr>layout_undo := butlast (layout_undo s)
                     @ [(last (layout_undo s))\<lparr>after_revision := layout_revision s\<rparr>]\<rparr>)
      else map_option (\<lambda>bef.
        s\<lparr>layout_undo := trim_front layout_undo_limit (layout_undo s
             @ [\<lparr>before = bef, after_revision = layout_revision s, created_panes = created,
                 coalesce = key\<rparr>])\<rparr>) bef)"

definition record_layout_change ::
    "screen \<Rightarrow> layout_state \<Rightarrow> pane_id list \<Rightarrow> mutation_key option \<Rightarrow> screen option" where
  "record_layout_change s bef created key = record_prepared_layout_change s (Some bef) created key"

definition invalidate_layout_undo :: "screen \<Rightarrow> screen" where
  "invalidate_layout_undo s =
     s\<lparr>layout_revision := sat_add (layout_revision s) 1, layout_undo := []\<rparr>"

definition current_expansions :: "'a layout_state_scheme \<Rightarrow> stack_expansions" where
  "current_expansions s =
     (if layout_columns_active s
      then fold (\<lambda>c m. collect_stack_expansions (lc_root c) m) (lcolumns s) Map.empty
      else collect_stack_expansions (lroot s) Map.empty)"

definition restore_layout_snapshot :: "screen \<Rightarrow> layout_state \<Rightarrow> screen" where
  "restore_layout_snapshot s snap =
     (let active = active_pane s;
          m = current_expansions s;
          new_root = restore_stack_expansions (lroot snap) m;
          cols = map (\<lambda>c. c\<lparr>lc_root := restore_stack_expansions (lc_root c) m\<rparr>) (lcolumns snap);
          zoomed = (case zoomed_pane snap of
              Some p \<Rightarrow> if contains new_root p then Some p else None | None \<Rightarrow> None)
      in s\<lparr>lroot := new_root,
           zoomed_pane := zoomed,
           active_pane := (case zoomed of Some p \<Rightarrow> p
             | None \<Rightarrow> if contains new_root active then active else active_pane snap),
           auto_layout := auto_layout snap,
           vsplits := vsplits snap,
           base_width := base_width snap,
           lcolumns := cols\<rparr>)"

section \<open>Columns\<close>

definition layout_column_for_pane :: "'a layout_state_scheme \<Rightarrow> pane_id \<Rightarrow> nat option" where
  "layout_column_for_pane s pane = position (\<lambda>c. contains (lc_root c) pane) (lcolumns s)"

text \<open>The loop of the projection: the tree, the marked splits and the width so far.\<close>

fun project_columns ::
    "layout_column list \<Rightarrow> node \<Rightarrow> f32 \<Rightarrow> viewport_splits \<Rightarrow> node \<times> viewport_splits" where
  "project_columns [] root_so_far width_before splits = (root_so_far, splits)"
| "project_columns (c # cs) root_so_far width_before splits =
     (let ratio = fl_div f32_round width_before (fl_add f32_round width_before (lc_width c)) in
      project_columns cs (Split (lc_id c) DirRight ratio root_so_far (lc_root c))
        (fl_add f32_round width_before (lc_width c)) (splits(lc_id c \<mapsto> lc_width c)))"

definition sync_layout_column_projection :: "'a layout_state_scheme \<Rightarrow> 'a layout_state_scheme" where
  "sync_layout_column_projection s =
     (case lcolumns s of
        [] \<Rightarrow> s\<lparr>vsplits := Map.empty, base_width := None\<rparr>
      | first # rest \<Rightarrow>
          let (t, splits) = project_columns rest (lc_root first) (lc_width first) Map.empty
          in s\<lparr>vsplits := splits, base_width := Some (lc_width first), auto_layout := None,
               lroot := t\<rparr>)"

definition insert_layout_column_after ::
    "'a layout_state_scheme \<Rightarrow> pane_id \<Rightarrow> split_id \<Rightarrow> layout_column
     \<Rightarrow> 'a layout_state_scheme \<times> bool" where
  "insert_layout_column_after s target base_id column =
     (if lcolumns s = [] \<and> \<not> contains (lroot s) target then (s, False)
      else
        let s = (if lcolumns s = []
                 then s\<lparr>lroot := Leaf 0,
                        lcolumns := [\<lparr>lc_id = base_id,
                           lc_width = (case base_width s of Some w \<Rightarrow> w | None \<Rightarrow> FFin 1),
                           lc_root = lroot s, lc_auto = auto_layout s\<rparr>],
                        auto_layout := None\<rparr>
                 else s)
        in case layout_column_for_pane s target of
             None \<Rightarrow> (s, False)
           | Some index \<Rightarrow>
               (sync_layout_column_projection
                  (s\<lparr>lcolumns := insert_at (Suc index) column (lcolumns s)\<rparr>), True))"

definition collapse_single_layout_column :: "'a layout_state_scheme \<Rightarrow> 'a layout_state_scheme" where
  "collapse_single_layout_column s =
     (case lcolumns s of
        [column] \<Rightarrow> s\<lparr>lcolumns := [], lroot := lc_root column, auto_layout := lc_auto column,
                      vsplits := Map.empty, base_width := None\<rparr>
      | _ \<Rightarrow> sync_layout_column_projection s)"

definition option_eq :: "f32 option \<Rightarrow> f32 option \<Rightarrow> bool" where
  "option_eq a b = (case (a, b) of (Some x, Some y) \<Rightarrow> fl_eq x y | (None, None) \<Rightarrow> True | _ \<Rightarrow> False)"

text \<open>The closure of \<open>all\<close>: the mark and the owners of one column.\<close>

definition column_consistent :: "'a layout_state_scheme \<Rightarrow> nat \<times> layout_column \<Rightarrow> bool" where
  "column_consistent s = (\<lambda>(index, c).
     (index = 0 \<or> option_eq (vsplits s (lc_id c)) (Some (lc_width c)))
     \<and> (\<forall>pane \<in> set (pane_ids_vec (lc_root c)).
          viewport_column_owner (lroot s) pane (vsplits s)
            = Some (if index = 0 then ColBase else ColSplit (lc_id c))))"

definition projection_is_consistent :: "'a layout_state_scheme \<Rightarrow> bool" where
  "projection_is_consistent s =
     (if lcolumns s = [] then dom (vsplits s) = {} \<and> base_width s = None
      else \<not> length (lcolumns s) < 2 \<and> auto_layout s = None
        \<and> option_eq (base_width s) (Some (lc_width (hd (lcolumns s))))
        \<and> card (dom (vsplits s)) + 1 = length (lcolumns s)
        \<and> pane_ids_vec (lroot s) = concat (map (\<lambda>c. pane_ids_vec (lc_root c)) (lcolumns s))
        \<and> list_all (column_consistent s) (enumerate 0 (lcolumns s)))"

section \<open>Undo history is bounded\<close>

lemma trim_front_drop: "trim_front n xs = drop (length xs - n) xs"
proof (induction n xs rule: trim_front.induct)
  case (1 n xs)
  show ?case
  proof (cases "n < length xs")
    case True
    then have "length xs - n = Suc (length (tl xs) - n)" by (cases xs) auto
    moreover have "xs \<noteq> []" using True by auto
    ultimately show ?thesis
      using 1 True by (subst trim_front.simps) (simp add: drop_Suc)
  qed (simp add: trim_front.simps [of n xs])
qed

lemma length_trim_front: "length (trim_front n xs) = min n (length xs)"
  by (simp add: trim_front_drop)

lemma trim_front_short: "length xs \<le> n \<Longrightarrow> trim_front n xs = xs"
  by (simp add: trim_front_drop)

lemma last_trim_front: "0 < n \<Longrightarrow> xs \<noteq> [] \<Longrightarrow> trim_front n xs \<noteq> [] \<and> last (trim_front n xs) = last xs"
  by (cases xs rule: rev_cases) (auto simp: trim_front_drop)

lemma layout_snapshot_simps [simp]:
  "lroot (layout_snapshot s) = lroot s" "active_pane (layout_snapshot s) = active_pane s"
  "zoomed_pane (layout_snapshot s) = zoomed_pane s" "auto_layout (layout_snapshot s) = auto_layout s"
  "vsplits (layout_snapshot s) = vsplits s" "base_width (layout_snapshot s) = base_width s"
  "lcolumns (layout_snapshot s) = lcolumns s"
  by (simp_all add: layout_snapshot_def layout_state.truncate_def)

section \<open>The projection of the columns\<close>

abbreviation column_panes :: "layout_column list \<Rightarrow> pane_id list" where
  "column_panes cs \<equiv> concat (map (\<lambda>c. pane_ids_vec (lc_root c)) cs)"

lemma project_panes:
  "pane_ids_vec (fst (project_columns cs t w vs)) = pane_ids_vec t @ column_panes cs"
  by (induction cs arbitrary: t w vs) (auto simp: Let_def)

lemma project_wf:
  "node_wf t \<Longrightarrow> \<forall>c \<in> set cs. node_wf (lc_root c) \<Longrightarrow> node_wf (fst (project_columns cs t w vs))"
  by (induction cs arbitrary: t w vs) (auto simp: Let_def)

lemma project_split_ids:
  "split_ids (fst (project_columns cs t w vs))
     = split_ids t \<union> lc_id ` set cs \<union> (\<Union>c \<in> set cs. split_ids (lc_root c))"
  by (induction cs arbitrary: t w vs) (auto simp: Let_def)

text \<open>The marked splits do not depend on the trees.\<close>

definition marked :: "layout_column list \<Rightarrow> viewport_splits \<Rightarrow> viewport_splits" where
  "marked cs vs = fold (\<lambda>c m. m(lc_id c \<mapsto> lc_width c)) cs vs"

lemma project_marked: "snd (project_columns cs t w vs) = marked cs vs"
  by (induction cs arbitrary: t w vs) (auto simp: Let_def marked_def)

lemma marked_other: "i \<notin> lc_id ` set cs \<Longrightarrow> marked cs vs i = vs i"
  by (induction cs arbitrary: vs) (auto simp: marked_def)

lemma marked_id:
  "distinct (map lc_id cs) \<Longrightarrow> c \<in> set cs \<Longrightarrow> marked cs vs (lc_id c) = Some (lc_width c)"
proof (induction cs arbitrary: vs)
  case (Cons d cs)
  show ?case
  proof (cases "c \<in> set cs")
    case True
    with Cons show ?thesis by (simp add: marked_def)
  next
    case False
    with Cons.prems show ?thesis
      using marked_other [of "lc_id d" cs "vs(lc_id d \<mapsto> lc_width d)"] by (auto simp: marked_def)
  qed
qed simp

lemma dom_marked: "dom (marked cs vs) = dom vs \<union> lc_id ` set cs"
  by (induction cs arbitrary: vs) (auto simp: marked_def)

section \<open>Owners of projected panes\<close>

definition unmarked_tree :: "viewport_splits \<Rightarrow> node \<Rightarrow> bool" where
  "unmarked_tree vs t = (\<forall>i \<in> split_ids t. vs i = None)"

lemma owner_unmarked:
  "unmarked_tree vs t \<Longrightarrow> p \<in> set (pane_ids_vec t) \<Longrightarrow> viewport_column_owner t p vs = Some ColBase"
  by (induction t p vs rule: viewport_column_owner.induct) (auto simp: unmarked_tree_def)

lemma owner_project:
  "\<forall>c \<in> set cs. vs (lc_id c) \<noteq> None \<Longrightarrow> distinct (column_panes cs) \<Longrightarrow> p \<notin> set (column_panes cs) \<Longrightarrow>
   viewport_column_owner (fst (project_columns cs t w sp)) p vs = viewport_column_owner t p vs"
  by (induction cs arbitrary: t w sp) (auto simp: Let_def)

lemma owner_project_column:
  "\<forall>c \<in> set cs. vs (lc_id c) \<noteq> None \<Longrightarrow> distinct (column_panes cs) \<Longrightarrow> c \<in> set cs \<Longrightarrow>
   p \<in> set (pane_ids_vec (lc_root c)) \<Longrightarrow>
   viewport_column_owner (fst (project_columns cs t w sp)) p vs = Some (ColSplit (lc_id c))"
proof (induction cs arbitrary: t w sp)
  case (Cons d cs)
  show ?case
  proof (cases "c \<in> set cs")
    case True
    with Cons show ?thesis by (simp add: Let_def)
  next
    case False
    with Cons.prems have cd: "c = d" by simp
    with Cons.prems have "p \<notin> set (column_panes cs)" by auto
    then show ?thesis
      using Cons.prems cd by (simp add: Let_def owner_project)
  qed
qed simp

lemma plain_unmarked: "unmarked_tree vs t \<Longrightarrow> plain_tree vs t"
  by (induction t) (auto simp: unmarked_tree_def)

lemma spine_unmarked: "unmarked_tree vs t \<Longrightarrow> spine_tree vs t"
  using plain_unmarked [of vs t] by (cases t) (auto simp: unmarked_tree_def)

lemma spine_project:
  "\<forall>c \<in> set cs. vs (lc_id c) \<noteq> None \<and> unmarked_tree vs (lc_root c) \<Longrightarrow> spine_tree vs t \<Longrightarrow>
   spine_tree vs (fst (project_columns cs t w sp))"
  by (induction cs arbitrary: t w sp) (auto simp: Let_def plain_unmarked)

lemma spine_extent_project:
  "\<forall>c \<in> set cs. vs (lc_id c) = Some (lc_width c) \<Longrightarrow>
   spine_extent vs v b (fst (project_columns cs t w sp))
     = spine_extent vs v b t + (\<Sum>c\<leftarrow>cs. unat (viewport_column_cells v (lc_width c)))"
  by (induction cs arbitrary: t w sp) (auto simp: Let_def)

lemma spine_extent_unmarked: "unmarked_tree vs t \<Longrightarrow> spine_extent vs v b t = b"
  by (cases t) (auto simp: unmarked_tree_def split: split_dir.splits)

section \<open>The invariant of a layout\<close>

text \<open>\<open>n\<close> is the next id of the counter. An auto layout lists the panes of its tree.\<close>

definition tree_ok :: "nat \<Rightarrow> node \<Rightarrow> pane_id list option \<Rightarrow> bool" where
  "tree_ok n t auto =
     (node_wf t \<and> distinct (pane_ids_vec t) \<and> (\<forall>i \<in> split_ids t. i < n)
      \<and> (case auto of None \<Rightarrow> True | Some ps \<Rightarrow> distinct ps \<and> set ps = set (pane_ids_vec t)))"

definition cols_ok :: "nat \<Rightarrow> layout_column list \<Rightarrow> bool" where
  "cols_ok n cs =
     ((\<forall>c \<in> set cs. tree_ok n (lc_root c) (lc_auto c) \<and> lc_id c < n \<and> lc_width c \<noteq> FNaN)
      \<and> distinct (column_panes cs) \<and> distinct (map lc_id cs)
      \<and> (\<forall>c \<in> set cs. \<forall>d \<in> set cs. lc_id c \<notin> split_ids (lc_root d)))"

definition layout_inv :: "nat \<Rightarrow> 'a layout_state_scheme \<Rightarrow> bool" where
  "layout_inv n s =
     (if lcolumns s = [] then vsplits s = Map.empty \<and> base_width s = None \<and> tree_ok n (lroot s) (auto_layout s)
      else 2 \<le> length (lcolumns s) \<and> cols_ok n (lcolumns s) \<and> sync_layout_column_projection s = s)"

lemma sync_simps [simp]:
  "lcolumns (sync_layout_column_projection s) = lcolumns s"
  "active_pane (sync_layout_column_projection s) = active_pane s"
  "zoomed_pane (sync_layout_column_projection s) = zoomed_pane s"
  by (simp_all add: sync_layout_column_projection_def Let_def split: list.splits prod.splits)

lemma sync_idem [simp]:
  "sync_layout_column_projection (sync_layout_column_projection s) = sync_layout_column_projection s"
  by (simp add: sync_layout_column_projection_def Let_def split: list.splits prod.splits)

lemma sync_fields:
  assumes "lcolumns s = c # cs"
  shows "lroot (sync_layout_column_projection s) = fst (project_columns cs (lc_root c) (lc_width c) Map.empty)"
    and "vsplits (sync_layout_column_projection s) = marked cs Map.empty"
    and "base_width (sync_layout_column_projection s) = Some (lc_width c)"
    and "auto_layout (sync_layout_column_projection s) = None"
  using assms project_marked [of cs "lc_root c" "lc_width c" Map.empty]
  by (auto simp: sync_layout_column_projection_def Let_def split: prod.splits)

lemma layout_inv_sync:
  "2 \<le> length (lcolumns s) \<Longrightarrow> cols_ok n (lcolumns s) \<Longrightarrow> layout_inv n (sync_layout_column_projection s)"
  by (auto simp: layout_inv_def)

lemma cols_ok_unmarked:
  assumes "cols_ok n (c # cs)" and "d \<in> set (c # cs)"
  shows "unmarked_tree (marked cs Map.empty) (lc_root d)"
proof -
  have "i \<notin> lc_id ` set cs" if "i \<in> split_ids (lc_root d)" for i
    using assms that by (auto simp: cols_ok_def)
  then show ?thesis by (simp add: unmarked_tree_def marked_other)
qed

lemma fl_eq_refl: "x \<noteq> FNaN \<Longrightarrow> fl_eq x x"
  by (cases x) auto

lemma synced_consistent:
  assumes ok: "cols_ok n (lcolumns s)" and len: "2 \<le> length (lcolumns s)"
  shows "projection_is_consistent (sync_layout_column_projection s)"
proof -
  obtain c cs where cols: "lcolumns s = c # cs"
    using len by (cases "lcolumns s") auto
  let ?s = "sync_layout_column_projection s"
  let ?vs = "marked cs Map.empty" and ?t = "fst (project_columns cs (lc_root c) (lc_width c) Map.empty)"
  note F = sync_fields [OF cols]
  have ids: "distinct (map lc_id cs)" and panes: "distinct (column_panes (c # cs))"
    and nan: "\<forall>d \<in> set (c # cs). lc_width d \<noteq> FNaN"
    using ok cols by (auto simp: cols_ok_def)
  have "card (dom ?vs) = length cs"
    using distinct_card [OF ids] by (simp add: dom_marked)
  moreover have "option_eq (base_width ?s) (Some (lc_width c))"
    using nan F(3) by (simp add: option_eq_def fl_eq_refl)
  moreover have "column_consistent ?s (index, d)" if "(index, d) \<in> set (enumerate 0 (c # cs))" for index d
  proof (cases index)
    case 0
    with that have d: "d = c" by (auto simp: in_set_enumerate_eq)
    have "\<forall>e \<in> set cs. ?vs (lc_id e) \<noteq> None"
      by (simp add: marked_id [OF ids])
    moreover have "p \<notin> set (column_panes cs)" if "p \<in> set (pane_ids_vec (lc_root c))" for p
      using that panes by auto
    ultimately show ?thesis
      using 0 d panes owner_unmarked [OF cols_ok_unmarked [OF ok [unfolded cols]], of c]
      by (simp add: column_consistent_def F owner_project)
  next
    case (Suc k)
    with that have d: "d \<in> set cs" by (auto simp: in_set_enumerate_eq)
    have "\<forall>e \<in> set cs. ?vs (lc_id e) \<noteq> None"
      by (simp add: marked_id [OF ids])
    with d Suc nan panes show ?thesis
      by (simp add: column_consistent_def F option_eq_def fl_eq_refl marked_id [OF ids]
          owner_project_column)
  qed
  then have "list_all (column_consistent ?s) (enumerate 0 (c # cs))"
    unfolding list_all_iff by auto
  ultimately show ?thesis
    using len cols F(1,2,4)
    by (auto simp: projection_is_consistent_def project_panes simp del: enumerate_simps)
qed

lemma layout_inv_consistent:
  assumes "layout_inv n s"
  shows "projection_is_consistent s"
proof (cases "lcolumns s = []")
  case True
  with assms show ?thesis by (simp add: layout_inv_def projection_is_consistent_def)
next
  case False
  with assms have "cols_ok n (lcolumns s)" "2 \<le> length (lcolumns s)"
    "sync_layout_column_projection s = s"
    by (simp_all add: layout_inv_def)
  then show ?thesis using synced_consistent [of n s] by simp
qed

lemma layout_inv_root:
  assumes "layout_inv n s"
  shows "node_wf (lroot s) \<and> distinct (pane_ids_vec (lroot s)) \<and> (\<forall>i \<in> split_ids (lroot s). i < n)
    \<and> spine_tree (vsplits s) (lroot s)"
proof (cases "lcolumns s")
  case Nil
  with assms have "node_wf (lroot s) \<and> distinct (pane_ids_vec (lroot s)) \<and> (\<forall>i \<in> split_ids (lroot s). i < n)"
    "vsplits s = Map.empty"
    by (auto simp: layout_inv_def tree_ok_def)
  then show ?thesis by (simp add: spine_unmarked unmarked_tree_def)
next
  case (Cons c cs)
  then have ok: "cols_ok n (c # cs)" and s: "sync_layout_column_projection s = s"
    using assms by (auto simp: layout_inv_def)
  note F = sync_fields [OF Cons, unfolded s]
  have ids: "distinct (map lc_id cs)" using ok by (simp add: cols_ok_def)
  have "spine_tree (vsplits s) (lroot s)"
    unfolding F(1,2)
    by (intro spine_project ballI conjI spine_unmarked)
      (use cols_ok_unmarked [OF ok] ids in \<open>auto simp: marked_id\<close>)
  then show ?thesis
    using ok F(1) by (auto simp: project_panes project_split_ids project_wf cols_ok_def tree_ok_def)
qed

end
