(* ===== verification/ScreenOps.thy ===== *)
theory ScreenOps
  imports Screen
begin

text \<open>
  The layout transactions on a screen: attaching a pane (\<open>effect_add_pane\<close>), removing one
  (\<open>remove_pane_from_screen_layout\<close>, \<open>remove_pane_from_layout\<close>), ratios and column widths
  (\<open>set_layout_split_ratio\<close>, \<open>sync_layout_column_widths\<close>), swapping
  (\<open>swap_layout_panes\<close>), focus (\<open>apply_focus_path\<close>) and the commit of an undo without
  created panes (\<open>cmux-tui-core/src/mux.rs\<close> and \<open>mux/resource_topology.rs\<close>). Split ids
  come from the counter \<open>Mux::next_id\<close>, threaded as a number. \<open>anyhow::Error\<close> values
  are the constructors of \<open>layout_error\<close>; \<open>LayoutPanic\<close> stands for a failed \<open>expect\<close>.
\<close>

datatype layout_error =
    TargetDisappeared | NoViewportColumn | LeavesNotOrdered | RatioNotApplied
  | InvalidWidth | UnknownSplit | InvalidRatio | NotInViewport
  | SwapTargetsChanged | StaleUndo | UndoUnavailable | LayoutPanic

section \<open>Attaching a pane\<close>

definition append_to_auto_layout ::
    "node \<Rightarrow> pane_id list option \<Rightarrow> pane_id \<Rightarrow> nat \<Rightarrow> layout_error + node \<times> pane_id list option \<times> nat"
where
  "append_to_auto_layout t auto pane n =
     (let ps = (case auto of Some ps \<Rightarrow> ps | None \<Rightarrow> sort (pane_ids t []));
          ps = filter (\<lambda>p. p \<in> set (pane_ids_vec t)) ps @ [pane]
      in case zellij_default_pane_layout_with_ids ps counter n of
           Some (Some t', n) \<Rightarrow> Inr (t', Some ps, n)
         | _ \<Rightarrow> Inl LayoutPanic)"

text \<open>The directed split: split the target, put the new pane first when asked, set the
  ratio when given.\<close>

definition directed_split ::
    "node \<Rightarrow> pane_id \<Rightarrow> split_id \<Rightarrow> split_dir \<times> bool \<Rightarrow> pane_id \<Rightarrow> f32 option \<Rightarrow> layout_error + node" where
  "directed_split t target split d pane ratio =
     (let (dir, before_target) = d;
          (t, ok) = split_leaf t target split dir pane
      in if \<not> ok then Inl TargetDisappeared
         else let (t, ok) = (if before_target then swap_leaves t target pane else (t, True))
         in if \<not> ok then Inl LeavesNotOrdered
         else case ratio of
             None \<Rightarrow> Inr t
           | Some new_ratio \<Rightarrow>
               let (t, ok) = set_split_ratio t split
                     (if before_target then new_ratio else fl_sub f32_round (FFin 1) new_ratio)
               in if ok then Inr t else Inl RatioNotApplied)"

text \<open>The layout part of attaching \<open>pane\<close> next to \<open>target\<close>, up to the undo record.
  \<open>split_id\<close> and \<open>base_id\<close> are the ids reserved before the lock is taken: the first only when a
  direction is given, the second only with a viewport width. Expecting one that was not reserved
  panics.\<close>

definition attach_layout ::
    "screen \<Rightarrow> pane_id \<Rightarrow> pane_id \<Rightarrow> split_id option \<Rightarrow> split_id option \<Rightarrow> (split_dir \<times> bool) option
     \<Rightarrow> f32 option \<Rightarrow> f32 option \<Rightarrow> nat \<Rightarrow> layout_error + screen \<times> nat" where
  "attach_layout s target pane split_id base_id direction ratio viewport_width n =
     (case viewport_width of
        Some width \<Rightarrow>
          rbind (ok_or base_id LayoutPanic) (\<lambda>base.
          rbind (ok_or split_id LayoutPanic) (\<lambda>split.
          let (s', ok) = insert_layout_column_after s target base
                \<lparr>lc_id = split, lc_width = width, lc_root = Leaf pane, lc_auto = Some [pane]\<rparr>
          in if ok then Inr (s', n) else Inl TargetDisappeared))
      | None \<Rightarrow>
          (case direction of
             Some d \<Rightarrow>
               rbind (ok_or split_id LayoutPanic) (\<lambda>split.
               if layout_columns_active s then
                 (case layout_column_for_pane s target of
                    None \<Rightarrow> Inl NoViewportColumn
                  | Some k \<Rightarrow>
                      let c = lcolumns s ! k in
                      rbind (directed_split (lc_root c) target split d pane ratio) (\<lambda>t.
                        Inr (sync_layout_column_projection
                          (s\<lparr>lcolumns := (lcolumns s)[k := c\<lparr>lc_root := t, lc_auto := None\<rparr>]\<rparr>), n)))
               else
                 rbind (directed_split (lroot s) target split d pane ratio) (\<lambda>t.
                   Inr (s\<lparr>lroot := t, auto_layout := None\<rparr>, n)))
           | None \<Rightarrow>
               if layout_columns_active s then
                 (case layout_column_for_pane s target of
                    None \<Rightarrow> Inl NoViewportColumn
                  | Some k \<Rightarrow>
                      let c = lcolumns s ! k in
                      rbind (append_to_auto_layout (lc_root c) (lc_auto c) pane n) (\<lambda>(t, auto, n).
                        Inr (sync_layout_column_projection
                          (s\<lparr>lcolumns := (lcolumns s)[k := c\<lparr>lc_root := t, lc_auto := auto\<rparr>]\<rparr>), n)))
               else
                 rbind (append_to_auto_layout (lroot s) (auto_layout s) pane n) (\<lambda>(t, auto, n).
                   Inr (s\<lparr>lroot := t, auto_layout := auto\<rparr>, n))))"

definition attach_pane ::
    "screen \<Rightarrow> pane_id \<Rightarrow> pane_id \<Rightarrow> split_id option \<Rightarrow> split_id option \<Rightarrow> (split_dir \<times> bool) option
     \<Rightarrow> f32 option \<Rightarrow> f32 option \<Rightarrow> nat \<Rightarrow> layout_error + screen \<times> nat" where
  "attach_pane s target pane split_id base_id direction ratio viewport_width n =
     rbind (attach_layout s target pane split_id base_id direction ratio viewport_width n) (\<lambda>(s', n).
       case record_layout_change (s'\<lparr>active_pane := pane, zoomed_pane := None\<rparr>)
              (layout_snapshot s) [pane] None of
         Some s' \<Rightarrow> Inr (s', n) | None \<Rightarrow> Inl LayoutPanic)"

section \<open>Removing a pane\<close>

text \<open>Rebuild an auto-managed tree after a removal; the selected pane of its stack stays
  expanded.\<close>

definition rebuild_auto ::
    "node \<Rightarrow> pane_id list option \<Rightarrow> pane_id \<Rightarrow> pane_id option \<Rightarrow> nat
     \<Rightarrow> layout_error + node \<times> pane_id list option \<times> nat" where
  "rebuild_auto t auto pane stack_expanded n =
     (case auto of
        None \<Rightarrow> Inr (t, None, n)
      | Some ps \<Rightarrow>
          let ps = filter (\<lambda>p. p \<noteq> pane) ps in
          (case zellij_default_pane_layout_with_ids ps counter n of
             None \<Rightarrow> Inl LayoutPanic
           | Some (None, n) \<Rightarrow> Inr (t, None, n)
           | Some (Some t', n) \<Rightarrow>
               Inr (case stack_expanded of
                      Some e \<Rightarrow> fst (expand_stack_pane t' e) | None \<Rightarrow> t', Some ps, n)))"

definition remove_pane_from_screen_layout ::
    "nat \<Rightarrow> screen \<Rightarrow> pane_id \<Rightarrow> layout_error + screen \<times> bool \<times> nat" where
  "remove_pane_from_screen_layout n s pane =
     (let s = invalidate_layout_undo s in
      if layout_columns_active s then
        (case layout_column_for_pane s pane of
           None \<Rightarrow> Inr (s, True, n)
         | Some index \<Rightarrow>
             let c = lcolumns s ! index; stack_expanded = stack_expanded_pane (lc_root c) in
             rbind (case remove_leaf (lc_root c) pane of
                 Some t \<Rightarrow>
                   rmap (\<lambda>(t, auto, n).
                       (s\<lparr>lcolumns := (lcolumns s)[index := c\<lparr>lc_root := t, lc_auto := auto\<rparr>]\<rparr>, n))
                     (rebuild_auto t (lc_auto c) pane stack_expanded n)
               | None \<Rightarrow> Inr (s\<lparr>lcolumns := remove_at index (lcolumns s)\<rparr>, n))
               (\<lambda>(s, n). if lcolumns s = [] then Inr (s, False, n)
                  else Inr (collapse_single_layout_column s, True, n)))
      else
        let stack_expanded = stack_expanded_pane (lroot s) in
        (case remove_leaf (lroot s) pane of
           None \<Rightarrow> Inr (s\<lparr>lroot := Leaf 0\<rparr>, False, n)
         | Some t \<Rightarrow>
             rmap (\<lambda>(t, auto, n). (s\<lparr>lroot := t, auto_layout := auto\<rparr>, True, n))
               (rebuild_auto t (auto_layout s) pane stack_expanded n)))"

text \<open>The variant on snapshots used by tab moves: it drops the auto layouts.\<close>

definition remove_pane_from_layout :: "layout_state \<Rightarrow> pane_id \<Rightarrow> layout_state \<times> bool" where
  "remove_pane_from_layout s pane =
     (let s = s\<lparr>auto_layout := None\<rparr> in
      if lcolumns s = [] then
        (case remove_leaf (lroot s) pane of
           None \<Rightarrow> (s\<lparr>lroot := Leaf 0\<rparr>, False)
         | Some t \<Rightarrow> (s\<lparr>lroot := t\<rparr>, True))
      else case layout_column_for_pane s pane of
          None \<Rightarrow> (s, True)
        | Some index \<Rightarrow>
            let c = lcolumns s ! index;
                cols = (case remove_leaf (lc_root c) pane of
                    Some t \<Rightarrow> (lcolumns s)[index := c\<lparr>lc_root := t, lc_auto := None\<rparr>]
                  | None \<Rightarrow> remove_at index (lcolumns s));
                s = s\<lparr>lcolumns := cols\<rparr>
            in case cols of
                 [] \<Rightarrow> (s, False)
               | [column] \<Rightarrow>
                   (s\<lparr>lcolumns := [], lroot := lc_root column, auto_layout := lc_auto column,
                      vsplits := Map.empty, base_width := None\<rparr>, True)
               | _ \<Rightarrow> (sync_layout_column_projection s, True))"

section \<open>Ratios and widths\<close>

fun set_node_split_ratios :: "node \<Rightarrow> (split_id \<rightharpoonup> f32) \<Rightarrow> node" where
  "set_node_split_ratios (Leaf i) m = Leaf i"
| "set_node_split_ratios (Stack ps e) m = Stack ps e"
| "set_node_split_ratios (Split i d r a b) m =
     Split i d (case m i of Some r' \<Rightarrow> r' | None \<Rightarrow> r)
       (set_node_split_ratios a m) (set_node_split_ratios b m)"

fun column_ratios ::
    "layout_column list \<Rightarrow> f32 \<Rightarrow> (split_id \<rightharpoonup> f32) \<Rightarrow> viewport_splits
     \<Rightarrow> (split_id \<rightharpoonup> f32) \<times> viewport_splits" where
  "column_ratios [] width_before ratios splits = (ratios, splits)"
| "column_ratios (c # cs) width_before ratios splits =
     column_ratios cs (fl_add f32_round width_before (lc_width c))
       (ratios(lc_id c \<mapsto> fl_div f32_round width_before (fl_add f32_round width_before (lc_width c))))
       (splits(lc_id c \<mapsto> lc_width c))"

definition sync_layout_column_widths :: "'a layout_state_scheme \<Rightarrow> 'a layout_state_scheme" where
  "sync_layout_column_widths s =
     (case lcolumns s of
        [] \<Rightarrow> s\<lparr>vsplits := Map.empty, base_width := None\<rparr>
      | first # rest \<Rightarrow>
          let (ratios, splits) = column_ratios rest (lc_width first) Map.empty Map.empty
          in s\<lparr>vsplits := splits, base_width := Some (lc_width first),
               lroot := set_node_split_ratios (lroot s) ratios\<rparr>)"

definition valid_width :: "f32 \<Rightarrow> bool" where
  "valid_width w = (fl_is_finite w \<and> fl_le min_viewport_pane_width w
     \<and> fl_le w max_viewport_pane_width)"

text \<open>\<open>iter_mut().any(|column| column.root.set_split_ratio(..))\<close>.\<close>

fun set_column_ratio ::
    "layout_column list \<Rightarrow> split_id \<Rightarrow> f32 \<Rightarrow> layout_column list \<times> bool" where
  "set_column_ratio [] split ratio = ([], False)"
| "set_column_ratio (c # cs) split ratio =
     (let (t, ok) = set_split_ratio (lc_root c) split ratio in
      if ok then (c\<lparr>lc_root := t\<rparr> # cs, True)
      else let (cs, ok) = set_column_ratio cs split ratio in (c\<lparr>lc_root := t\<rparr> # cs, ok))"

definition set_layout_split_ratio ::
    "'a layout_state_scheme \<Rightarrow> split_id \<Rightarrow> f32 \<Rightarrow> layout_error + 'a layout_state_scheme" where
  "set_layout_split_ratio s split ratio =
     (case position (\<lambda>c. lc_id c = split) (lcolumns s) of
        Some (Suc k) \<Rightarrow>
          let width_before = fold (\<lambda>c w. fl_add f32_round w (lc_width c))
                (take (Suc k) (lcolumns s)) (FFin 0);
              width = fl_div f32_round
                (fl_mul f32_round width_before (fl_sub f32_round (FFin 1) ratio)) ratio
          in if \<not> valid_width width then Inl InvalidWidth
             else Inr (sync_layout_column_widths
               (s\<lparr>lcolumns := (lcolumns s)[Suc k := (lcolumns s ! Suc k)\<lparr>lc_width := width\<rparr>]\<rparr>))
      | _ \<Rightarrow>
          (if lcolumns s = [] then
             let (t, changed) = set_split_ratio (lroot s) split ratio in
             if changed then Inr (s\<lparr>lroot := t, auto_layout := None\<rparr>) else Inl UnknownSplit
           else
             let (cols, changed) = set_column_ratio (lcolumns s) split ratio in
             if changed
             then Inr (s\<lparr>lcolumns := cols, lroot := fst (set_split_ratio (lroot s) split ratio),
                         auto_layout := None\<rparr>)
             else Inl UnknownSplit))"

text \<open>\<open>resource_set_split_ratio\<close>: the guards, the plan on a snapshot and its commit.\<close>

definition commit_split_ratio :: "screen \<Rightarrow> layout_state \<Rightarrow> mutation_key option \<Rightarrow> screen option" where
  "commit_split_ratio s l key =
     (let bef = snapshot_for_coalescing_change s key;
          s = s\<lparr>lroot := lroot l, auto_layout := auto_layout l, vsplits := vsplits l,
                base_width := base_width l, lcolumns := lcolumns l\<rparr>
      in record_prepared_layout_change s bef [] key)"

definition set_split_ratio_mutation ::
    "screen \<Rightarrow> split_id \<Rightarrow> f32 \<Rightarrow> mutation_key option \<Rightarrow> layout_error + screen" where
  "set_split_ratio_mutation s split ratio key =
     (if \<not> (fl_is_finite ratio \<and> fl_less (FFin 0) ratio \<and> fl_less ratio (FFin 1)) then Inl InvalidRatio
      else if \<not> contains_split (lroot s) split then Inl UnknownSplit
      else rbind (set_layout_split_ratio (layout_snapshot s) split ratio) (\<lambda>l.
        ok_or (commit_split_ratio s l key) LayoutPanic))"

text \<open>\<open>resource_set_viewport_width\<close>. \<open>cells_wanted\<close> is the width in cells, \<open>exact\<close> the fraction;
  \<open>rendered\<close> is the width of the pane's active surface in cells, when it has one.\<close>

definition requested_width :: "f32 \<Rightarrow> u16 option \<Rightarrow> f32 option \<Rightarrow> u16 option \<Rightarrow> f32 option" where
  "requested_width current_width cells_wanted exact rendered =
     (case exact of
        Some w \<Rightarrow> Some w
      | None \<Rightarrow>
          (case (rendered, cells_wanted) of
             (Some r, Some c) \<Rightarrow>
               Some (fl_div f32_round (FFin (of_nat (unat c)))
                 (fl_div f32_round (FFin (of_nat (unat (max r 1)))) current_width))
           | _ \<Rightarrow> None))"

definition commit_viewport_width :: "screen \<Rightarrow> layout_state \<Rightarrow> mutation_key option \<Rightarrow> screen option" where
  "commit_viewport_width s l key =
     (let bef = snapshot_for_coalescing_change s key;
          s = s\<lparr>lroot := lroot l, vsplits := vsplits l, base_width := base_width l,
                lcolumns := lcolumns l\<rparr>
      in record_prepared_layout_change s bef [] key)"

definition set_viewport_width_mutation ::
    "screen \<Rightarrow> pane_id \<Rightarrow> u16 option \<Rightarrow> f32 option \<Rightarrow> u16 option \<Rightarrow> mutation_key option
     \<Rightarrow> layout_error + screen" where
  "set_viewport_width_mutation s pane cells_wanted exact rendered key =
     (if (cells_wanted \<noteq> None) = (exact \<noteq> None) then Inl InvalidWidth
      else if (case exact of Some w \<Rightarrow> \<not> valid_width w | None \<Rightarrow> False) then Inl InvalidWidth
      else if \<not> layout_columns_active s then Inl NotInViewport
      else case layout_column_for_pane s pane of
          None \<Rightarrow> Inl NoViewportColumn
        | Some k \<Rightarrow>
            (case requested_width (lc_width (lcolumns s ! k)) cells_wanted exact rendered of
               None \<Rightarrow> Inl NoViewportColumn
             | Some w \<Rightarrow>
                 if \<not> valid_width w then Inl InvalidWidth
                 else
                   let l = layout_snapshot s;
                       l = sync_layout_column_widths
                             (l\<lparr>lcolumns := (lcolumns l)[k := (lcolumns l ! k)\<lparr>lc_width := w\<rparr>]\<rparr>)
                   in ok_or (commit_viewport_width s l key) LayoutPanic))"

section \<open>Swap, focus, undo\<close>

definition swap_option :: "pane_id \<Rightarrow> pane_id \<Rightarrow> pane_id option \<Rightarrow> pane_id option" where
  "swap_option first second p =
     (if p = Some first then Some second else if p = Some second then Some first else p)"

text \<open>The loop over the columns.\<close>

definition swap_column :: "pane_id \<Rightarrow> pane_id \<Rightarrow> layout_column \<Rightarrow> layout_column" where
  "swap_column first second c =
     (if contains (lc_root c) first \<or> contains (lc_root c) second
      then c\<lparr>lc_root := swap_leaf_ids (lc_root c) first second, lc_auto := None\<rparr> else c)"

definition swap_layout_panes ::
    "layout_state \<Rightarrow> pane_id \<Rightarrow> pane_id \<Rightarrow> bool \<Rightarrow> layout_error + layout_state" where
  "swap_layout_panes s first second both_present =
     (if (if both_present then \<not> (contains (lroot s) first \<and> contains (lroot s) second)
          else \<not> (contains (lroot s) first \<or> contains (lroot s) second))
      then Inl SwapTargetsChanged
      else
        let s = s\<lparr>lroot := swap_leaf_ids (lroot s) first second,
                  lcolumns := map (swap_column first second) (lcolumns s)\<rparr>;
            s = (if lcolumns s \<noteq> [] then sync_layout_column_projection s else s);
            s = s\<lparr>auto_layout := None\<rparr>
        in Inr (if both_present then s
                else s\<lparr>active_pane := swap_id first second (active_pane s),
                       zoomed_pane := swap_option first second (zoomed_pane s)\<rparr>))"

definition overwrite_layout_snapshot :: "screen \<Rightarrow> layout_state \<Rightarrow> screen" where
  "overwrite_layout_snapshot s l =
     s\<lparr>lroot := lroot l, active_pane := active_pane l, zoomed_pane := zoomed_pane l,
       auto_layout := auto_layout l, vsplits := vsplits l, base_width := base_width l,
       lcolumns := lcolumns l\<rparr>"

definition apply_layout_snapshot :: "screen \<Rightarrow> layout_state \<Rightarrow> screen option" where
  "apply_layout_snapshot s l =
     record_layout_change (overwrite_layout_snapshot s l) (layout_snapshot s) [] None"

text \<open>The screen part of \<open>apply_focus_path\<close>.\<close>

definition expand_both :: "node \<Rightarrow> pane_id \<Rightarrow> pane_id \<Rightarrow> node \<times> bool" where
  "expand_both t previous pane =
     (let (t, e1) = expand_stack_pane t previous; (t, e2) = expand_stack_pane t pane
      in (t, e1 \<or> e2))"

definition focus_pane :: "'a layout_state_scheme \<Rightarrow> pane_id \<Rightarrow> 'a layout_state_scheme" where
  "focus_pane s pane =
     (let previous = active_pane s;
          s = (if layout_columns_active s then
                 let expanded = map (\<lambda>c. expand_both (lc_root c) previous pane) (lcolumns s);
                     s = s\<lparr>lcolumns := map (\<lambda>(c, t, _). c\<lparr>lc_root := t\<rparr>) (zip (lcolumns s) expanded)\<rparr>
                 in if \<exists>(_, e) \<in> set expanded. e then sync_layout_column_projection s else s
               else s\<lparr>lroot := fst (expand_both (lroot s) previous pane)\<rparr>)
      in s\<lparr>active_pane := pane\<rparr>)"

text \<open>Zooming a pane, or unzooming, as a structural change.\<close>

definition set_zoom :: "screen \<Rightarrow> pane_id option \<Rightarrow> screen option" where
  "set_zoom s zoom =
     (let s' = s\<lparr>zoomed_pane := zoom\<rparr> in
      if zoomed_pane s \<noteq> zoom then record_layout_change s' (layout_snapshot s) [] None else Some s')"

text \<open>After an undo the next older entry becomes current again.\<close>

definition refresh_last_entry :: "u64 \<Rightarrow> undo_entry list \<Rightarrow> undo_entry list" where
  "refresh_last_entry revision es =
     (if es = [] then []
      else butlast es @ [(last es)\<lparr>after_revision := revision, coalesce := None\<rparr>])"

definition undo_without_created :: "screen \<Rightarrow> u64 option \<Rightarrow> layout_error + screen" where
  "undo_without_created s expected =
     (if layout_undo s = [] then Inl StaleUndo
      else
        let entry = last (layout_undo s) in
        if after_revision entry \<noteq> layout_revision s
           \<or> (case expected of Some e \<Rightarrow> e \<noteq> after_revision entry | None \<Rightarrow> False)
        then Inl StaleUndo
        else
          let revision = sat_add (layout_revision s) 1;
              s = restore_layout_snapshot (s\<lparr>layout_undo := butlast (layout_undo s)\<rparr>) (before entry)
          in Inr (s\<lparr>layout_revision := revision,
                    layout_undo := refresh_last_entry revision (layout_undo s)\<rparr>))"

section \<open>Columns under updates\<close>

lemma tree_ok_mono: "tree_ok n t a \<Longrightarrow> n \<le> m \<Longrightarrow> tree_ok m t a"
  by (auto simp: tree_ok_def)

lemma cols_ok_mono: "cols_ok n cs \<Longrightarrow> n \<le> m \<Longrightarrow> cols_ok m cs"
  unfolding cols_ok_def by (meson order_less_le_trans tree_ok_mono)

lemma layout_inv_mono: "layout_inv n s \<Longrightarrow> n \<le> m \<Longrightarrow> layout_inv m s"
  by (auto simp: layout_inv_def cols_ok_mono tree_ok_mono split: if_splits)

lemma cols_ok_append:
  "cols_ok n (xs @ c # ys) \<longleftrightarrow>
     cols_ok n (xs @ ys) \<and> tree_ok n (lc_root c) (lc_auto c) \<and> lc_id c < n \<and> lc_width c \<noteq> FNaN
     \<and> set (pane_ids_vec (lc_root c)) \<inter> set (column_panes (xs @ ys)) = {}
     \<and> lc_id c \<notin> lc_id ` set (xs @ ys) \<and> lc_id c \<notin> split_ids (lc_root c)
     \<and> (\<forall>d \<in> set (xs @ ys). lc_id c \<notin> split_ids (lc_root d) \<and> lc_id d \<notin> split_ids (lc_root c))"
  unfolding cols_ok_def by (auto simp: tree_ok_def)

lemma cols_ok_update:
  assumes "cols_ok n cs" and "k < length cs" and "n \<le> m" and "tree_ok m t a"
    and "set (pane_ids_vec t) \<subseteq> set (pane_ids_vec (lc_root (cs ! k))) \<union> X"
    and "X \<inter> set (column_panes cs) = {}"
    and "split_ids t \<subseteq> split_ids (lc_root (cs ! k)) \<union> Y" and "Y \<inter> lc_id ` set cs = {}"
  shows "cols_ok m (cs[k := (cs ! k)\<lparr>lc_root := t, lc_auto := a\<rparr>])"
proof -
  let ?xs = "take k cs" and ?ys = "drop (Suc k) cs" and ?c = "cs ! k"
  have cs: "cs = ?xs @ ?c # ?ys" using assms(2) by (rule id_take_nth_drop)
  have upd: "cs[k := ?c\<lparr>lc_root := t, lc_auto := a\<rparr>] = ?xs @ ?c\<lparr>lc_root := t, lc_auto := a\<rparr> # ?ys"
    using assms(2) by (rule upd_conv_take_nth_drop)
  have sub: "set (?xs @ ?ys) \<subseteq> set cs"
    using set_take_subset [of k cs] set_drop_subset [of "Suc k" cs] by auto
  have pan: "set (column_panes (?xs @ ?ys)) \<subseteq> set (column_panes cs)"
    using sub by auto
  have c: "?c \<in> set cs" using assms(2) by simp
  have old: "cols_ok n (?xs @ ?c # ?ys)" using assms(1) cs by simp
  note O = old [unfolded cols_ok_append]
  have "cols_ok m (?xs @ ?ys)" using O cols_ok_mono [OF _ assms(3)] by blast
  moreover have "set (pane_ids_vec t) \<inter> set (column_panes (?xs @ ?ys)) = {}"
    using O assms(5,6) pan by blast
  moreover have "lc_id ?c \<notin> split_ids t"
    using O assms(7,8) c by blast
  moreover have "lc_id d \<notin> split_ids t" if "d \<in> set (?xs @ ?ys)" for d
    using O assms(7,8) that sub by blast
  ultimately show ?thesis
    unfolding upd cols_ok_append using O assms(3,4) by simp
qed

lemma cols_ok_insert:
  assumes "cols_ok n cs" and "k \<le> length cs" and "tree_ok n (lc_root c) (lc_auto c)" and "lc_id c < n"
    and "lc_width c \<noteq> FNaN" and "set (pane_ids_vec (lc_root c)) \<inter> set (column_panes cs) = {}"
    and "lc_id c \<notin> lc_id ` set cs" and "lc_id c \<notin> split_ids (lc_root c)"
    and "\<forall>d \<in> set cs. lc_id c \<notin> split_ids (lc_root d) \<and> lc_id d \<notin> split_ids (lc_root c)"
  shows "cols_ok n (insert_at k c cs)"
proof -
  have "set (take k cs @ drop k cs) = set cs" by (simp only: append_take_drop_id)
  then show ?thesis
    unfolding insert_at_def cols_ok_append append_take_drop_id using assms by simp
qed

lemma cols_ok_remove: "cols_ok n cs \<Longrightarrow> k < length cs \<Longrightarrow> cols_ok n (remove_at k cs)"
  using cols_ok_append [of n "take k cs" "cs ! k" "drop (Suc k) cs"]
  by (simp add: remove_at_def id_take_nth_drop [symmetric])

lemma column_panes_update:
  assumes "k < length cs"
  shows "set (column_panes (cs[k := c])) \<union> set (pane_ids_vec (lc_root (cs ! k)))
      = set (column_panes cs) \<union> set (pane_ids_vec (lc_root c)) \<union>
        (set (pane_ids_vec (lc_root (cs ! k))) - set (column_panes cs))"
    and "set (column_panes cs) - set (pane_ids_vec (lc_root (cs ! k))) \<subseteq> set (column_panes (cs[k := c]))"
    and "set (column_panes (cs[k := c])) \<subseteq> set (column_panes cs) \<union> set (pane_ids_vec (lc_root c))"
    and "set (pane_ids_vec (lc_root c)) \<subseteq> set (column_panes (cs[k := c]))"
proof -
  have 1: "set (cs[k := c]) \<subseteq> insert c (set cs)" by (rule set_update_subset_insert)
  have 2: "c \<in> set (cs[k := c])" using assms by (rule set_update_memI)
  have 3: "set cs \<subseteq> insert (cs ! k) (set (cs[k := c]))"
    using set_update_subset_insert [of "cs[k := c]" k "cs ! k"] by simp
  have 4: "cs ! k \<in> set cs" using assms by simp
  show "set (column_panes cs) - set (pane_ids_vec (lc_root (cs ! k))) \<subseteq> set (column_panes (cs[k := c]))"
    using 3 by auto
  show "set (column_panes (cs[k := c])) \<subseteq> set (column_panes cs) \<union> set (pane_ids_vec (lc_root c))"
    using 1 by auto
  show "set (pane_ids_vec (lc_root c)) \<subseteq> set (column_panes (cs[k := c]))"
    using 2 by auto
  show "set (column_panes (cs[k := c])) \<union> set (pane_ids_vec (lc_root (cs ! k)))
      = set (column_panes cs) \<union> set (pane_ids_vec (lc_root c)) \<union>
        (set (pane_ids_vec (lc_root (cs ! k))) - set (column_panes cs))"
    using 1 2 3 4 by auto
qed

lemma layout_column_for_pane_Some:
  "layout_column_for_pane s p = Some k \<Longrightarrow>
   k < length (lcolumns s) \<and> p \<in> set (pane_ids_vec (lc_root (lcolumns s ! k)))"
  by (auto simp: layout_column_for_pane_def dest: position_Some_less)

lemma layout_column_for_pane_None:
  "layout_column_for_pane s p = None \<longleftrightarrow> p \<notin> set (column_panes (lcolumns s))"
  by (auto simp: layout_column_for_pane_def position_None_iff)

text \<open>The panes a layout shows.\<close>

abbreviation layout_panes :: "'a layout_state_scheme \<Rightarrow> pane_id set" where
  "layout_panes s \<equiv> set (pane_ids_vec (lroot s))"

lemma sync_panes:
  "lcolumns s \<noteq> [] \<Longrightarrow> pane_ids_vec (lroot (sync_layout_column_projection s)) = column_panes (lcolumns s)"
  by (cases "lcolumns s") (auto simp: sync_fields project_panes)

lemma layout_inv_column_panes:
  "layout_inv n s \<Longrightarrow> lcolumns s \<noteq> [] \<Longrightarrow> pane_ids_vec (lroot s) = column_panes (lcolumns s)"
  using sync_panes [of s] by (simp add: layout_inv_def)

section \<open>Trees under transactions\<close>

lemma append_to_auto_layout_ok:
  assumes "tree_ok n t auto" and "pane \<notin> set (pane_ids_vec t)"
  shows "\<exists>t' ps m. append_to_auto_layout t auto pane n = Inr (t', Some ps, m) \<and> n \<le> m
    \<and> tree_ok m t' (Some ps) \<and> set (pane_ids_vec t') = insert pane (set (pane_ids_vec t))
    \<and> split_ids t' \<subseteq> {n..<m}"
proof -
  define qs where "qs = (case auto of Some ps \<Rightarrow> ps | None \<Rightarrow> sort (pane_ids t []))"
  define ps where "ps = filter (\<lambda>p. p \<in> set (pane_ids_vec t)) qs @ [pane]"
  have qs: "distinct qs" "set qs = set (pane_ids_vec t)"
    using assms(1) by (auto simp: qs_def tree_ok_def pane_ids_vec_def split: option.splits)
  then have ps: "distinct ps" "set ps = insert pane (set (pane_ids_vec t))" "ps \<noteq> []"
    using assms(2) by (auto simp: ps_def)
  obtain r m where r: "zellij_default_pane_layout_with_ids ps counter n = Some (r, m)"
    "case r of None \<Rightarrow> ps = [] | Some t \<Rightarrow> node_wf t \<and> pane_ids_vec t = ps"
    using zellij_spec [of ps counter n] by auto
  with ps(3) obtain t' where t': "r = Some t'" "node_wf t'" "pane_ids_vec t' = ps"
    by (cases r) auto
  have "n \<le> m" "split_ids t' \<subseteq> {n..<m}"
    using zellij_ids [of ps n t' m] r(1) t'(1) by auto
  with r(1) t' ps show ?thesis
    by (auto simp: append_to_auto_layout_def Let_def qs_def [symmetric] ps_def [symmetric] tree_ok_def)
qed

lemma split_ids_split_leaf:
  "p \<in> set (pane_ids_vec t) \<Longrightarrow> split_ids (fst (split_leaf t p s d q)) = insert s (split_ids t)"
  by (induction t) (auto simp: split_leaf_Split simp del: split_leaf.simps(2))

lemma split_ids_swap [simp]: "split_ids (swap_leaf_ids t a b) = split_ids t"
  by (induction t) (auto simp: Let_def)

lemma split_ids_set_ratio [simp]: "split_ids (fst (set_split_ratio t i r)) = split_ids t"
  by (induction t) (auto simp: set_split_ratio_Split simp del: set_split_ratio.simps(2))

lemma split_ids_expand [simp]: "split_ids (fst (expand_stack_pane t p)) = split_ids t"
  by (induction t) (auto simp: Let_def split: prod.splits)

lemma split_ids_remove: "remove_leaf t p = Some t' \<Longrightarrow> split_ids t' \<subseteq> split_ids t"
  by (induction t arbitrary: t') (auto simp: Let_def split: option.splits if_splits list.splits)

lemma directed_split_ok:
  assumes "tree_ok n t auto" and "target \<in> set (pane_ids_vec t)" and "pane \<notin> set (pane_ids_vec t)"
    and "split < n"
  shows "\<exists>t'. directed_split t target split d pane ratio = Inr t' \<and> tree_ok n t' None
    \<and> set (pane_ids_vec t') = insert pane (set (pane_ids_vec t))
    \<and> split_ids t' = insert split (split_ids t)"
proof -
  obtain dir before_target where d: "d = (dir, before_target)" by (cases d)
  obtain t1 where t1: "split_leaf t target split dir pane = (t1, True)"
    using split_leaf_ok [of t target split dir pane] assms(2)
    by (cases "split_leaf t target split dir pane") simp
  have t: "node_wf t" "distinct (pane_ids_vec t)" "\<forall>i \<in> split_ids t. i < n"
    using assms(1) by (auto simp: tree_ok_def)
  have s1: "set (pane_ids_vec t1) = insert pane (set (pane_ids_vec t))"
    using mset_split_leaf [OF assms(2), of split dir pane] unfolding t1 fst_conv
    by (metis set_mset_add_mset_insert set_mset_mset)
  define t2 where "t2 = (if before_target then swap_leaf_ids t1 target pane else t1)"
  have "target \<noteq> pane" using assms(2,3) by auto
  then have sw: "(if before_target then swap_leaves t1 target pane else (t1, True)) = (t2, True)"
    using s1 assms(2) by (simp add: t2_def swap_leaves_def)
  have im: "swap_id target pane ` insert pane (set (pane_ids_vec t)) = insert pane (set (pane_ids_vec t))"
    using assms(2) by (force simp: swap_id_def image_iff)
  have "set (pane_ids_vec (swap_leaf_ids t1 target pane)) = insert pane (set (pane_ids_vec t))"
    unfolding pane_ids_swap set_map s1 by (rule im)
  moreover note node_wf_split_leaf [OF t(1), of target split dir pane, unfolded t1 fst_conv]
    and distinct_split_leaf [OF t(2) assms(3), of target split dir, unfolded t1 fst_conv]
  ultimately have wf2: "node_wf t2" "distinct (pane_ids_vec t2)"
    "set (pane_ids_vec t2) = insert pane (set (pane_ids_vec t))" "split_ids t2 = insert split (split_ids t)"
    using s1 split_ids_split_leaf [OF assms(2), of split dir pane, unfolded t1 fst_conv]
    by (auto simp: t2_def node_wf_swap distinct_swap simp del: pane_ids_swap)
  define r' where "r' = (\<lambda>new_ratio. if before_target then new_ratio else fl_sub f32_round (FFin 1) new_ratio)"
  define t3 where "t3 = (case ratio of None \<Rightarrow> t2 | Some r \<Rightarrow> fst (set_split_ratio t2 split (r' r)))"
  have set_ok: "set_split_ratio t2 split x = (fst (set_split_ratio t2 split x), True)" for x
    using wf2(4) set_split_ratio_ok [of t2 split x] by (simp add: prod_eq_iff contains_split_iff)
  have "(case set_split_ratio t2 split x of (t, ok) \<Rightarrow> if ok then Inr t else Inl RatioNotApplied)
      = Inr (fst (set_split_ratio t2 split x))" for x
    by (subst set_ok) simp
  then have "directed_split t target split d pane ratio = Inr t3"
    by (simp add: directed_split_def d t1 sw t3_def r'_def Let_def split: option.split)
  moreover have "tree_ok n t3 None \<and> set (pane_ids_vec t3) = insert pane (set (pane_ids_vec t))
      \<and> split_ids t3 = insert split (split_ids t)"
    using wf2 t(3) assms(4) by (auto simp: t3_def tree_ok_def node_wf_set_split_ratio split: option.splits)
  ultimately show ?thesis by blast
qed

end
