(* ===== verification/ScreenInv.thy ===== *)
theory ScreenInv
  imports ScreenOps
begin

text \<open>
  The layout invariant is kept by every layout transaction of \<open>ScreenOps\<close>, and what each
  transaction does to the panes of the screen. \<open>fresh_id\<close> describes an id the counter has
  handed out that the screen does not use yet.
\<close>

section \<open>Attaching\<close>

definition fresh_id :: "'a layout_state_scheme \<Rightarrow> split_id \<Rightarrow> bool" where
  "fresh_id s i = (i \<notin> split_ids (lroot s) \<and> (\<forall>c \<in> set (lcolumns s). i \<noteq> lc_id c \<and> i \<notin> split_ids (lc_root c)))"

lemma layout_inv_cong:
  "lroot s = lroot t \<Longrightarrow> auto_layout s = auto_layout t \<Longrightarrow> vsplits s = vsplits t \<Longrightarrow>
   base_width s = base_width t \<Longrightarrow> lcolumns s = lcolumns t \<Longrightarrow>
   layout_inv n (s :: 'a layout_state_scheme) \<longleftrightarrow> layout_inv n (t :: 'b layout_state_scheme)"
proof -
  assume eq: "lroot s = lroot t" "auto_layout s = auto_layout t" "vsplits s = vsplits t"
    "base_width s = base_width t" "lcolumns s = lcolumns t"
  have "sync_layout_column_projection s = s \<longleftrightarrow> sync_layout_column_projection t = t"
  proof (cases "lcolumns t")
    case Nil
    with eq show ?thesis
      by (cases s; cases t) (auto simp: sync_layout_column_projection_def)
  next
    case (Cons c cs)
    with eq show ?thesis
      by (cases s; cases t)
        (auto simp: sync_layout_column_projection_def Let_def split: prod.splits)
  qed
  with eq show ?thesis by (simp add: layout_inv_def)
qed

lemma sync_update_ok:
  assumes "layout_inv n s" and "layout_column_for_pane s p = Some k" and "n \<le> m"
    and "tree_ok m t a"
    and "set (pane_ids_vec t) = insert q (set (pane_ids_vec (lc_root (lcolumns s ! k))))"
    and "q \<notin> layout_panes s \<or> q \<in> set (pane_ids_vec (lc_root (lcolumns s ! k)))"
    and "split_ids t \<subseteq> split_ids (lc_root (lcolumns s ! k)) \<union> Y"
    and "Y \<inter> lc_id ` set (lcolumns s) = {}"
    and "s' = sync_layout_column_projection
           (s\<lparr>lcolumns := (lcolumns s)[k := (lcolumns s ! k)\<lparr>lc_root := t, lc_auto := a\<rparr>]\<rparr>)"
  shows "layout_inv m s' \<and> layout_panes s' = insert q (layout_panes s)"
proof -
  let ?cs = "lcolumns s" and ?c = "(lcolumns s ! k)\<lparr>lc_root := t, lc_auto := a\<rparr>"
  have k: "k < length ?cs" using assms(2) layout_column_for_pane_Some by blast
  then have ne: "?cs \<noteq> []" by auto
  with assms(1) have inv: "2 \<le> length ?cs" "cols_ok n ?cs" by (auto simp: layout_inv_def)
  have pan: "layout_panes s = set (column_panes ?cs)"
    by (rule arg_cong [OF layout_inv_column_panes [OF assms(1) ne]])
  have ck: "set (pane_ids_vec (lc_root (?cs ! k))) \<subseteq> set (column_panes ?cs)"
    using nth_mem [OF k] by (simp only: set_concat set_map) blast
  let ?X = "{q} - set (pane_ids_vec (lc_root (?cs ! k)))"
  have "cols_ok m (?cs[k := ?c])"
    by (rule cols_ok_update [OF inv(2) k assms(3,4) _ _ assms(7,8), of ?X])
      (use assms(5,6) pan in auto)
  then have "layout_inv m s'"
    unfolding assms(9) using inv(1) by (intro layout_inv_sync) simp_all
  moreover have "layout_panes s' = set (column_panes (?cs[k := ?c]))"
    unfolding assms(9) using ne by (subst sync_panes) simp_all
  moreover have "set (column_panes (?cs[k := ?c])) = insert q (set (column_panes ?cs))"
    using column_panes_update [OF k, of ?c] ck assms(5) by auto
  ultimately show ?thesis using pan by simp
qed

lemma attach_layout_ok:
  assumes inv: "layout_inv n s" and target: "target \<in> layout_panes s" and new: "pane \<notin> layout_panes s"
    and splits: "\<forall>i. split_id = Some i \<longrightarrow> i < n \<and> fresh_id s i"
    and bases: "\<forall>i. base_id = Some i \<longrightarrow> i < n \<and> fresh_id s i \<and> split_id \<noteq> Some i"
    and reserved: "direction \<noteq> None \<longrightarrow> split_id \<noteq> None" "viewport_width \<noteq> None \<longrightarrow> base_id \<noteq> None \<and> split_id \<noteq> None"
    and width: "viewport_width \<noteq> Some FNaN"
  shows "\<exists>s' m. attach_layout s target pane split_id base_id direction ratio viewport_width n = Inr (s', m)
    \<and> n \<le> m \<and> layout_inv m s' \<and> layout_panes s' = insert pane (layout_panes s)
    \<and> layout_undo s' = layout_undo s \<and> layout_revision s' = layout_revision s"
proof (cases viewport_width)
  case (Some w)
  obtain split base where ids: "split_id = Some split" "base_id = Some base"
    using reserved(2) Some by auto
  have split: "split < n" "fresh_id s split" and base: "base < n" "fresh_id s base" "base \<noteq> split"
    using splits bases ids by auto
  let ?c = "\<lparr>lc_id = split, lc_width = w, lc_root = Leaf pane, lc_auto = Some [pane]\<rparr>"
  define s1 where "s1 = (if lcolumns s = []
      then s\<lparr>lroot := Leaf 0,
             lcolumns := [\<lparr>lc_id = base,
                lc_width = (case base_width s of Some w \<Rightarrow> w | None \<Rightarrow> FFin 1),
                lc_root = lroot s, lc_auto = auto_layout s\<rparr>], auto_layout := None\<rparr>
      else s)"
  have s1: "cols_ok n (lcolumns s1)" "1 \<le> length (lcolumns s1)"
    "set (column_panes (lcolumns s1)) = layout_panes s"
    "\<forall>c \<in> set (lcolumns s1). split \<noteq> lc_id c \<and> split \<notin> split_ids (lc_root c)"
  proof -
    have "cols_ok n (lcolumns s1) \<and> 1 \<le> length (lcolumns s1)
      \<and> set (column_panes (lcolumns s1)) = layout_panes s
      \<and> (\<forall>c \<in> set (lcolumns s1). split \<noteq> lc_id c \<and> split \<notin> split_ids (lc_root c))"
    proof (cases "lcolumns s = []")
      case True
      with inv split base show ?thesis
        by (simp add: s1_def layout_inv_def cols_ok_def fresh_id_def tree_ok_def)
    next
      case False
      with inv split show ?thesis
        by (auto simp: s1_def layout_inv_def fresh_id_def layout_inv_column_panes [OF inv])
    qed
    then show "cols_ok n (lcolumns s1)" "1 \<le> length (lcolumns s1)"
      "set (column_panes (lcolumns s1)) = layout_panes s"
      "\<forall>c \<in> set (lcolumns s1). split \<noteq> lc_id c \<and> split \<notin> split_ids (lc_root c)" by blast+
  qed
  obtain k where k: "layout_column_for_pane s1 target = Some k"
    using layout_column_for_pane_None [of s1 target] target s1(3) by fastforce
  then have kl: "k < length (lcolumns s1)" using layout_column_for_pane_Some by blast
  let ?s2 = "sync_layout_column_projection (s1\<lparr>lcolumns := insert_at (Suc k) ?c (lcolumns s1)\<rparr>)"
  have "insert_layout_column_after s target base ?c = (?s2, True)"
    using target k
    by (simp add: insert_layout_column_after_def s1_def [symmetric] Let_def)
  then have res: "attach_layout s target pane split_id base_id direction ratio viewport_width n = Inr (?s2, n)"
    using Some by (simp add: attach_layout_def ids)
  have "cols_ok n (insert_at (Suc k) ?c (lcolumns s1))"
    by (rule cols_ok_insert [OF s1(1)])
      (use kl s1(3,4) new split width Some in \<open>auto simp: tree_ok_def\<close>)
  then have "layout_inv n ?s2"
    using kl s1(2) by (intro layout_inv_sync) simp_all
  moreover have "layout_panes ?s2 = insert pane (layout_panes s)"
  proof -
    have "set (insert_at (Suc k) ?c (lcolumns s1)) = insert ?c (set (lcolumns s1))"
      using kl by simp
    moreover from this have "insert_at (Suc k) ?c (lcolumns s1) \<noteq> []" by auto
    ultimately show ?thesis using s1(3) by (simp add: sync_panes)
  qed
  moreover have "layout_undo ?s2 = layout_undo s" "layout_revision ?s2 = layout_revision s"
    by (auto simp: sync_layout_column_projection_def s1_def Let_def split: list.splits prod.splits)
  ultimately show ?thesis using res by blast
next
  case None
  show ?thesis
  proof (cases "lcolumns s = []")
    case True
    have ok: "tree_ok n (lroot s) (auto_layout s)" using inv True by (simp add: layout_inv_def)
    show ?thesis
    proof (cases direction)
      case (Some d)
      then obtain split where id: "split_id = Some split"
        using reserved(1) by auto
      then have split: "split < n" "fresh_id s split"
        using splits by auto
      obtain t where "directed_split (lroot s) target split d pane ratio = Inr t" "tree_ok n t None"
        "set (pane_ids_vec t) = insert pane (layout_panes s)"
        using directed_split_ok [OF ok target new split(1), of d ratio] by blast
      with Some None True inv id show ?thesis
        by (auto simp: attach_layout_def layout_columns_active_def layout_inv_def)
    next
      case no_dir: None
      obtain t ps m where "append_to_auto_layout (lroot s) (auto_layout s) pane n = Inr (t, Some ps, m)"
        "n \<le> m" "tree_ok m t (Some ps)" "set (pane_ids_vec t) = insert pane (layout_panes s)"
        using append_to_auto_layout_ok [OF ok new] by blast
      with no_dir None True inv show ?thesis
        by (auto simp: attach_layout_def layout_columns_active_def layout_inv_def)
    qed
  next
    case False
    obtain k where k: "layout_column_for_pane s target = Some k"
      using layout_column_for_pane_None [of s target] target layout_inv_column_panes [OF inv False]
      by fastforce
    let ?c = "lcolumns s ! k"
    have kl: "k < length (lcolumns s)" and tk: "target \<in> set (pane_ids_vec (lc_root ?c))"
      using layout_column_for_pane_Some [OF k] by auto
    have mem: "?c \<in> set (lcolumns s)" using kl by simp
    have ok: "tree_ok n (lc_root ?c) (lc_auto ?c)"
      using inv False mem by (auto simp: layout_inv_def cols_ok_def)
    have ids: "\<forall>c \<in> set (lcolumns s). lc_id c < n"
      using inv False by (auto simp: layout_inv_def cols_ok_def)
    have newk: "pane \<notin> set (pane_ids_vec (lc_root ?c))"
      using new mem layout_inv_column_panes [OF inv False] by auto
    show ?thesis
    proof (cases direction)
      case (Some d)
      then obtain split where id: "split_id = Some split"
        using reserved(1) by auto
      then have split: "split < n" "fresh_id s split"
        using splits by auto
      obtain t where t: "directed_split (lc_root ?c) target split d pane ratio = Inr t" "tree_ok n t None"
        "set (pane_ids_vec t) = insert pane (set (pane_ids_vec (lc_root ?c)))"
        "split_ids t = insert split (split_ids (lc_root ?c))"
        using directed_split_ok [OF ok tk newk split(1), of d ratio] by blast
      let ?s' = "sync_layout_column_projection
        (s\<lparr>lcolumns := (lcolumns s)[k := ?c\<lparr>lc_root := t, lc_auto := None\<rparr>]\<rparr>)"
      have "layout_inv n ?s' \<and> layout_panes ?s' = insert pane (layout_panes s)"
        by (rule sync_update_ok [OF inv k order_refl t(2,3) _ _ _ refl, of "{split}"])
          (use new t(4) split(2) in \<open>auto simp: fresh_id_def\<close>)
      moreover have "layout_undo ?s' = layout_undo s" "layout_revision ?s' = layout_revision s"
        by (auto simp: sync_layout_column_projection_def Let_def split: list.splits prod.splits)
      ultimately show ?thesis
        using Some None False k t(1) id
        by (auto simp: attach_layout_def layout_columns_active_def Let_def)
    next
      case no_dir: None
      obtain t ps m where t: "append_to_auto_layout (lc_root ?c) (lc_auto ?c) pane n = Inr (t, Some ps, m)"
        "n \<le> m" "tree_ok m t (Some ps)" "set (pane_ids_vec t) = insert pane (set (pane_ids_vec (lc_root ?c)))"
        "split_ids t \<subseteq> {n..<m}"
        using append_to_auto_layout_ok [OF ok newk] by blast
      let ?s' = "sync_layout_column_projection
        (s\<lparr>lcolumns := (lcolumns s)[k := ?c\<lparr>lc_root := t, lc_auto := Some ps\<rparr>]\<rparr>)"
      have "layout_inv m ?s' \<and> layout_panes ?s' = insert pane (layout_panes s)"
        by (rule sync_update_ok [OF inv k t(2,3,4) _ _ _ refl, of "{n..<m}"])
          (use new t(5) ids in force)+
      moreover have "layout_undo ?s' = layout_undo s" "layout_revision ?s' = layout_revision s"
        by (auto simp: sync_layout_column_projection_def Let_def split: list.splits prod.splits)
      ultimately show ?thesis
        using no_dir None False k t(1,2)
        by (auto simp: attach_layout_def layout_columns_active_def Let_def)
    qed
  qed
qed

section \<open>Removing\<close>

lemma collapse_ok:
  assumes "lcolumns s \<noteq> []" and "cols_ok n (lcolumns s)"
  shows "layout_inv n (collapse_single_layout_column s)
    \<and> layout_panes (collapse_single_layout_column s) = set (column_panes (lcolumns s))"
proof (cases "\<exists>c. lcolumns s = [c]")
  case True
  then obtain c where "lcolumns s = [c]" by blast
  with assms(2) show ?thesis
    by (simp add: collapse_single_layout_column_def layout_inv_def cols_ok_def)
next
  case False
  then have "collapse_single_layout_column s = sync_layout_column_projection s"
    by (auto simp: collapse_single_layout_column_def split: list.splits)
  moreover have "2 \<le> length (lcolumns s)"
    using False assms(1) by (cases "lcolumns s" rule: list.exhaust [OF _ list.exhaust]) (auto simp: neq_Nil_conv Suc_le_eq)
  ultimately show ?thesis
    using assms layout_inv_sync [of s n] by (simp add: sync_panes)
qed

lemma rebuild_auto_ok:
  assumes "tree_ok n t0 auto" and "remove_leaf t0 pane = Some t"
  shows "\<exists>t' a m. rebuild_auto t auto pane e n = Inr (t', a, m) \<and> n \<le> m \<and> tree_ok m t' a
    \<and> set (pane_ids_vec t') = set (pane_ids_vec t0) - {pane}
    \<and> split_ids t' \<subseteq> split_ids t0 \<union> {n..<m}"
proof -
  have t: "node_wf t" "pane_ids_vec t = filter (\<lambda>q. q \<noteq> pane) (pane_ids_vec t0)"
    using remove_leaf_SomeD [OF _ assms(2)] assms(1) by (auto simp: tree_ok_def)
  show ?thesis
  proof (cases auto)
    case None
    have "tree_ok n t None"
      using assms(1) t split_ids_remove [OF assms(2)] by (auto simp: tree_ok_def)
    with None t(2) split_ids_remove [OF assms(2)] show ?thesis
      by (intro exI [of _ t] exI [of _ None] exI [of _ n]) (auto simp: rebuild_auto_def)
  next
    case (Some ps)
    let ?ps = "filter (\<lambda>p. p \<noteq> pane) ps"
    have ps: "distinct ?ps" "set ?ps = set (pane_ids_vec t)"
      using assms(1) Some t(2) by (auto simp: tree_ok_def)
    have "pane_ids_vec t \<noteq> []" using t(1) by (rule pane_ids_vec_nonempty)
    with ps(2) have ne: "?ps \<noteq> []" by (metis set_empty)
    obtain r m where r: "zellij_default_pane_layout_with_ids ?ps counter n = Some (r, m)"
      "case r of None \<Rightarrow> ?ps = [] | Some t \<Rightarrow> node_wf t \<and> pane_ids_vec t = ?ps"
      using zellij_spec [of ?ps counter n] by (elim exE conjE) (rule that)
    with ne obtain t1 where t1: "r = Some t1" "node_wf t1" "pane_ids_vec t1 = ?ps"
      by (cases r) auto
    have ids: "n \<le> m" "split_ids t1 \<subseteq> {n..<m}"
      using zellij_ids [of ?ps n t1 m] r(1) t1(1) by auto
    define t' where "t' = (case e of Some e \<Rightarrow> fst (expand_stack_pane t1 e) | None \<Rightarrow> t1)"
    have t': "node_wf t'" "pane_ids_vec t' = ?ps" "split_ids t' = split_ids t1"
      using t1 by (auto simp: t'_def node_wf_expand split: option.splits)
    have "rebuild_auto t auto pane e n = Inr (t', Some ?ps, m)"
      using Some r(1) t1(1) by (simp add: rebuild_auto_def t'_def)
    moreover have "tree_ok m t' (Some ?ps)"
      using t' ps ids by (auto simp: tree_ok_def)
    moreover have "set (pane_ids_vec t') = set (pane_ids_vec t0) - {pane}"
      using t'(2) ps(2) t(2) by auto
    ultimately show ?thesis using ids t'(3) by blast
  qed
qed

text \<open>Columns after one of them lost a pane.\<close>

lemma column_update_removed:
  assumes ok: "cols_ok n cs" and k: "k < length cs" and nm: "n \<le> m" and t: "tree_ok m t a"
    and pan: "set (pane_ids_vec t) = set (pane_ids_vec (lc_root (cs ! k))) - {p}"
    and ids: "split_ids t \<subseteq> split_ids (lc_root (cs ! k)) \<union> {n..<m}"
    and p: "p \<in> set (pane_ids_vec (lc_root (cs ! k)))"
  shows "cols_ok m (cs[k := (cs ! k)\<lparr>lc_root := t, lc_auto := a\<rparr>])
    \<and> set (column_panes (cs[k := (cs ! k)\<lparr>lc_root := t, lc_auto := a\<rparr>])) = set (column_panes cs) - {p}"
proof -
  have lt: "\<forall>c \<in> set cs. lc_id c < n" using ok by (auto simp: cols_ok_def)
  have "cols_ok m (cs[k := (cs ! k)\<lparr>lc_root := t, lc_auto := a\<rparr>])"
    by (rule cols_ok_update [OF ok k nm t _ _ ids, of "{}"]) (use pan lt in force)+
  moreover have "set (column_panes (cs[k := (cs ! k)\<lparr>lc_root := t, lc_auto := a\<rparr>])) = set (column_panes cs) - {p}"
  proof -
    let ?xs = "take k cs" and ?ys = "drop (Suc k) cs"
    have cs: "cs = ?xs @ cs ! k # ?ys" using k by (rule id_take_nth_drop)
    have "cols_ok n (?xs @ cs ! k # ?ys)" using ok cs by simp
    then have "p \<notin> set (column_panes (?xs @ ?ys))"
      unfolding cols_ok_append using p by blast
    moreover have "set (column_panes cs) = set (pane_ids_vec (lc_root (cs ! k))) \<union> set (column_panes (?xs @ ?ys))"
      by (subst cs) auto
    moreover have "set (column_panes (cs[k := (cs ! k)\<lparr>lc_root := t, lc_auto := a\<rparr>]))
        = set (pane_ids_vec t) \<union> set (column_panes (?xs @ ?ys))"
      unfolding upd_conv_take_nth_drop [OF k] by auto
    ultimately show ?thesis using pan by blast
  qed
  ultimately show ?thesis ..
qed

lemma column_removed:
  assumes ok: "cols_ok n cs" and k: "k < length cs" and p: "set (pane_ids_vec (lc_root (cs ! k))) = {p}"
  shows "cols_ok n (remove_at k cs) \<and> set (column_panes (remove_at k cs)) = set (column_panes cs) - {p}"
proof -
  let ?xs = "take k cs" and ?ys = "drop (Suc k) cs"
  have cs: "cs = ?xs @ cs ! k # ?ys" using k by (rule id_take_nth_drop)
  have "cols_ok n (?xs @ cs ! k # ?ys)" using ok cs by simp
  then have "p \<notin> set (column_panes (?xs @ ?ys))"
    unfolding cols_ok_append using p by blast
  moreover have "set (column_panes cs) = {p} \<union> set (column_panes (?xs @ ?ys))"
    by (subst cs) (use p in auto)
  ultimately show ?thesis
    using cols_ok_remove [OF ok k] by (simp add: remove_at_def)
qed

lemma invalidate_simps [simp]:
  "lroot (invalidate_layout_undo s) = lroot s" "lcolumns (invalidate_layout_undo s) = lcolumns s"
  "auto_layout (invalidate_layout_undo s) = auto_layout s" "vsplits (invalidate_layout_undo s) = vsplits s"
  "base_width (invalidate_layout_undo s) = base_width s" "layout_undo (invalidate_layout_undo s) = []"
  by (simp_all add: invalidate_layout_undo_def)

lemma layout_undo_collapse [simp]:
  "layout_undo (collapse_single_layout_column s) = layout_undo s"
  by (auto simp: collapse_single_layout_column_def sync_layout_column_projection_def Let_def
      split: list.splits prod.splits)

lemma remove_pane_ok:
  assumes inv: "layout_inv n s" and p: "pane \<in> layout_panes s"
  shows "\<exists>s' m. remove_pane_from_screen_layout n s pane = Inr (s', layout_panes s \<noteq> {pane}, m) \<and> n \<le> m
    \<and> layout_undo s' = []
    \<and> (layout_panes s \<noteq> {pane} \<longrightarrow> layout_inv m s' \<and> layout_panes s' = layout_panes s - {pane})"
proof (cases "lcolumns s = []")
  case True
  then have ok: "tree_ok n (lroot s) (auto_layout s)" and vs: "vsplits s = Map.empty" "base_width s = None"
    using inv by (auto simp: layout_inv_def)
  then have wf: "node_wf (lroot s)" by (simp add: tree_ok_def)
  show ?thesis
  proof (cases "remove_leaf (lroot s) pane")
    case None
    with True show ?thesis using iffD1 [OF remove_leaf_None_iff [OF wf] None]
      by (auto simp: remove_pane_from_screen_layout_def layout_columns_active_def Let_def)
  next
    case (Some t)
    obtain t' a m where "rebuild_auto t (auto_layout s) pane (stack_expanded_pane (lroot s)) n = Inr (t', a, m)"
      "n \<le> m" "tree_ok m t' a" "set (pane_ids_vec t') = layout_panes s - {pane}"
      using rebuild_auto_ok [OF ok Some] by blast
    moreover have "layout_panes s \<noteq> {pane}"
      using Some remove_leaf_None_iff [OF wf, of pane] by auto
    ultimately show ?thesis
      using True Some vs
      by (simp add: remove_pane_from_screen_layout_def layout_columns_active_def Let_def layout_inv_def)
  qed
next
  case False
  then have ok: "cols_ok n (lcolumns s)" and len: "2 \<le> length (lcolumns s)"
    using inv by (auto simp: layout_inv_def)
  have pan: "layout_panes s = set (column_panes (lcolumns s))"
    by (rule arg_cong [OF layout_inv_column_panes [OF inv False]])
  let ?s = "invalidate_layout_undo s"
  obtain k where k: "layout_column_for_pane ?s pane = Some k"
    using layout_column_for_pane_None [of ?s pane] p pan by fastforce
  let ?cs = "lcolumns s"
  have kl: "k < length ?cs" and pk: "pane \<in> set (pane_ids_vec (lc_root (?cs ! k)))"
    using layout_column_for_pane_Some [OF k] by auto
  have tk: "tree_ok n (lc_root (?cs ! k)) (lc_auto (?cs ! k))"
    using ok kl by (simp add: cols_ok_def)
  then have wfk: "node_wf (lc_root (?cs ! k))" by (simp add: tree_ok_def)
  have "\<exists>cs' m. (case remove_leaf (lc_root (?cs ! k)) pane of
        Some t \<Rightarrow> rmap (\<lambda>(t, auto, n).
            (?s\<lparr>lcolumns := ?cs[k := (?cs ! k)\<lparr>lc_root := t, lc_auto := auto\<rparr>]\<rparr>, n))
          (rebuild_auto t (lc_auto (?cs ! k)) pane (stack_expanded_pane (lc_root (?cs ! k))) n)
      | None \<Rightarrow> Inr (?s\<lparr>lcolumns := remove_at k ?cs\<rparr>, n)) = Inr (?s\<lparr>lcolumns := cs'\<rparr>, m)
    \<and> n \<le> m \<and> cols_ok m cs' \<and> cs' \<noteq> [] \<and> set (column_panes cs') = set (column_panes ?cs) - {pane}"
  proof (cases "remove_leaf (lc_root (?cs ! k)) pane")
    case None
    then have "set (pane_ids_vec (lc_root (?cs ! k))) = {pane}"
      using remove_leaf_None_iff [OF wfk] by simp
    note column_removed [OF ok kl this]
    moreover have "remove_at k ?cs \<noteq> []"
      using len kl by (auto simp: remove_at_def)
    ultimately show ?thesis
      using None by (intro exI [of _ "remove_at k ?cs"] exI [of _ n]) simp
  next
    case (Some t)
    obtain t' a m where t': "rebuild_auto t (lc_auto (?cs ! k)) pane (stack_expanded_pane (lc_root (?cs ! k))) n
        = Inr (t', a, m)"
      "n \<le> m" "tree_ok m t' a" "set (pane_ids_vec t') = set (pane_ids_vec (lc_root (?cs ! k))) - {pane}"
      "split_ids t' \<subseteq> split_ids (lc_root (?cs ! k)) \<union> {n..<m}"
      using rebuild_auto_ok [OF tk Some] by blast
    from column_update_removed [OF ok kl t'(2-5) pk] Some t'(1,2) False show ?thesis by auto
  qed
  then obtain cs' m where step: "(case remove_leaf (lc_root (?cs ! k)) pane of
        Some t \<Rightarrow> rmap (\<lambda>(t, auto, n).
            (?s\<lparr>lcolumns := ?cs[k := (?cs ! k)\<lparr>lc_root := t, lc_auto := auto\<rparr>]\<rparr>, n))
          (rebuild_auto t (lc_auto (?cs ! k)) pane (stack_expanded_pane (lc_root (?cs ! k))) n)
      | None \<Rightarrow> Inr (?s\<lparr>lcolumns := remove_at k ?cs\<rparr>, n)) = Inr (?s\<lparr>lcolumns := cs'\<rparr>, m)"
    and cs': "n \<le> m" "cols_ok m cs'" "cs' \<noteq> []" "set (column_panes cs') = set (column_panes ?cs) - {pane}"
    by blast
  let ?s' = "collapse_single_layout_column (?s\<lparr>lcolumns := cs'\<rparr>)"
  have "remove_pane_from_screen_layout n s pane = Inr (?s', True, m)"
    unfolding remove_pane_from_screen_layout_def layout_columns_active_def Let_def invalidate_simps
    using False k step cs'(3) by simp
  moreover have "layout_inv m ?s' \<and> layout_panes ?s' = layout_panes s - {pane}"
    using collapse_ok [of "?s\<lparr>lcolumns := cs'\<rparr>" m] cs' pan by simp
  moreover have "column_panes cs' \<noteq> []"
  proof -
    obtain c where "c \<in> set cs'" using cs'(3) by (cases cs') auto
    moreover from this have "pane_ids_vec (lc_root c) \<noteq> []"
      using cs'(2) pane_ids_vec_nonempty by (auto simp: cols_ok_def tree_ok_def)
    ultimately show ?thesis by auto
  qed
  then have "layout_panes s \<noteq> {pane}" using cs'(4) pan by auto
  ultimately show ?thesis using cs'(1) by auto
qed

end
