(* ===== verification/ScreenUndo.thy ===== *)
theory ScreenUndo
  imports ScreenInv
begin

text \<open>
  Ratios, widths, swaps, focus and undo: each keeps the layout invariant, the two ways the
  code recomputes the projection of the columns agree, and undoing a ratio change gives
  the previous layout back.
\<close>

section \<open>Columns that keep their panes and splits\<close>

definition same_shape :: "layout_column \<Rightarrow> layout_column \<Rightarrow> bool" where
  "same_shape c d = (lc_id d = lc_id c \<and> lc_auto d = lc_auto c \<and> lc_width d \<noteq> FNaN
     \<and> pane_ids_vec (lc_root d) = pane_ids_vec (lc_root c)
     \<and> split_ids (lc_root d) = split_ids (lc_root c) \<and> node_wf (lc_root d))"

lemma same_shape_panes:
  "list_all2 same_shape cs ds \<Longrightarrow>
   map (\<lambda>c. pane_ids_vec (lc_root c)) ds = map (\<lambda>c. pane_ids_vec (lc_root c)) cs
   \<and> map lc_id ds = map lc_id cs \<and> map (\<lambda>c. split_ids (lc_root c)) ds = map (\<lambda>c. split_ids (lc_root c)) cs"
  by (induction rule: list_all2_induct) (auto simp: same_shape_def)

lemma cols_ok_images:
  "cols_ok n cs \<longleftrightarrow>
     (\<forall>c \<in> set cs. tree_ok n (lc_root c) (lc_auto c) \<and> lc_width c \<noteq> FNaN) \<and> (\<forall>i \<in> set (map lc_id cs). i < n)
     \<and> distinct (column_panes cs) \<and> distinct (map lc_id cs)
     \<and> (\<forall>i \<in> set (map lc_id cs). \<forall>S \<in> set (map (\<lambda>c. split_ids (lc_root c)) cs). i \<notin> S)"
  by (auto simp: cols_ok_def)

lemma cols_ok_same_shape:
  assumes "cols_ok n cs" and "list_all2 same_shape cs ds"
  shows "cols_ok n ds"
proof -
  have "tree_ok n (lc_root d) (lc_auto d) \<and> lc_width d \<noteq> FNaN" if "d \<in> set ds" for d
  proof -
    from that obtain i where i: "i < length ds" "d = ds ! i" by (auto simp: in_set_conv_nth)
    define c where "c = cs ! i"
    have c: "c \<in> set cs" "same_shape c d"
      using assms(2) i by (auto simp: list_all2_conv_all_nth c_def)
    from c(1) assms(1) have "tree_ok n (lc_root c) (lc_auto c)" by (auto simp: cols_ok_def)
    with c(2) show ?thesis by (auto simp: same_shape_def tree_ok_def split: option.splits)
  qed
  with assms(1) show ?thesis
    unfolding cols_ok_images using same_shape_panes [OF assms(2)] by simp
qed

lemma same_shape_refl: "cols_ok n cs \<Longrightarrow> c \<in> set cs \<Longrightarrow> same_shape c c"
  by (auto simp: same_shape_def cols_ok_def tree_ok_def)

lemma same_shape_map:
  "cols_ok n cs \<Longrightarrow> (\<And>c. c \<in> set cs \<Longrightarrow> same_shape c c \<Longrightarrow> same_shape c (f c)) \<Longrightarrow>
   list_all2 same_shape cs (map f cs)"
  by (simp add: list_all2_map2 list_all2_same same_shape_refl)

lemma same_shape_update:
  "cols_ok n cs \<Longrightarrow> k < length cs \<Longrightarrow> same_shape (cs ! k) c \<Longrightarrow> list_all2 same_shape cs (cs[k := c])"
  by (auto simp: list_all2_conv_all_nth nth_list_update intro: same_shape_refl)

section \<open>The two recomputations of the projection agree\<close>

fun ratios_match :: "(split_id \<rightharpoonup> f32) \<Rightarrow> layout_column list \<Rightarrow> f32 \<Rightarrow> bool" where
  "ratios_match M [] w = True"
| "ratios_match M (c # cs) w =
     (M (lc_id c) = Some (fl_div f32_round w (fl_add f32_round w (lc_width c)))
      \<and> ratios_match M cs (fl_add f32_round w (lc_width c)))"

lemma snd_column_ratios: "snd (column_ratios cs w r vs) = marked cs vs"
  by (induction cs arbitrary: w r vs) (auto simp: marked_def)

lemma column_ratios_other: "i \<notin> lc_id ` set cs \<Longrightarrow> fst (column_ratios cs w r vs) i = r i"
  by (induction cs arbitrary: w r vs) auto

lemma column_ratios_match:
  "distinct (map lc_id cs) \<Longrightarrow> ratios_match (fst (column_ratios cs w r vs)) cs w"
  by (induction cs arbitrary: w r vs) (auto simp: column_ratios_other)

lemma set_node_split_ratios_other:
  "\<forall>i \<in> split_ids t. m i = None \<Longrightarrow> set_node_split_ratios t m = t"
  by (induction t) auto

lemma set_node_split_ratios_project:
  "list_all2 (\<lambda>c d. lc_id c = lc_id d \<and> lc_root c = lc_root d) cs ds \<Longrightarrow> ratios_match M ds w' \<Longrightarrow>
   \<forall>d \<in> set ds. \<forall>i \<in> split_ids (lc_root d). M i = None \<Longrightarrow>
   set_node_split_ratios (fst (project_columns cs t w vs)) M
     = fst (project_columns ds (set_node_split_ratios t M) w' vs')"
proof (induction arbitrary: t w w' vs vs' rule: list_all2_induct)
  case (Cons c cs d ds)
  let ?t = "Split (lc_id c) DirRight (fl_div f32_round w (fl_add f32_round w (lc_width c))) t (lc_root c)"
  have "set_node_split_ratios (fst (project_columns cs ?t (fl_add f32_round w (lc_width c)) (vs(lc_id c \<mapsto> lc_width c)))) M
      = fst (project_columns ds (set_node_split_ratios ?t M) (fl_add f32_round w' (lc_width d))
          (vs'(lc_id d \<mapsto> lc_width d)))"
    using Cons by (intro Cons.IH) auto
  moreover have "set_node_split_ratios ?t M
      = Split (lc_id d) DirRight (fl_div f32_round w' (fl_add f32_round w' (lc_width d)))
          (set_node_split_ratios t M) (lc_root d)"
    using Cons.prems Cons.hyps(1) by (simp add: set_node_split_ratios_other)
  ultimately show ?case by (simp only: project_columns.simps Let_def)
qed simp

text \<open>\<open>sync_layout_column_widths\<close> gives what \<open>sync_layout_column_projection\<close> would, on a
  projection whose column trees have not changed.\<close>

lemma sync_widths_projection:
  assumes cols: "lcolumns s = c # cs" and cols': "lcolumns s' = d # ds"
    and shape: "list_all2 (\<lambda>c d. lc_id c = lc_id d \<and> lc_root c = lc_root d) (c # cs) (d # ds)"
    and ok: "cols_ok n (d # ds)" and synced: "sync_layout_column_projection s = s"
    and rest: "lroot s' = lroot s" "auto_layout s' = auto_layout s"
  shows "sync_layout_column_widths s' = sync_layout_column_projection s'"
proof -
  note F = sync_fields [OF cols, unfolded synced]
  let ?M = "fst (column_ratios ds (lc_width d) Map.empty Map.empty)"
  have ids: "distinct (map lc_id ds)" using ok by (simp add: cols_ok_def)
  have none: "\<forall>e \<in> set (d # ds). \<forall>i \<in> split_ids (lc_root e). ?M i = None"
  proof (intro ballI)
    fix e i assume "e \<in> set (d # ds)" "i \<in> split_ids (lc_root e)"
    then have "i \<notin> lc_id ` set ds" using ok by (auto simp: cols_ok_def)
    then show "?M i = None" by (simp add: column_ratios_other)
  qed
  have "set_node_split_ratios (lroot s) ?M
      = fst (project_columns ds (set_node_split_ratios (lc_root c) ?M) (lc_width d) Map.empty)"
    unfolding F(1) using shape none
    by (intro set_node_split_ratios_project column_ratios_match ids) auto
  also have "set_node_split_ratios (lc_root c) ?M = lc_root d"
    using shape none by (simp add: set_node_split_ratios_other)
  finally have root: "set_node_split_ratios (lroot s') ?M
      = fst (project_columns ds (lc_root d) (lc_width d) Map.empty)"
    using rest by simp
  obtain r v where r: "column_ratios ds (lc_width d) Map.empty Map.empty = (r, v)" by fastforce
  obtain t v' where t: "project_columns ds (lc_root d) (lc_width d) Map.empty = (t, v')" by fastforce
  have "v = v'"
    using snd_column_ratios [of ds "lc_width d" Map.empty Map.empty]
      project_marked [of ds "lc_root d" "lc_width d" Map.empty] r t by simp
  then show ?thesis
    using root r t cols' rest F(4)
    by (cases s') (simp add: sync_layout_column_widths_def sync_layout_column_projection_def)
qed

lemma width_update_ok:
  assumes inv: "layout_inv n s" and k: "k < length (lcolumns s)" and w: "w \<noteq> FNaN"
  shows "layout_inv n (sync_layout_column_widths (s\<lparr>lcolumns := (lcolumns s)[k := (lcolumns s ! k)\<lparr>lc_width := w\<rparr>]\<rparr>))
    \<and> sync_layout_column_widths (s\<lparr>lcolumns := (lcolumns s)[k := (lcolumns s ! k)\<lparr>lc_width := w\<rparr>]\<rparr>)
      = sync_layout_column_projection (s\<lparr>lcolumns := (lcolumns s)[k := (lcolumns s ! k)\<lparr>lc_width := w\<rparr>]\<rparr>)"
proof -
  let ?ds = "(lcolumns s)[k := (lcolumns s ! k)\<lparr>lc_width := w\<rparr>]"
  let ?s' = "s\<lparr>lcolumns := ?ds\<rparr>"
  from k have ne: "lcolumns s \<noteq> []" by auto
  then have ok: "cols_ok n (lcolumns s)" and len: "2 \<le> length (lcolumns s)"
    and synced: "sync_layout_column_projection s = s"
    using inv by (auto simp: layout_inv_def)
  have "same_shape (lcolumns s ! k) (lcolumns s ! k)"
    by (rule same_shape_refl [OF ok]) (simp add: k)
  then have "same_shape (lcolumns s ! k) ((lcolumns s ! k)\<lparr>lc_width := w\<rparr>)"
    using w by (simp add: same_shape_def)
  then have ok': "cols_ok n ?ds"
    by (intro cols_ok_same_shape [OF ok] same_shape_update [OF ok k])
  have shape: "list_all2 (\<lambda>c d. lc_id c = lc_id d \<and> lc_root c = lc_root d) (lcolumns s) ?ds"
    using k by (auto simp: list_all2_conv_all_nth nth_list_update)
  obtain c cs where cs: "lcolumns s = c # cs" using ne by (cases "lcolumns s") auto
  obtain d ds where ds: "?ds = d # ds" using ne by (cases ?ds) auto
  have eq: "sync_layout_column_widths ?s' = sync_layout_column_projection ?s'"
    by (rule sync_widths_projection [OF cs _ _ _ synced, of _ d ds n]) (use ds shape cs ok' in auto)
  moreover have "layout_inv n (sync_layout_column_projection ?s')"
    using len ok' by (intro layout_inv_sync) simp_all
  ultimately show ?thesis by simp
qed

lemma set_split_ratio_project:
  "i \<notin> lc_id ` set cs \<Longrightarrow>
   fst (set_split_ratio (fst (project_columns cs t w vs)) i r)
     = (if contains_split t i then fst (project_columns cs (fst (set_split_ratio t i r)) w vs)
        else fst (project_columns (fst (set_column_ratio cs i r)) t w vs))"
proof (induction cs arbitrary: t w vs)
  case (Cons c cs)
  let ?q = "fl_div f32_round w (fl_add f32_round w (lc_width c))" and ?w = "fl_add f32_round w (lc_width c)"
  let ?vs = "vs(lc_id c \<mapsto> lc_width c)"
  have ne: "lc_id c \<noteq> i" "i \<notin> lc_id ` set cs" using Cons.prems by auto
  obtain t' b where t': "set_split_ratio (lc_root c) i r = (t', b)" by fastforce
  then have b: "b = contains_split (lc_root c) i" and miss: "\<not> b \<Longrightarrow> t' = lc_root c"
    using set_split_ratio_ok [of "lc_root c" i r] set_split_ratio_missing [of "lc_root c" i r] by auto
  obtain cs' b' where cs': "set_column_ratio cs i r = (cs', b')" by fastforce
  have col: "fst (set_column_ratio (c # cs) i r) = (if b then c\<lparr>lc_root := t'\<rparr> # cs else c\<lparr>lc_root := t'\<rparr> # cs')"
    using t' cs' by (simp add: Let_def)
  have split: "fst (set_split_ratio (Split (lc_id c) DirRight ?q t (lc_root c)) i r)
      = (if contains_split t i then Split (lc_id c) DirRight ?q (fst (set_split_ratio t i r)) (lc_root c)
         else Split (lc_id c) DirRight ?q t t')"
    using t' ne(1) by (simp add: set_split_ratio_Split del: set_split_ratio.simps(2))
  have "fst (set_split_ratio (fst (project_columns (c # cs) t w vs)) i r)
      = fst (set_split_ratio (fst (project_columns cs (Split (lc_id c) DirRight ?q t (lc_root c)) ?w ?vs)) i r)"
    by (simp add: Let_def)
  also have "\<dots> = (if contains_split t i \<or> b
      then fst (project_columns cs (fst (set_split_ratio (Split (lc_id c) DirRight ?q t (lc_root c)) i r)) ?w ?vs)
      else fst (project_columns cs' (Split (lc_id c) DirRight ?q t (lc_root c)) ?w ?vs))"
    unfolding Cons.IH [OF ne(2)] using cs' b ne(1) by simp
  also have "\<dots> = (if contains_split t i then fst (project_columns (c # cs) (fst (set_split_ratio t i r)) w vs)
      else fst (project_columns (fst (set_column_ratio (c # cs) i r)) t w vs))"
    unfolding split col using miss by (simp add: Let_def)
  finally show ?case .
qed (simp add: set_split_ratio_missing)

lemma set_column_ratio_shape:
  "cols_ok n cs \<Longrightarrow> list_all2 same_shape cs (fst (set_column_ratio cs i r))"
proof (induction cs)
  case (Cons c cs)
  have c: "same_shape c c" by (rule same_shape_refl [OF Cons.prems]) simp
  have cs: "cols_ok n cs" using cols_ok_append [of n "[]" c cs] Cons.prems by simp
  have refl: "list_all2 same_shape cs cs"
    using same_shape_map [OF cs, of "\<lambda>c. c"] by simp
  obtain t b where t: "set_split_ratio (lc_root c) i r = (t, b)" by fastforce
  obtain cs' b' where cs': "set_column_ratio cs i r = (cs', b')" by fastforce
  have "same_shape c (c\<lparr>lc_root := fst (set_split_ratio (lc_root c) i r)\<rparr>)"
    using c by (simp add: same_shape_def node_wf_set_split_ratio)
  then show ?case
    using Cons.IH [OF cs] refl t cs' by (simp add: Let_def)
qed simp

section \<open>Ratio changes\<close>

lemma set_column_ratio_marked: "marked (fst (set_column_ratio cs i r)) vs = marked cs vs"
proof (induction cs arbitrary: vs)
  case (Cons c cs)
  obtain t b where t: "set_split_ratio (lc_root c) i r = (t, b)" by fastforce
  obtain cs' b' where "set_column_ratio cs i r = (cs', b')" by fastforce
  with t Cons.IH show ?case by (simp add: marked_def Let_def)
qed simp

lemma fl_to_valid: "valid_width w \<Longrightarrow> w \<noteq> FNaN"
  by (auto simp: valid_width_def)

lemma tree_ok_set_ratio: "tree_ok n t a \<Longrightarrow> tree_ok n (fst (set_split_ratio t i r)) None"
  by (simp add: tree_ok_def node_wf_set_split_ratio)

lemma set_layout_split_ratio_ok:
  assumes inv: "layout_inv n s" and res: "set_layout_split_ratio s i r = Inr s'"
  shows "layout_inv n s' \<and> pane_ids_vec (lroot s') = pane_ids_vec (lroot s)"
proof (cases "lcolumns s")
  case Nil
  then have "tree_ok n (lroot s) (auto_layout s)" "vsplits s = Map.empty" "base_width s = None"
    using inv by (simp_all add: layout_inv_def)
  moreover from Nil res obtain t where "set_split_ratio (lroot s) i r = (t, True)"
      "s' = s\<lparr>lroot := t, auto_layout := None\<rparr>"
    by (auto simp: set_layout_split_ratio_def split: prod.splits if_splits)
  ultimately show ?thesis
    using Nil tree_ok_set_ratio [of n "lroot s" "auto_layout s" i r]
      pane_ids_set_split_ratio [of "lroot s" i r]
    by (simp add: layout_inv_def)
next
  case (Cons c cs)
  then have ok: "cols_ok n (c # cs)" and len: "2 \<le> length (c # cs)"
    and synced: "sync_layout_column_projection s = s"
    using inv by (auto simp: layout_inv_def)
  have ne: "lcolumns s \<noteq> []" using Cons by simp
  show ?thesis
  proof (cases "\<exists>k. position (\<lambda>c. lc_id c = i) (lcolumns s) = Some (Suc k)")
    case True
    then obtain k where k: "position (\<lambda>c. lc_id c = i) (lcolumns s) = Some (Suc k)" by blast
    then have kl: "Suc k < length (lcolumns s)" using position_Some_less by blast
    from res k obtain w where "valid_width w"
      and s': "s' = sync_layout_column_widths
        (s\<lparr>lcolumns := (lcolumns s)[Suc k := (lcolumns s ! Suc k)\<lparr>lc_width := w\<rparr>]\<rparr>)"
      by (auto simp: set_layout_split_ratio_def Let_def split: if_splits)
    note upd = width_update_ok [OF inv kl fl_to_valid, OF \<open>valid_width w\<close>]
    from upd s' have W: "layout_inv n s'" "s' = sync_layout_column_projection
        (s\<lparr>lcolumns := (lcolumns s)[Suc k := (lcolumns s ! Suc k)\<lparr>lc_width := w\<rparr>]\<rparr>)"
      by metis+
    have "map (\<lambda>c. pane_ids_vec (lc_root c)) ((lcolumns s)[Suc k := (lcolumns s ! Suc k)\<lparr>lc_width := w\<rparr>])
        = map (\<lambda>c. pane_ids_vec (lc_root c)) (lcolumns s)"
      using kl by (simp add: map_update list_update_same_conv)
    then have "pane_ids_vec (lroot s') = pane_ids_vec (lroot s)"
      unfolding W(2) using ne by (simp add: sync_panes layout_inv_column_panes [OF inv ne])
    with W(1) show ?thesis ..
  next
    case False
    then have pos: "position (\<lambda>c. lc_id c = i) (lcolumns s) = None
        \<or> position (\<lambda>c. lc_id c = i) (lcolumns s) = Some 0"
      using not0_implies_Suc by (cases "position (\<lambda>c. lc_id c = i) (lcolumns s)") auto
    obtain cols changed where sc: "set_column_ratio (lcolumns s) i r = (cols, changed)" by fastforce
    from res pos ne sc have changed: changed
      and s': "s' = s\<lparr>lcolumns := cols, lroot := fst (set_split_ratio (lroot s) i r), auto_layout := None\<rparr>"
      by (auto simp: set_layout_split_ratio_def split: if_splits option.splits nat.splits)
    have cs_ids: "i \<notin> lc_id ` set cs"
    proof (cases "lc_id c = i")
      case True
      then show ?thesis using ok by (auto simp: cols_ok_def)
    next
      case False
      with pos Cons have "position (\<lambda>c. lc_id c = i) cs = None" by auto
      then show ?thesis by (auto simp: position_None_iff)
    qed
    have shape: "list_all2 same_shape (c # cs) cols"
      using set_column_ratio_shape [OF ok, of i r] sc Cons by simp
    then have ok': "cols_ok n cols" by (rule cols_ok_same_shape [OF ok])
    obtain t b where t: "set_split_ratio (lc_root c) i r = (t, b)" by fastforce
    then have b: "b = contains_split (lc_root c) i" "\<not> b \<Longrightarrow> t = lc_root c"
      using set_split_ratio_ok [of "lc_root c" i r] set_split_ratio_missing [of "lc_root c" i r] by auto
    obtain cs' b' where cs': "set_column_ratio cs i r = (cs', b')" by fastforce
    have cols: "cols = c\<lparr>lc_root := t\<rparr> # (if b then cs else cs')"
      using sc Cons t cs' by (auto simp: Let_def split: if_splits)
    note F = sync_fields [OF Cons, unfolded synced]
    have root: "fst (set_split_ratio (lroot s) i r)
        = fst (project_columns (if b then cs else cs') t (lc_width c) Map.empty)"
      unfolding F(1) using set_split_ratio_project [OF cs_ids, of "lc_root c" "lc_width c" Map.empty r] t b cs'
      by simp
    have marks: "marked cs Map.empty = marked (if b then cs else cs') Map.empty"
      using set_column_ratio_marked [of cs i r Map.empty] cs' by simp
    have s'cols: "lcolumns s' = c\<lparr>lc_root := t\<rparr> # (if b then cs else cs')" using s' cols by simp
    note F' = sync_fields [OF s'cols]
    have "lroot s' = lroot (sync_layout_column_projection s')"
      "vsplits s' = vsplits (sync_layout_column_projection s')"
      "base_width s' = base_width (sync_layout_column_projection s')"
      "auto_layout s' = auto_layout (sync_layout_column_projection s')"
      unfolding F' using s' root marks F by simp_all
    then have "sync_layout_column_projection s' = s'"
      by (cases s') (auto simp: sync_layout_column_projection_def Let_def split: list.splits prod.splits)
    moreover have "2 \<le> length (lcolumns s')"
      using list_all2_lengthD [OF shape] len s' by simp
    ultimately have "layout_inv n s'"
      using ok' s' by (auto simp: layout_inv_def)
    then show ?thesis using s' by simp
  qed
qed

section \<open>Swaps and focus\<close>

lemma swap_tree_ok: "tree_ok n t a \<Longrightarrow> tree_ok n (swap_leaf_ids t p q) None"
  by (simp add: tree_ok_def node_wf_swap distinct_swap)

lemma swap_id_other: "x \<noteq> p \<Longrightarrow> x \<noteq> q \<Longrightarrow> swap_id p q x = x"
  by (simp add: swap_id_def)

lemma swap_column_simps:
  "lc_id (swap_column p q c) = lc_id c" "split_ids (lc_root (swap_column p q c)) = split_ids (lc_root c)"
  "lc_width (swap_column p q c) = lc_width c"
  "pane_ids_vec (lc_root (swap_column p q c)) = map (swap_id p q) (pane_ids_vec (lc_root c))"
  by (auto simp: swap_column_def pane_ids_swap intro!: map_idI [symmetric]) (metis swap_id_other)

lemma swap_columns_ok:
  assumes "cols_ok n cs"
  shows "cols_ok n (map (swap_column p q) cs)
    \<and> column_panes (map (swap_column p q) cs) = map (swap_id p q) (column_panes cs)"
proof -
  have panes: "column_panes (map (swap_column p q) cs) = map (swap_id p q) (column_panes cs)"
    by (simp add: comp_def swap_column_simps map_concat)
  have "tree_ok n (lc_root (swap_column p q c)) (lc_auto (swap_column p q c))" if "c \<in> set cs" for c
    using that assms swap_tree_ok [of n "lc_root c" "lc_auto c" p q]
    by (auto simp: cols_ok_def swap_column_def)
  moreover have "distinct (map (swap_id p q) (column_panes cs))"
    using assms by (simp add: cols_ok_def distinct_map inj_on_subset [OF inj_swap_id])
  ultimately have "cols_ok n (map (swap_column p q) cs)"
    using assms unfolding cols_ok_images panes by (simp add: comp_def swap_column_simps)
  with panes show ?thesis by blast
qed

lemma swap_layout_panes_ok:
  assumes inv: "layout_inv n s" and res: "swap_layout_panes s p q both = Inr s'"
  shows "layout_inv n s' \<and> pane_ids_vec (lroot s') = map (swap_id p q) (pane_ids_vec (lroot s))"
proof -
  let ?f = "swap_column p q"
  let ?s1 = "s\<lparr>lroot := swap_leaf_ids (lroot s) p q, lcolumns := map ?f (lcolumns s)\<rparr>"
  let ?s2 = "if lcolumns ?s1 \<noteq> [] then sync_layout_column_projection ?s1 else ?s1"
  let ?s3 = "?s2\<lparr>auto_layout := None\<rparr>"
  have fields: "lroot s' = lroot ?s3" "auto_layout s' = auto_layout ?s3" "vsplits s' = vsplits ?s3"
    "base_width s' = base_width ?s3" "lcolumns s' = lcolumns ?s3"
    using res by (auto simp: swap_layout_panes_def Let_def split: if_splits)
  have "layout_inv n ?s3 \<and> pane_ids_vec (lroot ?s3) = map (swap_id p q) (pane_ids_vec (lroot s))"
  proof (cases "lcolumns s")
    case Nil
    then have "tree_ok n (lroot s) (auto_layout s)" "vsplits s = Map.empty" "base_width s = None"
      using inv by (simp_all add: layout_inv_def)
    with Nil show ?thesis
      by (simp add: layout_inv_def swap_tree_ok pane_ids_swap)
  next
    case (Cons c cs)
    then have ok: "cols_ok n (lcolumns s)" and len: "2 \<le> length (lcolumns s)" and ne: "lcolumns s \<noteq> []"
      using inv by (auto simp: layout_inv_def)
    note sw = swap_columns_ok [OF ok, of p q]
    have i1: "layout_inv n (sync_layout_column_projection ?s1)"
      using sw len by (intro layout_inv_sync) simp_all
    have "lcolumns ?s1 \<noteq> []" using ne by simp
    then have s2: "?s2 = sync_layout_column_projection ?s1" by simp
    obtain d ds where ds: "lcolumns ?s1 = d # ds" using Cons by simp
    have "auto_layout ?s2 = None" unfolding s2 by (rule sync_fields(4) [OF ds])
    then have s3: "?s3 = ?s2" by simp
    have "pane_ids_vec (lroot ?s2) = column_panes (map ?f (lcolumns s))"
      unfolding s2 using ne by (subst sync_panes) simp_all
    then show ?thesis
      unfolding s3 using i1 s2 sw layout_inv_column_panes [OF inv ne] by simp
  qed
  with layout_inv_cong [OF fields, of n] fields(1) show ?thesis by metis
qed

lemma expand_both_simps:
  "pane_ids_vec (fst (expand_both t p q)) = pane_ids_vec t"
  "split_ids (fst (expand_both t p q)) = split_ids t"
  "node_wf t \<Longrightarrow> node_wf (fst (expand_both t p q))"
  "\<not> snd (expand_both t p q) \<Longrightarrow> fst (expand_both t p q) = t"
proof -
  obtain t1 e1 where 1: "expand_stack_pane t p = (t1, e1)" by fastforce
  obtain t2 e2 where 2: "expand_stack_pane t1 q = (t2, e2)" by fastforce
  have eq: "expand_both t p q = (t2, e1 \<or> e2)" by (simp add: expand_both_def 1 2)
  show "pane_ids_vec (fst (expand_both t p q)) = pane_ids_vec t"
    using pane_ids_expand [of t p] pane_ids_expand [of t1 q] by (simp add: eq 1 2)
  show "split_ids (fst (expand_both t p q)) = split_ids t"
    using split_ids_expand [of t p] split_ids_expand [of t1 q] by (simp add: eq 1 2)
  show "node_wf (fst (expand_both t p q))" if "node_wf t"
    using node_wf_expand [OF that, of p] node_wf_expand [of t1 q] by (simp add: eq 1 2)
  show "fst (expand_both t p q) = t" if "\<not> snd (expand_both t p q)"
    using that expand_unchanged [of t p] expand_unchanged [of t1 q] 1 2 by (auto simp: eq)
qed

lemma zip_map_columns:
  "map (\<lambda>p. (fst p)\<lparr>lc_root := fst (snd p)\<rparr>) (zip cs (map (\<lambda>c. expand_both (lc_root c) p q) cs))
   = map (\<lambda>c. c\<lparr>lc_root := fst (expand_both (lc_root c) p q)\<rparr>) cs"
  by (induction cs) (auto split: prod.splits)

lemma layout_inv_focus:
  "layout_inv n (s\<lparr>active_pane := p\<rparr>) = layout_inv n s"
  "layout_inv n (s\<lparr>zoomed_pane := z\<rparr>) = layout_inv n s"
  by (rule layout_inv_cong; simp)+

lemma focus_pane_ok:
  assumes inv: "layout_inv n s"
  shows "layout_inv n (focus_pane s pane) \<and> pane_ids_vec (lroot (focus_pane s pane)) = pane_ids_vec (lroot s)
    \<and> active_pane (focus_pane s pane) = pane"
proof (cases "lcolumns s = []")
  case True
  then have "tree_ok n (lroot s) (auto_layout s)" "vsplits s = Map.empty" "base_width s = None"
    using inv by (simp_all add: layout_inv_def)
  with True show ?thesis
    by (simp add: focus_pane_def layout_columns_active_def layout_inv_def tree_ok_def expand_both_simps
        cong: option.case_cong)
next
  case False
  then have ok: "cols_ok n (lcolumns s)" and len: "2 \<le> length (lcolumns s)"
    using inv by (auto simp: layout_inv_def)
  let ?g = "\<lambda>c. c\<lparr>lc_root := fst (expand_both (lc_root c) (active_pane s) pane)\<rparr>"
  let ?s1 = "s\<lparr>lcolumns := map ?g (lcolumns s)\<rparr>"
  let ?e = "\<exists>c \<in> set (lcolumns s). snd (expand_both (lc_root c) (active_pane s) pane)"
  have focus: "focus_pane s pane
      = (if ?e then sync_layout_column_projection ?s1 else ?s1)\<lparr>active_pane := pane\<rparr>"
    using False
    by (simp add: focus_pane_def layout_columns_active_def Let_def zip_map_columns case_prod_unfold)
  have shape: "list_all2 same_shape (lcolumns s) (map ?g (lcolumns s))"
    by (rule same_shape_map [OF ok]) (simp add: same_shape_def expand_both_simps)
  have "layout_inv n (if ?e then sync_layout_column_projection ?s1 else ?s1)
      \<and> pane_ids_vec (lroot (if ?e then sync_layout_column_projection ?s1 else ?s1)) = pane_ids_vec (lroot s)"
  proof (cases ?e)
    case True
    have "layout_inv n (sync_layout_column_projection ?s1)"
      using cols_ok_same_shape [OF ok shape] len by (intro layout_inv_sync) simp_all
    moreover have "pane_ids_vec (lroot (sync_layout_column_projection ?s1)) = column_panes (map ?g (lcolumns s))"
      using False by (subst sync_panes) simp_all
    ultimately show ?thesis
      using True layout_inv_column_panes [OF inv False]
      by (simp add: comp_def expand_both_simps)
  next
    case no: False
    then have "map ?g (lcolumns s) = lcolumns s"
      by (auto intro!: map_idI simp: expand_both_simps)
    with no inv show ?thesis by simp
  qed
  then show ?thesis
    unfolding focus by (simp add: layout_inv_focus)
qed

section \<open>Restoring a snapshot\<close>

lemma restore_simps [simp]:
  "pane_ids_vec (restore_stack_expansions t m) = pane_ids_vec t"
  "split_ids (restore_stack_expansions t m) = split_ids t"
  by (induction t) (auto split: option.splits)

lemma node_wf_restore: "node_wf t \<Longrightarrow> node_wf (restore_stack_expansions t m)"
  by (induction t) (auto split: option.splits)

lemma restore_project:
  "restore_stack_expansions (fst (project_columns cs t w vs)) m
   = fst (project_columns (map (\<lambda>c. c\<lparr>lc_root := restore_stack_expansions (lc_root c) m\<rparr>) cs)
       (restore_stack_expansions t m) w vs)"
  by (induction cs arbitrary: t w vs) (auto simp: Let_def)

lemma marked_map_root: "marked (map (\<lambda>c. c\<lparr>lc_root := f c\<rparr>) cs) vs = marked cs vs"
  by (induction cs arbitrary: vs) (auto simp: marked_def)

lemma synced_iff:
  assumes "lcolumns s = c # cs"
  shows "sync_layout_column_projection s = s \<longleftrightarrow>
    lroot s = fst (project_columns cs (lc_root c) (lc_width c) Map.empty) \<and> vsplits s = marked cs Map.empty
    \<and> base_width s = Some (lc_width c) \<and> auto_layout s = None"
proof
  assume "sync_layout_column_projection s = s"
  with sync_fields [OF assms] show "lroot s = fst (project_columns cs (lc_root c) (lc_width c) Map.empty)
    \<and> vsplits s = marked cs Map.empty \<and> base_width s = Some (lc_width c) \<and> auto_layout s = None"
    by simp
next
  assume "lroot s = fst (project_columns cs (lc_root c) (lc_width c) Map.empty) \<and> vsplits s = marked cs Map.empty
    \<and> base_width s = Some (lc_width c) \<and> auto_layout s = None"
  moreover obtain t v where "project_columns cs (lc_root c) (lc_width c) Map.empty = (t, v)" by fastforce
  ultimately show "sync_layout_column_projection s = s"
    using assms project_marked [of cs "lc_root c" "lc_width c" Map.empty]
    by (cases s) (simp add: sync_layout_column_projection_def)
qed

lemma restore_layout_fields:
  "lroot (restore_layout_snapshot s snap) = restore_stack_expansions (lroot snap) (current_expansions s)"
  "lcolumns (restore_layout_snapshot s snap)
     = map (\<lambda>c. c\<lparr>lc_root := restore_stack_expansions (lc_root c) (current_expansions s)\<rparr>) (lcolumns snap)"
  "auto_layout (restore_layout_snapshot s snap) = auto_layout snap"
  "vsplits (restore_layout_snapshot s snap) = vsplits snap"
  "base_width (restore_layout_snapshot s snap) = base_width snap"
  "layout_undo (restore_layout_snapshot s snap) = layout_undo s"
  "layout_revision (restore_layout_snapshot s snap) = layout_revision s"
  by (simp_all add: restore_layout_snapshot_def Let_def)

lemma restore_layout_ok:
  assumes inv: "layout_inv n snap"
  shows "layout_inv n (restore_layout_snapshot s snap)
    \<and> pane_ids_vec (lroot (restore_layout_snapshot s snap)) = pane_ids_vec (lroot snap)"
proof (cases "lcolumns snap")
  case Nil
  then show ?thesis
    using inv by (simp add: layout_inv_def restore_layout_fields tree_ok_def node_wf_restore
        cong: option.case_cong)
next
  case (Cons c cs)
  let ?m = "current_expansions s"
  let ?g = "\<lambda>c. c\<lparr>lc_root := restore_stack_expansions (lc_root c) ?m\<rparr>"
  have ok: "cols_ok n (c # cs)" and len: "2 \<le> length (c # cs)"
    and synced: "sync_layout_column_projection snap = snap"
    using inv Cons by (auto simp: layout_inv_def)
  note F = synced [unfolded synced_iff [OF Cons]]
  have cols: "lcolumns (restore_layout_snapshot s snap) = ?g c # map ?g cs"
    by (simp add: restore_layout_fields Cons)
  have "sync_layout_column_projection (restore_layout_snapshot s snap) = restore_layout_snapshot s snap"
    unfolding synced_iff [OF cols] using F
    by (simp add: restore_layout_fields restore_project marked_map_root)
  moreover have "list_all2 same_shape (c # cs) (map ?g (c # cs))"
    by (rule same_shape_map [OF ok]) (simp add: same_shape_def node_wf_restore)
  then have "cols_ok n (map ?g (c # cs))" by (rule cols_ok_same_shape [OF ok])
  ultimately show ?thesis
    using len cols by (simp add: layout_inv_def restore_layout_fields(1))
qed

text \<open>Restoring the stack selections a layout already has changes nothing.\<close>

lemma same_but_expanded_refl: "same_but_expanded t t"
  by (induction t) auto

lemma restore_own: "node_wf t \<Longrightarrow> distinct (pane_ids_vec t) \<Longrightarrow>
   restore_stack_expansions t (collect_stack_expansions t m) = t"
  by (simp add: restore_collect same_but_expanded_refl)

lemma fold_collect_other:
  "(\<And>c. c \<in> set cs \<Longrightarrow> k \<notin> stack_keys (lc_root c)) \<Longrightarrow>
   fold (\<lambda>c m. collect_stack_expansions (lc_root c) m) cs m k = m k"
  by (induction cs arbitrary: m) (auto simp: collect_other_key)

lemma restore_columns:
  "cols_ok n cs \<Longrightarrow> c \<in> set cs \<Longrightarrow>
   restore_stack_expansions (lc_root c) (fold (\<lambda>c m. collect_stack_expansions (lc_root c) m) cs m) = lc_root c"
proof (induction cs arbitrary: m)
  case (Cons d cs)
  have cs: "cols_ok n cs" and d: "tree_ok n (lc_root d) (lc_auto d)"
    and disj: "set (pane_ids_vec (lc_root d)) \<inter> set (column_panes cs) = {}"
    using cols_ok_append [of n "[]" d cs] Cons.prems(1) by auto
  show ?case
  proof (cases "c \<in> set cs")
    case True
    with Cons.IH [OF cs True] show ?thesis by simp
  next
    case False
    with Cons.prems have c: "c = d" by simp
    let ?m = "collect_stack_expansions (lc_root d) m"
    have "fold (\<lambda>c m. collect_stack_expansions (lc_root c) m) cs ?m k = ?m k"
      if "k \<in> stack_keys (lc_root d)" for k
    proof (rule fold_collect_other)
      fix e assume e: "e \<in> set cs"
      then have "node_wf (lc_root e)" using cs by (auto simp: cols_ok_def tree_ok_def)
      moreover have "set (pane_ids_vec (lc_root d)) \<inter> set (pane_ids_vec (lc_root e)) = {}"
        using disj e by auto
      ultimately show "k \<notin> stack_keys (lc_root e)"
        using that d by (intro stack_keys_disjoint [of "lc_root d"]) (auto simp: tree_ok_def)
    qed
    then have "restore_stack_expansions (lc_root d) (fold (\<lambda>c m. collect_stack_expansions (lc_root c) m) cs ?m)
        = restore_stack_expansions (lc_root d) ?m"
      by (rule restore_cong)
    with c d show ?thesis by (simp add: restore_own tree_ok_def)
  qed
qed simp

lemma restore_current:
  assumes inv: "layout_inv n s"
  shows "restore_stack_expansions (lroot s) (current_expansions s) = lroot s
    \<and> map (\<lambda>c. c\<lparr>lc_root := restore_stack_expansions (lc_root c) (current_expansions s)\<rparr>) (lcolumns s) = lcolumns s"
proof (cases "lcolumns s")
  case Nil
  then have "tree_ok n (lroot s) (auto_layout s)" using inv by (simp add: layout_inv_def)
  with Nil show ?thesis
    by (simp add: current_expansions_def layout_columns_active_def restore_own tree_ok_def)
next
  case (Cons c cs)
  have ok: "cols_ok n (c # cs)" and synced: "sync_layout_column_projection s = s"
    using inv Cons by (auto simp: layout_inv_def)
  let ?m = "current_expansions s"
  have cols: "map (\<lambda>c. c\<lparr>lc_root := restore_stack_expansions (lc_root c) ?m\<rparr>) (c # cs) = c # cs"
    using restore_columns [OF ok] Cons
    by (intro map_idI) (simp add: current_expansions_def layout_columns_active_def)
  moreover have "lroot s = fst (project_columns cs (lc_root c) (lc_width c) Map.empty)"
    using synced by (simp add: synced_iff [OF Cons])
  moreover have "restore_stack_expansions (lc_root c) ?m = lc_root c"
    using cols by (metis (no_types, lifting) layout_column.select_convs(3) layout_column.surjective
        layout_column.update_convs(3) list.inject list.map(2))
  ultimately show ?thesis
    using Cons by (simp add: restore_project)
qed

end
