(* ===== verification/ScreenProps.thy ===== *)
theory ScreenProps
  imports ScreenUndo
begin

text \<open>
  The properties of one screen: the undo history, the transactions on the layout and the
  layout a screen with columns is drawn with.
\<close>

section \<open>Recording changes\<close>

definition same_layout :: "screen \<Rightarrow> screen \<Rightarrow> bool" where
  "same_layout s t = (layout_snapshot s = layout_snapshot t \<and> sc_id s = sc_id t
     \<and> sc_public s = sc_public t \<and> sc_name s = sc_name t)"

lemma record_prepared_layout:
  "record_prepared_layout_change s bef created key = Some s' \<Longrightarrow>
   same_layout s' s \<and> layout_revision s' = sat_add (layout_revision s) 1
   \<and> (length (layout_undo s) \<le> layout_undo_limit \<longrightarrow> length (layout_undo s') \<le> layout_undo_limit)"
  by (auto simp: record_prepared_layout_change_def same_layout_def layout_snapshot_def
      layout_state.truncate_def Let_def length_trim_front split: if_splits)

lemma record_layout_change_Some: "record_layout_change s bef created key \<noteq> None"
  by (auto simp: record_layout_change_def record_prepared_layout_change_def Let_def)

lemma same_layout_inv: "same_layout s t \<Longrightarrow> layout_inv n s = layout_inv n t"
  by (rule layout_inv_cong) (auto simp: same_layout_def layout_snapshot_def layout_state.truncate_def)

lemma same_layout_fields:
  "same_layout s t \<Longrightarrow> lroot s = lroot t \<and> active_pane s = active_pane t \<and> zoomed_pane s = zoomed_pane t
    \<and> auto_layout s = auto_layout t \<and> vsplits s = vsplits t \<and> base_width s = base_width t
    \<and> lcolumns s = lcolumns t"
  by (auto simp: same_layout_def layout_snapshot_def layout_state.truncate_def)

text \<open>A change that was not coalesced is the last entry of the history.\<close>

lemma record_layout_change_last:
  assumes "record_layout_change s bef [] None = Some s'"
  shows "layout_undo s' \<noteq> [] \<and> last (layout_undo s') =
    \<lparr>before = bef, after_revision = layout_revision s', created_panes = [], coalesce = None\<rparr>"
proof -
  let ?s = "s\<lparr>layout_revision := sat_add (layout_revision s) 1\<rparr>"
  let ?e = "\<lparr>before = bef, after_revision = layout_revision ?s, created_panes = [], coalesce = None\<rparr>"
  have s': "s' = ?s\<lparr>layout_undo := trim_front layout_undo_limit (layout_undo ?s @ [?e])\<rparr>"
    using assms by (simp add: record_layout_change_def record_prepared_layout_change_def Let_def)
  have "0 < layout_undo_limit" "layout_undo ?s @ [?e] \<noteq> []" by (simp_all add: layout_undo_limit_def)
  from last_trim_front [OF this] show ?thesis unfolding s' by simp
qed

lemma coalesces_iff:
  "coalesces_layout_change s key \<longleftrightarrow> layout_undo s \<noteq> [] \<and> created_panes (last (layout_undo s)) = []
     \<and> coalesce (last (layout_undo s)) = Some key \<and> after_revision (last (layout_undo s)) = layout_revision s"
  by (simp add: coalesces_layout_change_def split: list.split)

section \<open>Selections survive ratio changes\<close>

lemma collect_set_ratio:
  "collect_stack_expansions (fst (set_split_ratio t i r)) m = collect_stack_expansions t m"
  by (induction t arbitrary: m) (auto simp: set_split_ratio_Split simp del: set_split_ratio.simps(2))

lemma collect_set_column_ratio:
  "fold (\<lambda>c m. collect_stack_expansions (lc_root c) m) (fst (set_column_ratio cs i r)) m
   = fold (\<lambda>c m. collect_stack_expansions (lc_root c) m) cs m"
proof (induction cs arbitrary: m)
  case (Cons c cs)
  obtain t b where t: "set_split_ratio (lc_root c) i r = (t, b)" by fastforce
  then have "collect_stack_expansions t m = collect_stack_expansions (lc_root c) m"
    using collect_set_ratio [of "lc_root c" i r m] by simp
  moreover obtain cs' b' where "set_column_ratio cs i r = (cs', b')" by fastforce
  ultimately show ?case using t Cons.IH by (simp add: Let_def)
qed simp

lemma fold_collect_roots:
  "fold (\<lambda>c m. collect_stack_expansions (lc_root c) m) cs m
   = fold (\<lambda>t m. collect_stack_expansions t m) (map lc_root cs) m"
  by (simp add: fold_map comp_def)

lemma collect_widths:
  "fold (\<lambda>c m. collect_stack_expansions (lc_root c) m) (cs[k := (cs ! k)\<lparr>lc_width := w\<rparr>]) m
   = fold (\<lambda>c m. collect_stack_expansions (lc_root c) m) cs m"
proof -
  have "map lc_root (cs[k := (cs ! k)\<lparr>lc_width := w\<rparr>]) = map lc_root cs"
    by (cases "k < length cs") (simp_all add: map_update list_update_same_conv list_update_beyond)
  then show ?thesis
    unfolding fold_collect_roots by (simp only:)
qed

lemma current_expansions_cong:
  "lroot s = lroot t \<Longrightarrow> lcolumns s = lcolumns t \<Longrightarrow> current_expansions s = current_expansions t"
  by (simp add: current_expansions_def layout_columns_active_def)

lemma sync_widths_columns [simp]: "lcolumns (sync_layout_column_widths s) = lcolumns s"
  by (simp add: sync_layout_column_widths_def Let_def split: list.splits prod.splits)

lemma set_layout_split_ratio_expansions:
  assumes res: "set_layout_split_ratio s i r = Inr l"
  shows "current_expansions l = current_expansions s"
proof (cases "lcolumns s = []")
  case True
  with res obtain t where "set_split_ratio (lroot s) i r = (t, True)" "l = s\<lparr>lroot := t, auto_layout := None\<rparr>"
    by (auto simp: set_layout_split_ratio_def split: prod.splits if_splits)
  with True collect_set_ratio [of "lroot s" i r Map.empty] show ?thesis
    by (simp add: current_expansions_def layout_columns_active_def)
next
  case False
  show ?thesis
  proof (cases "\<exists>k. position (\<lambda>c. lc_id c = i) (lcolumns s) = Some (Suc k)")
    case True
    with res False show ?thesis
      by (auto simp: set_layout_split_ratio_def Let_def current_expansions_def layout_columns_active_def
          collect_widths split: if_splits)
  next
    case no: False
    obtain cols changed where sc: "set_column_ratio (lcolumns s) i r = (cols, changed)" by fastforce
    with res False no have "lcolumns l = cols"
      by (auto simp: set_layout_split_ratio_def split: if_splits option.splits nat.splits)
    moreover have "length cols = length (lcolumns s)"
    proof -
      have "length (fst (set_column_ratio cs i r)) = length cs" for cs
        by (induction cs) (auto simp: Let_def case_prod_unfold)
      then show ?thesis using sc by (metis fst_conv)
    qed
    moreover have "fold (\<lambda>c m. collect_stack_expansions (lc_root c) m) cols Map.empty
        = fold (\<lambda>c m. collect_stack_expansions (lc_root c) m) (lcolumns s) Map.empty"
      using collect_set_column_ratio [of "lcolumns s" i r Map.empty] sc by simp
    ultimately show ?thesis
      using False by (auto simp: current_expansions_def layout_columns_active_def)
  qed
qed

lemma set_layout_split_ratio_focus:
  "set_layout_split_ratio s i r = Inr l \<Longrightarrow> active_pane l = active_pane s \<and> zoomed_pane l = zoomed_pane s"
  by (auto simp: set_layout_split_ratio_def Let_def sync_layout_column_widths_def
      split: if_splits prod.splits option.splits nat.splits list.splits)

lemma restore_own_snapshot:
  assumes inv: "layout_inv n s" and exp: "current_expansions s1 = current_expansions s"
    and focus: "active_pane s1 = active_pane s" "active_pane s \<in> layout_panes s"
    and zoom: "zoomed_pane s = None \<or> zoomed_pane s = Some (active_pane s)"
  shows "layout_snapshot (restore_layout_snapshot s1 (layout_snapshot s)) = layout_snapshot s"
proof -
  note R = restore_current [OF inv]
  have "lroot (restore_layout_snapshot s1 (layout_snapshot s)) = lroot s"
    "lcolumns (restore_layout_snapshot s1 (layout_snapshot s)) = lcolumns s"
    using R by (simp_all add: restore_layout_fields exp)
  moreover have "zoomed_pane (restore_layout_snapshot s1 (layout_snapshot s)) = zoomed_pane s"
    "active_pane (restore_layout_snapshot s1 (layout_snapshot s)) = active_pane s"
    using R focus zoom by (auto simp: restore_layout_snapshot_def Let_def exp)
  moreover note restore_layout_fields(3-5) [of s1 "layout_snapshot s"]
  ultimately show ?thesis
    by (simp add: layout_snapshot_def layout_state.truncate_def)
qed

section \<open>Properties\<close>

text \<open>C8. Attaching a pane. Take a target on the screen, a new pane, and ids reserved as the code does: a
  split id exactly when a direction is given, a base id exactly when a viewport width is, all fresh. A
  width without a direction panics: no split id was reserved for its column. In every other case, a new
  viewport column, a directed split or the automatic layout, the attachment succeeds: it adds exactly the
  new pane, focuses it, clears the zoom, keeps the layout invariant and the bound of the undo history.\<close>

theorem attach_pane_keeps_layout:
  assumes "layout_inv n s" and "target \<in> set (pane_ids_vec (lroot s))"
    and "pane \<notin> set (pane_ids_vec (lroot s))"
    and "split_id = None \<longleftrightarrow> direction = None" and "base_id = None \<longleftrightarrow> viewport_width = None"
    and "\<forall>i. split_id = Some i \<longrightarrow> i < n \<and> fresh_id s i"
    and "\<forall>i. base_id = Some i \<longrightarrow> i < n \<and> fresh_id s i \<and> split_id \<noteq> Some i"
    and "viewport_width \<noteq> Some FNaN" and "length (layout_undo s) \<le> layout_undo_limit"
  shows "if viewport_width \<noteq> None \<and> direction = None
    then attach_pane s target pane split_id base_id direction ratio viewport_width n = Inl LayoutPanic
    else \<exists>s' m. attach_pane s target pane split_id base_id direction ratio viewport_width n = Inr (s', m)
      \<and> n \<le> m \<and> layout_inv m s' \<and> set (pane_ids_vec (lroot s')) = insert pane (set (pane_ids_vec (lroot s)))
      \<and> active_pane s' = pane \<and> zoomed_pane s' = None \<and> length (layout_undo s') \<le> layout_undo_limit"
proof (cases "viewport_width \<noteq> None \<and> direction = None")
  case True
  obtain w where "viewport_width = Some w" using True by auto
  moreover from this obtain b where "base_id = Some b" using assms(5) by (cases base_id) simp_all
  moreover have "split_id = None" using True assms(4) by simp
  ultimately show ?thesis
    using True by (simp add: attach_pane_def attach_layout_def)
next
  case False
  have reserved: "direction \<noteq> None \<longrightarrow> split_id \<noteq> None"
    "viewport_width \<noteq> None \<longrightarrow> base_id \<noteq> None \<and> split_id \<noteq> None"
    using False assms(4,5) by auto
  obtain s1 m where s1: "attach_layout s target pane split_id base_id direction ratio viewport_width n = Inr (s1, m)"
    "n \<le> m" "layout_inv m s1" "layout_panes s1 = insert pane (layout_panes s)" "layout_undo s1 = layout_undo s"
    using attach_layout_ok [OF assms(1-3,6,7) reserved assms(8), of ratio] by metis
  let ?s2 = "s1\<lparr>active_pane := pane, zoomed_pane := None\<rparr>"
  obtain s3 where s3: "record_layout_change ?s2 (layout_snapshot s) [pane] None = Some s3"
    using record_layout_change_Some [of ?s2 "layout_snapshot s" "[pane]" None] by blast
  note R = record_prepared_layout [OF s3 [unfolded record_layout_change_def]]
  then have "same_layout s3 ?s2" by blast
  note F = same_layout_fields [OF this] and I = same_layout_inv [OF this, of m]
  have "layout_inv m s3"
    unfolding I using s1(3) by (simp add: layout_inv_focus)
  then show ?thesis
    unfolding if_not_P [OF False] using s1 s3 F R assms(9) by (simp add: attach_pane_def)
qed

definition demo_screen :: screen where
  "demo_screen = \<lparr>lroot = Leaf 1, active_pane = 1, zoomed_pane = None, auto_layout = Some [1],
     vsplits = Map.empty, base_width = None, lcolumns = [], sc_id = 1, sc_public = ''screen_1'', sc_name = None, layout_revision = 0,
     layout_undo = []\<rparr>"

lemma demo_screen_inv: "layout_inv 10 demo_screen"
  by (simp add: demo_screen_def layout_inv_def tree_ok_def)

theorem attach_pane_keeps_layout_witness:
  "\<exists>s' m. attach_pane demo_screen 1 2 (Some 5) (Some 6) (Some (DirRight, False)) None (Some half) 10 = Inr (s', m)
     \<and> layout_inv m s' \<and> set (pane_ids_vec (lroot s')) = {1, 2} \<and> active_pane s' = 2"
proof -
  have p: "set (pane_ids_vec (lroot demo_screen)) = {1}" by (simp add: demo_screen_def)
  have f: "fresh_id demo_screen 5" "fresh_id demo_screen 6" "length (layout_undo demo_screen) \<le> layout_undo_limit"
    by (simp_all add: fresh_id_def demo_screen_def)
  show ?thesis
    using attach_pane_keeps_layout [OF demo_screen_inv, of 1 2 "Some 5" "Some (DirRight, False)" "Some 6" "Some half" None] p f
    by (auto simp: half_def insert_commute)
qed

text \<open>C9. Removing a pane. Removing a pane of the screen reports \<open>false\<close> exactly when it was
  the last one; otherwise exactly that pane is gone, the layout invariant still holds
  (columns that empty are dropped, a single column collapses into the plain tree) and the
  undo history is empty.\<close>

theorem remove_pane_keeps_layout:
  assumes "layout_inv n s" and "pane \<in> set (pane_ids_vec (lroot s))"
  shows "\<exists>s' m. remove_pane_from_screen_layout n s pane
        = Inr (s', set (pane_ids_vec (lroot s)) \<noteq> {pane}, m)
    \<and> n \<le> m \<and> layout_undo s' = []
    \<and> (set (pane_ids_vec (lroot s)) \<noteq> {pane} \<longrightarrow>
         layout_inv m s' \<and> set (pane_ids_vec (lroot s')) = set (pane_ids_vec (lroot s)) - {pane})"
  using remove_pane_ok [OF assms] .

theorem remove_pane_keeps_layout_witness:
  "\<exists>s' m. remove_pane_from_screen_layout 10 (demo_screen\<lparr>lroot := Stack [1, 2] 1, auto_layout := None\<rparr>) 1
     = Inr (s', True, m) \<and> layout_inv m s' \<and> set (pane_ids_vec (lroot s')) = {2}"
proof -
  let ?s = "demo_screen\<lparr>lroot := Stack [1, 2] 1, auto_layout := None\<rparr>"
  have inv: "layout_inv 10 ?s" by (simp add: demo_screen_def layout_inv_def tree_ok_def)
  have "1 \<in> set (pane_ids_vec (lroot ?s))" by simp
  from remove_pane_keeps_layout [OF inv this] show ?thesis by auto
qed

text \<open>C10. Ratio updates. A ratio update that is accepted keeps the panes, their order and the
  layout invariant; in particular, after a divider between columns was moved the derived
  tree is the projection of the new column widths.\<close>

theorem set_layout_split_ratio_keeps_layout:
  assumes "layout_inv n s" and "set_layout_split_ratio s split ratio = Inr s'"
  shows "layout_inv n s' \<and> pane_ids_vec (lroot s') = pane_ids_vec (lroot s) \<and> projection_is_consistent s'"
  using set_layout_split_ratio_ok [OF assms] layout_inv_consistent by blast

theorem set_layout_split_ratio_keeps_layout_witness:
  "\<exists>s'. set_layout_split_ratio (demo_screen\<lparr>lroot := Split 3 DirRight half (Leaf 1) (Leaf 2), auto_layout := None\<rparr>)
       3 (FFin (1 / 4)) = Inr s' \<and> layout_inv 10 s' \<and> split_ratio (lroot s') 3 = Some (FFin (1 / 4))"
proof -
  let ?s = "demo_screen\<lparr>lroot := Split 3 DirRight half (Leaf 1) (Leaf 2), auto_layout := None\<rparr>"
  have inv: "layout_inv 10 ?s" by (simp add: demo_screen_def layout_inv_def tree_ok_def)
  have res: "set_layout_split_ratio ?s 3 (FFin (1 / 4))
      = Inr (?s\<lparr>lroot := Split 3 DirRight (FFin (1 / 4)) (Leaf 1) (Leaf 2), auto_layout := None\<rparr>)"
    by (simp add: set_layout_split_ratio_def demo_screen_def)
  from set_layout_split_ratio_keeps_layout [OF inv res] res show ?thesis by auto
qed

text \<open>C11. Widths and projection agree. On a screen whose derived tree is up to date, rewriting
  the ratios of the tree in place after a width change (\<open>sync_layout_column_widths\<close>)
  gives exactly the tree, marks and base width that rebuilding the projection
  (\<open>sync_layout_column_projection\<close>) gives.\<close>

theorem sync_widths_equals_projection:
  assumes "layout_inv n s" and "k < length (lcolumns s)" and "w \<noteq> FNaN"
    and "s' = s\<lparr>lcolumns := (lcolumns s)[k := (lcolumns s ! k)\<lparr>lc_width := w\<rparr>]\<rparr>"
  shows "sync_layout_column_widths s' = sync_layout_column_projection s'"
  using width_update_ok [OF assms(1-3)] assms(4) by blast

definition demo_columns :: layout_state where
  "demo_columns = sync_layout_column_projection
     \<lparr>lroot = Leaf 0, active_pane = 1, zoomed_pane = None, auto_layout = None, vsplits = Map.empty,
      base_width = None,
      lcolumns = [\<lparr>lc_id = 3, lc_width = FFin 1, lc_root = Stack [1, 2] 1, lc_auto = None\<rparr>,
                  \<lparr>lc_id = 4, lc_width = half, lc_root = Leaf 5, lc_auto = Some [5]\<rparr>]\<rparr>"

lemma demo_columns_inv: "layout_inv 10 demo_columns"
  unfolding demo_columns_def
  by (rule layout_inv_sync) (auto simp: cols_ok_def tree_ok_def half_def)

theorem sync_widths_equals_projection_witness:
  "sync_layout_column_widths
     (demo_columns\<lparr>lcolumns := (lcolumns demo_columns)[1 := (lcolumns demo_columns ! 1)\<lparr>lc_width := FFin 1\<rparr>]\<rparr>)
   = sync_layout_column_projection
     (demo_columns\<lparr>lcolumns := (lcolumns demo_columns)[1 := (lcolumns demo_columns ! 1)\<lparr>lc_width := FFin 1\<rparr>]\<rparr>)"
  by (rule sync_widths_equals_projection [OF demo_columns_inv _ _ refl]) (simp_all add: demo_columns_def)

text \<open>Swaps and focus. A swap exchanges the two panes in the order of the screen and
  keeps the layout invariant, also when only one of them is on the screen; focusing a
  pane changes neither the panes nor their order.\<close>

theorem swap_and_focus_keep_layout:
  assumes "layout_inv n s" and "swap_layout_panes s p q both = Inr s'"
  shows "layout_inv n s' \<and> pane_ids_vec (lroot s') = map (swap_id p q) (pane_ids_vec (lroot s))
    \<and> layout_inv n (focus_pane s' r) \<and> pane_ids_vec (lroot (focus_pane s' r)) = pane_ids_vec (lroot s')
    \<and> active_pane (focus_pane s' r) = r"
  using swap_layout_panes_ok [OF assms] focus_pane_ok [of n s' r] by blast

theorem swap_and_focus_keep_layout_witness:
  "\<exists>s'. swap_layout_panes demo_columns 1 5 True = Inr s' \<and> layout_inv 10 s'
     \<and> pane_ids_vec (lroot s') = [5, 2, 1] \<and> active_pane (focus_pane s' 2) = 2"
proof -
  have panes: "pane_ids_vec (lroot demo_columns) = [1, 2, 5]"
    unfolding demo_columns_def by (subst sync_panes) simp_all
  then obtain s' where "swap_layout_panes demo_columns 1 5 True = Inr s'"
    by (simp add: swap_layout_panes_def Let_def)
  from swap_and_focus_keep_layout [OF demo_columns_inv this, of 2] this panes show ?thesis
    by (auto simp: swap_id_def)
qed

text \<open>C12. Undo history. A layout change without new panes never panics when its prior
  snapshot was taken by \<open>layout_snapshot_for_coalescing_change\<close>; it raises the revision,
  leaves the layout alone, and the history keeps at most 32 entries. A repeated resize
  of one transaction is coalesced: the history does not grow.\<close>

theorem coalescing_never_panics:
  assumes "length (layout_undo s) \<le> layout_undo_limit"
    and "s' = s\<lparr>lroot := t, lcolumns := cs, vsplits := v, base_width := b, auto_layout := a\<rparr>"
  shows "\<exists>s2. record_prepared_layout_change s' (snapshot_for_coalescing_change s key) [] key = Some s2
    \<and> layout_snapshot s2 = layout_snapshot s' \<and> layout_revision s2 = sat_add (layout_revision s) 1
    \<and> length (layout_undo s2) \<le> layout_undo_limit
    \<and> ((\<exists>k. key = Some k \<and> coalesces_layout_change s k) \<longrightarrow> length (layout_undo s2) = length (layout_undo s))"
proof -
  have "\<exists>s2. record_prepared_layout_change s' (snapshot_for_coalescing_change s key) [] key = Some s2
    \<and> ((\<exists>k. key = Some k \<and> coalesces_layout_change s k) \<longrightarrow> length (layout_undo s2) = length (layout_undo s))"
  proof (cases "\<exists>k. key = Some k \<and> coalesces_layout_change s k")
    case True
    then have "layout_undo s \<noteq> []" "created_panes (last (layout_undo s)) = []"
      "coalesce (last (layout_undo s)) = key" "after_revision (last (layout_undo s)) = layout_revision s"
      "key \<noteq> None"
      by (auto simp: coalesces_iff)
    then show ?thesis
      using assms(2) by (simp add: record_prepared_layout_change_def Let_def)
  next
    case False
    then have "snapshot_for_coalescing_change s key = Some (layout_snapshot s)"
      by (auto simp: snapshot_for_coalescing_change_def split: option.splits)
    with False show ?thesis
      by (auto simp: record_prepared_layout_change_def Let_def)
  qed
  then obtain s2 where s2: "record_prepared_layout_change s' (snapshot_for_coalescing_change s key) [] key = Some s2"
    "(\<exists>k. key = Some k \<and> coalesces_layout_change s k) \<longrightarrow> length (layout_undo s2) = length (layout_undo s)"
    by blast
  from record_prepared_layout [OF s2(1)] s2 assms show ?thesis
    by (auto simp: same_layout_def)
qed

theorem coalescing_never_panics_witness:
  "\<exists>s2. record_prepared_layout_change demo_screen
       (snapshot_for_coalescing_change demo_screen (Some (Resize (InProcess 1) 7))) []
       (Some (Resize (InProcess 1) 7)) = Some s2 \<and> length (layout_undo s2) \<le> 32"
proof -
  have d: "length (layout_undo demo_screen) \<le> layout_undo_limit"
    "demo_screen = demo_screen\<lparr>lroot := lroot demo_screen, lcolumns := lcolumns demo_screen,
       vsplits := vsplits demo_screen, base_width := base_width demo_screen,
       auto_layout := auto_layout demo_screen\<rparr>"
    by (simp_all add: demo_screen_def)
  from coalescing_never_panics [OF d, of "Some (Resize (InProcess 1) 7)"] show ?thesis
    by (auto simp: layout_undo_limit_def)
qed

text \<open>C13. Undo of a resize. Undoing the ratio change that was made last gives back the exact
  layout before it: tree, columns, marks, auto layout, focus, zoom and stack selections.\<close>

theorem undo_restores_ratio_change:
  assumes "layout_inv n s" and "active_pane s \<in> set (pane_ids_vec (lroot s))"
    and "zoomed_pane s = None \<or> zoomed_pane s = Some (active_pane s)"
    and "set_split_ratio_mutation s split ratio None = Inr s1"
  shows "\<exists>s2. undo_without_created s1 (Some (layout_revision s1)) = Inr s2
    \<and> layout_snapshot s2 = layout_snapshot s \<and> layout_revision s2 = sat_add (layout_revision s1) 1"
proof -
  obtain l where l: "set_layout_split_ratio (layout_snapshot s) split ratio = Inr l"
    and rec: "record_layout_change (s\<lparr>lroot := lroot l, auto_layout := auto_layout l, vsplits := vsplits l,
        base_width := base_width l, lcolumns := lcolumns l\<rparr>) (layout_snapshot s) [] None = Some s1"
    using assms(4)
    by (auto simp: set_split_ratio_mutation_def commit_split_ratio_def snapshot_for_coalescing_change_def record_layout_change_def
        Let_def result_rules split: if_splits)
  note last = record_layout_change_last [OF rec]
  have same: "same_layout s1 (s\<lparr>lroot := lroot l, auto_layout := auto_layout l, vsplits := vsplits l,
        base_width := base_width l, lcolumns := lcolumns l\<rparr>)"
    using record_prepared_layout [OF rec [unfolded record_layout_change_def]] by blast
  note F = same_layout_fields [OF same]
  have "current_expansions l = current_expansions s"
    using set_layout_split_ratio_expansions [OF l] current_expansions_cong [of "layout_snapshot s" s] by simp
  moreover have "current_expansions (s1\<lparr>layout_undo := butlast (layout_undo s1)\<rparr>) = current_expansions l"
    by (rule current_expansions_cong) (use F in simp_all)
  ultimately have exp: "current_expansions (s1\<lparr>layout_undo := butlast (layout_undo s1)\<rparr>) = current_expansions s"
    by simp
  have "layout_snapshot (restore_layout_snapshot (s1\<lparr>layout_undo := butlast (layout_undo s1)\<rparr>) (layout_snapshot s))
      = layout_snapshot s"
    by (rule restore_own_snapshot [OF assms(1) exp _ assms(2,3)]) (use F in simp)
  then show ?thesis
    using last by (simp add: undo_without_created_def Let_def layout_snapshot_def layout_state.truncate_def)
qed

theorem undo_restores_ratio_change_witness:
  "\<exists>s1 s2. set_split_ratio_mutation
        (demo_screen\<lparr>lroot := Split 3 DirRight half (Leaf 1) (Leaf 2), auto_layout := None\<rparr>) 3 (FFin (1 / 4)) None
        = Inr s1
     \<and> split_ratio (lroot s1) 3 = Some (FFin (1 / 4))
     \<and> undo_without_created s1 (Some (layout_revision s1)) = Inr s2
     \<and> split_ratio (lroot s2) 3 = Some half"
proof -
  let ?s = "demo_screen\<lparr>lroot := Split 3 DirRight half (Leaf 1) (Leaf 2), auto_layout := None\<rparr>"
  have inv: "layout_inv 10 ?s" by (simp add: demo_screen_def layout_inv_def tree_ok_def)
  obtain s1 where s1: "set_split_ratio_mutation ?s 3 (FFin (1 / 4)) None = Inr s1"
    "split_ratio (lroot s1) 3 = Some (FFin (1 / 4))"
    by (simp add: set_split_ratio_mutation_def commit_split_ratio_def set_layout_split_ratio_def demo_screen_def
        record_prepared_layout_change_def snapshot_for_coalescing_change_def Let_def)
  have "active_pane ?s \<in> set (pane_ids_vec (lroot ?s))"
    "zoomed_pane ?s = None \<or> zoomed_pane ?s = Some (active_pane ?s)"
    by (simp_all add: demo_screen_def)
  from undo_restores_ratio_change [OF inv this s1(1)] obtain s2 where
    s2: "undo_without_created s1 (Some (layout_revision s1)) = Inr s2" "layout_snapshot s2 = layout_snapshot ?s"
    by blast
  have "lroot s2 = lroot ?s" using arg_cong [OF s2(2), of lroot] by simp
  with s1 s2(1) show ?thesis by auto
qed

text \<open>The panes of a drawn layout that belong to a set, counted over a cell.\<close>

definition cell_count :: "(pane_id \<times> vrect) list \<Rightarrow> pane_id set \<Rightarrow> nat \<times> nat \<Rightarrow> nat" where
  "cell_count ps P c = length (filter (\<lambda>(i, r). i \<in> P \<and> c \<in> vcells r) ps)"

text \<open>The cells of the viewport columns before column \<open>k\<close>.\<close>

definition cells_before :: "u16 \<Rightarrow> layout_column list \<Rightarrow> nat \<Rightarrow> nat" where
  "cells_before v cs k = (\<Sum>d\<leftarrow>take k cs. unat (viewport_column_cells v (lc_width d)))"

lemma cells_before_simps [simp]:
  "cells_before v cs 0 = 0"
  "cells_before v (c # cs) (Suc k) = unat (viewport_column_cells v (lc_width c)) + cells_before v cs k"
  by (simp_all add: cells_before_def)

lemma cell_count_none: "\<forall>i \<in> set (map fst ps). i \<notin> P \<Longrightarrow> cell_count ps P c = 0"
  by (auto simp: cell_count_def filter_empty_conv)

lemma cell_count_all: "set (map fst ps) \<subseteq> P \<Longrightarrow> cell_count ps P c = vcover_count ps c"
  by (induction ps) (auto simp: cell_count_def vcover_count_def)

lemma cell_count_append: "cell_count (xs @ ys) P c = cell_count xs P c + cell_count ys P c"
  by (simp add: cell_count_def)

text \<open>A list of bands drawn one after the other, each holding its own panes.\<close>

lemma cell_count_blocks:
  "list_all2 (\<lambda>b d. map fst b = pane_ids_vec (lc_root d)) bs cs \<Longrightarrow> distinct (column_panes cs) \<Longrightarrow>
   k < length cs \<Longrightarrow>
   cell_count (concat bs) (set (pane_ids_vec (lc_root (cs ! k)))) c = vcover_count (bs ! k) c"
proof (induction bs cs arbitrary: k rule: list_all2_induct)
  case (Cons b bs d cs)
  have panes: "set (map fst (concat bs)) = set (column_panes cs)"
    using Cons.hyps(2) by (induction bs cs rule: list_all2_induct) auto
  show ?case
  proof (cases k)
    case 0
    have "cell_count (concat bs) (set (pane_ids_vec (lc_root d))) c = 0"
      by (rule cell_count_none) (use panes Cons.prems(1) in auto)
    with 0 Cons.hyps(1) show ?thesis by (simp add: cell_count_append cell_count_all)
  next
    case (Suc j)
    have "cell_count b (set (pane_ids_vec (lc_root (cs ! j)))) c = 0"
      by (rule cell_count_none) (use Cons.hyps(1) Cons.prems Suc in \<open>auto dest: nth_mem\<close>)
    with Suc Cons.IH [of j] Cons.prems show ?thesis by (simp add: cell_count_append)
  qed
qed simp

text \<open>Walking the projection of columns after an already walked tree adds one band per
  column, starting where the tree stopped.\<close>

lemma walk_project:
  "\<forall>d \<in> set cs. vs (lc_id d) = Some (lc_width d) \<and> unmarked_tree vs (lc_root d) \<and> node_wf (lc_root d) \<Longrightarrow>
   unat (vy area) + unat (vh area) < 2 ^ 16 \<Longrightarrow>
   walk_viewport t area v act vs owner out = (o1, e1) \<Longrightarrow> unat e1 + cells_before v cs (length cs) < 2 ^ 64 \<Longrightarrow>
   \<exists>bs. vpanes (fst (walk_viewport (fst (project_columns cs t w sp)) area v act vs owner out)) = vpanes o1 @ concat bs
     \<and> list_all2 (\<lambda>b d. map fst b = pane_ids_vec (lc_root d)) bs cs
     \<and> (\<forall>k < length cs. \<forall>cx cy. vcover_count (bs ! k) (cx, cy) =
         (if unat e1 + cells_before v cs k \<le> cx \<and> cx < unat e1 + cells_before v cs (Suc k)
             \<and> unat (vy area) \<le> cy \<and> cy < unat (vy area) + unat (vh area) then 1 else 0))"
proof (induction cs arbitrary: t w sp o1 e1)
  case (Cons d cs)
  let ?w = "viewport_column_cells v (lc_width d)"
  let ?t = "\<lambda>r. Split (lc_id d) DirRight r t (lc_root d)" and ?b = "area\<lparr>vx := e1, vw := ucast ?w\<rparr>"
  obtain o2 e2 where w2: "walk_viewport (lc_root d) ?b v act vs (ColSplit (lc_id d)) o1 = (o2, e2)" by fastforce
  have wt: "walk_viewport (?t r) area v act vs owner out = (o2, e2)" for r
    using Cons.prems(1,3) w2 by simp
  obtain b where b: "vpanes o2 = vpanes o1 @ b" "map fst b = pane_ids_vec (lc_root d)"
    using walk_viewport_new [OF w2] by blast
  have fits: "vfits ?b"
    using Cons.prems(2,4) by (simp add: vfits_def unat_column_cells)
  have plain: "plain_tree vs (lc_root d)" "node_wf (lc_root d)"
    using Cons.prems(1) plain_unmarked by auto
  note W = plain_walk [OF plain fits w2]
  have e2: "unat e2 = unat e1 + unat ?w" using W by (simp add: unat_column_cells)
  have cover: "vcover_count b (cx, cy) = (if unat e1 \<le> cx \<and> cx < unat e1 + unat ?w
      \<and> unat (vy area) \<le> cy \<and> cy < unat (vy area) + unat (vh area) then 1 else 0)" for cx cy
    using W [of "(cx, cy)"] b(1) by (simp add: vcells_def unat_column_cells)
  have "unat e2 + cells_before v cs (length cs) < 2 ^ 64" using Cons.prems(4) e2 by simp
  moreover have "fst (project_columns (d # cs) t w sp) = fst (project_columns cs (?t (fl_div f32_round w
      (fl_add f32_round w (lc_width d)))) (fl_add f32_round w (lc_width d)) (sp(lc_id d \<mapsto> lc_width d)))"
    by (simp add: Let_def)
  moreover have "\<forall>d \<in> set cs. vs (lc_id d) = Some (lc_width d) \<and> unmarked_tree vs (lc_root d) \<and> node_wf (lc_root d)"
    using Cons.prems(1) by simp
  ultimately obtain bs where bs: "vpanes (fst (walk_viewport (fst (project_columns (d # cs) t w sp)) area v act vs owner out))
      = vpanes o2 @ concat bs"
    "list_all2 (\<lambda>b d. map fst b = pane_ids_vec (lc_root d)) bs cs"
    "\<forall>k < length cs. \<forall>cx cy. vcover_count (bs ! k) (cx, cy) =
       (if unat e2 + cells_before v cs k \<le> cx \<and> cx < unat e2 + cells_before v cs (Suc k)
           \<and> unat (vy area) \<le> cy \<and> cy < unat (vy area) + unat (vh area) then 1 else 0)"
    using Cons.IH [OF _ Cons.prems(2) wt] by metis
  show ?case
    by (rule exI [of _ "b # bs"])
      (use b bs cover in \<open>auto simp: e2 add.assoc less_Suc_eq_0_disj\<close>)
qed simp

lemma columns_drawn_in_bands:
  assumes "layout_inv n s" and "lcolumns s = c # cs" and "unat (ry area) + unat (rh area) < 2 ^ 16"
    and "cells_before (rw area) (c # cs) (length (c # cs)) < 2 ^ 63" and "k < length (c # cs)"
  shows "cell_count (vpanes (layout_screen_with_viewport (lroot s) area act (lc_width c) (vsplits s)))
      (set (pane_ids_vec (lc_root ((c # cs) ! k)))) (cx, cy)
    = (if unat (rx area) + cells_before (rw area) (c # cs) k \<le> cx
           \<and> cx < unat (rx area) + cells_before (rw area) (c # cs) (Suc k)
           \<and> unat (ry area) \<le> cy \<and> cy < unat (ry area) + unat (rh area) then 1 else 0)"
proof -
  have ok: "cols_ok n (c # cs)" and synced: "sync_layout_column_projection s = s"
    using assms(1,2) by (auto simp: layout_inv_def)
  note F = synced [unfolded synced_iff [OF assms(2)]]
  have ids: "distinct (map lc_id cs)" and dist: "distinct (column_panes (c # cs))"
    and wf: "\<forall>d \<in> set (c # cs). node_wf (lc_root d)"
    using ok by (auto simp: cols_ok_def tree_ok_def)
  let ?a = "viewport_base_area area (lc_width c)" and ?w = "viewport_column_cells (rw area) (lc_width c)"
  have x: "unat (ucast (rx area) :: u64) = unat (rx area)" by (simp add: unat_ucast_up)
  have small: "unat (rx area) < 2 ^ 16" using unsigned_less [of "rx area"] by simp
  obtain o1 e1 where w1: "walk_viewport (lc_root c) ?a (rw area) act (vsplits s) ColBase viewport_result_default = (o1, e1)"
    by fastforce
  obtain b where b: "vpanes o1 = b" "map fst b = pane_ids_vec (lc_root c)"
    using walk_viewport_new [OF w1] by (auto simp: viewport_result_default_def)
  have fits: "vfits ?a"
    using assms(3,4) small by (simp add: vfits_def viewport_base_area_def x unat_column_cells)
  have plain: "plain_tree (vsplits s) (lc_root c)"
    using F cols_ok_unmarked [OF ok, of c] plain_unmarked by simp
  note W = plain_walk [OF plain _ fits w1]
  have e1: "unat e1 = unat (rx area) + unat ?w"
    using W wf by (simp add: viewport_base_area_def x unat_column_cells)
  have cover: "vcover_count b (cx, cy) = (if unat (rx area) \<le> cx \<and> cx < unat (rx area) + unat ?w
      \<and> unat (ry area) \<le> cy \<and> cy < unat (ry area) + unat (rh area) then 1 else 0)" for cx cy
    using W [of "(cx, cy)"] wf b(1)
    by (simp add: vcells_def viewport_base_area_def x unat_column_cells viewport_result_default_def)
  have marks: "\<forall>d \<in> set cs. vsplits s (lc_id d) = Some (lc_width d) \<and> unmarked_tree (vsplits s) (lc_root d)
      \<and> node_wf (lc_root d)"
    using F wf cols_ok_unmarked [OF ok] by (simp add: marked_id [OF ids])
  have "unat (vy ?a) + unat (vh ?a) < 2 ^ 16" "unat e1 + cells_before (rw area) cs (length cs) < 2 ^ 64"
    using assms(3,4) e1 small by (simp_all add: viewport_base_area_def)
  from walk_project [OF marks this(1) w1 this(2), of "lc_width c" Map.empty] b(1)
  obtain bs where bs: "vpanes (fst (walk_viewport (lroot s) ?a (rw area) act (vsplits s) ColBase viewport_result_default))
      = concat (b # bs)"
    "list_all2 (\<lambda>b d. map fst b = pane_ids_vec (lc_root d)) bs cs"
    "\<forall>k < length cs. \<forall>cx cy. vcover_count (bs ! k) (cx, cy) =
       (if unat e1 + cells_before (rw area) cs k \<le> cx \<and> cx < unat e1 + cells_before (rw area) cs (Suc k)
           \<and> unat (vy ?a) \<le> cy \<and> cy < unat (vy ?a) + unat (vh ?a) then 1 else 0)"
    using F by auto
  have "vpanes (layout_screen_with_viewport (lroot s) area act (lc_width c) (vsplits s)) = concat (b # bs)"
    using bs(1) by (simp add: layout_screen_with_viewport_def case_prod_unfold Let_def)
  moreover have "list_all2 (\<lambda>b d. map fst b = pane_ids_vec (lc_root d)) (b # bs) (c # cs)"
    using b(2) bs(2) by simp
  ultimately show ?thesis
    using cell_count_blocks [OF _ dist assms(5), of "b # bs" "(cx, cy)"] assms(5) bs(3) cover
    by (cases k) (simp_all add: e1 viewport_base_area_def add.assoc)
qed

text \<open>C14. A screen with columns is drawn as its columns. The viewport layout of a screen whose
  invariant holds shows the panes of the columns in order and reports the width of all
  columns, at least the width of the area. Column \<open>k\<close> takes exactly the cells its own width
  asks for: its panes cover each cell of the band from the end of column \<open>k - 1\<close> to
  \<open>viewport_column_cells\<close> of its width further right once, over the whole height of the
  area, and no cell outside of that band.\<close>

theorem screen_columns_are_drawn:
  assumes "layout_inv n s" and "lcolumns s = c # cs" and "unat (ry area) + unat (rh area) < 2 ^ 16"
    and "W = cells_before (rw area) (c # cs) (length (c # cs))" and "W < 2 ^ 63"
    and "l = layout_screen_with_viewport (lroot s) area (Some (active_pane s)) (lc_width c) (vsplits s)"
  shows "map fst (vpanes l) = concat (map (\<lambda>d. pane_ids_vec (lc_root d)) (c # cs))
    \<and> unat (vvirtual_width l) = max W (unat (rw area))
    \<and> (\<forall>k < length (c # cs). \<forall>cx cy. cell_count (vpanes l) (set (pane_ids_vec (lc_root ((c # cs) ! k)))) (cx, cy)
         = (if unat (rx area) + cells_before (rw area) (c # cs) k \<le> cx
               \<and> cx < unat (rx area) + cells_before (rw area) (c # cs) (Suc k)
               \<and> unat (ry area) \<le> cy \<and> cy < unat (ry area) + unat (rh area) then 1 else 0))"
proof -
  have ok: "cols_ok n (c # cs)" and synced: "sync_layout_column_projection s = s"
    using assms(1,2) by (auto simp: layout_inv_def)
  note F = synced [unfolded synced_iff [OF assms(2)]]
  have ids: "distinct (map lc_id cs)" using ok by (simp add: cols_ok_def)
  have "spine_extent (vsplits s) (rw area) b (lroot s)
      = b + (\<Sum>d\<leftarrow>cs. unat (viewport_column_cells (rw area) (lc_width d)))" for b
    using F cols_ok_unmarked [OF ok, of c]
    by (simp add: spine_extent_project marked_id [OF ids] spine_extent_unmarked)
  then have "W = spine_extent (vsplits s) (rw area) (unat (viewport_column_cells (rw area) (lc_width c))) (lroot s)"
    using assms(4) by (simp add: cells_before_def)
  moreover have "node_wf (lroot s)" "spine_tree (vsplits s) (lroot s)"
    using layout_inv_root [OF assms(1)] by blast+
  ultimately have "map fst (vpanes l) = column_panes (c # cs) \<and> unat (vvirtual_width l) = max W (unat (rw area))"
    using viewport_layout_cover [of "lroot s" "vsplits s" area W "lc_width c" "Some (active_pane s)"]
      assms(3,5,6) layout_inv_column_panes [OF assms(1)] assms(2) by simp
  moreover note columns_drawn_in_bands [OF assms(1-3) assms(5) [unfolded assms(4)],
      of _ "Some (active_pane s)", folded assms(6)]
  ultimately show ?thesis by blast
qed

theorem screen_columns_are_drawn_witness:
  "map fst (vpanes (layout_screen_with_viewport (lroot demo_columns) \<lparr>rx = 0, ry = 0, rw = 10, rh = 4\<rparr>
     (Some (active_pane demo_columns)) (FFin 1) (vsplits demo_columns))) = [1, 2, 5]
   \<and> cell_count (vpanes (layout_screen_with_viewport (lroot demo_columns) \<lparr>rx = 0, ry = 0, rw = 10, rh = 4\<rparr>
     (Some (active_pane demo_columns)) (FFin 1) (vsplits demo_columns))) {5} (12, 2) = 1"
proof -
  have cols: "lcolumns demo_columns = [\<lparr>lc_id = 3, lc_width = FFin 1, lc_root = Stack [1, 2] 1, lc_auto = None\<rparr>,
      \<lparr>lc_id = 4, lc_width = half, lc_root = Leaf 5, lc_auto = Some [5]\<rparr>]"
    by (simp add: demo_columns_def)
  have cells: "viewport_column_cells 10 (FFin 1) = 10" "viewport_column_cells 10 half = 5"
    by (simp_all add: viewport_column_cells_def half_def min_viewport_pane_width_def
        max_viewport_pane_width_def fl_clamp_def fl_eval clamp_def)
  note T = screen_columns_are_drawn [OF demo_columns_inv cols, of "\<lparr>rx = 0, ry = 0, rw = 10, rh = 4\<rparr>",
      OF _ refl _ refl]
  have W: "cells_before 10 (lcolumns demo_columns) (length (lcolumns demo_columns)) < 2 ^ 63"
    by (simp add: cols cells)
  show ?thesis
    using T [THEN conjunct1] T [THEN conjunct2, THEN conjunct2, rule_format, of 1 12 2] W
    by (simp add: cells cols)
qed

text \<open>A ratio set inside a viewport column does not survive the next close. On a plain
  screen a ratio update leaves the automatic layout, so closing another pane keeps the
  ratio; inside a column the automatic layout of the column stays on, and closing another
  pane of the column rebuilds it with the default ratio.\<close>

definition auto_tree :: node where
  "auto_tree = Split 6 DirRight half (Leaf 1) (Split 7 DirDown half (Leaf 2) (Leaf 5))"

definition plain_auto_screen :: screen where
  "plain_auto_screen = demo_screen\<lparr>lroot := auto_tree, auto_layout := Some [1, 2, 5]\<rparr>"

definition column_auto_screen :: screen where
  "column_auto_screen = sync_layout_column_projection (demo_screen\<lparr>lcolumns :=
     [\<lparr>lc_id = 3, lc_width = FFin 1, lc_root = auto_tree, lc_auto = Some [1, 2, 5]\<rparr>,
      \<lparr>lc_id = 4, lc_width = FFin 1, lc_root = Leaf 9, lc_auto = Some [9]\<rparr>]\<rparr>)"

definition ratio_after_close :: "screen \<Rightarrow> split_dir \<Rightarrow> f32 option" where
  "ratio_after_close s dir =
     (case set_layout_split_ratio s 6 (FFin (1 / 4)) of
        Inl _ \<Rightarrow> None
      | Inr s \<Rightarrow>
          (case remove_pane_from_screen_layout 10 s 5 of
             Inl _ \<Rightarrow> None
           | Inr (s, _, _) \<Rightarrow>
               Option.bind (deepest_split_for_pane (lroot s) 1 dir) (split_ratio (lroot s))))"

theorem column_ratio_lost_on_close:
  "ratio_after_close plain_auto_screen DirRight = Some (FFin (1 / 4))
   \<and> ratio_after_close column_auto_screen DirRight = Some half"
proof -
  have eq: "equal_ratio 1 = half" "equal_ratio (Suc 0) = half"
    by (simp_all add: equal_ratio_def half_def fl_eval)
  have z: "zellij_default_pane_layout_with_ids [1, 2] counter 10 = Some (Some (Split 10 DirRight half (Leaf 1) (Leaf 2)), 11)"
    by (simp add: zellij_default_pane_layout_with_ids_def first_column_len_def chunks.simps equal_split_def
        counter_def eq)
  show ?thesis
    using z
    by (simp add: ratio_after_close_def plain_auto_screen_def column_auto_screen_def auto_tree_def demo_screen_def
        set_layout_split_ratio_def remove_pane_from_screen_layout_def layout_columns_active_def
        invalidate_layout_undo_def rebuild_auto_def layout_column_for_pane_def
        sync_layout_column_projection_def collapse_single_layout_column_def deepest_split_for_pane_def Let_def)
qed

end
