(* ===== verification/Session.thy ===== *)
theory Session
  imports ScreenUndo "HOL-Library.AList"
begin

text \<open>
  The session: workspaces of screens, the panes with their tabs, and the indexes over them
  (\<open>State\<close>, \<open>Workspace\<close>, \<open>Pane\<close> of \<open>cmux-tui-core/src/model.rs\<close>, \<open>PublicSlotIndexes\<close>
  of \<open>resource.rs\<close>, and the state functions of \<open>mux.rs\<close>). A hash map the code iterates
  over is an association list with distinct keys whose order stands for the unspecified
  iteration order; the other hash maps are maps. The type \<open>'sf\<close> stands for
  \<open>Arc<Surface>\<close>. The two counters of \<open>Mux\<close> the functions draw from are part of the record.
  Debug assertions are left out, as in a release build, except the one of \<open>insert_pane\<close>, which has an effect.
\<close>

type_synonym public_id = string

text \<open>\<open>ContentPublicId\<close>.\<close>

datatype content_id = TerminalContent public_id | BrowserContent public_id

record pane =
  pn_id :: pane_id
  pn_public :: public_id
  pn_name :: "string option"
  tabs :: "surface_id list"
  active_tab :: nat
  active_at :: u64
  focused_at :: u64

definition active_surface :: "pane \<Rightarrow> surface_id option" where
  "active_surface p = nth_opt (tabs p) (active_tab p)"

record workspace =
  ws_id :: workspace_id
  ws_public :: public_id
  ws_key :: string
  ws_name :: string
  screens :: "screen list"
  active_screen :: nat

definition active_screen_ref :: "workspace \<Rightarrow> screen option" where
  "active_screen_ref w = nth_opt (screens w) (active_screen w)"

record slot_indexes =
  ix_workspaces :: "public_id \<rightharpoonup> workspace_id"
  ix_screens :: "public_id \<rightharpoonup> screen_id"
  ix_panes :: "public_id \<rightharpoonup> pane_id"
  ix_tabs :: "public_id \<rightharpoonup> surface_id"
  content_placements :: "content_id \<rightharpoonup> surface_id list"
  workspace_ids :: "workspace_id \<rightharpoonup> public_id"
  screen_ids :: "screen_id \<rightharpoonup> public_id"
  ix_pane_ids :: "pane_id \<rightharpoonup> public_id"
  tab_ids :: "surface_id \<rightharpoonup> public_id"
  content_ids :: "surface_id \<rightharpoonup> content_id"
  ix_splits :: "public_id \<rightharpoonup> split_id"
  ix_split_ids :: "split_id \<rightharpoonup> public_id"
  screen_workspace :: "screen_id \<rightharpoonup> workspace_id"
  pane_screen :: "pane_id \<rightharpoonup> screen_id"
  tab_pane :: "surface_id \<rightharpoonup> pane_id"

definition empty_indexes :: slot_indexes where
  "empty_indexes = \<lparr>ix_workspaces = Map.empty, ix_screens = Map.empty, ix_panes = Map.empty,
     ix_tabs = Map.empty, content_placements = Map.empty, workspace_ids = Map.empty,
     screen_ids = Map.empty, ix_pane_ids = Map.empty, tab_ids = Map.empty, content_ids = Map.empty,
     ix_splits = Map.empty, ix_split_ids = Map.empty, screen_workspace = Map.empty,
     pane_screen = Map.empty, tab_pane = Map.empty\<rparr>"

record 'sf session =
  workspaces :: "workspace list"
  workspace_index_by_id :: "workspace_id \<rightharpoonup> nat"
  workspace_id_by_key :: "string \<rightharpoonup> workspace_id"
  workspace_revision :: u64
  pane_revision :: u64
  resource_revision :: u64
  focus_sequence :: u64
  active_workspace :: nat
  ses_panes :: "(pane_id \<times> pane) list"
  surfaces :: "(surface_id \<times> 'sf) list"
  terminal_catalog :: "public_id \<rightharpoonup> 'sf"
  terminal_catalog_by_runtime :: "surface_id \<rightharpoonup> public_id"
  split_screens :: "(split_id \<times> nat \<times> nat \<times> screen_id) list"
  resource_indexes :: slot_indexes
  mux_next_id :: nat
  mux_next_active_at :: u64

datatype session_error = SessionPanic | LayoutFailed layout_error | WorkspaceRequired
  | UnknownWorkspace | UnknownWorkspaceKey | DifferentWorkspaces

section \<open>Lookups\<close>

definition pane_lookup :: "'sf session \<Rightarrow> pane_id \<Rightarrow> pane option" where
  "pane_lookup st p = map_of (ses_panes st) p"

definition workspace_index :: "'sf session \<Rightarrow> workspace_id \<Rightarrow> nat option" where
  "workspace_index st i = workspace_index_by_id st i"

definition workspace_by_id :: "'sf session \<Rightarrow> workspace_id \<Rightarrow> workspace option" where
  "workspace_by_id st i = Option.bind (workspace_index st i) (nth_opt (workspaces st))"

definition workspace_by_key :: "'sf session \<Rightarrow> string \<Rightarrow> workspace option" where
  "workspace_by_key st key = Option.bind (workspace_id_by_key st key) (workspace_by_id st)"

definition workspace_by_public_id :: "'sf session \<Rightarrow> public_id \<Rightarrow> workspace option" where
  "workspace_by_public_id st i =
     Option.bind (ix_workspaces (resource_indexes st) i) (workspace_by_id st)"

definition screen_by_public_id :: "'sf session \<Rightarrow> public_id \<Rightarrow> screen option" where
  "screen_by_public_id st i =
     Option.bind (ix_screens (resource_indexes st) i) (\<lambda>slot.
     Option.bind (screen_workspace (resource_indexes st) slot) (\<lambda>w.
     Option.bind (workspace_by_id st w) (\<lambda>w. List.find (\<lambda>s. sc_id s = slot) (screens w))))"

definition pane_by_public_id :: "'sf session \<Rightarrow> public_id \<Rightarrow> pane option" where
  "pane_by_public_id st i = Option.bind (ix_panes (resource_indexes st) i) (pane_lookup st)"

definition surface_by_tab_public_id :: "'sf session \<Rightarrow> public_id \<Rightarrow> 'sf option" where
  "surface_by_tab_public_id st i =
     Option.bind (ix_tabs (resource_indexes st) i) (map_of (surfaces st))"

definition placements_of_content :: "'sf session \<Rightarrow> content_id \<Rightarrow> surface_id list" where
  "placements_of_content st i =
     (case content_placements (resource_indexes st) i of Some ps \<Rightarrow> ps | None \<Rightarrow> [])"

definition single_placement_of_content :: "'sf session \<Rightarrow> content_id \<Rightarrow> surface_id option" where
  "single_placement_of_content st i =
     (case placements_of_content st i of [p] \<Rightarrow> Some p | _ \<Rightarrow> None)"

definition surface_by_content_public_id :: "'sf session \<Rightarrow> content_id \<Rightarrow> 'sf option" where
  "surface_by_content_public_id st i =
     (case (case i of TerminalContent t \<Rightarrow> terminal_catalog st t | BrowserContent _ \<Rightarrow> None) of
        Some sf \<Rightarrow> Some sf
      | None \<Rightarrow> Option.bind (single_placement_of_content st i) (map_of (surfaces st)))"

definition terminal_runtime_by_id :: "'sf session \<Rightarrow> surface_id \<Rightarrow> 'sf option" where
  "terminal_runtime_by_id st i = Option.bind (terminal_catalog_by_runtime st i) (terminal_catalog st)"

text \<open>\<open>find_map\<close> over the enumerated workspaces; \<open>k\<close> is the index of the head.\<close>

fun screen_of_from :: "nat \<Rightarrow> workspace list \<Rightarrow> pane_id \<Rightarrow> (nat \<times> nat) option" where
  "screen_of_from k [] pane = None"
| "screen_of_from k (w # ws) pane =
     (case position (\<lambda>s. contains (lroot s) pane) (screens w) of
        Some si \<Rightarrow> Some (k, si) | None \<Rightarrow> screen_of_from (Suc k) ws pane)"

definition screen_of :: "'sf session \<Rightarrow> pane_id \<Rightarrow> (nat \<times> nat) option" where
  "screen_of st pane = screen_of_from 0 (workspaces st) pane"

definition pane_of :: "'sf session \<Rightarrow> surface_id \<Rightarrow> pane_id option" where
  "pane_of st surface =
     (case tab_pane (resource_indexes st) surface of
        Some p \<Rightarrow> Some p
      | None \<Rightarrow> map_option pn_id (List.find (\<lambda>p. surface \<in> set (tabs p)) (map snd (ses_panes st))))"

definition session_active_pane :: "'sf session \<Rightarrow> pane_id option" where
  "session_active_pane st =
     Option.bind (nth_opt (workspaces st) (active_workspace st)) (\<lambda>w.
       map_option active_pane (active_screen_ref w))"

record tree_selection =
  sel_workspace :: "workspace_id option"
  sel_screen :: "screen_id option"
  sel_pane :: "pane_id option"
  sel_surface :: "surface_id option"

definition active_tree_selection :: "'sf session \<Rightarrow> tree_selection" where
  "active_tree_selection st =
     (let w = nth_opt (workspaces st) (active_workspace st);
          s = Option.bind w (\<lambda>w. nth_opt (screens w) (active_screen w));
          p = Option.bind s (\<lambda>s. pane_lookup st (active_pane s))
      in \<lparr>sel_workspace = map_option ws_id w, sel_screen = map_option sc_id s,
          sel_pane = map_option active_pane s,
          sel_surface = Option.bind p (\<lambda>p. nth_opt (tabs p) (active_tab p))\<rparr>)"

definition surface_screen_id :: "'sf session \<Rightarrow> surface_id \<Rightarrow> screen_id option" where
  "surface_screen_id st surface =
     Option.bind (pane_of st surface) (\<lambda>p.
       map_option (\<lambda>(wi, si). sc_id (screens (workspaces st ! wi) ! si)) (screen_of st p))"

definition resolve_workspace_index ::
    "'sf session \<Rightarrow> workspace_id option \<Rightarrow> string option \<Rightarrow> session_error + nat" where
  "resolve_workspace_index st i key =
     (if i = None \<and> key = None then Inl WorkspaceRequired
      else
        let by_id = Option.bind i (\<lambda>i. position (\<lambda>w. ws_id w = i) (workspaces st));
            by_key = Option.bind key (\<lambda>k. position (\<lambda>w. ws_key w = k) (workspaces st))
        in if i \<noteq> None \<and> by_id = None then Inl UnknownWorkspace
           else if key \<noteq> None \<and> by_key = None then Inl UnknownWorkspaceKey
           else (case (by_id, by_key) of
               (Some left, Some right) \<Rightarrow> if left \<noteq> right then Inl DifferentWorkspaces else Inr left
             | (Some index, None) \<Rightarrow> Inr index
             | (None, Some index) \<Rightarrow> Inr index
             | (None, None) \<Rightarrow> Inl UnknownWorkspace))"

fun unique_screen_ids :: "screen_id list \<Rightarrow> screen_id list \<Rightarrow> screen_id list" where
  "unique_screen_ids [] acc = acc"
| "unique_screen_ids (i # is) acc =
     unique_screen_ids is (if i \<in> set acc then acc else acc @ [i])"

definition screen_tabs :: "'sf session \<Rightarrow> screen \<Rightarrow> surface_id list" where
  "screen_tabs st s =
     concat (map tabs (List.map_filter (pane_lookup st) (pane_ids (lroot s) [])))"

text \<open>\<open>max_by_key\<close> keeps the last of equal maxima.\<close>

definition most_recent_pane :: "'sf session \<Rightarrow> pane_id list \<Rightarrow> pane_id option" where
  "most_recent_pane st ps =
     map_option fst (max_by (\<lambda>a b. snd a < snd b)
       (List.map_filter (\<lambda>i. map_option (\<lambda>p. (i, active_at p)) (pane_lookup st i)) ps))"

section \<open>Workspaces\<close>

text \<open>The loop of \<open>rebuild_workspace_indexes\<close>.\<close>

fun index_workspaces ::
    "nat \<Rightarrow> workspace list \<Rightarrow> (workspace_id \<rightharpoonup> nat) \<Rightarrow> (string \<rightharpoonup> workspace_id)
     \<Rightarrow> (workspace_id \<rightharpoonup> nat) \<times> (string \<rightharpoonup> workspace_id)" where
  "index_workspaces k [] ids keys = (ids, keys)"
| "index_workspaces k (w # ws) ids keys =
     index_workspaces (Suc k) ws (ids(ws_id w \<mapsto> k)) (keys(ws_key w \<mapsto> ws_id w))"

definition rebuild_workspace_indexes :: "'sf session \<Rightarrow> 'sf session" where
  "rebuild_workspace_indexes st =
     (let (ids, keys) = index_workspaces 0 (workspaces st) Map.empty Map.empty
      in st\<lparr>workspace_index_by_id := ids, workspace_id_by_key := keys\<rparr>)"

definition push_workspace :: "'sf session \<Rightarrow> workspace \<Rightarrow> 'sf session" where
  "push_workspace st w =
     (let ix = resource_indexes st in
      st\<lparr>workspace_index_by_id := (workspace_index_by_id st)(ws_id w \<mapsto> length (workspaces st)),
         workspace_id_by_key := (workspace_id_by_key st)(ws_key w \<mapsto> ws_id w),
         resource_indexes := ix\<lparr>ix_workspaces := (ix_workspaces ix)(ws_public w \<mapsto> ws_id w),
                                workspace_ids := (workspace_ids ix)(ws_id w \<mapsto> ws_public w)\<rparr>,
         workspaces := workspaces st @ [w]\<rparr>)"

text \<open>The indices of the next two are in range, else \<open>Vec::remove\<close> and \<open>Vec::insert\<close> panic.\<close>

definition remove_workspace :: "'sf session \<Rightarrow> nat \<Rightarrow> ('sf session \<times> workspace) option" where
  "remove_workspace st index =
     (if index < length (workspaces st) then
        let w = workspaces st ! index; ix = resource_indexes st in
        Some (rebuild_workspace_indexes
          (st\<lparr>workspaces := remove_at index (workspaces st),
              resource_indexes := ix\<lparr>ix_workspaces := (ix_workspaces ix)(ws_public w := None),
                                     workspace_ids := (workspace_ids ix)(ws_id w := None)\<rparr>\<rparr>), w)
      else None)"

definition move_workspace :: "'sf session \<Rightarrow> nat \<Rightarrow> nat \<Rightarrow> 'sf session option" where
  "move_workspace st old_index new_index =
     (if old_index < length (workspaces st) \<and> new_index < length (workspaces st) then
        Some (rebuild_workspace_indexes
          (st\<lparr>workspaces := insert_at new_index (workspaces st ! old_index)
                (remove_at old_index (workspaces st))\<rparr>))
      else None)"

section \<open>Panes\<close>

definition next_focus_sequence :: "'sf session \<Rightarrow> 'sf session \<times> u64" where
  "next_focus_sequence st =
     (let n = sat_add (focus_sequence st) 1 in (st\<lparr>focus_sequence := n\<rparr>, n))"

text \<open>In \<open>insert_pane\<close> the update of \<open>panes\<close> by public id stands inside \<open>debug_assert!\<close>:
  \<open>debug\<close> says whether the build has debug assertions. \<open>None\<close> is a failed assertion.\<close>

definition insert_pane :: "bool \<Rightarrow> 'sf session \<Rightarrow> pane \<Rightarrow> 'sf session option" where
  "insert_pane debug st p =
     (let replaced = pane_lookup st (pn_id p);
          st = st\<lparr>ses_panes := AList.update (pn_id p) p (ses_panes st)\<rparr>;
          ix = resource_indexes st
      in if debug \<and> replaced \<noteq> None then None
         else if replaced \<noteq> None then Some st
         else if debug \<and> ix_panes ix (pn_public p) \<noteq> None then None
         else
           let ix = (if debug then ix\<lparr>ix_panes := (ix_panes ix)(pn_public p \<mapsto> pn_id p)\<rparr> else ix)
           in Some (st\<lparr>resource_indexes := ix\<lparr>ix_pane_ids := (ix_pane_ids ix)(pn_id p \<mapsto> pn_public p)\<rparr>,
                       pane_revision := sat_add (pane_revision st) 1\<rparr>))"

definition remove_pane :: "'sf session \<Rightarrow> pane_id \<Rightarrow> 'sf session" where
  "remove_pane st p =
     (case pane_lookup st p of
        None \<Rightarrow> st
      | Some removed \<Rightarrow>
          let ix = resource_indexes st in
          st\<lparr>ses_panes := AList.delete p (ses_panes st),
             resource_indexes := ix\<lparr>ix_panes := (ix_panes ix)(pn_public removed := None),
                                    ix_pane_ids := (ix_pane_ids ix)(p := None),
                                    pane_screen := (pane_screen ix)(p := None)\<rparr>,
             pane_revision := sat_add (pane_revision st) 1\<rparr>)"

definition update_pane :: "'sf session \<Rightarrow> pane_id \<Rightarrow> pane \<Rightarrow> 'sf session" where
  "update_pane st p x = st\<lparr>ses_panes := AList.update p x (ses_panes st)\<rparr>"

definition stamp_pane_focus :: "'sf session \<Rightarrow> pane_id \<Rightarrow> 'sf session" where
  "stamp_pane_focus st p =
     (let (st, focused) = next_focus_sequence st;
          stamp = mux_next_active_at st;
          st = st\<lparr>mux_next_active_at := stamp + 1\<rparr>
      in case pane_lookup st p of
           Some x \<Rightarrow> update_pane st p (x\<lparr>active_at := stamp, focused_at := focused\<rparr>)
         | None \<Rightarrow> st)"

definition stamp_changed_active_pane :: "'sf session \<Rightarrow> pane_id option \<Rightarrow> 'sf session" where
  "stamp_changed_active_pane st previous =
     (let current = session_active_pane st in
      if current \<noteq> previous then (case current of Some p \<Rightarrow> stamp_pane_focus st p | None \<Rightarrow> st) else st)"

section \<open>Screens in place\<close>

definition set_workspace :: "'sf session \<Rightarrow> nat \<Rightarrow> workspace \<Rightarrow> 'sf session" where
  "set_workspace st wi w = st\<lparr>workspaces := (workspaces st)[wi := w]\<rparr>"

definition set_screen :: "'sf session \<Rightarrow> nat \<Rightarrow> nat \<Rightarrow> screen \<Rightarrow> 'sf session" where
  "set_screen st wi si s =
     (let w = workspaces st ! wi in set_workspace st wi (w\<lparr>screens := (screens w)[si := s]\<rparr>))"

text \<open>\<open>ws.screens.remove(si)\<close> and the clamp of the active screen.\<close>

definition drop_screen :: "'sf session \<Rightarrow> nat \<Rightarrow> nat \<Rightarrow> 'sf session" where
  "drop_screen st wi si =
     (let w = workspaces st ! wi; ss = remove_at si (screens w) in
      set_workspace st wi (w\<lparr>screens := ss, active_screen := min (active_screen w) (length ss - 1)\<rparr>))"

text \<open>One iteration of \<open>fence_layout_undo_for_tab_membership\<close>: the first screen with the id.\<close>

definition fence_screen :: "pane_id list \<Rightarrow> screen \<Rightarrow> screen" where
  "fence_screen ps s =
     (if layout_undo s \<noteq> [] \<and> after_revision (last (layout_undo s)) = layout_revision s
         \<and> (\<exists>c \<in> set (created_panes (last (layout_undo s))). c \<in> set ps)
      then let revision = sat_add (layout_revision s) 1 in
        s\<lparr>layout_revision := revision, layout_undo := refresh_last_entry revision (layout_undo s)\<rparr>
      else s)"

fun update_first_screen :: "screen_id \<Rightarrow> (screen \<Rightarrow> screen) \<Rightarrow> screen list \<Rightarrow> screen list \<times> bool" where
  "update_first_screen i f [] = ([], False)"
| "update_first_screen i f (s # ss) =
     (if sc_id s = i then (f s # ss, True)
      else let (ss, found) = update_first_screen i f ss in (s # ss, found))"

fun update_screen_by_id :: "screen_id \<Rightarrow> (screen \<Rightarrow> screen) \<Rightarrow> workspace list \<Rightarrow> workspace list" where
  "update_screen_by_id i f [] = []"
| "update_screen_by_id i f (w # ws) =
     (let (ss, found) = update_first_screen i f (screens w) in
      if found then w\<lparr>screens := ss\<rparr> # ws else w # update_screen_by_id i f ws)"

definition fence_layout_undo_for_tab_membership :: "'sf session \<Rightarrow> pane_id list \<Rightarrow> 'sf session" where
  "fence_layout_undo_for_tab_membership st ps =
     (let ids = remdups (List.map_filter
            (\<lambda>p. map_option (\<lambda>(wi, si). sc_id (screens (workspaces st ! wi) ! si)) (screen_of st p)) ps)
      in st\<lparr>workspaces := fold (\<lambda>i ws. update_screen_by_id i (fence_screen ps) ws) ids (workspaces st)\<rparr>)"

section \<open>Collapsing and removing\<close>

text \<open>Remove the pane from its screen; drop the screen when it empties. The flag says
  whether the screen stays.\<close>

definition collapse_in_screen :: "'sf session \<Rightarrow> nat \<Rightarrow> nat \<Rightarrow> pane_id \<Rightarrow> session_error + 'sf session" where
  "collapse_in_screen st wi si p =
     (let s = screens (workspaces st ! wi) ! si;
          was_active = (active_pane s = p);
          s = (if zoomed_pane s = Some p then s\<lparr>zoomed_pane := None\<rparr> else s)
      in case remove_pane_from_screen_layout (mux_next_id st) s p of
           Inl e \<Rightarrow> Inl (LayoutFailed e)
         | Inr (s, remains, n) \<Rightarrow>
             let st = st\<lparr>mux_next_id := n\<rparr> in
             if remains then
               let s = (if was_active
                        then (case most_recent_pane st (pane_ids (lroot s) []) of
                                Some q \<Rightarrow> s\<lparr>active_pane := q\<rparr> | None \<Rightarrow> s)
                        else s)
               in Inr (set_screen st wi si s)
             else Inr (drop_screen (set_screen st wi si s) wi si))"

definition collapse_empty_pane :: "'sf session \<Rightarrow> pane_id \<Rightarrow> session_error + 'sf session" where
  "collapse_empty_pane st p =
     (let st = remove_pane st p in
      case screen_of st p of None \<Rightarrow> Inr st | Some (wi, si) \<Rightarrow> collapse_in_screen st wi si p)"

definition unindex_surface :: "slot_indexes \<Rightarrow> surface_id \<Rightarrow> slot_indexes" where
  "unindex_surface ix target =
     (let ix = (case tab_ids ix target of
            Some t \<Rightarrow> ix\<lparr>tab_ids := (tab_ids ix)(target := None), ix_tabs := (ix_tabs ix)(t := None)\<rparr>
          | None \<Rightarrow> ix);
          ix = (case content_ids ix target of
            Some c \<Rightarrow>
              let ix = ix\<lparr>content_ids := (content_ids ix)(target := None)\<rparr> in
              (case content_placements ix c of
                 Some ps \<Rightarrow>
                   let ps = filter (\<lambda>p. p \<noteq> target) ps in
                   ix\<lparr>content_placements := (content_placements ix)
                        (c := if ps = [] then None else Some ps)\<rparr>
               | None \<Rightarrow> ix)
          | None \<Rightarrow> ix)
      in ix\<lparr>tab_pane := (tab_pane ix)(target := None)\<rparr>)"

definition remove_tab :: "pane \<Rightarrow> nat \<Rightarrow> pane" where
  "remove_tab p idx =
     (let p = p\<lparr>tabs := remove_at idx (tabs p)\<rparr> in
      if tabs p \<noteq> [] \<and> idx \<le> active_tab p \<and> 0 < active_tab p
      then p\<lparr>active_tab := active_tab p - 1\<rparr> else p)"

text \<open>The result: the state, the removed surface and whether split ownership or positions
  changed.\<close>

definition remove_surface ::
    "'sf session \<Rightarrow> surface_id \<Rightarrow> session_error + 'sf session \<times> 'sf option \<times> bool" where
  "remove_surface st target =
     (let previous = session_active_pane st;
          removed = map_of (surfaces st) target;
          st = st\<lparr>surfaces := AList.delete target (surfaces st),
                  resource_indexes := unindex_surface (resource_indexes st) target\<rparr>
      in case pane_of st target of
           None \<Rightarrow> Inr (st, removed, False)
         | Some p \<Rightarrow>
             (case pane_lookup st p of
                None \<Rightarrow> Inl SessionPanic
              | Some x \<Rightarrow>
                  (case position (\<lambda>t. t = target) (tabs x) of
                     None \<Rightarrow> Inl SessionPanic
                   | Some idx \<Rightarrow>
                       let x = remove_tab x idx; st = update_pane st p x in
                       if tabs x \<noteq> []
                       then Inr (fence_layout_undo_for_tab_membership st [p], removed, False)
                       else
                         let st = remove_pane st p in
                         (case screen_of st p of
                            None \<Rightarrow> Inr (st, removed, False)
                          | Some (wi, si) \<Rightarrow>
                              rbind (collapse_in_screen st wi si p) (\<lambda>st.
                                Inr (stamp_changed_active_pane st previous, removed, True))))))"

section \<open>Moving a tab\<close>

text \<open>The result: the state, whether anything moved, whether the topology changed, and the
  session path announced to the subscribers.\<close>

definition move_tab_in_state ::
    "'sf session \<Rightarrow> surface_id \<Rightarrow> pane_id \<Rightarrow> nat
     \<Rightarrow> session_error + 'sf session \<times> bool \<times> bool \<times> (surface_id \<times> workspace_id \<times> screen_id \<times> pane_id) option"
where
  "move_tab_in_state st surface target_pane index =
     (if map_of (surfaces st) surface = None \<or> pane_lookup st target_pane = None
      then Inr (st, False, False, None)
      else case pane_of st surface of
        None \<Rightarrow> Inr (st, False, False, None)
      | Some source_pane \<Rightarrow>
          if source_pane = target_pane then
            (case pane_lookup st target_pane of
               None \<Rightarrow> Inr (st, False, False, None)
             | Some p \<Rightarrow>
                 (case position (\<lambda>t. t = surface) (tabs p) of
                    None \<Rightarrow> Inr (st, False, False, None)
                  | Some old_idx \<Rightarrow>
                      let new_idx = (if old_idx < index then index - 1 else index);
                          new_idx = min new_idx (length (tabs p) - 1)
                      in if new_idx = old_idx then Inr (st, False, False, None)
                         else
                           let tab = tabs p ! old_idx;
                               p = p\<lparr>tabs := insert_at new_idx tab (remove_at old_idx (tabs p)),
                                     active_tab := new_idx\<rparr>
                           in Inr (fence_layout_undo_for_tab_membership
                                     (update_pane st target_pane p) [target_pane], True, False, None)))
          else
            let st = fence_layout_undo_for_tab_membership st [source_pane, target_pane] in
            (case pane_lookup st source_pane of
               None \<Rightarrow> Inr (st, False, False, None)
             | Some source \<Rightarrow>
                 (case position (\<lambda>t. t = surface) (tabs source) of
                    None \<Rightarrow> Inr (st, False, False, None)
                  | Some old_idx \<Rightarrow>
                      let source = remove_tab source old_idx;
                          st = update_pane st source_pane source;
                          topology_changed = (tabs source = [])
                      in rbind (if topology_changed then collapse_empty_pane st source_pane else Inr st) (\<lambda>st.
                        (case pane_lookup st target_pane of
                           None \<Rightarrow> Inr (st, False, topology_changed, None)
                         | Some target \<Rightarrow>
                             let new_idx = min index (length (tabs target));
                                 target = target\<lparr>tabs := insert_at new_idx surface (tabs target),
                                                 active_tab := new_idx\<rparr>;
                                 st = update_pane st target_pane target;
                                 ix = resource_indexes st;
                                 st = st\<lparr>resource_indexes := ix\<lparr>tab_pane := (tab_pane ix)(surface \<mapsto> target_pane)\<rparr>\<rparr>
                             in (case screen_of st target_pane of
                                  None \<Rightarrow> Inr (st, True, topology_changed, None)
                                | Some (wi, si) \<Rightarrow>
                                    let st = st\<lparr>active_workspace := wi\<rparr>;
                                        w = (workspaces st ! wi)\<lparr>active_screen := si\<rparr>;
                                        s = (screens w ! si)\<lparr>active_pane := target_pane\<rparr>;
                                        st = set_workspace st wi (w\<lparr>screens := (screens w)[si := s]\<rparr>)
                                    in Inr (st, True, topology_changed,
                                            Some (surface, ws_id w, sc_id s, target_pane))))))))"

end
