(* ===== verification/SessionInv.thy ===== *)
theory SessionInv
  imports Session
begin

text \<open>
  The invariant of a session and what the operations of \<open>Session\<close> do to it: every pane of the
  map stands on exactly one screen, every tab in exactly one pane, the layouts are well formed and
  focus stays inside them.
\<close>

section \<open>Panes and their tabs\<close>

definition pane_wf :: "pane \<Rightarrow> bool" where
  "pane_wf x = (tabs x \<noteq> [] \<and> active_tab x < length (tabs x))"

definition pane_tabs :: "(pane_id \<times> pane) list \<Rightarrow> surface_id list" where
  "pane_tabs ps = concat (map (tabs \<circ> snd) ps)"

definition panes_ok :: "(pane_id \<times> pane) list \<Rightarrow> bool" where
  "panes_ok ps \<longleftrightarrow> distinct (map fst ps) \<and> (\<forall>(k, x) \<in> set ps. pn_id x = k \<and> pane_wf x)
     \<and> distinct (pane_tabs ps)"

lemma pane_tabs_append [simp]: "pane_tabs (xs @ ys) = pane_tabs xs @ pane_tabs ys"
  by (simp add: pane_tabs_def)

lemma pane_tabs_Cons [simp]: "pane_tabs (x # xs) = tabs (snd x) @ pane_tabs xs"
  by (simp add: pane_tabs_def)

lemma pane_tabs_Nil [simp]: "pane_tabs [] = []"
  by (simp add: pane_tabs_def)

text \<open>A key splits the map; updating and deleting change that place only.\<close>

lemma alist_split:
  assumes "distinct (map fst ps)" and "map_of ps p = Some x"
  obtains xs ys where "ps = xs @ (p, x) # ys" and "p \<notin> fst ` set (xs @ ys)"
    and "\<And>y. AList.update p y ps = xs @ (p, y) # ys" and "AList.delete p ps = xs @ ys"
proof -
  obtain xs ys where ps: "ps = xs @ (p, x) # ys"
    using map_of_SomeD [OF assms(2)] by (meson split_list)
  with assms(1) have p: "p \<notin> fst ` set (xs @ ys)"
    by auto
  have "AList.update p y (zs @ (p, x) # ys) = zs @ (p, y) # ys" if "p \<notin> fst ` set zs" for y zs
    using that by (induction zs) auto
  moreover have "AList.delete p (xs @ ys) = xs @ ys"
  proof -
    have "filter (\<lambda>(k, _). p \<noteq> k) (xs @ ys) = xs @ ys"
      by (rule filter_True) (use p in force)
    then show ?thesis
      by (simp only: AList.delete_eq)
  qed
  ultimately show thesis
    using p by (intro that [OF ps]) (auto simp: ps AList.delete_eq)
qed

lemma remove_at_split: "i < length xs \<Longrightarrow> mset xs = add_mset (xs ! i) (mset (remove_at i xs))"
  by (simp add: remove_at_def) (metis id_take_nth_drop mset.simps(2) mset_append union_mset_add_mset_right)

lemma mset_insert_at [simp]: "i \<le> length xs \<Longrightarrow> mset (insert_at i x xs) = add_mset x (mset xs)"
  by (simp add: insert_at_def) (metis append_take_drop_id mset_append union_mset_add_mset_right)

lemma remove_at_distinct:
  assumes "distinct xs" and "i < length xs"
  shows "distinct (remove_at i xs) \<and> set (remove_at i xs) = set xs - {xs ! i}"
proof -
  have xs: "xs = take i xs @ xs ! i # drop (Suc i) xs"
    by (rule id_take_nth_drop [OF assms(2)])
  with assms(1) have "distinct (take i xs @ xs ! i # drop (Suc i) xs)"
    by simp
  then have d: "distinct (take i xs @ drop (Suc i) xs)" "xs ! i \<notin> set (take i xs @ drop (Suc i) xs)"
    by auto
  have "set xs = insert (xs ! i) (set (take i xs @ drop (Suc i) xs))"
    by (subst xs) auto
  with d show ?thesis
    by (simp add: remove_at_def)
qed

lemma length_remove_at: "i < length xs \<Longrightarrow> length (remove_at i xs) = length xs - 1"
  by (simp add: remove_at_def)

lemma remove_tab_tabs [simp]: "tabs (remove_tab x i) = remove_at i (tabs x)"
  "pn_id (remove_tab x i) = pn_id x" "pn_public (remove_tab x i) = pn_public x"
  by (simp_all add: remove_tab_def Let_def)

lemma remove_tab_wf: "pane_wf x \<Longrightarrow> i < length (tabs x) \<Longrightarrow> remove_at i (tabs x) \<noteq> [] \<Longrightarrow> pane_wf (remove_tab x i)"
proof -
  assume x: "pane_wf x" "i < length (tabs x)" "remove_at i (tabs x) \<noteq> []"
  then have "0 < length (remove_at i (tabs x))"
    by simp
  with x show ?thesis
    by (auto simp: pane_wf_def remove_tab_def Let_def length_remove_at)
qed

section \<open>Screens\<close>

definition screen_ok :: "nat \<Rightarrow> screen \<Rightarrow> bool" where
  "screen_ok n s \<longleftrightarrow> layout_inv n s \<and> active_pane s \<in> layout_panes s
     \<and> (case zoomed_pane s of None \<Rightarrow> True | Some z \<Rightarrow> z \<in> layout_panes s)"

definition screens_ok :: "nat \<Rightarrow> screen list \<Rightarrow> pane_id set \<Rightarrow> bool" where
  "screens_ok n ss K \<longleftrightarrow> (\<forall>s \<in> set ss. screen_ok n s)
     \<and> distinct (concat (map (\<lambda>s. pane_ids_vec (lroot s)) ss)) \<and> (\<Union>s \<in> set ss. layout_panes s) = K"

definition all_screens :: "'sf session \<Rightarrow> screen list" where
  "all_screens st = concat (map screens (workspaces st))"

lemma screen_ok_mono: "screen_ok n s \<Longrightarrow> n \<le> m \<Longrightarrow> screen_ok m s"
  by (auto simp: screen_ok_def intro: layout_inv_mono)

lemma screens_ok_mono: "screens_ok n ss K \<Longrightarrow> n \<le> m \<Longrightarrow> screens_ok m ss K"
  by (auto simp: screens_ok_def intro: screen_ok_mono)

lemma layout_inv_distinct: "layout_inv n s \<Longrightarrow> distinct (pane_ids_vec (lroot s))"
  using layout_inv_root by blast

lemma screens_ok_split:
  "screens_ok n (xs @ s # ys) K \<longleftrightarrow> screen_ok n s \<and> layout_panes s \<subseteq> K
     \<and> screens_ok n (xs @ ys) (K - layout_panes s)"
proof -
  have "screen_ok n s \<Longrightarrow> distinct (pane_ids_vec (lroot s))"
    by (auto simp: screen_ok_def dest: layout_inv_distinct)
  then show ?thesis
    by (auto simp: screens_ok_def)
qed

text \<open>Finding the screen of a pane.\<close>

lemma screen_of_from_Some:
  "screen_of_from k ws p = Some (wi, si) \<Longrightarrow>
     k \<le> wi \<and> wi - k < length ws \<and> si < length (screens (ws ! (wi - k)))
     \<and> p \<in> layout_panes (screens (ws ! (wi - k)) ! si)"
proof (induction k ws p rule: screen_of_from.induct)
  case (2 k w ws p)
  show ?case
  proof (cases "position (\<lambda>s. contains (lroot s) p) (screens w)")
    case None
    with 2 have "Suc k \<le> wi \<and> wi - Suc k < length ws \<and> si < length (screens (ws ! (wi - Suc k)))
     \<and> p \<in> layout_panes (screens (ws ! (wi - Suc k)) ! si)"
      by simp
    moreover from this have "wi - k = Suc (wi - Suc k)"
      by (simp add: Suc_diff_Suc)
    ultimately show ?thesis
      by simp
  next
    case (Some i)
    with "2.prems" position_Some_less [OF Some] show ?thesis
      by (auto simp: contains_iff)
  qed
qed simp

lemma screen_of_Some:
  assumes "screen_of st p = Some (wi, si)"
  shows "wi < length (workspaces st)" and "si < length (screens (workspaces st ! wi))"
    and "p \<in> layout_panes (screens (workspaces st ! wi) ! si)"
  using screen_of_from_Some [of 0 "workspaces st" p wi si] assms by (simp_all add: screen_of_def)

lemma screen_of_from_None: "screen_of_from k ws p = None \<longleftrightarrow> (\<forall>s \<in> set (concat (map screens ws)). p \<notin> layout_panes s)"
  by (induction k ws p rule: screen_of_from.induct)
    (auto simp: position_None_iff contains_iff split: option.splits dest!: position_Some_less intro: nth_mem)

lemma screen_of_None: "screen_of st p = None \<longleftrightarrow> (\<forall>s \<in> set (all_screens st). p \<notin> layout_panes s)"
  by (simp add: screen_of_def screen_of_from_None all_screens_def)

text \<open>Replacing and dropping a screen in place.\<close>

lemma screens_in_place:
  assumes "wi < length (workspaces st)" and "si < length (screens (workspaces st ! wi))"
  obtains xs ys where "all_screens st = xs @ screens (workspaces st ! wi) ! si # ys"
    and "\<And>s. all_screens (set_screen st wi si s) = xs @ s # ys"
    and "\<And>s. all_screens (drop_screen (set_screen st wi si s) wi si) = xs @ ys"
proof -
  let ?ws = "workspaces st" and ?w = "workspaces st ! wi"
  let ?xs = "concat (map screens (take wi ?ws)) @ take si (screens ?w)"
  let ?ys = "drop (Suc si) (screens ?w) @ concat (map screens (drop (Suc wi) ?ws))"
  have "?ws = take wi ?ws @ ?w # drop (Suc wi) ?ws"
    by (rule id_take_nth_drop [OF assms(1)])
  then have "all_screens st = concat (map screens (take wi ?ws)) @ screens ?w @ concat (map screens (drop (Suc wi) ?ws))"
    by (metis all_screens_def concat.simps(2) concat_append list.simps(9) map_append)
  moreover have "screens ?w = take si (screens ?w) @ screens ?w ! si # drop (Suc si) (screens ?w)"
    by (rule id_take_nth_drop [OF assms(2)])
  ultimately have 1: "all_screens st = ?xs @ screens ?w ! si # ?ys"
    by (metis append.assoc append_Cons)
  have 2: "all_screens (set_screen st wi si s) = ?xs @ s # ?ys" for s
    using assms by (simp add: all_screens_def set_screen_def set_workspace_def Let_def upd_conv_take_nth_drop)
  have 3: "all_screens (drop_screen (set_screen st wi si s) wi si) = ?xs @ ?ys" for s
  proof -
    have "(screens ?w)[si := s] = take si (screens ?w) @ s # drop (Suc si) (screens ?w)"
      by (rule upd_conv_take_nth_drop [OF assms(2)])
    with assms have "remove_at si ((screens ?w)[si := s]) = take si (screens ?w) @ drop (Suc si) (screens ?w)"
      by (simp add: remove_at_def)
    then show ?thesis
      using assms(1) by (simp add: all_screens_def drop_screen_def set_screen_def set_workspace_def Let_def)
        (simp add: upd_conv_take_nth_drop)
  qed
  show thesis
    by (rule that [OF 1 2 3])
qed

lemma set_screen_simps [simp]:
  "ses_panes (set_screen st wi si s) = ses_panes st" "surfaces (set_screen st wi si s) = surfaces st"
  "resource_indexes (set_screen st wi si s) = resource_indexes st"
  "mux_next_id (set_screen st wi si s) = mux_next_id st"
  "ses_panes (drop_screen st wi si) = ses_panes st" "surfaces (drop_screen st wi si) = surfaces st"
  "resource_indexes (drop_screen st wi si) = resource_indexes st"
  "mux_next_id (drop_screen st wi si) = mux_next_id st"
  by (simp_all add: set_screen_def drop_screen_def set_workspace_def Let_def)

section \<open>Fencing the undo history\<close>

text \<open>Fencing changes nothing but revisions and undo entries.\<close>

definition same_screen :: "screen \<Rightarrow> screen \<Rightarrow> bool" where
  "same_screen s s' \<longleftrightarrow> layout_snapshot s = layout_snapshot s' \<and> sc_id s = sc_id s'"

lemma same_screen_fields:
  assumes "same_screen s s'"
  shows "lroot s' = lroot s \<and> active_pane s' = active_pane s \<and> zoomed_pane s' = zoomed_pane s
    \<and> (layout_inv n s' \<longleftrightarrow> layout_inv n s) \<and> sc_id s' = sc_id s"
proof -
  have *: "lroot s' = lroot s" "active_pane s' = active_pane s" "zoomed_pane s' = zoomed_pane s"
    "auto_layout s' = auto_layout s" "vsplits s' = vsplits s" "base_width s' = base_width s"
    "lcolumns s' = lcolumns s"
    using assms by (simp_all add: same_screen_def layout_snapshot_def layout_state.defs)
  moreover have "layout_inv n s' \<longleftrightarrow> layout_inv n s"
    by (rule layout_inv_cong) (simp_all add: *)
  ultimately show ?thesis
    using assms by (simp add: same_screen_def)
qed

lemma same_screen_ok: "same_screen s s' \<Longrightarrow> screen_ok n s \<Longrightarrow> screen_ok n s'"
  using same_screen_fields [of s s' n] by (simp add: screen_ok_def split: option.splits)

lemma same_screen_root: "same_screen s s' \<Longrightarrow> lroot s' = lroot s"
  using same_screen_fields by blast

lemma fence_screen_same: "same_screen s (fence_screen ps s)"
  by (simp add: same_screen_def fence_screen_def layout_snapshot_def layout_state.defs Let_def)

lemma update_first_screen_same:
  "list_all2 same_screen ss (fst (update_first_screen i (fence_screen ps) ss))"
proof (induction ss)
  case (Cons s ss)
  have "same_screen x x" for x by (simp add: same_screen_def)
  then have "list_all2 same_screen ss ss"
    by (simp add: list_all2_refl)
  with Cons fence_screen_same [of s ps] \<open>\<And>x. same_screen x x\<close> show ?case
    by (simp add: case_prod_beta)
qed simp

definition same_workspace :: "workspace \<Rightarrow> workspace \<Rightarrow> bool" where
  "same_workspace w w' \<longleftrightarrow> list_all2 same_screen (screens w) (screens w') \<and> ws_id w = ws_id w'
     \<and> active_screen w = active_screen w'"

lemma same_workspace_refl: "same_workspace w w"
  by (simp add: same_workspace_def list_all2_refl same_screen_def)

lemma same_workspace_trans: "same_workspace a b \<Longrightarrow> same_workspace b c \<Longrightarrow> same_workspace a c"
proof -
  assume ab: "same_workspace a b" and bc: "same_workspace b c"
  have tr: "same_screen x y \<Longrightarrow> same_screen y z \<Longrightarrow> same_screen x z" for x y z
    by (simp add: same_screen_def)
  have "list_all2 same_screen (screens a) (screens b)" "list_all2 same_screen (screens b) (screens c)"
    using ab bc by (simp_all add: same_workspace_def)
  from list_all2_trans [OF tr this] have "list_all2 same_screen (screens a) (screens c)"
    by simp
  with ab bc show ?thesis
    by (simp add: same_workspace_def)
qed

lemma update_screen_by_id_same: "list_all2 same_workspace ws (update_screen_by_id i (fence_screen ps) ws)"
proof (induction ws)
  case (Cons w ws)
  have "list_all2 same_workspace ws ws"
    by (simp add: list_all2_refl same_workspace_refl)
  moreover have "same_workspace w (w\<lparr>screens := fst (update_first_screen i (fence_screen ps) (screens w))\<rparr>)"
    using update_first_screen_same by (simp add: same_workspace_def)
  ultimately show ?case
    using Cons same_workspace_refl [of w] by (simp add: case_prod_beta)
qed simp

lemma fence_same:
  "list_all2 same_workspace (workspaces st) (workspaces (fence_layout_undo_for_tab_membership st ps))"
proof -
  have "list_all2 same_workspace ws (fold (\<lambda>i. update_screen_by_id i (fence_screen ps)) is ws)" for "is" ws
  proof (induction "is" arbitrary: ws)
    case Nil
    then show ?case
      by (simp add: list_all2_refl same_workspace_refl)
  next
    case (Cons i "is")
    show ?case
      using list_all2_trans [OF same_workspace_trans update_screen_by_id_same Cons.IH] by simp
  qed
  then show ?thesis
    by (simp add: fence_layout_undo_for_tab_membership_def Let_def)
qed

lemma fence_simps [simp]:
  "ses_panes (fence_layout_undo_for_tab_membership st ps) = ses_panes st"
  "surfaces (fence_layout_undo_for_tab_membership st ps) = surfaces st"
  "resource_indexes (fence_layout_undo_for_tab_membership st ps) = resource_indexes st"
  "mux_next_id (fence_layout_undo_for_tab_membership st ps) = mux_next_id st"
  by (simp_all add: fence_layout_undo_for_tab_membership_def Let_def)

lemma screens_ok_same:
  assumes "list_all2 same_screen ss ss'" and "screens_ok n ss K"
  shows "screens_ok n ss' K"
proof -
  have "map (\<lambda>s. pane_ids_vec (lroot s)) ss' = map (\<lambda>s. pane_ids_vec (lroot s)) ss"
    using assms(1) by (induction rule: list_all2_induct) (simp_all add: same_screen_root)
  moreover from this have "(\<Union>s \<in> set ss'. layout_panes s) = (\<Union>s \<in> set ss. layout_panes s)"
  proof -
    have "(\<Union>s \<in> set xs. layout_panes s) = set (concat (map (\<lambda>s. pane_ids_vec (lroot s)) xs))" for xs :: "screen list"
      by simp
    with \<open>map (\<lambda>s. pane_ids_vec (lroot s)) ss' = map (\<lambda>s. pane_ids_vec (lroot s)) ss\<close> show ?thesis
      by (simp only:)
  qed
  moreover have "(\<forall>s \<in> set ss. screen_ok n s) \<longrightarrow> (\<forall>s \<in> set ss'. screen_ok n s)"
    using assms(1) by (induction rule: list_all2_induct) (auto intro: same_screen_ok)
  ultimately show ?thesis
    using assms(2) by (simp add: screens_ok_def)
qed

lemma fence_screens_ok:
  assumes "screens_ok n (all_screens st) K"
  shows "screens_ok n (all_screens (fence_layout_undo_for_tab_membership st ps)) K"
proof -
  have "list_all2 same_screen (concat (map screens ws)) (concat (map screens ws'))"
    if "list_all2 same_workspace ws ws'" for ws ws'
    using that by (induction rule: list_all2_induct) (auto simp: same_workspace_def intro: list_all2_appendI)
  from screens_ok_same [OF this [OF fence_same] assms [unfolded all_screens_def]] show ?thesis
    by (simp add: all_screens_def)
qed

end
