(* ===== verification/SessionMoves.thy ===== *)
theory SessionMoves
  imports SessionInv
begin

text \<open>
  Collapsing an emptied pane, removing a surface and moving a tab: each keeps the invariant of the
  session, and what each does to the tabs is stated as multisets.
\<close>

section \<open>Collapsing\<close>

lemma remove_pane_keeps_focus:
  assumes "remove_pane_from_screen_layout n s p = Inr (s', remains, m)"
  shows "active_pane s' = active_pane s \<and> zoomed_pane s' = zoomed_pane s \<and> sc_id s' = sc_id s"
proof -
  have c: "active_pane (collapse_single_layout_column t) = active_pane t
      \<and> zoomed_pane (collapse_single_layout_column t) = zoomed_pane t
      \<and> sc_id (collapse_single_layout_column t) = sc_id t" for t
    by (auto simp: collapse_single_layout_column_def sync_layout_column_projection_def Let_def
        split: list.splits prod.splits)
  have i: "active_pane (invalidate_layout_undo t) = active_pane t"
    "zoomed_pane (invalidate_layout_undo t) = zoomed_pane t" "sc_id (invalidate_layout_undo t) = sc_id t" for t
    by (simp_all add: invalidate_layout_undo_def)
  show ?thesis
    using assms
    by (auto simp: remove_pane_from_screen_layout_def Let_def c i result_rules
        split: option.splits if_splits)
qed

lemma max_by_in: "max_by lt xs = Some x \<Longrightarrow> x \<in> set xs"
proof (cases xs)
  case (Cons y ys)
  have "fold (\<lambda>y best. if lt y best then best else y) zs b \<in> insert b (set zs)" for zs b
    by (induction zs arbitrary: b) auto
  from this [of ys y] show "max_by lt xs = Some x \<Longrightarrow> x \<in> set xs"
    using Cons by auto
qed simp

lemma most_recent_pane_in:
  assumes "most_recent_pane st ps = Some q"
  shows "q \<in> set ps"
proof -
  let ?xs = "List.map_filter (\<lambda>i. map_option (\<lambda>p. (i, active_at p)) (pane_lookup st i)) ps"
  have "fst ` set ?xs \<subseteq> set ps"
    by (auto simp: List.map_filter_def)
  moreover have "q \<in> fst ` set ?xs"
  proof -
    obtain b where "max_by (\<lambda>a b. snd a < snd b) ?xs = Some (q, b)"
      using assms unfolding most_recent_pane_def by auto
    from max_by_in [OF this] show ?thesis
      by (rule image_eqI [rotated]) simp
  qed
  ultimately show ?thesis
    by blast
qed

lemma most_recent_pane_Some:
  assumes "p \<in> set ps" and "pane_lookup st p \<noteq> None"
  shows "most_recent_pane st ps \<noteq> None"
proof -
  obtain x where "pane_lookup st p = Some x"
    using assms(2) by auto
  with assms(1) have "(p, active_at x) \<in> set (List.map_filter (\<lambda>i. map_option (\<lambda>p. (i, active_at p)) (pane_lookup st i)) ps)"
    by (force simp: List.map_filter_def)
  then show ?thesis
    unfolding most_recent_pane_def by (auto simp del: max_by.simps)
qed

text \<open>The pane has left the map of panes; its screen is adjusted or dropped.\<close>

lemma collapse_in_screen_ok:
  assumes K: "K = fst ` set (ses_panes st)" and p: "p \<notin> K"
    and ok: "screens_ok (mux_next_id st) (all_screens st) (insert p K)"
    and so: "screen_of st p = Some (wi, si)"
  shows "\<exists>st'. collapse_in_screen st wi si p = Inr st' \<and> screens_ok (mux_next_id st') (all_screens st') K
    \<and> ses_panes st' = ses_panes st \<and> surfaces st' = surfaces st \<and> resource_indexes st' = resource_indexes st
    \<and> mux_next_id st \<le> mux_next_id st'"
proof -
  let ?n = "mux_next_id st" and ?s = "screens (workspaces st ! wi) ! si"
  obtain xs ys where split: "all_screens st = xs @ ?s # ys"
    "\<And>s. all_screens (set_screen st wi si s) = xs @ s # ys"
    "\<And>s. all_screens (drop_screen (set_screen st wi si s) wi si) = xs @ ys"
    using screens_in_place [OF screen_of_Some(1,2) [OF so]] by blast
  have pin: "p \<in> layout_panes ?s"
    by (rule screen_of_Some(3) [OF so])
  from ok have s_ok: "screen_ok ?n ?s" "layout_panes ?s \<subseteq> insert p K"
    and rest: "screens_ok ?n (xs @ ys) (insert p K - layout_panes ?s)"
    by (simp_all add: split(1) screens_ok_split)
  let ?z = "if zoomed_pane ?s = Some p then ?s\<lparr>zoomed_pane := None\<rparr> else ?s"
  have z: "lroot ?z = lroot ?s" "active_pane ?z = active_pane ?s"
    by simp_all
  have z_inv: "layout_inv ?n ?z"
  proof -
    have "layout_inv ?n ?z \<longleftrightarrow> layout_inv ?n ?s"
      by (rule layout_inv_cong) simp_all
    with s_ok(1) show ?thesis
      by (simp add: screen_ok_def)
  qed
  obtain s' m where rem: "remove_pane_from_screen_layout ?n ?z p = Inr (s', layout_panes ?z \<noteq> {p}, m)"
    and nm: "?n \<le> m"
    and s': "layout_panes ?z \<noteq> {p} \<longrightarrow> layout_inv m s' \<and> layout_panes s' = layout_panes ?z - {p}"
    using remove_pane_ok [OF z_inv, of p] pin z(1) by auto
  have focus: "active_pane s' = active_pane ?s" "zoomed_pane s' = zoomed_pane ?z"
    using remove_pane_keeps_focus [OF rem] z by auto
  let ?st = "st\<lparr>mux_next_id := m\<rparr>"
  have upd: "all_screens (set_screen ?st wi si s) = xs @ s # ys"
    "all_screens (drop_screen (set_screen ?st wi si s) wi si) = xs @ ys" for s
    using split(2,3) [of s] by (simp_all add: all_screens_def set_screen_def drop_screen_def set_workspace_def Let_def)
  show ?thesis
  proof (cases "layout_panes ?s = {p}")
    case True
    then have "insert p K - layout_panes ?s = K"
      using p by auto
    with rest nm have "screens_ok m (xs @ ys) K"
      by (auto intro: screens_ok_mono)
    with True rem z(1) nm show ?thesis
      by (simp add: collapse_in_screen_def Let_def upd)
  next
    case False
    with s' z(1) have inv: "layout_inv m s'" and panes: "layout_panes s' = layout_panes ?s - {p}"
      by simp_all
    let ?a = "if active_pane ?s = p
      then (case most_recent_pane ?st (pane_ids (lroot s') []) of Some q \<Rightarrow> s'\<lparr>active_pane := q\<rparr> | None \<Rightarrow> s') else s'"
    have root: "lroot ?a = lroot s'" "zoomed_pane ?a = zoomed_pane s'"
      by (simp_all split: option.split)
    have inv_a: "layout_inv m ?a"
    proof -
      have "layout_inv m ?a \<longleftrightarrow> layout_inv m s'"
        by (rule layout_inv_cong) (simp_all split: option.split)
      with inv show ?thesis by simp
    qed
    have active: "active_pane ?a \<in> layout_panes s'"
    proof (cases "active_pane ?s = p")
      case True
      obtain q where q: "q \<in> layout_panes s'"
        using panes False pin by blast
      with panes s_ok(2) have "q \<in> K" by auto
      then have "pane_lookup ?st q \<noteq> None"
        by (simp add: K pane_lookup_def map_of_eq_None_iff)
      with q have "most_recent_pane ?st (pane_ids_vec (lroot s')) \<noteq> None"
        by (intro most_recent_pane_Some [of q]) auto
      then obtain r where "most_recent_pane ?st (pane_ids_vec (lroot s')) = Some r"
        by auto
      with True most_recent_pane_in [OF this] show ?thesis
        by (simp add: pane_ids_vec_def)
    next
      case no: False
      then show ?thesis
        using focus(1) panes s_ok(1) by (simp add: screen_ok_def)
    qed
    have zoom: "case zoomed_pane ?a of None \<Rightarrow> True | Some y \<Rightarrow> y \<in> layout_panes s'"
      using focus(2) panes s_ok(1) unfolding root(2) by (auto simp: screen_ok_def split: option.splits)
    have "screen_ok m ?a"
      using inv_a active zoom unfolding screen_ok_def root(1) by blast
    moreover have "layout_panes ?a \<subseteq> K" "K - layout_panes ?a = insert p K - layout_panes ?s"
      unfolding root(1) panes using s_ok(2) p pin by auto
    ultimately have "screens_ok m (xs @ ?a # ys) K"
      using screens_ok_mono [OF rest nm] by (simp only: screens_ok_split)
    moreover have "collapse_in_screen st wi si p = Inr (set_screen ?st wi si ?a)"
      using rem z False by (simp add: collapse_in_screen_def Let_def del: split_paired_Ex)
    ultimately show ?thesis
      using nm by (simp add: upd)
  qed
qed

section \<open>The session invariant\<close>

definition tabs_indexed :: "(surface_id \<rightharpoonup> pane_id) \<Rightarrow> (pane_id \<times> pane) list \<Rightarrow> bool" where
  "tabs_indexed ix ps \<longleftrightarrow> (\<forall>t p. ix t = Some p \<longleftrightarrow> (\<exists>x. (p, x) \<in> set ps \<and> t \<in> set (tabs x)))"

definition ses_ok ::
    "nat \<Rightarrow> screen list \<Rightarrow> (pane_id \<times> pane) list \<Rightarrow> (surface_id \<rightharpoonup> pane_id) \<Rightarrow> surface_id set \<Rightarrow> bool" where
  "ses_ok n ss ps ix S \<longleftrightarrow> panes_ok ps \<and> screens_ok n ss (fst ` set ps) \<and> tabs_indexed ix ps
     \<and> set (pane_tabs ps) \<subseteq> S"

definition session_ok :: "'sf session \<Rightarrow> bool" where
  "session_ok st = ses_ok (mux_next_id st) (all_screens st) (ses_panes st)
     (tab_pane (resource_indexes st)) (fst ` set (surfaces st))"

lemma panes_ok_split:
  "panes_ok (xs @ (p, x) # ys) \<longleftrightarrow> panes_ok (xs @ ys) \<and> p \<notin> fst ` set (xs @ ys) \<and> pn_id x = p \<and> pane_wf x
     \<and> distinct (tabs x) \<and> set (tabs x) \<inter> set (pane_tabs (xs @ ys)) = {}"
  by (auto simp: panes_ok_def)

lemma tabs_indexed_split:
  assumes "tabs_indexed ix (xs @ (p, x) # ys)" and "panes_ok (xs @ (p, x) # ys)"
  shows "tabs_indexed (\<lambda>t. if t \<in> set (tabs x) then None else ix t) (xs @ ys)"
  unfolding tabs_indexed_def
proof (intro allI)
  fix t q
  have disj: "(q, y) \<in> set (xs @ ys) \<Longrightarrow> t \<in> set (tabs y) \<Longrightarrow> t \<notin> set (tabs x)" for y
    using assms(2) unfolding panes_ok_split by (force simp: pane_tabs_def)
  show "((if t \<in> set (tabs x) then None else ix t) = Some q) \<longleftrightarrow> (\<exists>y. (q, y) \<in> set (xs @ ys) \<and> t \<in> set (tabs y))"
  proof (cases "t \<in> set (tabs x)")
    case True
    with disj show ?thesis by auto
  next
    case False
    with assms(1) show ?thesis
      by (auto simp: tabs_indexed_def)
  qed
qed

lemma tabs_indexed_insert:
  assumes "tabs_indexed ix (xs @ ys)" and "panes_ok (xs @ (p, x) # ys)"
  shows "tabs_indexed (\<lambda>t. if t \<in> set (tabs x) then Some p else ix t) (xs @ (p, x) # ys)"
  unfolding tabs_indexed_def
proof (intro allI)
  fix t q
  have disj: "(q, y) \<in> set (xs @ ys) \<Longrightarrow> t \<in> set (tabs y) \<Longrightarrow> t \<notin> set (tabs x)" for y
    using assms(2) unfolding panes_ok_split by (force simp: pane_tabs_def)
  show "((if t \<in> set (tabs x) then Some p else ix t) = Some q) \<longleftrightarrow>
      (\<exists>y. (q, y) \<in> set (xs @ (p, x) # ys) \<and> t \<in> set (tabs y))"
  proof (cases "t \<in> set (tabs x)")
    case True
    with disj show ?thesis by auto
  next
    case False
    with assms(1) show ?thesis
      by (auto simp: tabs_indexed_def)
  qed
qed

text \<open>Taking a pane out of the map, and putting one in.\<close>

lemma ses_ok_out:
  assumes "ses_ok n ss (xs @ (p, x) # ys) ix S"
  shows "panes_ok (xs @ ys)" and "tabs_indexed (\<lambda>t. if t \<in> set (tabs x) then None else ix t) (xs @ ys)"
    and "p \<notin> fst ` set (xs @ ys)" and "pane_wf x" and "pn_id x = p" and "distinct (tabs x)"
    and "set (tabs x) \<inter> set (pane_tabs (xs @ ys)) = {}" and "set (pane_tabs (xs @ ys)) \<subseteq> S" and "set (tabs x) \<subseteq> S"
    and "screens_ok n ss (insert p (fst ` set (xs @ ys)))"
  using assms tabs_indexed_split [of ix xs p x ys] unfolding ses_ok_def panes_ok_split by auto

lemma ses_ok_in:
  assumes "panes_ok (xs @ ys)" and "tabs_indexed ix (xs @ ys)" and "p \<notin> fst ` set (xs @ ys)" and "pane_wf x"
    and "pn_id x = p" and "distinct (tabs x)" and "set (tabs x) \<inter> set (pane_tabs (xs @ ys)) = {}"
    and "set (pane_tabs (xs @ ys)) \<subseteq> S" and "set (tabs x) \<subseteq> S"
    and "screens_ok n ss (insert p (fst ` set (xs @ ys)))"
  shows "ses_ok n ss (xs @ (p, x) # ys) (\<lambda>t. if t \<in> set (tabs x) then Some p else ix t) S"
proof -
  have "panes_ok (xs @ (p, x) # ys)"
    using assms unfolding panes_ok_split by blast
  with tabs_indexed_insert [OF assms(2) this] assms(8-10) show ?thesis
    unfolding ses_ok_def by auto
qed

text \<open>Changing the tabs of a pane, the index along with them.\<close>

lemma ses_ok_pane:
  assumes ok: "ses_ok n ss (xs @ (p, x) # ys) ix S" and y: "pane_wf y" "pn_id y = p" "distinct (tabs y)"
    and disj: "set (tabs y) \<inter> set (pane_tabs (xs @ ys)) = {}" and S: "set (pane_tabs (xs @ ys)) \<union> set (tabs y) \<subseteq> S'"
    and ix: "\<And>t. ix' t = (if t \<in> set (tabs y) then Some p else if t \<in> set (tabs x) then None else ix t)"
  shows "ses_ok n ss (xs @ (p, y) # ys) ix' S'"
proof -
  note out = ses_ok_out [OF ok]
  have "ix' = (\<lambda>t. if t \<in> set (tabs y) then Some p else if t \<in> set (tabs x) then None else ix t)"
    by (rule ext) (rule ix)
  with ses_ok_in [OF out(1,2,3) y disj _ _ out(10), of S'] S show ?thesis
    by simp
qed

lemma ses_ok_index:
  "ses_ok n ss (xs @ (p, x) # ys) ix S \<Longrightarrow> t \<in> set (tabs x) \<Longrightarrow> ix t = Some p"
  by (auto simp: ses_ok_def tabs_indexed_def)

lemma ses_ok_index_None:
  "ses_ok n ss ps ix S \<Longrightarrow> t \<notin> set (pane_tabs ps) \<Longrightarrow> ix t = None"
  by (cases "ix t") (force simp: ses_ok_def tabs_indexed_def pane_tabs_def)+

section \<open>Focus stamps\<close>

lemma session_pane_split:
  assumes "distinct (map fst (ses_panes st))" and "pane_lookup st p = Some x"
  obtains xs ys where "ses_panes st = xs @ (p, x) # ys"
    and "\<And>y. ses_panes (update_pane st p y) = xs @ (p, y) # ys"
    and "\<And>z. AList.delete p (xs @ (p, z) # ys) = xs @ ys"
    and "p \<notin> fst ` set (xs @ ys)"
proof -
  from alist_split [OF assms(1) assms(2) [unfolded pane_lookup_def]] obtain xs ys where
    *: "ses_panes st = xs @ (p, x) # ys" "p \<notin> fst ` set (xs @ ys)"
    "\<And>y. AList.update p y (ses_panes st) = xs @ (p, y) # ys" "AList.delete p (ses_panes st) = xs @ ys"
    by blast
  then have "AList.delete p (xs @ (p, z) # ys) = xs @ ys" for z
    by (simp add: AList.delete_eq)
  with * show thesis
    by (intro that) (simp_all add: update_pane_def)
qed

lemma update_pane_simps [simp]:
  "workspaces (update_pane st p x) = workspaces st" "surfaces (update_pane st p x) = surfaces st"
  "resource_indexes (update_pane st p x) = resource_indexes st" "mux_next_id (update_pane st p x) = mux_next_id st"
  "all_screens (update_pane st p x) = all_screens st"
  by (simp_all add: update_pane_def all_screens_def)

lemma session_distinct: "session_ok st \<Longrightarrow> distinct (map fst (ses_panes st))"
  by (simp add: session_ok_def ses_ok_def panes_ok_def)

text \<open>A pane whose tabs and identity stay.\<close>

lemma update_same_tabs:
  assumes ok: "session_ok st" and p: "pane_lookup st p = Some x"
    and y: "tabs y = tabs x" "active_tab y = active_tab x" "pn_id y = pn_id x"
  shows "session_ok (update_pane st p y) \<and> pane_tabs (ses_panes (update_pane st p y)) = pane_tabs (ses_panes st)"
proof -
  obtain xs ys where ps: "ses_panes st = xs @ (p, x) # ys" "ses_panes (update_pane st p y) = xs @ (p, y) # ys"
    using session_pane_split [OF session_distinct [OF ok] p] by metis
  have s: "ses_ok (mux_next_id st) (all_screens st) (xs @ (p, x) # ys) (tab_pane (resource_indexes st)) (fst ` set (surfaces st))"
    using ok by (simp add: session_ok_def ps(1))
  note out = ses_ok_out [OF s]
  have "pane_wf y"
    using out(4) y by (simp add: pane_wf_def)
  from ses_ok_pane [OF s this, of "fst ` set (surfaces st)" "tab_pane (resource_indexes st)"] out y
  have "ses_ok (mux_next_id st) (all_screens st) (xs @ (p, y) # ys) (tab_pane (resource_indexes st)) (fst ` set (surfaces st))"
    using ses_ok_index [OF s] by auto
  then show ?thesis
    by (simp add: session_ok_def ps y)
qed

lemma stamp_pane_focus_ok:
  assumes "session_ok st"
  shows "session_ok (stamp_pane_focus st p) \<and> pane_tabs (ses_panes (stamp_pane_focus st p)) = pane_tabs (ses_panes st)
    \<and> surfaces (stamp_pane_focus st p) = surfaces st"
proof -
  let ?st = "st\<lparr>focus_sequence := sat_add (focus_sequence st) 1, mux_next_active_at := mux_next_active_at st + 1\<rparr>"
  have ok: "session_ok ?st"
    using assms by (simp add: session_ok_def all_screens_def)
  show ?thesis
  proof (cases "pane_lookup ?st p")
    case None
    with ok show ?thesis
      by (simp add: stamp_pane_focus_def next_focus_sequence_def Let_def)
  next
    case (Some x)
    then show ?thesis
      using update_same_tabs [OF ok Some, of "x\<lparr>active_at := mux_next_active_at st, focused_at := sat_add (focus_sequence st) 1\<rparr>"]
      by (simp add: stamp_pane_focus_def next_focus_sequence_def Let_def)
  qed
qed

lemma stamp_changed_ok:
  assumes "session_ok st"
  shows "session_ok (stamp_changed_active_pane st previous)
    \<and> pane_tabs (ses_panes (stamp_changed_active_pane st previous)) = pane_tabs (ses_panes st)
    \<and> surfaces (stamp_changed_active_pane st previous) = surfaces st"
  using assms stamp_pane_focus_ok [OF assms]
  by (simp add: stamp_changed_active_pane_def Let_def split: option.split)

section \<open>Removing a surface\<close>

lemma unindex_tab_pane [simp]: "tab_pane (unindex_surface ix t) = (tab_pane ix)(t := None)"
  by (simp add: unindex_surface_def Let_def split: option.split)

lemma pane_of_search:
  assumes "panes_ok (ses_panes st)" and "tab_pane (resource_indexes st) t = None"
  shows "case pane_of st t of
      None \<Rightarrow> t \<notin> set (pane_tabs (ses_panes st))
    | Some p \<Rightarrow> \<exists>x. pane_lookup st p = Some x \<and> t \<in> set (tabs x)"
proof (cases "List.find (\<lambda>p. t \<in> set (tabs p)) (map snd (ses_panes st))")
  case None
  then have "t \<notin> set (pane_tabs (ses_panes st))"
    by (auto simp: find_None_iff pane_tabs_def)
  with None assms(2) show ?thesis
    by (simp add: pane_of_def)
next
  case (Some x)
  from find_SomeD [OF this] obtain k where k: "(k, x) \<in> set (ses_panes st)" "t \<in> set (tabs x)"
    by auto
  with assms(1) have "pn_id x = k" "map_of (ses_panes st) k = Some x"
    by (auto simp: panes_ok_def)
  with Some k assms(2) show ?thesis
    by (auto simp: pane_of_def pane_lookup_def)
qed

lemma remove_pane_simps [simp]:
  "tab_pane (resource_indexes (remove_pane st p)) = tab_pane (resource_indexes st)"
  "surfaces (remove_pane st p) = surfaces st" "mux_next_id (remove_pane st p) = mux_next_id st"
  "all_screens (remove_pane st p) = all_screens st" "workspaces (remove_pane st p) = workspaces st"
  by (simp_all add: remove_pane_def Let_def all_screens_def split: option.split)

lemma remove_pane_panes: "pane_lookup st p = Some x \<Longrightarrow> ses_panes (remove_pane st p) = AList.delete p (ses_panes st)"
  by (simp add: remove_pane_def Let_def)

text \<open>Dropping a pane whose tabs are gone: its screen is adjusted, nothing else changes.\<close>

lemma drop_empty_pane:
  assumes ps: "ses_panes st = xs @ (p, x) # ys" and p: "p \<notin> fst ` set (xs @ ys)"
    and screens: "screens_ok (mux_next_id st) (all_screens st) (insert p (fst ` set (xs @ ys)))"
  shows "\<exists>wi si st'. screen_of (remove_pane st p) p = Some (wi, si)
    \<and> collapse_in_screen (remove_pane st p) wi si p = Inr st' \<and> ses_panes st' = xs @ ys
    \<and> screens_ok (mux_next_id st') (all_screens st') (fst ` set (xs @ ys))
    \<and> surfaces st' = surfaces st \<and> tab_pane (resource_indexes st') = tab_pane (resource_indexes st)"
proof -
  let ?st = "remove_pane st p"
  have lookup: "pane_lookup st p = Some x"
  proof -
    have "map_of xs p = None"
      using p by (auto simp: map_of_eq_None_iff)
    then show ?thesis
      by (simp add: pane_lookup_def ps map_add_def)
  qed
  have "AList.delete p (xs @ (p, x) # ys) = xs @ ys"
  proof -
    have "filter (\<lambda>(k, _). p \<noteq> k) (xs @ ys) = xs @ ys"
      by (rule filter_True) (use p in force)
    then show ?thesis
      by (simp add: AList.delete_eq)
  qed
  then have panes: "ses_panes ?st = xs @ ys"
    by (simp add: remove_pane_panes [OF lookup] ps)
  have "\<exists>s \<in> set (all_screens st). p \<in> layout_panes s"
    using screens by (auto simp: screens_ok_def)
  then obtain wi si where so: "screen_of ?st p = Some (wi, si)"
    using screen_of_None [of ?st p] by (cases "screen_of ?st p") auto
  obtain st' where st': "collapse_in_screen ?st wi si p = Inr st'"
    "screens_ok (mux_next_id st') (all_screens st') (fst ` set (xs @ ys))"
    "ses_panes st' = ses_panes ?st" "surfaces st' = surfaces ?st" "resource_indexes st' = resource_indexes ?st"
    using collapse_in_screen_ok [of "fst ` set (xs @ ys)" ?st p wi si] panes p so screens by auto
  with so panes show ?thesis
    by (intro exI [of _ wi] exI [of _ si] exI [of _ st']) simp
qed

lemma remove_surface_ok:
  assumes ok: "session_ok st"
  shows "\<exists>st' changed. remove_surface st t = Inr (st', map_of (surfaces st) t, changed) \<and> session_ok st'
    \<and> mset (pane_tabs (ses_panes st')) = mset (pane_tabs (ses_panes st)) - {#t#}
    \<and> surfaces st' = AList.delete t (surfaces st)"
proof -
  let ?st = "st\<lparr>surfaces := AList.delete t (surfaces st), resource_indexes := unindex_surface (resource_indexes st) t\<rparr>"
  let ?S = "fst ` set (surfaces st)" and ?ix = "tab_pane (resource_indexes st)"
  have S: "fst ` set (AList.delete t (surfaces st)) = ?S - {t}"
    by (auto simp: AList.delete_eq image_iff)
  have as: "all_screens ?st = all_screens st" "ses_panes ?st = ses_panes st"
    by (simp_all add: all_screens_def)
  have po: "panes_ok (ses_panes ?st)" and s: "ses_ok (mux_next_id st) (all_screens st) (ses_panes st) ?ix ?S"
    using ok by (simp_all add: session_ok_def ses_ok_def)
  note search = pane_of_search [OF po, of t]
  show ?thesis
  proof (cases "pane_of ?st t")
    case None
    with search have t: "t \<notin> set (pane_tabs (ses_panes st))"
      by simp
    with ses_ok_index_None [OF s t] have "session_ok ?st"
      using ok by (auto simp: session_ok_def ses_ok_def S as fun_upd_idem)
    moreover from None have "remove_surface st t = Inr (?st, map_of (surfaces st) t, False)"
      by (simp add: remove_surface_def Let_def)
    moreover have "mset (pane_tabs (ses_panes ?st)) = mset (pane_tabs (ses_panes st)) - {#t#}"
      using t by (simp add: diff_single_trivial)
    ultimately show ?thesis
      by (intro exI [of _ ?st] exI [of _ False]) simp
  next
    case (Some p)
    with search obtain x where x: "pane_lookup ?st p = Some x" "t \<in> set (tabs x)"
      by auto
    obtain xs ys where ps: "ses_panes ?st = xs @ (p, x) # ys"
      "\<And>y. ses_panes (update_pane ?st p y) = xs @ (p, y) # ys" "p \<notin> fst ` set (xs @ ys)"
    proof -
      have "distinct (map fst (ses_panes ?st))"
        using po unfolding panes_ok_def by (rule conjunct1)
      from session_pane_split [OF this x(1)] show ?thesis
        using that by metis
    qed
    obtain i where i: "position (\<lambda>u. u = t) (tabs x) = Some i"
      using x(2) by (cases "position (\<lambda>u. u = t) (tabs x)") (auto simp: position_None_iff)
    then have it: "i < length (tabs x)" "tabs x ! i = t"
      using position_Some_less by fastforce+
    note out = ses_ok_out [OF s [unfolded as(2) [symmetric] ps(1)]]
    have ms: "mset (tabs x) = add_mset t (mset (remove_at i (tabs x)))"
      using remove_at_split [OF it(1)] it(2) by simp
    then have tabs: "distinct (remove_at i (tabs x))" "set (remove_at i (tabs x)) = set (tabs x) - {t}"
      using remove_at_distinct [OF out(6) it(1)] it(2) by simp_all
    have mset: "mset (pane_tabs (ses_panes st)) - {#t#} = mset (remove_at i (tabs x)) + mset (pane_tabs (xs @ ys))"
      using ps(1) ms by simp
    let ?y = "remove_tab x i"
    let ?st1 = "update_pane ?st p ?y"
    show ?thesis
    proof (cases "remove_at i (tabs x) = []")
      case False
      have "ses_ok (mux_next_id st) (all_screens st) (xs @ (p, ?y) # ys) (?ix(t := None)) (?S - {t})"
        using out tabs x(2) ses_ok_index [OF s [unfolded as(2) [symmetric] ps(1)]] False it(1)
        by (intro ses_ok_pane [OF s [unfolded as(2) [symmetric] ps(1)]] remove_tab_wf) auto
      then have "session_ok (fence_layout_undo_for_tab_membership ?st1 [p])"
        using fence_screens_ok [of "mux_next_id st" ?st1 "fst ` set (ses_panes ?st1)" "[p]"]
        by (simp add: session_ok_def ses_ok_def S as ps(2))
      then show ?thesis
        using Some x(1) i False mset
        by (simp add: remove_surface_def Let_def ps(2) ex_bool_eq)
    next
      case True
      then have tx: "set (tabs x) = {t}"
        using tabs(2) x(2) by auto
      have "tabs_indexed (?ix(t := None)) (xs @ ys)"
        using out(2) tx by (simp add: fun_upd_def)
      moreover have "set (pane_tabs (xs @ ys)) \<subseteq> ?S - {t}"
        using out(7,8) tx by auto
      moreover have "all_screens ?st1 = all_screens st"
        by (simp add: as)
      ultimately obtain wi si st' where st': "screen_of (remove_pane ?st1 p) p = Some (wi, si)"
        "collapse_in_screen (remove_pane ?st1 p) wi si p = Inr st'" "ses_panes st' = xs @ ys" "surfaces st' = AList.delete t (surfaces st)" "session_ok st'"
        using drop_empty_pane [of ?st1 xs p ?y ys] ps(2,3) out(1,10) by (auto simp: S session_ok_def ses_ok_def)
      from stamp_changed_ok [OF st'(5), of "session_active_pane st"] st' True mset Some x(1) i show ?thesis
        by (simp add: remove_surface_def Let_def ex_bool_eq)
    qed
  qed
qed

end
