(* ===== verification/SessionTabs.thy ===== *)
theory SessionTabs
  imports SessionMoves
begin

text \<open>
  Moving a tab, within its pane and to another one, keeps the invariant of the session. A move
  between panes goes through a state in which the tab is \<open>detached\<close>: it stands in no pane, and the
  index is stale at that tab only.
\<close>

section \<open>Finding the pane of a tab\<close>

lemma pane_of_ok:
  assumes ok: "session_ok st" and p: "pane_of st t = Some p"
  shows "\<exists>x. pane_lookup st p = Some x \<and> t \<in> set (tabs x)"
proof (cases "tab_pane (resource_indexes st) t")
  case None
  have "panes_ok (ses_panes st)"
    using ok by (simp add: session_ok_def ses_ok_def)
  from pane_of_search [OF this None] p show ?thesis
    by simp
next
  case (Some q)
  with p have q: "q = p"
    by (simp add: pane_of_def)
  from ok have "tabs_indexed (tab_pane (resource_indexes st)) (ses_panes st)" "distinct (map fst (ses_panes st))"
    by (simp_all add: session_ok_def ses_ok_def panes_ok_def)
  with Some q obtain x where "(p, x) \<in> set (ses_panes st)" "t \<in> set (tabs x)" "distinct (map fst (ses_panes st))"
    by (auto simp: tabs_indexed_def)
  then show ?thesis
    by (auto simp: pane_lookup_def)
qed

lemma pane_of_tab:
  assumes ok: "session_ok st" and x: "pane_lookup st p = Some x" and t: "t \<in> set (tabs x)"
  shows "pane_of st t = Some p"
proof -
  have "tabs_indexed (tab_pane (resource_indexes st)) (ses_panes st)"
    using ok by (simp add: session_ok_def ses_ok_def)
  moreover have "(p, x) \<in> set (ses_panes st)"
    using x by (auto simp: pane_lookup_def dest: map_of_SomeD)
  ultimately have "tab_pane (resource_indexes st) t = Some p"
    using t unfolding tabs_indexed_def by blast
  then show ?thesis
    by (simp add: pane_of_def)
qed

lemma session_split_ok:
  assumes "session_ok st" and "ses_panes st = ps"
  shows "ses_ok (mux_next_id st) (all_screens st) ps (tab_pane (resource_indexes st)) (fst ` set (surfaces st))"
  using assms by (simp add: session_ok_def)

section \<open>Within a pane\<close>

definition reorder_tab :: "pane \<Rightarrow> nat \<Rightarrow> nat \<Rightarrow> pane" where
  "reorder_tab x i j = x\<lparr>tabs := insert_at j (tabs x ! i) (remove_at i (tabs x)), active_tab := j\<rparr>"

lemma nth_insert_at: "j \<le> length xs \<Longrightarrow> insert_at j x xs ! j = x"
  by (simp add: insert_at_def nth_append)

lemma reorder_tab_facts:
  assumes i: "i < length (tabs x)" and j: "j < length (tabs x)" and d: "distinct (tabs x)"
  shows "pane_wf (reorder_tab x i j)" and "mset (tabs (reorder_tab x i j)) = mset (tabs x)"
    and "active_surface (reorder_tab x i j) = Some (tabs x ! i)"
    and "pn_id (reorder_tab x i j) = pn_id x"
proof -
  have len: "j \<le> length (remove_at i (tabs x))"
    using i j by (simp add: length_remove_at)
  with i j show "pane_wf (reorder_tab x i j)"
    by (auto simp: pane_wf_def reorder_tab_def length_remove_at insert_at_def)
  show "mset (tabs (reorder_tab x i j)) = mset (tabs x)"
    using len remove_at_split [OF i] by (simp add: reorder_tab_def)
  show "active_surface (reorder_tab x i j) = Some (tabs x ! i)"
    using len i j by (simp add: active_surface_def reorder_tab_def nth_opt_def nth_insert_at length_remove_at)
  show "pn_id (reorder_tab x i j) = pn_id x"
    by (simp add: reorder_tab_def)
qed

lemma reorder_ok:
  assumes ok: "session_ok st" and x: "pane_lookup st p = Some x"
    and i: "i < length (tabs x)" and j: "j < length (tabs x)"
  shows "session_ok (update_pane st p (reorder_tab x i j))
    \<and> mset (pane_tabs (ses_panes (update_pane st p (reorder_tab x i j)))) = mset (pane_tabs (ses_panes st))"
proof -
  let ?y = "reorder_tab x i j"
  obtain xs ys where ps: "ses_panes st = xs @ (p, x) # ys" "ses_panes (update_pane st p ?y) = xs @ (p, ?y) # ys"
    using session_pane_split [OF session_distinct [OF ok] x] by metis
  note s = session_split_ok [OF ok ps(1)]
  note out = ses_ok_out [OF s]
  note r = reorder_tab_facts [OF i j out(6)]
  have set: "set (tabs ?y) = set (tabs x)" and d: "distinct (tabs ?y)"
    using r(2) out(6) by (metis set_mset_mset, metis mset_eq_imp_distinct_iff)
  have "ses_ok (mux_next_id st) (all_screens st) (xs @ (p, ?y) # ys) (tab_pane (resource_indexes st)) (fst ` set (surfaces st))"
    using out ses_ok_index [OF s]
    by (intro ses_ok_pane [OF s r(1) _ d]) (auto simp: set r(4))
  then show ?thesis
    using r(2) by (simp add: session_ok_def ps)
qed

lemma fence_ok:
  assumes "session_ok st"
  shows "session_ok (fence_layout_undo_for_tab_membership st ps)"
  using assms fence_screens_ok [of "mux_next_id st" st "fst ` set (ses_panes st)" ps]
  by (simp add: session_ok_def ses_ok_def)

lemma fence_lookup [simp]: "pane_lookup (fence_layout_undo_for_tab_membership st ps) = pane_lookup st"
  by (simp add: pane_lookup_def fun_eq_iff)

section \<open>Between panes\<close>

definition detached :: "'sf session \<Rightarrow> surface_id \<Rightarrow> bool" where
  "detached st t \<longleftrightarrow> ses_ok (mux_next_id st) (all_screens st) (ses_panes st)
     ((tab_pane (resource_indexes st))(t := None)) (fst ` set (surfaces st))
     \<and> t \<notin> set (pane_tabs (ses_panes st)) \<and> t \<in> fst ` set (surfaces st)"

lemma collapse_empty_unfold:
  "screen_of (remove_pane st p) p = Some (wi, si) \<Longrightarrow>
     collapse_empty_pane st p = collapse_in_screen (remove_pane st p) wi si p"
  by (simp add: collapse_empty_pane_def Let_def)

lemma map_of_middle: "q \<noteq> p \<Longrightarrow> map_of (xs @ (p, y) # ys) q = map_of (xs @ ys) q"
  by (simp add: map_add_def split: option.split)

text \<open>Taking a tab out of its pane, the pane going with its last tab.\<close>

lemma detach_ok:
  assumes ok: "session_ok st" and x: "pane_lookup st p = Some x"
    and i: "i < length (tabs x)" and t: "tabs x ! i = t"
  shows "\<exists>st'. (if tabs (remove_tab x i) = [] then collapse_empty_pane (update_pane st p (remove_tab x i)) p
      else Inr (update_pane st p (remove_tab x i))) = Inr st'
    \<and> detached st' t \<and> mset (pane_tabs (ses_panes st)) = add_mset t (mset (pane_tabs (ses_panes st')))
    \<and> surfaces st' = surfaces st \<and> (\<forall>q. q \<noteq> p \<longrightarrow> pane_lookup st' q = pane_lookup st q)
    \<and> pane_lookup st' p = (if tabs (remove_tab x i) = [] then None else Some (remove_tab x i))"
proof -
  let ?y = "remove_tab x i" and ?n = "mux_next_id st" and ?S = "fst ` set (surfaces st)"
  let ?ix = "tab_pane (resource_indexes st)" and ?st1 = "update_pane st p (remove_tab x i)"
  obtain xs ys where ps: "ses_panes st = xs @ (p, x) # ys" "ses_panes ?st1 = xs @ (p, ?y) # ys"
    and p: "p \<notin> fst ` set (xs @ ys)"
    using session_pane_split [OF session_distinct [OF ok] x] by metis
  note s = session_split_ok [OF ok ps(1)]
  note out = ses_ok_out [OF s]
  have tx: "t \<in> set (tabs x)"
    using i t by auto
  with out(9) have tS: "t \<in> ?S"
    by blast
  have tabs: "distinct (remove_at i (tabs x))" "set (remove_at i (tabs x)) = set (tabs x) - {t}"
    using remove_at_distinct [OF out(6) i] t by simp_all
  have ms: "mset (tabs x) = add_mset t (mset (remove_at i (tabs x)))"
    using remove_at_split [OF i] t by simp
  show ?thesis
  proof (cases "remove_at i (tabs x) = []")
    case False
    have "ses_ok ?n (all_screens st) (xs @ (p, ?y) # ys) (?ix(t := None)) ?S"
      using out tabs tx ses_ok_index [OF s] False i
      by (intro ses_ok_pane [OF s] remove_tab_wf) auto
    moreover have "t \<notin> set (pane_tabs (xs @ (p, ?y) # ys))"
      using out(7) tx tabs(2) by auto
    ultimately have "detached ?st1 t"
      using tS by (simp add: detached_def ps(2))
    moreover have "pane_lookup ?st1 q = pane_lookup st q" if "q \<noteq> p" for q
      using that by (simp add: pane_lookup_def ps map_of_middle del: map_of_append)
    moreover have "pane_lookup ?st1 p = Some ?y"
      by (simp add: pane_lookup_def update_pane_def AList.update_Some_unfold)
    ultimately show ?thesis
      using False ms by (simp add: ps)
  next
    case True
    then have tx': "set (tabs x) = {t}"
      using tabs(2) tx by auto
    have "tabs_indexed (?ix(t := None)) (xs @ ys)"
      using out(2) tx' by (simp add: fun_upd_def)
    moreover have "t \<notin> set (pane_tabs (xs @ ys))"
      using out(7) tx' by auto
    moreover obtain wi si st' where st': "screen_of (remove_pane ?st1 p) p = Some (wi, si)"
      "collapse_in_screen (remove_pane ?st1 p) wi si p = Inr st'" "ses_panes st' = xs @ ys"
      "surfaces st' = surfaces st" "screens_ok (mux_next_id st') (all_screens st') (fst ` set (xs @ ys))"
      "tab_pane (resource_indexes st') = ?ix"
      using drop_empty_pane [of ?st1 xs p ?y ys] ps(2) p out(10) by auto
    ultimately have "detached st' t"
      using out(1,8) tS by (simp add: detached_def ses_ok_def)
    moreover have "pane_lookup st' q = pane_lookup st q" if "q \<noteq> p" for q
      using that by (simp add: pane_lookup_def ps(1) st'(3) map_of_middle del: map_of_append)
    moreover have "pane_lookup st' p = None"
      using p by (simp add: pane_lookup_def st'(3) map_of_eq_None_iff del: map_of_append)
    ultimately show ?thesis
      using True ms st' collapse_empty_unfold [OF st'(1)] by (simp add: ps(1))
  qed
qed


text \<open>Putting a detached tab into a pane, and focusing the pane.\<close>

definition attach_tab :: "'sf session \<Rightarrow> surface_id \<Rightarrow> pane_id \<Rightarrow> pane \<Rightarrow> nat \<Rightarrow> 'sf session" where
  "attach_tab st t q x j =
     (let st = update_pane st q (x\<lparr>tabs := insert_at j t (tabs x), active_tab := j\<rparr>); ix = resource_indexes st
      in st\<lparr>resource_indexes := ix\<lparr>tab_pane := (tab_pane ix)(t \<mapsto> q)\<rparr>\<rparr>)"

lemma attach_ok:
  assumes d: "detached st t" and x: "pane_lookup st q = Some x" and j: "j \<le> length (tabs x)"
  shows "session_ok (attach_tab st t q x j)"
    and "mset (pane_tabs (ses_panes (attach_tab st t q x j))) = add_mset t (mset (pane_tabs (ses_panes st)))"
    and "surfaces (attach_tab st t q x j) = surfaces st"
    and "r \<noteq> q \<Longrightarrow> pane_lookup (attach_tab st t q x j) r = pane_lookup st r"
    and "Option.bind (pane_lookup (attach_tab st t q x j) q) active_surface = Some t"
proof -
  let ?y = "x\<lparr>tabs := insert_at j t (tabs x), active_tab := j\<rparr>"
  have "distinct (map fst (ses_panes st))"
    using d by (simp add: detached_def ses_ok_def panes_ok_def)
  from session_pane_split [OF this x] obtain xs ys where
    ps: "ses_panes st = xs @ (q, x) # ys" "ses_panes (update_pane st q ?y) = xs @ (q, ?y) # ys"
    "q \<notin> fst ` set (xs @ ys)"
    by metis
  have s: "ses_ok (mux_next_id st) (all_screens st) (xs @ (q, x) # ys)
      ((tab_pane (resource_indexes st))(t := None)) (fst ` set (surfaces st))"
    and t: "t \<notin> set (tabs x)" "t \<notin> set (pane_tabs (xs @ ys))" "t \<in> fst ` set (surfaces st)"
    using d by (simp_all add: detached_def ps(1))
  note out = ses_ok_out [OF s]
  have "mset (tabs ?y) = mset (t # tabs x)"
    using j by simp
  from mset_eq_imp_distinct_iff [OF this] have dy: "distinct (tabs ?y)"
    using out(6) t(1) by simp
  have sy: "set (tabs ?y) = insert t (set (tabs x))"
    using j by simp
  have wf: "pane_wf ?y"
    using j length_insert_at [OF j, of t] by (auto simp: pane_wf_def simp del: length_insert_at)
  have "ses_ok (mux_next_id st) (all_screens st) (xs @ (q, ?y) # ys)
      ((tab_pane (resource_indexes st))(t \<mapsto> q)) (fst ` set (surfaces st))"
  proof (rule ses_ok_pane [OF s wf _ dy])
    show "pn_id ?y = q"
      using out(5) by simp
    show "set (tabs ?y) \<inter> set (pane_tabs (xs @ ys)) = {}"
      unfolding sy using out(7) t(2) by blast
    show "set (pane_tabs (xs @ ys)) \<union> set (tabs ?y) \<subseteq> fst ` set (surfaces st)"
      unfolding sy using out(8,9) t(3) by blast
    show "((tab_pane (resource_indexes st))(t \<mapsto> q)) u = (if u \<in> set (tabs ?y) then Some q
        else if u \<in> set (tabs x) then None else ((tab_pane (resource_indexes st))(t := None)) u)" for u
      unfolding sy using ses_ok_index [OF s, of u] by auto
  qed
  moreover have "all_screens (attach_tab st t q x j) = all_screens st"
    by (simp add: attach_tab_def Let_def all_screens_def)
  ultimately show "session_ok (attach_tab st t q x j)"
    by (simp add: session_ok_def attach_tab_def Let_def ps(2))
  show "mset (pane_tabs (ses_panes (attach_tab st t q x j))) = add_mset t (mset (pane_tabs (ses_panes st)))"
    using j by (simp add: attach_tab_def Let_def ps)
  show "surfaces (attach_tab st t q x j) = surfaces st"
    by (simp add: attach_tab_def Let_def)
  show "r \<noteq> q \<Longrightarrow> pane_lookup (attach_tab st t q x j) r = pane_lookup st r"
    by (simp add: attach_tab_def Let_def pane_lookup_def ps map_of_middle del: map_of_append)
  have "pane_lookup (update_pane st q ?y) q = Some ?y"
    by (simp add: pane_lookup_def update_pane_def update_Some_unfold)
  with j show "Option.bind (pane_lookup (attach_tab st t q x j) q) active_surface = Some t"
    by (simp add: attach_tab_def Let_def pane_lookup_def active_surface_def nth_opt_def nth_insert_at)
qed

definition focus_pane_at :: "'sf session \<Rightarrow> nat \<Rightarrow> nat \<Rightarrow> pane_id \<Rightarrow> 'sf session" where
  "focus_pane_at st wi si q =
     (let st = st\<lparr>active_workspace := wi\<rparr>; w = (workspaces st ! wi)\<lparr>active_screen := si\<rparr>
      in set_workspace st wi (w\<lparr>screens := (screens w)[si := (screens w ! si)\<lparr>active_pane := q\<rparr>]\<rparr>))"

lemma focus_pane_at_ok:
  assumes ok: "session_ok st" and so: "screen_of st q = Some (wi, si)"
  shows "session_ok (focus_pane_at st wi si q)" and "ses_panes (focus_pane_at st wi si q) = ses_panes st"
    and "surfaces (focus_pane_at st wi si q) = surfaces st"
    and "session_active_pane (focus_pane_at st wi si q) = Some q"
proof -
  let ?s = "screens (workspaces st ! wi) ! si" and ?n = "mux_next_id st"
  note at = screen_of_Some [OF so]
  obtain xs ys where split: "all_screens st = xs @ ?s # ys" "\<And>s. all_screens (set_screen st wi si s) = xs @ s # ys"
    using screens_in_place [OF at(1,2)] by metis
  have "all_screens (focus_pane_at st wi si q) = all_screens (set_screen st wi si (?s\<lparr>active_pane := q\<rparr>))"
    using at(1) by (simp add: all_screens_def focus_pane_at_def set_screen_def set_workspace_def Let_def map_update)
  then have all: "all_screens (focus_pane_at st wi si q) = xs @ ?s\<lparr>active_pane := q\<rparr> # ys"
    by (simp add: split(2))
  have s: "screens_ok ?n (xs @ ?s # ys) (fst ` set (ses_panes st))"
    using ok by (simp add: session_ok_def ses_ok_def split(1))
  moreover have "layout_inv ?n (?s\<lparr>active_pane := q\<rparr>) \<longleftrightarrow> layout_inv ?n ?s"
    by (rule layout_inv_cong) simp_all
  ultimately have "screens_ok ?n (xs @ ?s\<lparr>active_pane := q\<rparr> # ys) (fst ` set (ses_panes st))"
    using at(3) by (simp add: screens_ok_split screen_ok_def cong: option.case_cong)
  then show "session_ok (focus_pane_at st wi si q)"
    using ok unfolding session_ok_def ses_ok_def all
    by (simp add: focus_pane_at_def set_workspace_def Let_def)
  show "ses_panes (focus_pane_at st wi si q) = ses_panes st" "surfaces (focus_pane_at st wi si q) = surfaces st"
    by (simp_all add: focus_pane_at_def set_workspace_def Let_def)
  show "session_active_pane (focus_pane_at st wi si q) = Some q"
    using at by (simp add: focus_pane_at_def set_workspace_def Let_def session_active_pane_def
        active_screen_ref_def nth_opt_def)
qed


section \<open>The whole operation\<close>

definition tab_moved ::
    "'sf session \<Rightarrow> surface_id \<Rightarrow> pane_id \<Rightarrow> 'sf session \<times> bool \<times> bool
       \<times> (surface_id \<times> workspace_id \<times> screen_id \<times> pane_id) option \<Rightarrow> bool" where
  "tab_moved st t q r = (case r of (st', moved, changed, path) \<Rightarrow>
     session_ok st' \<and> mset (pane_tabs (ses_panes st')) = mset (pane_tabs (ses_panes st)) \<and> surfaces st' = surfaces st
     \<and> (if moved then Option.bind (pane_lookup st' q) active_surface = Some t \<and> pane_of st' t = Some q else st' = st)
     \<and> (path = None \<or> session_active_pane st' = Some q))"

lemma screen_of_live:
  assumes "session_ok st" and "pane_lookup st q = Some x"
  shows "\<exists>wi si. screen_of st q = Some (wi, si)"
proof -
  have "q \<in> fst ` set (ses_panes st)"
    using assms(2) by (force simp: pane_lookup_def dest: map_of_SomeD)
  then have "\<exists>s \<in> set (all_screens st). q \<in> layout_panes s"
    using assms(1) by (auto simp: session_ok_def ses_ok_def screens_ok_def)
  then show ?thesis
    using screen_of_None [of st q] by (cases "screen_of st q") auto
qed

lemma attach_moved:
  assumes d: "detached st1 t" and x: "pane_lookup st1 q = Some x" and j: "j \<le> length (tabs x)"
    and m: "mset (pane_tabs (ses_panes st)) = add_mset t (mset (pane_tabs (ses_panes st1)))"
    and s: "surfaces st1 = surfaces st"
  shows "\<exists>wi si. screen_of (attach_tab st1 t q x j) q = Some (wi, si)
    \<and> (\<forall>changed path. tab_moved st t q (focus_pane_at (attach_tab st1 t q x j) wi si q, True, changed, Some path))
    \<and> map_option tabs (pane_lookup (focus_pane_at (attach_tab st1 t q x j) wi si q) q) = Some (insert_at j t (tabs x))
    \<and> (\<forall>r. r \<noteq> q \<longrightarrow> pane_lookup (focus_pane_at (attach_tab st1 t q x j) wi si q) r = pane_lookup st1 r)"
proof -
  let ?a = "attach_tab st1 t q x j"
  note a = attach_ok [OF d x j]
  let ?y = "x\<lparr>tabs := insert_at j t (tabs x), active_tab := j\<rparr>"
  have y: "pane_lookup ?a q = Some ?y"
    by (simp add: attach_tab_def Let_def pane_lookup_def update_pane_def AList.update_Some_unfold)
  have ty: "t \<in> set (tabs ?y)"
    using j by simp
  obtain wi si where so: "screen_of ?a q = Some (wi, si)"
    using screen_of_live [OF a(1) y] by blast
  note f = focus_pane_at_ok [OF a(1) so]
  have y': "pane_lookup (focus_pane_at ?a wi si q) q = Some ?y"
    using y by (simp add: pane_lookup_def f(2))
  have "tab_moved st t q (focus_pane_at ?a wi si q, True, changed, Some path)" for changed path
    using a f y y' pane_of_tab [OF f(1) y' ty] m s by (simp add: tab_moved_def)
  moreover have "pane_lookup (focus_pane_at ?a wi si q) r = pane_lookup st1 r" if "r \<noteq> q" for r
    using that a(4) by (simp add: pane_lookup_def f(2))
  ultimately show ?thesis using so y'
    by (intro exI [of _ wi] exI [of _ si]) simp
qed

text \<open>Between two panes the tab always moves, to the position asked for or to the end; the source
  goes with its last tab and no third pane changes.\<close>

lemma remove_at_removeAll:
  assumes "distinct xs" and "i < length xs"
  shows "remove_at i xs = removeAll (xs ! i) xs"
proof -
  have xs: "xs = take i xs @ xs ! i # drop (Suc i) xs"
    by (rule id_take_nth_drop [OF assms(2)])
  with assms(1) have "xs ! i \<notin> set (take i xs)" "xs ! i \<notin> set (drop (Suc i) xs)"
    by (metis distinct_append not_distinct_conv_prefix disjoint_iff list.set_intros(1),
        metis distinct.simps(2) distinct_append)
  with xs show ?thesis
    unfolding remove_at_def by (metis removeAll.simps(2) removeAll_append removeAll_id)
qed

definition source_left :: "'sf session \<Rightarrow> 'sf session \<Rightarrow> pane_id \<Rightarrow> surface_id \<Rightarrow> bool \<Rightarrow> bool" where
  "source_left st st' p t emptied \<longleftrightarrow> (\<exists>x. pane_lookup st p = Some x \<and> (emptied \<longleftrightarrow> tabs x = [t])
     \<and> map_option tabs (pane_lookup st' p) = (if emptied then None else Some (removeAll t (tabs x))))"

lemma move_tab_between:
  assumes ok: "session_ok st" and live: "map_of (surfaces st) t = Some sf"
    and p: "pane_of st t = Some p" and pq: "p \<noteq> q" and target: "pane_lookup st q = Some target"
  shows "\<exists>st' changed path. move_tab_in_state st t q index = Inr (st', True, changed, Some path)
    \<and> tab_moved st t q (st', True, changed, Some path)
    \<and> map_option tabs (pane_lookup st' q) = Some (insert_at (min index (length (tabs target))) t (tabs target))
    \<and> source_left st st' p t changed \<and> (\<forall>r. r \<noteq> p \<longrightarrow> r \<noteq> q \<longrightarrow> pane_lookup st' r = pane_lookup st r)"
proof -
  let ?st0 = "fence_layout_undo_for_tab_membership st [p, q]"
  obtain x where x: "pane_lookup ?st0 p = Some x" "t \<in> set (tabs x)"
    using pane_of_ok [OF ok p] by auto
  then obtain i where i: "position (\<lambda>u. u = t) (tabs x) = Some i"
    by (cases "position (\<lambda>u. u = t) (tabs x)") (auto simp: position_None_iff)
  have it: "i < length (tabs x)" "tabs x ! i = t"
    using position_Some_less [OF i] by auto
  obtain st1 where st1: "(if tabs (remove_tab x i) = [] then collapse_empty_pane (update_pane ?st0 p (remove_tab x i)) p
      else Inr (update_pane ?st0 p (remove_tab x i))) = Inr st1"
    and d: "detached st1 t" "mset (pane_tabs (ses_panes st)) = add_mset t (mset (pane_tabs (ses_panes st1)))"
      "surfaces st1 = surfaces st" "\<forall>r. r \<noteq> p \<longrightarrow> pane_lookup st1 r = pane_lookup st r"
      "pane_lookup st1 p = (if tabs (remove_tab x i) = [] then None else Some (remove_tab x i))"
    using detach_ok [OF fence_ok [OF ok] x(1) it] by auto
  have dx: "distinct (tabs x)"
    using ok x(1) by (auto simp: session_ok_def ses_ok_def panes_ok_def pane_lookup_def pane_tabs_def
        distinct_concat_iff dest!: map_of_SomeD)
  have empty: "remove_at i (tabs x) = [] \<longleftrightarrow> tabs x = [t]"
  proof
    assume "remove_at i (tabs x) = []"
    then have "(i = 0 \<or> tabs x = []) \<and> length (tabs x) \<le> Suc i" by (simp add: remove_at_def)
    then have "length (tabs x) \<le> 1" using it(1) by auto
    with it have "i = 0" "length (tabs x) = 1" by linarith+
    with it(2) show "tabs x = [t]" by (cases "tabs x") auto
  qed (use it in \<open>auto simp: remove_at_def\<close>)
  have left: "source_left st st' p t (tabs (remove_tab x i) = [])" if "pane_lookup st' p = pane_lookup st1 p" for st' :: "'a session"
    using x(1) d(5) that empty remove_at_removeAll [OF dx it(1)] it(2) by (simp add: source_left_def)
  have tq: "pane_lookup st1 q = Some target"
    using d(4) pq target by simp
  let ?j = "min index (length (tabs target))"
  have j: "?j \<le> length (tabs target)"
    by simp
  let ?a = "attach_tab st1 t q target ?j"
  have "move_tab_in_state st t q index = (case screen_of ?a q of
      None \<Rightarrow> Inr (?a, True, tabs (remove_tab x i) = [], None)
    | Some (wi, si) \<Rightarrow> Inr (focus_pane_at ?a wi si q, True, tabs (remove_tab x i) = [],
        Some (t, ws_id (workspaces ?a ! wi), sc_id (screens (workspaces ?a ! wi) ! si), q)))"
    using p pq target x(1) i live st1 tq unfolding move_tab_in_state_def
    by (simp add: Let_def attach_tab_def focus_pane_at_def split: option.split)
  moreover obtain wi si where "screen_of ?a q = Some (wi, si)"
    "\<forall>changed path. tab_moved st t q (focus_pane_at ?a wi si q, True, changed, Some path)"
    "map_option tabs (pane_lookup (focus_pane_at ?a wi si q) q) = Some (insert_at ?j t (tabs target))"
    and same: "\<forall>r. r \<noteq> q \<longrightarrow> pane_lookup (focus_pane_at ?a wi si q) r = pane_lookup st1 r"
    using attach_moved [OF d(1) tq j d(2,3)] by blast
  moreover have "source_left st (focus_pane_at ?a wi si q) p t (tabs (remove_tab x i) = [])"
    using left same pq by blast
  ultimately show ?thesis
    using d(4) by auto
qed

lemma move_tab_ok:
  assumes ok: "session_ok st"
  shows "\<exists>r. move_tab_in_state st t q index = Inr r \<and> tab_moved st t q r"
proof -
  have stay: "tab_moved st t q (st, False, changed, None)" for changed
    using ok by (simp add: tab_moved_def)
  show ?thesis
  proof (cases "map_of (surfaces st) t = None \<or> pane_lookup st q = None \<or> pane_of st t = None")
    case True
    then have "move_tab_in_state st t q index = Inr (st, False, False, None)"
      by (auto simp: move_tab_in_state_def)
    with stay show ?thesis
      by blast
  next
    case False
    then obtain p target sf where p: "pane_of st t = Some p" and target: "pane_lookup st q = Some target"
      and live: "map_of (surfaces st) t = Some sf"
      by auto
    obtain x where x: "pane_lookup st p = Some x" "t \<in> set (tabs x)"
      using pane_of_ok [OF ok p] by blast
    obtain i where i: "position (\<lambda>u. u = t) (tabs x) = Some i"
      using x(2) by (cases "position (\<lambda>u. u = t) (tabs x)") (auto simp: position_None_iff)
    have it: "i < length (tabs x)" "tabs x ! i = t"
      using position_Some_less [OF i] by auto
    show ?thesis
    proof (cases "p = q")
      case True
      let ?j = "min (if i < index then index - 1 else index) (length (tabs x) - 1)"
      let ?st' = "fence_layout_undo_for_tab_membership (update_pane st q (reorder_tab x i ?j)) [q]"
      have j: "?j < length (tabs x)"
        using it(1) by auto
      have xq: "pane_lookup st q = Some x"
        using x(1) True by simp
      note r = reorder_ok [OF ok xq it(1) j]
      have "distinct (tabs x)"
        using ok xq by (auto simp: session_ok_def ses_ok_def panes_ok_def pane_lookup_def pane_tabs_def
            distinct_concat_iff dest!: map_of_SomeD)
      note f = reorder_tab_facts [OF it(1) j this]
      have y: "pane_lookup ?st' q = Some (reorder_tab x i ?j)"
        by (simp add: pane_lookup_def update_pane_def AList.update_Some_unfold)
      have "t \<in> set (tabs (reorder_tab x i ?j))"
        using f(2) x(2) by (metis set_mset_mset)
      from pane_of_tab [OF fence_ok [OF conjunct1 [OF r]] y this] have "tab_moved st t q (?st', True, False, None)"
        using fence_ok [OF conjunct1 [OF r], of "[q]"] conjunct2 [OF r] y f(3) it(2) by (simp add: tab_moved_def)
      moreover have "move_tab_in_state st t q index
          = (if ?j = i then Inr (st, False, False, None) else Inr (?st', True, False, None))"
        using p True xq i live unfolding move_tab_in_state_def by (simp add: Let_def reorder_tab_def)
      ultimately show ?thesis
        using stay [of False] by (cases "?j = i") (metis, metis)
    next
      case False
      from move_tab_between [OF ok live p False target, of index] show ?thesis
        by blast
    qed
  qed
qed

end
