(* ===== verification/SessionIndex.thy ===== *)
theory SessionIndex
  imports SessionTabs
begin

text \<open>
  The indexes of a session rebuilt from its tree: \<open>State::rebuild_resource_indexes\<close> of
  \<open>model.rs\<close> and \<open>Mux::rebuild_split_screen_index\<close> of \<open>mux.rs\<close>, and the workspace indexes.
  \<open>Surface::resource_identity\<close> is the argument \<open>ident\<close>: the tab id and the content id. The rebuilds are those
  of a release build: their \<open>debug_assert!\<close>s, that no public id or split occurs twice, have no effect on the
  indexes and are left out.
\<close>

type_synonym 'sf ident = "'sf \<Rightarrow> (public_id \<times> content_id) option"

section \<open>The resource indexes\<close>

text \<open>The identity of a tab: from its surface, else from the indexes being replaced.\<close>

definition tab_identity ::
    "'sf ident \<Rightarrow> 'sf session \<Rightarrow> surface_id \<Rightarrow> (public_id \<times> content_id) option" where
  "tab_identity ident st t =
     (case Option.bind (map_of (surfaces st) t) ident of
        Some i \<Rightarrow> Some i
      | None \<Rightarrow>
          (case (tab_ids (resource_indexes st) t, content_ids (resource_indexes st) t) of
             (Some tab, Some content) \<Rightarrow> Some (tab, content)
           | _ \<Rightarrow> None))"

definition index_tab ::
    "'sf ident \<Rightarrow> 'sf session \<Rightarrow> pane_id \<Rightarrow> surface_id \<Rightarrow> slot_indexes \<Rightarrow> slot_indexes" where
  "index_tab ident st p t ix =
     (case tab_identity ident st t of
        None \<Rightarrow> ix
      | Some (tab, content) \<Rightarrow>
          ix\<lparr>ix_tabs := (ix_tabs ix)(tab \<mapsto> t), tab_ids := (tab_ids ix)(t \<mapsto> tab),
             content_placements := (content_placements ix)(content \<mapsto>
               (case content_placements ix content of Some ts \<Rightarrow> ts | None \<Rightarrow> []) @ [t]),
             content_ids := (content_ids ix)(t \<mapsto> content),
             tab_pane := (tab_pane ix)(t \<mapsto> p)\<rparr>)"

definition index_pane ::
    "'sf ident \<Rightarrow> 'sf session \<Rightarrow> screen_id \<Rightarrow> pane_id \<Rightarrow> slot_indexes \<Rightarrow> slot_indexes" where
  "index_pane ident st s p ix =
     (case pane_lookup st p of
        None \<Rightarrow> ix
      | Some x \<Rightarrow> fold (index_tab ident st (pn_id x)) (tabs x)
          (ix\<lparr>ix_panes := (ix_panes ix)(pn_public x \<mapsto> pn_id x),
              ix_pane_ids := (ix_pane_ids ix)(pn_id x \<mapsto> pn_public x),
              pane_screen := (pane_screen ix)(pn_id x \<mapsto> s)\<rparr>))"

definition index_screen ::
    "'sf ident \<Rightarrow> 'sf session \<Rightarrow> workspace_id \<Rightarrow> screen \<Rightarrow> slot_indexes \<Rightarrow> slot_indexes" where
  "index_screen ident st w s ix =
     fold (index_pane ident st (sc_id s)) (pane_ids_vec (lroot s))
       (ix\<lparr>ix_screens := (ix_screens ix)(sc_public s \<mapsto> sc_id s),
           screen_ids := (screen_ids ix)(sc_id s \<mapsto> sc_public s),
           screen_workspace := (screen_workspace ix)(sc_id s \<mapsto> w)\<rparr>)"

definition index_workspace ::
    "'sf ident \<Rightarrow> 'sf session \<Rightarrow> workspace \<Rightarrow> slot_indexes \<Rightarrow> slot_indexes" where
  "index_workspace ident st w ix =
     fold (index_screen ident st (ws_id w)) (screens w)
       (ix\<lparr>ix_workspaces := (ix_workspaces ix)(ws_public w \<mapsto> ws_id w),
           workspace_ids := (workspace_ids ix)(ws_id w \<mapsto> ws_public w)\<rparr>)"

definition index_split :: "slot_indexes \<Rightarrow> split_id \<Rightarrow> slot_indexes \<Rightarrow> slot_indexes" where
  "index_split old split ix =
     (case ix_split_ids old split of
        None \<Rightarrow> ix
      | Some public \<Rightarrow> ix\<lparr>ix_splits := (ix_splits ix)(public \<mapsto> split),
                          ix_split_ids := (ix_split_ids ix)(split \<mapsto> public)\<rparr>)"

text \<open>The hash set of live splits, in an order of iteration.\<close>

definition live_split_slots :: "'sf session \<Rightarrow> split_id list" where
  "live_split_slots st =
     remdups (map fst (split_screens st) @
       concat (map (\<lambda>w. concat (map (\<lambda>s. map lc_id (lcolumns s)) (screens w))) (workspaces st)))"

definition rebuild_resource_indexes :: "'sf ident \<Rightarrow> 'sf session \<Rightarrow> 'sf session" where
  "rebuild_resource_indexes ident st =
     st\<lparr>resource_indexes := fold (index_split (resource_indexes st)) (live_split_slots st)
          (fold (index_workspace ident st) (workspaces st) empty_indexes)\<rparr>"

section \<open>The split index\<close>

type_synonym split_index = "(split_id \<times> nat \<times> nat \<times> screen_id) list"

fun index_node :: "node \<Rightarrow> nat \<Rightarrow> nat \<Rightarrow> screen_id \<Rightarrow> split_index \<Rightarrow> split_index" where
  "index_node (Split i _ _ a b) wi si s index =
     index_node b wi si s (index_node a wi si s (AList.update i (wi, si, s) index))"
| "index_node (Leaf _) wi si s index = index"
| "index_node (Stack _ _) wi si s index = index"

fun index_screens_from :: "nat \<Rightarrow> nat \<Rightarrow> screen list \<Rightarrow> split_index \<Rightarrow> split_index" where
  "index_screens_from wi si [] index = index"
| "index_screens_from wi si (s # ss) index =
     index_screens_from wi (Suc si) ss (index_node (lroot s) wi si (sc_id s) index)"

fun index_workspaces_from :: "nat \<Rightarrow> workspace list \<Rightarrow> split_index \<Rightarrow> split_index" where
  "index_workspaces_from wi [] index = index"
| "index_workspaces_from wi (w # ws) index =
     index_workspaces_from (Suc wi) ws (index_screens_from wi 0 (screens w) index)"

definition rebuild_split_screen_index :: "'sf ident \<Rightarrow> 'sf session \<Rightarrow> 'sf session" where
  "rebuild_split_screen_index ident st =
     rebuild_resource_indexes ident (st\<lparr>split_screens := index_workspaces_from 0 (workspaces st) []\<rparr>)"

section \<open>What the split index holds\<close>

lemma index_node_lookup:
  "map_of (index_node n wi si s index) i
     = (if contains_split n i then Some (wi, si, s) else map_of index i)"
  by (induction n wi si s index rule: index_node.induct) (auto simp: AList.update_conv')

definition split_at :: "workspace list \<Rightarrow> split_id \<Rightarrow> nat \<Rightarrow> nat \<Rightarrow> screen_id \<Rightarrow> bool" where
  "split_at ws i wi si s \<longleftrightarrow> wi < length ws \<and> si < length (screens (ws ! wi))
     \<and> sc_id (screens (ws ! wi) ! si) = s \<and> contains_split (lroot (screens (ws ! wi) ! si)) i"

lemma index_screens_sound:
  "map_of (index_screens_from wi k ss index) i = Some (a, b, c) \<Longrightarrow>
     map_of index i = Some (a, b, c)
     \<or> (a = wi \<and> k \<le> b \<and> b - k < length ss \<and> sc_id (ss ! (b - k)) = c \<and> contains_split (lroot (ss ! (b - k))) i)"
proof (induction wi k ss index rule: index_screens_from.induct)
  case (2 wi si s ss index)
  from "2.IH" "2.prems" show ?case
    by (fastforce simp: index_node_lookup Suc_diff_Suc nth_Cons' Suc_le_eq split: if_splits)
qed simp

lemma index_screens_complete:
  "map_of (index_screens_from wi k ss index) i \<noteq> None
     \<longleftrightarrow> map_of index i \<noteq> None \<or> (\<exists>s \<in> set ss. contains_split (lroot s) i)"
  by (induction wi k ss index rule: index_screens_from.induct) (auto simp: index_node_lookup)

lemma index_workspaces_sound:
  "map_of (index_workspaces_from k ws index) i = Some (a, b, c) \<Longrightarrow>
     map_of index i = Some (a, b, c) \<or> (k \<le> a \<and> split_at ws i (a - k) b c)"
proof (induction k ws index rule: index_workspaces_from.induct)
  case (2 wi w ws index)
  from "2.prems" have "map_of (index_workspaces_from (Suc wi) ws (index_screens_from wi 0 (screens w) index)) i = Some (a, b, c)"
    by simp
  from "2.IH" [OF this] show ?case
  proof
    assume "map_of (index_screens_from wi 0 (screens w) index) i = Some (a, b, c)"
    from index_screens_sound [OF this] show ?thesis
      by (auto simp: split_at_def)
  next
    assume "Suc wi \<le> a \<and> split_at ws i (a - Suc wi) b c"
    then show ?thesis
      by (cases "a - wi") (auto simp: split_at_def Suc_diff_le diff_Suc split: nat.splits)
  qed
qed simp

lemma index_workspaces_complete:
  "map_of (index_workspaces_from k ws index) i \<noteq> None
     \<longleftrightarrow> map_of index i \<noteq> None \<or> (\<exists>w \<in> set ws. \<exists>s \<in> set (screens w). contains_split (lroot s) i)"
  by (induction k ws index rule: index_workspaces_from.induct) (simp_all only: index_workspaces_from.simps
      index_screens_complete list.set bex_simps, auto)

lemma split_index_exact:
  "(\<forall>wi si s. map_of (split_screens (rebuild_split_screen_index ident st)) i = Some (wi, si, s)
       \<longrightarrow> split_at (workspaces st) i wi si s)
   \<and> (map_of (split_screens (rebuild_split_screen_index ident st)) i = None
       \<longleftrightarrow> (\<forall>s \<in> set (all_screens st). \<not> contains_split (lroot s) i))"
proof -
  have *: "split_screens (rebuild_split_screen_index ident st) = index_workspaces_from 0 (workspaces st) []"
    by (simp add: rebuild_split_screen_index_def rebuild_resource_indexes_def)
  show ?thesis
    using index_workspaces_sound [of 0 "workspaces st" "[]" i] index_workspaces_complete [of 0 "workspaces st" "[]" i]
    unfolding * by (auto simp: all_screens_def)
qed


section \<open>What the resource indexes hold\<close>

text \<open>A loop seen through one component of the indexes.\<close>

lemma fold_through: "(\<And>x s. f (g x s) = h x (f s)) \<Longrightarrow> f (fold g xs s) = fold h xs (f s)"
  by (induction xs arbitrary: s) simp_all

lemma fold_unchanged: "(\<And>x s. f (g x s) = f s) \<Longrightarrow> f (fold g xs s) = f s"
  by (induction xs arbitrary: s) simp_all

lemma fold_concat: "fold f (concat xss) s = fold (\<lambda>xs. fold f xs) xss s"
  by (induction xss arbitrary: s) simp_all

text \<open>The panes the tree places, in its order, and their tabs.\<close>

definition placed :: "'sf session \<Rightarrow> pane list" where
  "placed st = concat (map (\<lambda>s. List.map_filter (pane_lookup st) (pane_ids_vec (lroot s))) (all_screens st))"

definition placed_tabs :: "'sf session \<Rightarrow> (pane_id \<times> surface_id) list" where
  "placed_tabs st = concat (map (\<lambda>x. map (Pair (pn_id x)) (tabs x)) (placed st))"

text \<open>Every pane of every screen of every workspace is visited once: a component a pane changes by
  \<open>g\<close> is the fold of \<open>g\<close> over the placed panes.\<close>

lemma fold_map_filter:
  "fold g (List.map_filter l ps) s = fold (\<lambda>p. case l p of None \<Rightarrow> id | Some x \<Rightarrow> g x) ps s"
  by (induction ps arbitrary: s) (simp_all add: map_filter_simps split: option.split)

lemma rebuild_component:
  assumes split: "\<And>old i ix. f (index_split old i ix) = f ix"
    and pane: "\<And>s p ix. f (index_pane ident st s p ix) = (case pane_lookup st p of None \<Rightarrow> id | Some x \<Rightarrow> g x) (f ix)"
    and screen: "\<And>ix a b c. f (ix\<lparr>ix_screens := a, screen_ids := b, screen_workspace := c\<rparr>) = f ix"
    and ws: "\<And>ix a b. f (ix\<lparr>ix_workspaces := a, workspace_ids := b\<rparr>) = f ix"
  shows "f (resource_indexes (rebuild_resource_indexes ident st)) = fold g (placed st) (f empty_indexes)"
proof -
  have s: "f (index_screen ident st w s ix) = fold g (List.map_filter (pane_lookup st) (pane_ids_vec (lroot s))) (f ix)" for w s ix
    unfolding index_screen_def fold_map_filter by (subst fold_through [of f "index_pane ident st (sc_id s)", OF pane]) (simp add: screen)
  have w: "f (index_workspace ident st w ix)
      = fold (\<lambda>s. fold g (List.map_filter (pane_lookup st) (pane_ids_vec (lroot s)))) (screens w) (f ix)" for w ix
    unfolding index_workspace_def by (subst fold_through [of f "index_screen ident st (ws_id w)", OF s]) (simp add: ws)
  have "f (resource_indexes (rebuild_resource_indexes ident st)) = f (fold (index_workspace ident st) (workspaces st) empty_indexes)"
    unfolding rebuild_resource_indexes_def by (simp add: fold_unchanged [of f, OF split])
  also have "\<dots> = fold g (placed st) (f empty_indexes)"
    by (simp add: fold_through [of f "index_workspace ident st", OF w] placed_def all_screens_def fold_concat fold_map comp_def map_concat
        del: fold_map_filter)
  finally show ?thesis .
qed

lemma index_tab_other [simp]: "ix_panes (index_tab ident st p t ix) = ix_panes ix"
  by (simp add: index_tab_def split: option.split prod.split)

lemma rebuilt_panes:
  "ix_panes (resource_indexes (rebuild_resource_indexes ident st))
     = fold (\<lambda>x m. m(pn_public x \<mapsto> pn_id x)) (placed st) Map.empty"
proof -
  have "ix_panes (index_pane ident st s p ix)
      = (case pane_lookup st p of None \<Rightarrow> id | Some x \<Rightarrow> (\<lambda>m. m(pn_public x \<mapsto> pn_id x))) (ix_panes ix)" for s p ix
    by (simp add: index_pane_def fold_unchanged [of ix_panes] split: option.split)
  from rebuild_component [of ix_panes, OF _ this] show ?thesis
    by (simp add: index_split_def empty_indexes_def split: option.split)
qed

definition record_tab :: "'sf ident \<Rightarrow> 'sf session \<Rightarrow> pane_id \<times> surface_id \<Rightarrow> (surface_id \<rightharpoonup> pane_id) \<Rightarrow> (surface_id \<rightharpoonup> pane_id)" where
  "record_tab ident st e m = (if tab_identity ident st (snd e) = None then m else m(snd e \<mapsto> fst e))"

lemma rebuilt_tab_pane:
  "tab_pane (resource_indexes (rebuild_resource_indexes ident st)) = fold (record_tab ident st) (placed_tabs st) Map.empty"
proof -
  have t: "tab_pane (index_tab ident st p t ix) = record_tab ident st (p, t) (tab_pane ix)" for p t ix
    by (simp add: index_tab_def record_tab_def split: option.split)
  have "tab_pane (index_pane ident st s p ix)
      = (case pane_lookup st p of None \<Rightarrow> id | Some x \<Rightarrow> fold (record_tab ident st) (map (Pair (pn_id x)) (tabs x))) (tab_pane ix)" for s p ix
    by (simp add: index_pane_def fold_through [of tab_pane "index_tab ident st q" "\<lambda>t. record_tab ident st (q, t)" for q, OF t] fold_map comp_def split: option.split)
  from rebuild_component [of tab_pane, OF _ this] show ?thesis
    by (simp add: index_split_def empty_indexes_def placed_tabs_def fold_concat fold_map comp_def split: option.split)
qed

definition record_placement ::
    "'sf ident \<Rightarrow> 'sf session \<Rightarrow> surface_id \<Rightarrow> (content_id \<rightharpoonup> surface_id list) \<Rightarrow> (content_id \<rightharpoonup> surface_id list)" where
  "record_placement ident st t m = (case tab_identity ident st t of
     None \<Rightarrow> m
   | Some (_, c) \<Rightarrow> m(c \<mapsto> (case m c of Some ts \<Rightarrow> ts | None \<Rightarrow> []) @ [t]))"

lemma rebuilt_placements:
  "content_placements (resource_indexes (rebuild_resource_indexes ident st))
     = fold (record_placement ident st) (map snd (placed_tabs st)) Map.empty"
proof -
  have t: "content_placements (index_tab ident st p t ix) = record_placement ident st t (content_placements ix)" for p t ix
    by (simp add: index_tab_def record_placement_def split: option.split prod.split)
  have "content_placements (index_pane ident st s p ix)
      = (case pane_lookup st p of None \<Rightarrow> id | Some x \<Rightarrow> fold (record_placement ident st) (tabs x)) (content_placements ix)" for s p ix
    by (simp add: index_pane_def fold_through [of content_placements "index_tab ident st q" "record_placement ident st" for q, OF t] split: option.split)
  from rebuild_component [of content_placements, OF _ this] show ?thesis
    by (simp add: index_split_def empty_indexes_def placed_tabs_def map_concat fold_concat fold_map comp_def split: option.split)
qed

lemma fold_update_lookup:
  "distinct (map k xs) \<Longrightarrow>
     fold (\<lambda>x m. m(k x \<mapsto> v x)) xs m i = (case List.find (\<lambda>x. k x = i) xs of Some x \<Rightarrow> Some (v x) | None \<Rightarrow> m i)"
proof (induction xs arbitrary: m)
  case (Cons y xs)
  have "List.find (\<lambda>x. k x = k y) xs = None"
    using Cons.prems by (auto simp: find_None_iff) (metis image_eqI)
  with Cons show ?case
    by (auto split: option.split)
qed simp

lemma record_placement_lookup:
  "(case fold (record_placement ident st) ts m c of Some us \<Rightarrow> us | None \<Rightarrow> [])
     = (case m c of Some us \<Rightarrow> us | None \<Rightarrow> []) @ filter (\<lambda>t. map_option snd (tab_identity ident st t) = Some c) ts"
  by (induction ts arbitrary: m) (auto simp: record_placement_def split: option.splits)

lemma record_tab_lookup:
  "\<forall>(p, t) \<in> set es. \<forall>(q, u) \<in> set es. t = u \<longrightarrow> p = q \<Longrightarrow>
     fold (record_tab ident st) es m t = Some p \<longleftrightarrow>
       (tab_identity ident st t \<noteq> None \<and> (p, t) \<in> set es) \<or> ((tab_identity ident st t = None \<or> t \<notin> snd ` set es) \<and> m t = Some p)"
proof (induction es arbitrary: m)
  case (Cons e es)
  obtain q u where e: "e = (q, u)"
    by (cases e)
  have "\<forall>(p, t) \<in> set es. \<forall>(q, u) \<in> set es. t = u \<longrightarrow> p = q"
    using Cons.prems by auto
  note IH = Cons.IH [OF this]
  have "u = t \<Longrightarrow> (p', t) \<in> set es \<Longrightarrow> p' = q" for p'
    using Cons.prems e by fastforce
  then show ?case
    unfolding fold_simps comp_apply IH by (auto simp: e record_tab_def split: if_splits)
qed simp


section \<open>In a well-formed session\<close>

lemma placed_eq: "placed st = List.map_filter (pane_lookup st) (concat (map (\<lambda>s. pane_ids_vec (lroot s)) (all_screens st)))"
proof -
  have append: "List.map_filter f (xs @ ys) = List.map_filter f xs @ List.map_filter f ys" for f :: "pane_id \<Rightarrow> pane option" and xs ys
    by (simp add: List.map_filter_def)
  have "concat (map (\<lambda>s. List.map_filter (pane_lookup st) (g s)) ss) = List.map_filter (pane_lookup st) (concat (map g ss))"
    for g :: "screen \<Rightarrow> pane_id list" and ss
    by (induction ss) (simp_all add: append map_filter_simps)
  then show ?thesis
    by (simp add: placed_def)
qed

lemma placed_ok:
  assumes ok: "session_ok st"
  shows "distinct (map pn_id (placed st))" and "set (placed st) = snd ` set (ses_panes st)"
    and "x \<in> set (placed st) \<Longrightarrow> pane_lookup st (pn_id x) = Some x"
proof -
  let ?ids = "concat (map (\<lambda>s. pane_ids_vec (lroot s)) (all_screens st))"
  have d: "distinct ?ids" and ids: "set ?ids = fst ` set (ses_panes st)" and m: "distinct (map fst (ses_panes st))"
    and pn: "\<And>k x. (k, x) \<in> set (ses_panes st) \<Longrightarrow> pn_id x = k"
    using ok by (auto simp: session_ok_def ses_ok_def screens_ok_def panes_ok_def)
  have look: "pane_lookup st k = Some x \<longleftrightarrow> (k, x) \<in> set (ses_panes st)" for k x
    using m by (simp add: pane_lookup_def)
  have all: "\<exists>x. pane_lookup st k = Some x \<and> pn_id x = k" if "k \<in> set ?ids" for k
    using that pn unfolding ids look by force
  have "map pn_id (List.map_filter (pane_lookup st) ks) = ks" if "set ks \<subseteq> set ?ids" for ks
    using that
  proof (induction ks)
    case (Cons k ks)
    with all [of k] show ?case
      by (auto simp: map_filter_simps)
  qed (simp add: map_filter_simps)
  from this [of ?ids] d show "distinct (map pn_id (placed st))"
    by (simp add: placed_eq)
  have "set (List.map_filter f ks) = {x. \<exists>k \<in> set ks. f k = Some x}" for f :: "pane_id \<Rightarrow> pane option" and ks
    by (induction ks) (auto simp: map_filter_simps split: option.splits)
  then have "set (placed st) = {x. \<exists>k \<in> set ?ids. pane_lookup st k = Some x}"
    by (simp only: placed_eq)
  also have "\<dots> = snd ` set (ses_panes st)"
    unfolding look ids by force
  finally show *: "set (placed st) = snd ` set (ses_panes st)" .
  show "pane_lookup st (pn_id x) = Some x" if "x \<in> set (placed st)"
    using that pn unfolding * look by force
qed

lemma placed_tabs_ok:
  assumes "session_ok st"
  shows "(p, t) \<in> set (placed_tabs st) \<longleftrightarrow> tab_pane (resource_indexes st) t = Some p"
proof -
  have ix: "tabs_indexed (tab_pane (resource_indexes st)) (ses_panes st)"
    and pn: "\<And>k x. (k, x) \<in> set (ses_panes st) \<Longrightarrow> pn_id x = k"
    using assms by (auto simp: session_ok_def ses_ok_def panes_ok_def)
  have "(p, t) \<in> set (placed_tabs st) \<longleftrightarrow> (\<exists>x \<in> set (placed st). pn_id x = p \<and> t \<in> set (tabs x))"
    by (auto simp: placed_tabs_def)
  also have "\<dots> \<longleftrightarrow> (\<exists>x. (p, x) \<in> set (ses_panes st) \<and> t \<in> set (tabs x))"
    unfolding placed_ok(2) [OF assms] using pn by force
  finally show ?thesis
    using ix by (simp add: tabs_indexed_def)
qed

lemma rebuild_tab_pane:
  assumes ok: "session_ok st" and id: "\<forall>t \<in> set (pane_tabs (ses_panes st)). tab_identity ident st t \<noteq> None"
  shows "tab_pane (resource_indexes (rebuild_resource_indexes ident st)) = tab_pane (resource_indexes st)"
proof
  fix t
  let ?f = "fold (record_tab ident st) (placed_tabs st) Map.empty"
  have "\<forall>(p, t) \<in> set (placed_tabs st). \<forall>(q, u) \<in> set (placed_tabs st). t = u \<longrightarrow> p = q"
    by (auto simp: placed_tabs_ok [OF ok])
  note lookup = record_tab_lookup [OF this, of ident st Map.empty t]
  have known: "tab_identity ident st t \<noteq> None" if "tab_pane (resource_indexes st) t = Some p" for p
  proof -
    have "t \<in> set (pane_tabs (ses_panes st))"
      using that ok by (force simp: session_ok_def ses_ok_def tabs_indexed_def pane_tabs_def)
    with id show ?thesis by blast
  qed
  have "?f t = Some p \<longleftrightarrow> tab_pane (resource_indexes st) t = Some p" for p
    using lookup [of p] known by (auto simp: placed_tabs_ok [OF ok])
  then show "tab_pane (resource_indexes (rebuild_resource_indexes ident st)) t = tab_pane (resource_indexes st) t"
    unfolding rebuilt_tab_pane by (metis option.exhaust)
qed

lemma rebuild_simps [simp]:
  "ses_panes (rebuild_resource_indexes ident st) = ses_panes st"
  "surfaces (rebuild_resource_indexes ident st) = surfaces st"
  "workspaces (rebuild_resource_indexes ident st) = workspaces st"
  "mux_next_id (rebuild_resource_indexes ident st) = mux_next_id st"
  by (simp_all add: rebuild_resource_indexes_def)

lemma rebuild_pane_lookup:
  assumes ok: "session_ok st" and d: "distinct (map (pn_public \<circ> snd) (ses_panes st))"
  shows "pane_by_public_id (rebuild_resource_indexes ident st) i = Some x \<longleftrightarrow> x \<in> snd ` set (ses_panes st) \<and> pn_public x = i"
proof -
  have pub: "x = y" if "x \<in> set (placed st)" "y \<in> set (placed st)" "pn_public x = pn_public y" for x y
  proof -
    from that obtain j k where "(j, x) \<in> set (ses_panes st)" "(k, y) \<in> set (ses_panes st)"
      unfolding placed_ok(2) [OF ok] by auto
    with d that(3) show ?thesis
      by (fastforce simp: distinct_map inj_on_def)
  qed
  have "distinct (placed st)"
    using placed_ok(1) [OF ok] by (simp add: distinct_map)
  with pub have "distinct (map pn_public (placed st))"
    by (auto simp: distinct_map inj_on_def)
  note f = fold_update_lookup [OF this, of pn_id Map.empty i]
  have find: "List.find (\<lambda>x. pn_public x = i) (placed st) = Some x \<longleftrightarrow> x \<in> set (placed st) \<and> pn_public x = i" for x
  proof
    assume "x \<in> set (placed st) \<and> pn_public x = i"
    then obtain y where "List.find (\<lambda>x. pn_public x = i) (placed st) = Some y"
      by (cases "List.find (\<lambda>x. pn_public x = i) (placed st)") (auto simp: find_None_iff)
    with find_SomeD [OF this] pub [of y x] \<open>x \<in> set (placed st) \<and> pn_public x = i\<close>
    show "List.find (\<lambda>x. pn_public x = i) (placed st) = Some x"
      by auto
  qed (auto dest: find_SomeD)
  have "pane_by_public_id (rebuild_resource_indexes ident st) i = List.find (\<lambda>x. pn_public x = i) (placed st)"
  proof (cases "List.find (\<lambda>x. pn_public x = i) (placed st)")
    case None
    then show ?thesis
      by (simp add: pane_by_public_id_def rebuilt_panes f)
  next
    case (Some y)
    with find [of y] have "pane_lookup st (pn_id y) = Some y"
      using placed_ok(3) [OF ok] by blast
    with Some show ?thesis
      by (simp add: pane_by_public_id_def rebuilt_panes f pane_lookup_def)
  qed
  with find placed_ok(2) [OF ok] show ?thesis
    by simp
qed

end
