(* ===== verification/SessionProps.thy ===== *)
theory SessionProps
  imports SessionIndex
begin

text \<open>
  What the session promises: its indexes agree with its tree, moving and removing tabs keeps them
  so, and no sequence of these operations reaches a panic.
\<close>

section \<open>The workspace indexes\<close>

definition workspaces_indexed :: "'sf session \<Rightarrow> bool" where
  "workspaces_indexed st \<longleftrightarrow> distinct (map ws_id (workspaces st)) \<and> distinct (map ws_key (workspaces st))
     \<and> (\<forall>i. workspace_index_by_id st i = position (\<lambda>w. ws_id w = i) (workspaces st))
     \<and> (\<forall>k. workspace_id_by_key st k = map_option ws_id (List.find (\<lambda>w. ws_key w = k) (workspaces st)))"

lemma index_workspaces_ids:
  "distinct (map ws_id ws) \<Longrightarrow> fst (index_workspaces k ws ids keys) i
     = (case position (\<lambda>w. ws_id w = i) ws of Some j \<Rightarrow> Some (k + j) | None \<Rightarrow> ids i)"
proof (induction k ws ids keys rule: index_workspaces.induct)
  case (2 k w ws ids keys)
  have "position (\<lambda>v. ws_id v = ws_id w) ws = None"
    using 2(2) by (auto simp: position_None_iff image_iff)
  with 2 show ?case
    by (auto simp: fun_upd_def split: option.splits)
qed simp

lemma index_workspaces_keys:
  "distinct (map ws_key ws) \<Longrightarrow> snd (index_workspaces k ws ids keys) i
     = (case List.find (\<lambda>w. ws_key w = i) ws of Some w \<Rightarrow> Some (ws_id w) | None \<Rightarrow> keys i)"
proof (induction k ws ids keys rule: index_workspaces.induct)
  case (2 k w ws ids keys)
  have "List.find (\<lambda>v. ws_key v = ws_key w) ws = None"
    using 2(2) by (auto simp: find_None_iff image_iff)
  with 2 show ?case
    by (auto simp: fun_upd_def split: option.splits)
qed simp

lemma rebuild_indexed:
  assumes "distinct (map ws_id (workspaces st))" and "distinct (map ws_key (workspaces st))"
  shows "workspaces_indexed (rebuild_workspace_indexes st)"
  using assms index_workspaces_ids [OF assms(1), of 0 Map.empty Map.empty]
    index_workspaces_keys [OF assms(2), of 0 Map.empty Map.empty]
  by (simp add: workspaces_indexed_def rebuild_workspace_indexes_def case_prod_beta option.case_eq_if map_option_case)

lemma position_append:
  "position P (xs @ ys) = (case position P xs of Some i \<Rightarrow> Some i | None \<Rightarrow> map_option ((+) (length xs)) (position P ys))"
proof (induction xs)
  case (Cons x xs)
  have "map_option Suc (map_option ((+) (length xs)) r) = map_option ((+) (length (x # xs))) r" for r
    by (cases r) simp_all
  with Cons show ?case
    by (simp split: option.split)
qed (cases "position P ys"; simp)

lemma find_append:
  "List.find P (xs @ ys) = (case List.find P xs of Some x \<Rightarrow> Some x | None \<Rightarrow> List.find P ys)"
  by (induction xs) auto

lemma push_indexed:
  assumes "workspaces_indexed st" and "ws_id w \<notin> ws_id ` set (workspaces st)" and "ws_key w \<notin> ws_key ` set (workspaces st)"
  shows "workspaces_indexed (push_workspace st w)"
proof -
  have "position (\<lambda>v. ws_id v = ws_id w) (workspaces st) = None" "List.find (\<lambda>v. ws_key v = ws_key w) (workspaces st) = None"
    using assms(2,3) by (auto simp: position_None_iff find_None_iff image_iff)
  with assms show ?thesis
    by (auto simp: workspaces_indexed_def push_workspace_def Let_def position_append find_append split: option.split)
qed

lemma rebuild_workspace_simps [simp]:
  "workspaces (rebuild_workspace_indexes st) = workspaces st"
  by (simp add: rebuild_workspace_indexes_def case_prod_beta)

lemma map_remove_at: "map f (remove_at i xs) = remove_at i (map f xs)"
  by (simp add: remove_at_def take_map drop_map)

lemma remove_indexed:
  assumes "workspaces_indexed st" and "i < length (workspaces st)"
  shows "\<exists>st'. remove_workspace st i = Some (st', workspaces st ! i) \<and> workspaces_indexed st'
    \<and> workspaces st' = remove_at i (workspaces st)"
proof -
  have "distinct (map ws_id (remove_at i (workspaces st)))" "distinct (map ws_key (remove_at i (workspaces st)))"
    using assms remove_at_distinct [of "map ws_id (workspaces st)" i] remove_at_distinct [of "map ws_key (workspaces st)" i]
    by (simp_all add: map_remove_at workspaces_indexed_def)
  with assms(2) show ?thesis
    by (simp add: remove_workspace_def Let_def rebuild_indexed)
qed

lemma move_mset:
  assumes "i < length xs" and "j < length xs"
  shows "mset (insert_at j (xs ! i) (remove_at i xs)) = mset xs"
  using remove_at_split [OF assms(1)] assms by (simp add: length_remove_at)

lemma move_indexed:
  assumes "workspaces_indexed st" and "i < length (workspaces st)" and "j < length (workspaces st)"
  shows "\<exists>st'. move_workspace st i j = Some st' \<and> workspaces_indexed st'
    \<and> workspaces st' = insert_at j (workspaces st ! i) (remove_at i (workspaces st))"
proof -
  let ?ws = "insert_at j (workspaces st ! i) (remove_at i (workspaces st))"
  have "mset (map f ?ws) = mset (map f (workspaces st))" for f :: "workspace \<Rightarrow> 'x"
    using move_mset [OF assms(2,3)] by simp
  then have "distinct (map ws_id ?ws)" "distinct (map ws_key ?ws)"
    using assms(1) mset_eq_imp_distinct_iff unfolding workspaces_indexed_def by metis+
  with assms(2,3) show ?thesis
    by (simp add: move_workspace_def rebuild_indexed)
qed

lemma lookup_indexed:
  assumes "workspaces_indexed st"
  shows "workspace_by_id st i = List.find (\<lambda>w. ws_id w = i) (workspaces st)"
    and "workspace_by_key st k = List.find (\<lambda>w. ws_key w = k) (workspaces st)"
proof -
  show id: "workspace_by_id st i = List.find (\<lambda>w. ws_id w = i) (workspaces st)" for i
    using assms by (auto simp: workspaces_indexed_def workspace_by_id_def workspace_index_def find_Some_iff_position
        nth_opt_def dest: position_Some_less split: option.splits bind_splits)
  have "List.find (\<lambda>v. ws_id v = ws_id w) (workspaces st) = Some w" if w: "w \<in> set (workspaces st)" for w
  proof -
    obtain v where v: "List.find (\<lambda>v. ws_id v = ws_id w) (workspaces st) = Some v"
      using w by (cases "List.find (\<lambda>v. ws_id v = ws_id w) (workspaces st)") (auto simp: find_None_iff)
    from find_SomeD [OF v] w assms have "v = w"
      by (auto simp: workspaces_indexed_def distinct_map inj_on_def)
    with v show ?thesis by simp
  qed
  then show "workspace_by_key st k = List.find (\<lambda>w. ws_key w = k) (workspaces st)"
    using assms by (cases "List.find (\<lambda>w. ws_key w = k) (workspaces st)")
      (auto simp: workspaces_indexed_def workspace_by_key_def id dest: find_SomeD)
qed


section \<open>Every level is indexed\<close>

text \<open>The screens with their workspaces and the panes with their screens, in the order of the tree.\<close>

definition screen_entries :: "'sf session \<Rightarrow> (workspace_id \<times> screen) list" where
  "screen_entries st = concat (map (\<lambda>w. map (Pair (ws_id w)) (screens w)) (workspaces st))"

definition pane_entries :: "'sf session \<Rightarrow> (screen_id \<times> pane) list" where
  "pane_entries st =
     concat (map (\<lambda>s. map (Pair (sc_id s)) (List.map_filter (pane_lookup st) (pane_ids_vec (lroot s)))) (all_screens st))"

lemma rebuild_screen_component:
  assumes split: "\<And>old i ix. f (index_split old i ix) = f ix"
    and pane: "\<And>s p ix. f (index_pane ident st s p ix) = f ix"
    and screen: "\<And>w s ix. f (ix\<lparr>ix_screens := (ix_screens ix)(sc_public s \<mapsto> sc_id s),
           screen_ids := (screen_ids ix)(sc_id s \<mapsto> sc_public s),
           screen_workspace := (screen_workspace ix)(sc_id s \<mapsto> w)\<rparr>) = h (w, s) (f ix)"
    and ws: "\<And>ix a b. f (ix\<lparr>ix_workspaces := a, workspace_ids := b\<rparr>) = f ix"
  shows "f (resource_indexes (rebuild_resource_indexes ident st)) = fold h (screen_entries st) (f empty_indexes)"
proof -
  have s: "f (index_screen ident st w s ix) = h (w, s) (f ix)" for w s ix
    unfolding index_screen_def by (subst fold_unchanged [of f, OF pane]) (rule screen)
  have w: "f (index_workspace ident st w ix) = fold h (map (Pair (ws_id w)) (screens w)) (f ix)" for w ix
    unfolding index_workspace_def fold_map comp_def
    by (subst fold_through [of f "index_screen ident st (ws_id w)", OF s]) (simp add: ws)
  have "f (resource_indexes (rebuild_resource_indexes ident st)) = f (fold (index_workspace ident st) (workspaces st) empty_indexes)"
    unfolding rebuild_resource_indexes_def by (simp add: fold_unchanged [of f, OF split])
  also have "\<dots> = fold h (screen_entries st) (f empty_indexes)"
    by (simp add: fold_through [of f "index_workspace ident st", OF w] screen_entries_def fold_concat fold_map comp_def)
  finally show ?thesis .
qed

lemma rebuild_pane_component:
  assumes split: "\<And>old i ix. f (index_split old i ix) = f ix"
    and pane: "\<And>s p ix. f (index_pane ident st s p ix) = (case pane_lookup st p of None \<Rightarrow> id | Some x \<Rightarrow> g (s, x)) (f ix)"
    and screen: "\<And>ix a b c. f (ix\<lparr>ix_screens := a, screen_ids := b, screen_workspace := c\<rparr>) = f ix"
    and ws: "\<And>ix a b. f (ix\<lparr>ix_workspaces := a, workspace_ids := b\<rparr>) = f ix"
  shows "f (resource_indexes (rebuild_resource_indexes ident st)) = fold g (pane_entries st) (f empty_indexes)"
proof -
  let ?g = "\<lambda>s. fold g (map (Pair (sc_id s)) (List.map_filter (pane_lookup st) (pane_ids_vec (lroot s))))"
  have s: "f (index_screen ident st w s ix) = ?g s (f ix)" for w s ix
    unfolding index_screen_def fold_map fold_map_filter comp_def
    by (subst fold_through [of f "index_pane ident st (sc_id s)", OF pane]) (simp add: screen)
  have w: "f (index_workspace ident st w ix) = fold ?g (screens w) (f ix)" for w ix
    unfolding index_workspace_def by (subst fold_through [of f "index_screen ident st (ws_id w)", OF s]) (simp add: ws)
  have "f (resource_indexes (rebuild_resource_indexes ident st)) = f (fold (index_workspace ident st) (workspaces st) empty_indexes)"
    unfolding rebuild_resource_indexes_def by (simp add: fold_unchanged [of f, OF split])
  also have "\<dots> = fold g (pane_entries st) (f empty_indexes)"
    by (simp add: fold_through [of f "index_workspace ident st", OF w] pane_entries_def all_screens_def fold_concat
        fold_map comp_def map_concat)
  finally show ?thesis .
qed

lemma index_tab_keeps [simp]:
  "pane_screen (index_tab ident st p t ix) = pane_screen ix" "ix_pane_ids (index_tab ident st p t ix) = ix_pane_ids ix"
  "screen_ids (index_tab ident st p t ix) = screen_ids ix" "screen_workspace (index_tab ident st p t ix) = screen_workspace ix"
  "workspace_ids (index_tab ident st p t ix) = workspace_ids ix"
  by (simp_all add: index_tab_def split: option.split prod.split)

lemma index_pane_keeps [simp]:
  "screen_ids (index_pane ident st s p ix) = screen_ids ix" "screen_workspace (index_pane ident st s p ix) = screen_workspace ix"
  "workspace_ids (index_pane ident st s p ix) = workspace_ids ix"
  by (simp_all add: index_pane_def fold_unchanged [of screen_ids] fold_unchanged [of screen_workspace]
      fold_unchanged [of workspace_ids] split: option.split)

lemma index_split_keeps [simp]:
  "screen_ids (index_split old i ix) = screen_ids ix" "screen_workspace (index_split old i ix) = screen_workspace ix"
  "workspace_ids (index_split old i ix) = workspace_ids ix" "pane_screen (index_split old i ix) = pane_screen ix"
  "ix_pane_ids (index_split old i ix) = ix_pane_ids ix" "tab_ids (index_split old i ix) = tab_ids ix"
  by (simp_all add: index_split_def split: option.split)

lemma rebuilt_screens:
  "screen_ids (resource_indexes (rebuild_resource_indexes ident st))
     = fold (\<lambda>e m. m(sc_id (snd e) \<mapsto> sc_public (snd e))) (screen_entries st) Map.empty"
  "screen_workspace (resource_indexes (rebuild_resource_indexes ident st))
     = fold (\<lambda>e m. m(sc_id (snd e) \<mapsto> fst e)) (screen_entries st) Map.empty"
  by (subst rebuild_screen_component [where h = "\<lambda>e m. m(sc_id (snd e) \<mapsto> sc_public (snd e))"], simp_all add: empty_indexes_def)
    (subst rebuild_screen_component [where h = "\<lambda>e m. m(sc_id (snd e) \<mapsto> fst e)"], simp_all add: empty_indexes_def)

lemma rebuilt_pane_levels:
  "pane_screen (resource_indexes (rebuild_resource_indexes ident st))
     = fold (\<lambda>e m. m(pn_id (snd e) \<mapsto> fst e)) (pane_entries st) Map.empty"
  "ix_pane_ids (resource_indexes (rebuild_resource_indexes ident st))
     = fold (\<lambda>e m. m(pn_id (snd e) \<mapsto> pn_public (snd e))) (pane_entries st) Map.empty"
  by (subst rebuild_pane_component [where g = "\<lambda>e m. m(pn_id (snd e) \<mapsto> fst e)"],
        simp_all add: empty_indexes_def index_pane_def fold_unchanged [of pane_screen] split: option.split)
    (subst rebuild_pane_component [where g = "\<lambda>e m. m(pn_id (snd e) \<mapsto> pn_public (snd e))"],
        simp_all add: empty_indexes_def index_pane_def fold_unchanged [of ix_pane_ids] split: option.split)

lemma rebuilt_workspaces:
  "workspace_ids (resource_indexes (rebuild_resource_indexes ident st))
     = fold (\<lambda>w m. m(ws_id w \<mapsto> ws_public w)) (workspaces st) Map.empty"
proof -
  have "workspace_ids (index_screen ident st w s ix) = workspace_ids ix" for w s ix
    by (simp add: index_screen_def fold_unchanged [of workspace_ids])
  then have w: "workspace_ids (index_workspace ident st w ix) = (workspace_ids ix)(ws_id w \<mapsto> ws_public w)" for w ix
    by (simp add: index_workspace_def fold_unchanged [of workspace_ids])
  have "workspace_ids (fold (index_workspace ident st) (workspaces st) empty_indexes)
      = fold (\<lambda>w m. m(ws_id w \<mapsto> ws_public w)) (workspaces st) (workspace_ids empty_indexes)"
    by (rule fold_through) (rule w)
  then show ?thesis
    by (simp add: rebuild_resource_indexes_def fold_unchanged [of workspace_ids] empty_indexes_def)
qed

lemma rebuilt_tab_ids:
  "tab_ids (resource_indexes (rebuild_resource_indexes ident st)) t \<noteq> None
     \<longleftrightarrow> (\<exists>x \<in> set (placed st). t \<in> set (tabs x)) \<and> tab_identity ident st t \<noteq> None"
proof -
  let ?f = "\<lambda>t m. case tab_identity ident st t of None \<Rightarrow> m | Some (tab, content) \<Rightarrow> m(t \<mapsto> tab)"
  have one: "tab_ids (index_tab ident st p t ix) = ?f t (tab_ids ix)" for p t ix
    by (simp add: index_tab_def split: option.split prod.split)
  have "tab_ids (index_pane ident st s p ix)
      = (case pane_lookup st p of None \<Rightarrow> id | Some x \<Rightarrow> fold ?f (tabs x)) (tab_ids ix)" for s p ix
    by (simp add: index_pane_def fold_through [of tab_ids "index_tab ident st q" ?f for q, OF one] split: option.split)
  from rebuild_component [of tab_ids, OF index_split_keeps(6) this]
  have eq: "tab_ids (resource_indexes (rebuild_resource_indexes ident st)) = fold (\<lambda>x. fold ?f (tabs x)) (placed st) Map.empty"
    by (simp add: empty_indexes_def)
  have tabs: "fold ?f ts m t \<noteq> None \<longleftrightarrow> m t \<noteq> None \<or> (t \<in> set ts \<and> tab_identity ident st t \<noteq> None)" for ts m
    by (induction ts arbitrary: m) (auto split: option.splits)
  have "fold (\<lambda>x. fold ?f (tabs x)) xs m t \<noteq> None
      \<longleftrightarrow> m t \<noteq> None \<or> ((\<exists>x \<in> set xs. t \<in> set (tabs x)) \<and> tab_identity ident st t \<noteq> None)" for xs m
  proof (induction xs arbitrary: m)
    case (Cons x xs)
    show ?case
      unfolding fold_simps comp_apply Cons.IH tabs by auto
  qed simp
  from this [of "placed st" Map.empty] show ?thesis
    unfolding eq by simp
qed

lemma fold_update_in:
  assumes "distinct (map k xs)" and "x \<in> set xs"
  shows "fold (\<lambda>x m. m(k x \<mapsto> v x)) xs m (k x) = Some (v x)"
proof -
  obtain y where y: "List.find (\<lambda>z. k z = k x) xs = Some y"
    using assms(2) by (cases "List.find (\<lambda>z. k z = k x) xs") (auto simp: find_None_iff)
  from find_SomeD [OF y] assms have "y = x"
    by (auto simp: distinct_map inj_on_def)
  with y show ?thesis
    by (simp add: fold_update_lookup [OF assms(1)])
qed

definition levels_indexed :: "'sf session \<Rightarrow> bool" where
  "levels_indexed st \<longleftrightarrow>
     (let ix = resource_indexes st in
      (\<forall>w \<in> set (workspaces st). workspace_ids ix (ws_id w) \<noteq> None
        \<and> (\<forall>s \<in> set (screens w). screen_ids ix (sc_id s) \<noteq> None \<and> screen_workspace ix (sc_id s) = Some (ws_id w)
            \<and> (\<forall>p \<in> layout_panes s. pane_screen ix p = Some (sc_id s) \<and> ix_pane_ids ix p \<noteq> None)))
      \<and> (\<forall>(p, x) \<in> set (ses_panes st). \<forall>t \<in> set (tabs x). tab_pane ix t = Some p \<and> tab_ids ix t \<noteq> None))"


section \<open>Sequences of operations\<close>

text \<open>A machine whose steps never fail on good states and lose a known part of the content.\<close>

locale accounting =
  fixes step :: "'o \<Rightarrow> 's \<Rightarrow> 'e + 's"
    and good :: "'s \<Rightarrow> bool"
    and content :: "'s \<Rightarrow> 'c multiset"
    and loses :: "'o \<Rightarrow> 'c multiset"
  assumes step_good: "good s \<Longrightarrow> \<exists>s'. step e s = Inr s' \<and> good s' \<and> content s' = content s - loses e"
begin

fun run :: "'o list \<Rightarrow> 's \<Rightarrow> 'e + 's" where
  "run [] s = Inr s"
| "run (e # es) s = rbind (step e s) (run es)"

lemma run_good:
  "good s \<Longrightarrow> \<exists>s'. run es s = Inr s' \<and> good s' \<and> content s' = content s - (\<Sum>e\<leftarrow>es. loses e)"
proof (induction es arbitrary: s)
  case (Cons e es)
  from step_good [OF Cons.prems, of e] obtain s' where s': "step e s = Inr s'" "good s'" "content s' = content s - loses e"
    by blast
  from Cons.IH [OF s'(2)] s'(1,3) show ?case
    by (auto simp: diff_diff_add_mset)
qed simp

end

datatype session_op = MoveTab surface_id pane_id nat | RemoveSurface surface_id
  | StampPaneFocus pane_id | FenceLayoutUndo "pane_id list" | RebuildIndexes

definition session_step :: "'sf ident \<Rightarrow> session_op \<Rightarrow> 'sf session \<Rightarrow> session_error + 'sf session" where
  "session_step ident e st = (case e of
     MoveTab t p index \<Rightarrow> rmap fst (move_tab_in_state st t p index)
   | RemoveSurface t \<Rightarrow> rmap fst (remove_surface st t)
   | StampPaneFocus p \<Rightarrow> Inr (stamp_pane_focus st p)
   | FenceLayoutUndo ps \<Rightarrow> Inr (fence_layout_undo_for_tab_membership st ps)
   | RebuildIndexes \<Rightarrow> Inr (rebuild_split_screen_index ident st))"

fun op_removes :: "session_op \<Rightarrow> surface_id multiset" where
  "op_removes (RemoveSurface t) = {#t#}"
| "op_removes _ = {#}"

definition identified :: "'sf ident \<Rightarrow> 'sf session \<Rightarrow> bool" where
  "identified ident st \<longleftrightarrow> (\<forall>(t, sf) \<in> set (surfaces st). ident sf \<noteq> None)"

lemma identified_tabs:
  assumes "session_ok st" and "identified ident st" and "t \<in> set (pane_tabs (ses_panes st))"
  shows "tab_identity ident st t \<noteq> None"
proof -
  have "t \<in> fst ` set (surfaces st)"
    using assms(1,3) by (auto simp: session_ok_def ses_ok_def)
  then obtain sf where "map_of (surfaces st) t = Some sf"
    by (metis map_of_eq_None_iff not_None_eq)
  moreover from this assms(2) obtain i where "ident sf = Some i"
    by (fastforce simp: identified_def dest: map_of_SomeD)
  ultimately show ?thesis
    by (simp add: tab_identity_def)
qed

lemma rebuild_ok:
  assumes ok: "session_ok st" and id: "identified ident st"
  shows "session_ok (rebuild_split_screen_index ident st)"
proof -
  let ?st = "st\<lparr>split_screens := index_workspaces_from 0 (workspaces st) []\<rparr>"
  have same: "session_ok ?st" "identified ident ?st"
    using ok id by (simp_all add: session_ok_def all_screens_def identified_def)
  have "tab_pane (resource_indexes (rebuild_resource_indexes ident ?st)) = tab_pane (resource_indexes st)"
    using rebuild_tab_pane [OF same(1)] identified_tabs [OF same] by auto
  then show ?thesis
    using ok by (simp add: rebuild_split_screen_index_def session_ok_def all_screens_def)
qed

lemma surfaces_identified: "set (surfaces st') \<subseteq> set (surfaces st) \<Longrightarrow> identified ident st \<Longrightarrow> identified ident st'"
  by (auto simp: identified_def)

interpretation tree: accounting "session_step ident" "\<lambda>st. session_ok st \<and> identified ident st"
    "\<lambda>st. mset (pane_tabs (ses_panes st))" op_removes for ident
proof
  fix st :: "'a session" and e
  assume a: "session_ok st \<and> identified ident st"
  then have ok: "session_ok st" and id: "identified ident st"
    by auto
  show "\<exists>st'. session_step ident e st = Inr st' \<and> (session_ok st' \<and> identified ident st')
      \<and> mset (pane_tabs (ses_panes st')) = mset (pane_tabs (ses_panes st)) - op_removes e"
  proof (cases e)
    case (MoveTab t q index)
    obtain r where "move_tab_in_state st t q index = Inr r" "tab_moved st t q r"
      using move_tab_ok [OF ok] by blast
    with MoveTab id show ?thesis
      by (auto simp: session_step_def tab_moved_def identified_def)
  next
    case (RemoveSurface t)
    obtain st' changed where "remove_surface st t = Inr (st', map_of (surfaces st) t, changed)" "session_ok st'"
      "mset (pane_tabs (ses_panes st')) = mset (pane_tabs (ses_panes st)) - {#t#}" "surfaces st' = AList.delete t (surfaces st)"
      using remove_surface_ok [OF ok] by blast
    with RemoveSurface id show ?thesis
      by (auto simp: session_step_def identified_def AList.delete_eq)
  next
    case (StampPaneFocus p)
    with stamp_pane_focus_ok [OF ok, of p] id show ?thesis
      by (simp add: session_step_def identified_def)
  next
    case (FenceLayoutUndo ps)
    with fence_ok [OF ok] id show ?thesis
      by (simp add: session_step_def identified_def)
  next
    case RebuildIndexes
    moreover have "surfaces (rebuild_split_screen_index ident st) = surfaces st"
      "ses_panes (rebuild_split_screen_index ident st) = ses_panes st"
      by (simp_all add: rebuild_split_screen_index_def)
    ultimately show ?thesis
      using rebuild_ok [OF ok id] id by (simp add: session_step_def identified_def)
  qed
qed

lemma rebuild_levels:
  assumes ok: "session_ok st" and id: "identified ident st"
    and ws: "distinct (map ws_id (workspaces st))" and sc: "distinct (map sc_id (all_screens st))"
  shows "levels_indexed (rebuild_resource_indexes ident st)"
proof -
  let ?ix = "resource_indexes (rebuild_resource_indexes ident st)"
  have "map (\<lambda>e. sc_id (snd e)) (screen_entries st) = map sc_id (all_screens st)"
    by (simp add: screen_entries_def all_screens_def map_concat comp_def)
  then have se: "distinct (map (\<lambda>e. sc_id (snd e)) (screen_entries st))"
    using sc by simp
  have "map (\<lambda>e. pn_id (snd e)) (pane_entries st) = map pn_id (placed st)"
    by (simp add: pane_entries_def placed_def map_concat comp_def)
  then have pe: "distinct (map (\<lambda>e. pn_id (snd e)) (pane_entries st))"
    using placed_ok(1) [OF ok] by simp
  have w: "workspace_ids ?ix (ws_id w) \<noteq> None" if "w \<in> set (workspaces st)" for w
    unfolding rebuilt_workspaces by (subst fold_update_in [OF ws that]) simp
  have s: "screen_ids ?ix (sc_id s) \<noteq> None \<and> screen_workspace ?ix (sc_id s) = Some (ws_id w)"
    if "w \<in> set (workspaces st)" "s \<in> set (screens w)" for w s
  proof -
    have "(ws_id w, s) \<in> set (screen_entries st)"
      using that by (auto simp: screen_entries_def)
    from fold_update_in [OF se this, of "\<lambda>e. sc_public (snd e)" Map.empty] fold_update_in [OF se this, of fst Map.empty]
    show ?thesis
      unfolding rebuilt_screens by simp
  qed
  have p: "pane_screen ?ix p = Some (sc_id s) \<and> ix_pane_ids ?ix p \<noteq> None"
    if "s \<in> set (all_screens st)" "p \<in> layout_panes s" for s p
  proof -
    have "p \<in> fst ` set (ses_panes st)" and pn: "\<And>k x. (k, x) \<in> set (ses_panes st) \<Longrightarrow> pn_id x = k"
      using ok that by (auto simp: session_ok_def ses_ok_def screens_ok_def panes_ok_def)
    then obtain x where x: "pane_lookup st p = Some x"
      by (metis map_of_eq_None_iff not_None_eq pane_lookup_def)
    then have "pn_id x = p"
      using pn by (auto simp: pane_lookup_def dest: map_of_SomeD)
    moreover have "(sc_id s, x) \<in> set (pane_entries st)"
      using that x by (force simp: pane_entries_def List.map_filter_def)
    ultimately show ?thesis
      using fold_update_in [OF pe, of "(sc_id s, x)" fst Map.empty]
        fold_update_in [OF pe, of "(sc_id s, x)" "\<lambda>e. pn_public (snd e)" Map.empty]
      unfolding rebuilt_pane_levels by simp
  qed
  have t: "tab_pane ?ix t = Some q \<and> tab_ids ?ix t \<noteq> None" if "(q, x) \<in> set (ses_panes st)" "t \<in> set (tabs x)" for q x t
  proof -
    have tab: "t \<in> set (pane_tabs (ses_panes st))"
      using that by (force simp: pane_tabs_def)
    have "tab_pane (resource_indexes st) t = Some q"
      using ok that by (auto simp: session_ok_def ses_ok_def tabs_indexed_def)
    moreover have "tab_pane ?ix = tab_pane (resource_indexes st)"
      using identified_tabs [OF ok id] by (intro rebuild_tab_pane [OF ok]) blast
    moreover have "x \<in> set (placed st)"
      unfolding placed_ok(2) [OF ok] using that by force
    ultimately show ?thesis
      using rebuilt_tab_ids [of ident st t] identified_tabs [OF ok id tab] that by auto
  qed
  show ?thesis
    unfolding levels_indexed_def Let_def rebuild_simps
  proof (intro conjI ballI)
    fix v c q
    assume v: "v \<in> set (workspaces st)"
    then show "workspace_ids ?ix (ws_id v) \<noteq> None"
      by (rule w)
    assume c: "c \<in> set (screens v)"
    with s [OF v] show "screen_ids ?ix (sc_id c) \<noteq> None" "screen_workspace ?ix (sc_id c) = Some (ws_id v)"
      by blast+
    assume "q \<in> layout_panes c"
    moreover have "c \<in> set (all_screens st)"
      using v c by (auto simp: all_screens_def)
    ultimately show "pane_screen ?ix q = Some (sc_id c)" "ix_pane_ids ?ix q \<noteq> None"
      using p by blast+
  qed (use t in auto)
qed

section \<open>A session to try them on\<close>

definition demo_tree_screen :: screen where
  "demo_tree_screen = \<lparr>lroot = Split 3 DirRight half (Leaf 1) (Leaf 2), active_pane = 1, zoomed_pane = None,
     auto_layout = None, vsplits = Map.empty, base_width = None, lcolumns = [], sc_id = 4, sc_public = ''s'', sc_name = None,
     layout_revision = 0, layout_undo = []\<rparr>"

definition demo_session :: "nat session" where
  "demo_session = \<lparr>workspaces = [\<lparr>ws_id = 5, ws_public = ''w'', ws_key = ''k'', ws_name = ''n'',
       screens = [demo_tree_screen], active_screen = 0\<rparr>],
     workspace_index_by_id = [5 \<mapsto> 0], workspace_id_by_key = [''k'' \<mapsto> 5], workspace_revision = 0, pane_revision = 0, resource_revision = 0,
     focus_sequence = 0, active_workspace = 0,
     ses_panes = [(1, \<lparr>pn_id = 1, pn_public = ''p'', pn_name = None, tabs = [6, 7], active_tab = 0,
                       active_at = 0, focused_at = 0\<rparr>),
                  (2, \<lparr>pn_id = 2, pn_public = ''q'', pn_name = None, tabs = [8], active_tab = 0,
                       active_at = 1, focused_at = 1\<rparr>)],
     surfaces = [(6, 60), (7, 70), (8, 80)],
     terminal_catalog = Map.empty, terminal_catalog_by_runtime = Map.empty, split_screens = [(3, 0, 0, 4)],
     resource_indexes = empty_indexes\<lparr>tab_pane := [6 \<mapsto> 1, 7 \<mapsto> 1, 8 \<mapsto> 2]\<rparr>,
     mux_next_id = 10, mux_next_active_at = 2\<rparr>"

definition demo_ident :: "nat ident" where
  "demo_ident sf = (if sf = 80 then Some (''t'', TerminalContent ''x'') else if sf = 70 then Some (''u'', BrowserContent ''y'')
     else Some (''v'', TerminalContent ''z''))"

lemma demo_session_ok: "session_ok demo_session"
proof -
  have "screen_ok 10 demo_tree_screen"
    by (simp add: screen_ok_def demo_tree_screen_def layout_inv_def tree_ok_def)
  then have "screens_ok 10 [demo_tree_screen] {1, 2}"
    by (simp add: screens_ok_def demo_tree_screen_def)
  moreover have "tabs_indexed [6 \<mapsto> 1, 7 \<mapsto> 1, 8 \<mapsto> 2] (ses_panes demo_session)"
    by (simp add: tabs_indexed_def demo_session_def conj_disj_distribR ex_disj_distrib) auto
  ultimately show ?thesis
    by (simp add: session_ok_def ses_ok_def demo_session_def all_screens_def panes_ok_def pane_wf_def)
qed

lemma demo_identified: "identified demo_ident demo_session"
  by (simp add: identified_def demo_session_def demo_ident_def)


section \<open>Properties\<close>

text \<open>C26. No sequence of tab moves, surface removals, focus stamps, undo fences and index rebuilds
  panics or fails on a well-formed session; every state on the way keeps the invariant, the tabs are
  exactly the initial ones less the removed surfaces, and the tab index maintained step by step is
  the one a rebuild would compute.\<close>

theorem session_runs_keep_tabs:
  assumes "session_ok st" and "identified ident st"
  shows "\<exists>st'. tree.run ident es st = Inr st' \<and> session_ok st'
    \<and> mset (pane_tabs (ses_panes st')) = mset (pane_tabs (ses_panes st)) - (\<Sum>e\<leftarrow>es. op_removes e)
    \<and> tab_pane (resource_indexes (rebuild_split_screen_index ident st')) = tab_pane (resource_indexes st')"
proof -
  obtain st' where st': "tree.run ident es st = Inr st'" "session_ok st'" "identified ident st'"
    "mset (pane_tabs (ses_panes st')) = mset (pane_tabs (ses_panes st)) - (\<Sum>e\<leftarrow>es. op_removes e)"
    using tree.run_good [of st ident es] assms by auto
  let ?st = "st'\<lparr>split_screens := index_workspaces_from 0 (workspaces st') []\<rparr>"
  have same: "session_ok ?st" "identified ident ?st"
    using st'(2,3) by (simp_all add: session_ok_def all_screens_def identified_def)
  have "tab_pane (resource_indexes (rebuild_resource_indexes ident ?st)) = tab_pane (resource_indexes st')"
    using rebuild_tab_pane [OF same(1)] identified_tabs [OF same] by auto
  with st' show ?thesis
    by (simp add: rebuild_split_screen_index_def)
qed

lemma session_runs_keep_tabs_witness:
  "\<exists>st'. tree.run demo_ident [MoveTab 8 1 0, RemoveSurface 7, RebuildIndexes] demo_session = Inr st' \<and> session_ok st'
    \<and> mset (pane_tabs (ses_panes st')) = {#6, 8#}"
  using session_runs_keep_tabs [OF demo_session_ok demo_identified, of "[MoveTab 8 1 0, RemoveSurface 7, RebuildIndexes]"]
  by (auto simp: demo_session_def)

text \<open>C27. Moving a tab to another pane always succeeds: the tab lands at the requested position or
  at the end of the target, which shows it and gets the focus. The source pane keeps its other tabs in
  order; when the tab was its last it is dropped, and exactly then the topology is reported changed.
  No other pane changes, and no surface does.\<close>

theorem move_tab_to_other_pane:
  assumes "session_ok st" and "map_of (surfaces st) t \<noteq> None" and "pane_of st t = Some p" and "p \<noteq> q"
    and "pane_lookup st q = Some x"
  shows "\<exists>st' changed path y. move_tab_in_state st t q index = Inr (st', True, changed, Some path) \<and> session_ok st'
    \<and> pane_lookup st' q = Some y \<and> tabs y = insert_at (min index (length (tabs x))) t (tabs x)
    \<and> active_surface y = Some t \<and> session_active_pane st' = Some q \<and> pane_of st' t = Some q
    \<and> (\<exists>z. pane_lookup st p = Some z \<and> (changed \<longleftrightarrow> tabs z = [t])
        \<and> map_option tabs (pane_lookup st' p) = (if tabs z = [t] then None else Some (removeAll t (tabs z))))
    \<and> (\<forall>r. r \<noteq> p \<longrightarrow> r \<noteq> q \<longrightarrow> pane_lookup st' r = pane_lookup st r)
    \<and> mset (pane_tabs (ses_panes st')) = mset (pane_tabs (ses_panes st)) \<and> surfaces st' = surfaces st"
proof -
  obtain sf where "map_of (surfaces st) t = Some sf"
    using assms(2) by blast
  from move_tab_between [OF assms(1) this assms(3,4,5), of index] obtain st' changed path z where
    "move_tab_in_state st t q index = Inr (st', True, changed, Some path)" "tab_moved st t q (st', True, changed, Some path)"
    "map_option tabs (pane_lookup st' q) = Some (insert_at (min index (length (tabs x))) t (tabs x))"
    "\<forall>r. r \<noteq> p \<longrightarrow> r \<noteq> q \<longrightarrow> pane_lookup st' r = pane_lookup st r"
    "pane_lookup st p = Some z" "changed \<longleftrightarrow> tabs z = [t]"
    "map_option tabs (pane_lookup st' p) = (if tabs z = [t] then None else Some (removeAll t (tabs z)))"
    unfolding source_left_def by metis
  then show ?thesis
    by (cases path) (auto simp: tab_moved_def)
qed

lemma move_tab_to_other_pane_witness:
  "\<exists>st' path y. move_tab_in_state demo_session 8 1 1 = Inr (st', True, True, Some path) \<and> session_ok st'
    \<and> pane_lookup st' 1 = Some y \<and> tabs y = [6, 8, 7] \<and> session_active_pane st' = Some 1 \<and> pane_lookup st' 2 = None"
proof -
  have p: "pane_of demo_session 8 = Some 2" "map_of (surfaces demo_session) 8 \<noteq> None"
    by (simp_all add: pane_of_def demo_session_def)
  obtain x where x: "pane_lookup demo_session 1 = Some x" "tabs x = [6, 7]"
    by (simp add: pane_lookup_def demo_session_def)
  have "map_option tabs (pane_lookup demo_session 2) = Some [8]"
    by (simp add: pane_lookup_def demo_session_def)
  with move_tab_to_other_pane [OF demo_session_ok p(2,1) _ x(1), of 1] x(2) show ?thesis
    by (auto simp: insert_at_def)
qed

text \<open>C28. Removing a surface never fails: exactly its tab goes, the surface is handed back and no
  pane shows it any more.\<close>

theorem remove_surface_removes_tab:
  assumes "session_ok st"
  shows "\<exists>st' changed. remove_surface st t = Inr (st', map_of (surfaces st) t, changed) \<and> session_ok st'
    \<and> mset (pane_tabs (ses_panes st')) = mset (pane_tabs (ses_panes st)) - {#t#}
    \<and> map_of (surfaces st') = (map_of (surfaces st))(t := None) \<and> pane_of st' t = None"
proof -
  obtain st' changed where st': "remove_surface st t = Inr (st', map_of (surfaces st) t, changed)" "session_ok st'"
    "mset (pane_tabs (ses_panes st')) = mset (pane_tabs (ses_panes st)) - {#t#}" "surfaces st' = AList.delete t (surfaces st)"
    using remove_surface_ok [OF assms] by blast
  have "pane_of st' t = None"
  proof (rule ccontr)
    assume "pane_of st' t \<noteq> None"
    then obtain p x where "pane_lookup st' p = Some x" "t \<in> set (tabs x)"
      using pane_of_ok [OF st'(2)] by blast
    then have "t \<in> set (pane_tabs (ses_panes st'))"
      by (force simp: pane_tabs_def pane_lookup_def dest: map_of_SomeD)
    moreover have "set (pane_tabs (ses_panes st')) \<subseteq> fst ` set (surfaces st')"
      using st'(2) by (simp add: session_ok_def ses_ok_def)
    ultimately show False
      using st'(4) by (auto simp: AList.delete_eq)
  qed
  with st' show ?thesis
    by (auto simp: AList.delete_conv')
qed

lemma remove_surface_removes_tab_witness:
  "\<exists>st' changed. remove_surface demo_session 8 = Inr (st', Some 80, changed)
    \<and> mset (pane_tabs (ses_panes st')) = {#6, 7#}"
  using remove_surface_removes_tab [OF demo_session_ok, of 8] by (auto simp: demo_session_def)

text \<open>C29. The three operations on the list of workspaces keep its two indexes exact, so that looking
  a workspace up by id or key is the search of the list.\<close>

theorem workspace_indexes_exact:
  assumes "workspaces_indexed st"
  shows "workspace_by_id st n = List.find (\<lambda>w. ws_id w = n) (workspaces st)
    \<and> workspace_by_key st key = List.find (\<lambda>w. ws_key w = key) (workspaces st)
    \<and> (ws_id w \<notin> ws_id ` set (workspaces st) \<and> ws_key w \<notin> ws_key ` set (workspaces st)
        \<longrightarrow> workspaces_indexed (push_workspace st w) \<and> workspaces (push_workspace st w) = workspaces st @ [w])
    \<and> (i < length (workspaces st) \<longrightarrow> (\<exists>st'. remove_workspace st i = Some (st', workspaces st ! i)
        \<and> workspaces_indexed st' \<and> workspaces st' = remove_at i (workspaces st)))
    \<and> (i < length (workspaces st) \<and> j < length (workspaces st) \<longrightarrow> (\<exists>st'. move_workspace st i j = Some st'
        \<and> workspaces_indexed st' \<and> workspaces st' = insert_at j (workspaces st ! i) (remove_at i (workspaces st))))"
proof (intro conjI impI)
  show "workspaces (push_workspace st w) = workspaces st @ [w]"
    by (simp add: push_workspace_def Let_def)
qed (use lookup_indexed [OF assms] push_indexed [OF assms] remove_indexed [OF assms] move_indexed [OF assms] in simp_all)

lemma workspace_indexes_exact_witness:
  "let w = \<lparr>ws_id = 9, ws_public = ''v'', ws_key = ''l'', ws_name = ''m'', screens = [], active_screen = 0\<rparr>;
       st = push_workspace demo_session w
   in workspace_by_id st 9 = Some w \<and> (\<exists>st'. move_workspace st 1 0 = Some st' \<and> workspace_by_key st' ''l'' = Some w)"
proof -
  let ?w = "\<lparr>ws_id = 9, ws_public = ''v'', ws_key = ''l'', ws_name = ''m'', screens = [], active_screen = 0\<rparr>"
  have d: "workspaces_indexed demo_session"
    by (auto simp: workspaces_indexed_def demo_session_def)
  from workspace_indexes_exact [OF d, of _ _ ?w] have p: "workspaces_indexed (push_workspace demo_session ?w)"
    and ws: "workspaces (push_workspace demo_session ?w) = workspaces demo_session @ [?w]"
    by (simp_all add: demo_session_def)
  from workspace_indexes_exact [OF p, of 9 _ _ 1 0] ws obtain st' where "move_workspace (push_workspace demo_session ?w) 1 0 = Some st'"
    "workspaces_indexed st'" "workspaces st' = insert_at 0 ?w (workspaces demo_session)"
    by (auto simp: demo_session_def remove_at_def)
  with workspace_indexes_exact [OF p, of 9] workspace_indexes_exact [of st' _ "''l''"] ws show ?thesis
    by (auto simp: insert_at_def demo_session_def Let_def)
qed

text \<open>C30. Rebuilding the indexes makes public ids resolve exactly: a pane id finds its pane, the split
  index leads to a screen holding the split, and it knows every split of every tree.\<close>

theorem rebuild_resolves_ids:
  assumes "session_ok st" and "distinct (map (pn_public \<circ> snd) (ses_panes st))"
  shows "(pane_by_public_id (rebuild_split_screen_index ident st) i = Some x \<longleftrightarrow> x \<in> snd ` set (ses_panes st) \<and> pn_public x = i)
    \<and> (map_of (split_screens (rebuild_split_screen_index ident st)) n = Some (wi, si, s) \<longrightarrow> split_at (workspaces st) n wi si s)
    \<and> (map_of (split_screens (rebuild_split_screen_index ident st)) n = None
        \<longleftrightarrow> (\<forall>s \<in> set (all_screens st). \<not> contains_split (lroot s) n))"
proof -
  let ?st = "st\<lparr>split_screens := index_workspaces_from 0 (workspaces st) []\<rparr>"
  have "session_ok ?st"
    using assms(1) by (simp add: session_ok_def all_screens_def)
  from rebuild_pane_lookup [OF this, of ident i x] assms(2) split_index_exact [of ident st n] show ?thesis
    by (auto simp: rebuild_split_screen_index_def)
qed

lemma rebuild_resolves_ids_witness:
  "(\<exists>x. pane_by_public_id (rebuild_split_screen_index demo_ident demo_session) ''q'' = Some x \<and> pn_id x = 2)
   \<and> map_of (split_screens (rebuild_split_screen_index demo_ident demo_session)) 3 \<noteq> None"
proof -
  have d: "distinct (map (pn_public \<circ> snd) (ses_panes demo_session))"
    by (simp add: demo_session_def)
  let ?x = "\<lparr>pn_id = 2, pn_public = ''q'', pn_name = None, tabs = [8], active_tab = 0, active_at = 1, focused_at = 1\<rparr>"
  have "?x \<in> snd ` set (ses_panes demo_session)"
    by (simp add: demo_session_def)
  with rebuild_resolves_ids [OF demo_session_ok d, of demo_ident "''q''" ?x 3] show ?thesis
    by (auto simp: demo_session_def all_screens_def demo_tree_screen_def)
qed

text \<open>\<open>insert_pane\<close> records the public id of a new pane only in builds with debug assertions: in a
  release build the pane is live, yet its public id resolves to nothing until the next rebuild.\<close>

theorem insert_pane_loses_public_id:
  assumes "pane_lookup st (pn_id x) = None" and "ix_panes (resource_indexes st) (pn_public x) = None"
  shows "(\<exists>st'. insert_pane True st x = Some st' \<and> pane_by_public_id st' (pn_public x) = Some x)
    \<and> (\<exists>st'. insert_pane False st x = Some st' \<and> pane_lookup st' (pn_id x) = Some x
         \<and> ix_pane_ids (resource_indexes st') (pn_id x) = Some (pn_public x)
         \<and> pane_by_public_id st' (pn_public x) = None)"
  using assms by (simp add: insert_pane_def Let_def pane_by_public_id_def pane_lookup_def AList.update_conv')

lemma insert_pane_loses_public_id_witness:
  "let x = \<lparr>pn_id = 9, pn_public = ''r'', pn_name = None, tabs = [8], active_tab = 0, active_at = 1, focused_at = 1\<rparr>
   in \<exists>st'. insert_pane False demo_session x = Some st' \<and> pane_lookup st' 9 = Some x \<and> pane_by_public_id st' ''r'' = None"
  using insert_pane_loses_public_id [of demo_session "\<lparr>pn_id = 9, pn_public = ''r'', pn_name = None, tabs = [8],
      active_tab = 0, active_at = 1, focused_at = 1\<rparr>"]
  by (simp add: Let_def) (auto simp: demo_session_def pane_lookup_def empty_indexes_def)

end
