(* ===== verification/Operations.thy ===== *)
theory Operations
  imports Prelude
begin

text \<open>
  The operations of the resource protocol (\<open>ResourceOperation\<close> of \<open>cmux-tui-core/src/resource.rs\<close>):
  their wire names and their classes. The 113 variants are grouped by the noun of the wire name; the
  variants keep their names.
\<close>

section \<open>The operations\<close>

datatype machine_operation = MachineList | MachineGet

datatype session_operation = SessionList | SessionOpen | SessionGet | SessionSnapshot | SessionCreationResolve | SessionEvents
  | SessionPing | SessionShutdown | SessionReloadConfig | SessionTerminalDefaultsUpdate
  | SessionWindowTitleSet | SessionWindowTitleClear

datatype client_operation = ClientList | ClientGet | ClientMetadataUpdate | ClientSizingSet | ClientSizingRelease
  | ClientCellPixelsSet | ClientDetach

datatype pairing_request_operation = PairingRequestList | PairingRequestResolve

datatype request_operation = RequestCancel

datatype frontend_projection_operation = FrontendProjectionGet | FrontendProjectionPut

datatype workspace_operation = WorkspaceList | WorkspaceGet | WorkspaceCreate | WorkspaceRename | WorkspaceMove | WorkspaceFocus
  | WorkspaceClose | WorkspaceRun | WorkspaceLayoutApply

datatype screen_operation = ScreenList | ScreenGet | ScreenCreate | ScreenRename | ScreenFocus | ScreenClose
  | ScreenLayoutExport | ScreenLayoutUndo

datatype pane_operation = PaneList | PaneGet | PaneCreate | PaneSplit | PaneRename | PaneFocus | PaneFocusDirection
  | PaneNeighborGet | PaneSwap | PaneZoom | PaneSplitRatioSet | PaneViewportWidthSet | PaneClose
  | PaneRun

datatype tab_operation = TabList | TabGet | TabCreateTerminal | TabCreateBrowser | TabRename | TabMove | TabFocus
  | TabClose

datatype terminal_operation = TerminalList | TerminalGet | TerminalInputWrite | TerminalInputKeys | TerminalInputMouse
  | TerminalInputFocus | TerminalScreenRead | TerminalStateRead | TerminalHistoryRead
  | TerminalHistoryClear | TerminalWait | TerminalWaitExit | TerminalCopy | TerminalProcessGet
  | TerminalRendererGrantCreate | TerminalViewerResize | TerminalViewerRelease
  | TerminalViewportScroll | TerminalMove | TerminalProject | TerminalAttach | TerminalClose

datatype browser_operation = BrowserList | BrowserGet | BrowserNavigate | BrowserBack | BrowserForward | BrowserReload
  | BrowserActivate | BrowserInputKey | BrowserInputText | BrowserInputMouse | BrowserInputWheel
  | BrowserViewerResize | BrowserViewerRelease | BrowserAttach | BrowserClose

datatype notification_operation = NotificationList | NotificationCreate

datatype agent_operation = AgentList | AgentReport

datatype sidebar_view_operation = SidebarViewGet | SidebarViewEnsure | SidebarViewAttach | SidebarViewInput | SidebarViewResize
  | SidebarViewReload

datatype stream_operation = StreamCancel

datatype resource_operation =
  OpMachine machine_operation | OpSession session_operation | OpClient client_operation
  | OpPairingRequest pairing_request_operation | OpRequest request_operation
  | OpFrontendProjection frontend_projection_operation | OpWorkspace workspace_operation
  | OpScreen screen_operation | OpPane pane_operation | OpTab tab_operation
  | OpTerminal terminal_operation | OpBrowser browser_operation
  | OpNotification notification_operation | OpAgent agent_operation
  | OpSidebarView sidebar_view_operation | OpStream stream_operation

datatype operation_class = ReadClass | MutationClass | StreamOpenClass | ConnectionControlClass | LocalClass

datatype local_operation = SidebarPluginList | SidebarPluginInstall | SidebarPluginUse | SidebarPluginUpdate
  | SidebarPluginRemove | SidebarPluginUseBuiltin

section \<open>Wire names\<close>

text \<open>The table of variants and the names serde reads and writes.\<close>

definition operation_names :: "(resource_operation \<times> string) list" where
  "operation_names = [
    (OpMachine MachineList, ''machine.list''), (OpMachine MachineGet, ''machine.get''),
    (OpSession SessionList, ''session.list''), (OpSession SessionOpen, ''session.open''),
    (OpSession SessionGet, ''session.get''), (OpSession SessionSnapshot, ''session.snapshot''),
    (OpSession SessionCreationResolve, ''session.creation.resolve''),
    (OpSession SessionEvents, ''session.events''), (OpSession SessionPing, ''session.ping''),
    (OpSession SessionShutdown, ''session.shutdown''),
    (OpSession SessionReloadConfig, ''session.reload_config''),
    (OpSession SessionTerminalDefaultsUpdate, ''session.terminal_defaults.update''),
    (OpClient ClientList, ''client.list''), (OpClient ClientGet, ''client.get''),
    (OpClient ClientMetadataUpdate, ''client.metadata.update''),
    (OpClient ClientSizingSet, ''client.sizing.set''),
    (OpClient ClientSizingRelease, ''client.sizing.release''),
    (OpClient ClientCellPixelsSet, ''client.cell_pixels.set''),
    (OpClient ClientDetach, ''client.detach''),
    (OpSession SessionWindowTitleSet, ''session.window.title.set''),
    (OpSession SessionWindowTitleClear, ''session.window.title.clear''),
    (OpPairingRequest PairingRequestList, ''pairing_request.list''),
    (OpPairingRequest PairingRequestResolve, ''pairing_request.resolve''),
    (OpRequest RequestCancel, ''request.cancel''),
    (OpFrontendProjection FrontendProjectionGet, ''frontend_projection.get''),
    (OpFrontendProjection FrontendProjectionPut, ''frontend_projection.put''),
    (OpWorkspace WorkspaceList, ''workspace.list''),
    (OpWorkspace WorkspaceGet, ''workspace.get''),
    (OpWorkspace WorkspaceCreate, ''workspace.create''),
    (OpWorkspace WorkspaceRename, ''workspace.rename''),
    (OpWorkspace WorkspaceMove, ''workspace.move''),
    (OpWorkspace WorkspaceFocus, ''workspace.focus''),
    (OpWorkspace WorkspaceClose, ''workspace.close''),
    (OpWorkspace WorkspaceRun, ''workspace.run''),
    (OpWorkspace WorkspaceLayoutApply, ''workspace.layout.apply''),
    (OpScreen ScreenList, ''screen.list''), (OpScreen ScreenGet, ''screen.get''),
    (OpScreen ScreenCreate, ''screen.create''), (OpScreen ScreenRename, ''screen.rename''),
    (OpScreen ScreenFocus, ''screen.focus''), (OpScreen ScreenClose, ''screen.close''),
    (OpScreen ScreenLayoutExport, ''screen.layout.export''),
    (OpScreen ScreenLayoutUndo, ''screen.layout.undo''), (OpPane PaneList, ''pane.list''),
    (OpPane PaneGet, ''pane.get''), (OpPane PaneCreate, ''pane.create''),
    (OpPane PaneSplit, ''pane.split''), (OpPane PaneRename, ''pane.rename''),
    (OpPane PaneFocus, ''pane.focus''), (OpPane PaneFocusDirection, ''pane.focus_direction''),
    (OpPane PaneNeighborGet, ''pane.neighbor.get''), (OpPane PaneSwap, ''pane.swap''),
    (OpPane PaneZoom, ''pane.zoom''), (OpPane PaneSplitRatioSet, ''pane.split_ratio.set''),
    (OpPane PaneViewportWidthSet, ''pane.viewport_width.set''),
    (OpPane PaneClose, ''pane.close''), (OpPane PaneRun, ''pane.run''),
    (OpTab TabList, ''tab.list''), (OpTab TabGet, ''tab.get''),
    (OpTab TabCreateTerminal, ''tab.create_terminal''),
    (OpTab TabCreateBrowser, ''tab.create_browser''), (OpTab TabRename, ''tab.rename''),
    (OpTab TabMove, ''tab.move''), (OpTab TabFocus, ''tab.focus''),
    (OpTab TabClose, ''tab.close''), (OpTerminal TerminalList, ''terminal.list''),
    (OpTerminal TerminalGet, ''terminal.get''),
    (OpTerminal TerminalInputWrite, ''terminal.input.write''),
    (OpTerminal TerminalInputKeys, ''terminal.input.keys''),
    (OpTerminal TerminalInputMouse, ''terminal.input.mouse''),
    (OpTerminal TerminalInputFocus, ''terminal.input.focus''),
    (OpTerminal TerminalScreenRead, ''terminal.screen.read''),
    (OpTerminal TerminalStateRead, ''terminal.state.read''),
    (OpTerminal TerminalHistoryRead, ''terminal.history.read''),
    (OpTerminal TerminalHistoryClear, ''terminal.history.clear''),
    (OpTerminal TerminalWait, ''terminal.wait''),
    (OpTerminal TerminalWaitExit, ''terminal.wait_exit''),
    (OpTerminal TerminalCopy, ''terminal.copy''),
    (OpTerminal TerminalProcessGet, ''terminal.process.get''),
    (OpTerminal TerminalRendererGrantCreate, ''terminal.renderer_grant.create''),
    (OpTerminal TerminalViewerResize, ''terminal.viewer.resize''),
    (OpTerminal TerminalViewerRelease, ''terminal.viewer.release''),
    (OpTerminal TerminalViewportScroll, ''terminal.viewport.scroll''),
    (OpTerminal TerminalMove, ''terminal.move''),
    (OpTerminal TerminalProject, ''terminal.project''),
    (OpTerminal TerminalAttach, ''terminal.attach''),
    (OpTerminal TerminalClose, ''terminal.close''), (OpBrowser BrowserList, ''browser.list''),
    (OpBrowser BrowserGet, ''browser.get''), (OpBrowser BrowserNavigate, ''browser.navigate''),
    (OpBrowser BrowserBack, ''browser.back''), (OpBrowser BrowserForward, ''browser.forward''),
    (OpBrowser BrowserReload, ''browser.reload''),
    (OpBrowser BrowserActivate, ''browser.activate''),
    (OpBrowser BrowserInputKey, ''browser.input.key''),
    (OpBrowser BrowserInputText, ''browser.input.text''),
    (OpBrowser BrowserInputMouse, ''browser.input.mouse''),
    (OpBrowser BrowserInputWheel, ''browser.input.wheel''),
    (OpBrowser BrowserViewerResize, ''browser.viewer.resize''),
    (OpBrowser BrowserViewerRelease, ''browser.viewer.release''),
    (OpBrowser BrowserAttach, ''browser.attach''), (OpBrowser BrowserClose, ''browser.close''),
    (OpNotification NotificationList, ''notification.list''),
    (OpNotification NotificationCreate, ''notification.create''),
    (OpAgent AgentList, ''agent.list''), (OpAgent AgentReport, ''agent.report''),
    (OpSidebarView SidebarViewGet, ''sidebar_view.get''),
    (OpSidebarView SidebarViewEnsure, ''sidebar_view.ensure''),
    (OpSidebarView SidebarViewAttach, ''sidebar_view.attach''),
    (OpSidebarView SidebarViewInput, ''sidebar_view.input''),
    (OpSidebarView SidebarViewResize, ''sidebar_view.resize''),
    (OpSidebarView SidebarViewReload, ''sidebar_view.reload''),
    (OpStream StreamCancel, ''stream.cancel'')]"

definition operation_name :: "resource_operation \<Rightarrow> string" where
  "operation_name e = the (map_of operation_names e)"

definition operation_of_name :: "string \<Rightarrow> resource_operation option" where
  "operation_of_name s = map_option fst (List.find (\<lambda>(_, n). n = s) operation_names)"

section \<open>Classes\<close>

definition stream_operations :: "resource_operation list" where
  "stream_operations =
      [OpSession SessionEvents, OpTerminal TerminalAttach, OpBrowser BrowserAttach,
       OpSidebarView SidebarViewAttach]"

definition control_operations :: "resource_operation list" where
  "control_operations =
      [OpRequest RequestCancel, OpStream StreamCancel, OpClient ClientMetadataUpdate,
       OpClient ClientSizingSet, OpClient ClientSizingRelease, OpClient ClientCellPixelsSet,
       OpClient ClientDetach, OpTerminal TerminalRendererGrantCreate,
       OpTerminal TerminalViewerResize, OpTerminal TerminalViewerRelease,
       OpBrowser BrowserViewerResize, OpBrowser BrowserViewerRelease]"

definition read_operations :: "resource_operation list" where
  "read_operations =
      [OpMachine MachineList, OpMachine MachineGet, OpSession SessionList, OpSession SessionGet,
       OpSession SessionSnapshot, OpSession SessionCreationResolve, OpSession SessionPing,
       OpClient ClientList, OpClient ClientGet, OpPairingRequest PairingRequestList,
       OpFrontendProjection FrontendProjectionGet, OpWorkspace WorkspaceList,
       OpWorkspace WorkspaceGet, OpScreen ScreenList, OpScreen ScreenGet,
       OpScreen ScreenLayoutExport, OpPane PaneList, OpPane PaneGet, OpPane PaneNeighborGet,
       OpTab TabList, OpTab TabGet, OpTerminal TerminalList, OpTerminal TerminalGet,
       OpTerminal TerminalScreenRead, OpTerminal TerminalStateRead,
       OpTerminal TerminalHistoryRead, OpTerminal TerminalWait, OpTerminal TerminalWaitExit,
       OpTerminal TerminalCopy, OpTerminal TerminalProcessGet, OpBrowser BrowserList,
       OpBrowser BrowserGet, OpNotification NotificationList, OpAgent AgentList,
       OpSidebarView SidebarViewGet]"

definition operation_class :: "resource_operation \<Rightarrow> operation_class" where
  "operation_class e =
     (if e \<in> set stream_operations then StreamOpenClass
      else if e \<in> set control_operations then ConnectionControlClass
      else if e \<in> set read_operations then ReadClass
      else MutationClass)"

definition is_mutation :: "resource_operation \<Rightarrow> bool" where
  "is_mutation e = (operation_class e = MutationClass)"

definition local_class :: "local_operation \<Rightarrow> operation_class" where
  "local_class e = LocalClass"

section \<open>The names are read back\<close>

lemma operation_names_distinct: "distinct (map snd operation_names)"
  by code_simp

lemma operation_listed: "e \<in> set (map fst operation_names)"
proof (cases e)
  case (OpMachine x)
  then show ?thesis
    by (cases x; hypsubst; code_simp)
next
  case (OpSession x)
  then show ?thesis
    by (cases x; hypsubst; code_simp)
next
  case (OpClient x)
  then show ?thesis
    by (cases x; hypsubst; code_simp)
next
  case (OpPairingRequest x)
  then show ?thesis
    by (cases x; hypsubst; code_simp)
next
  case (OpRequest x)
  then show ?thesis
    by (cases x; hypsubst; code_simp)
next
  case (OpFrontendProjection x)
  then show ?thesis
    by (cases x; hypsubst; code_simp)
next
  case (OpWorkspace x)
  then show ?thesis
    by (cases x; hypsubst; code_simp)
next
  case (OpScreen x)
  then show ?thesis
    by (cases x; hypsubst; code_simp)
next
  case (OpPane x)
  then show ?thesis
    by (cases x; hypsubst; code_simp)
next
  case (OpTab x)
  then show ?thesis
    by (cases x; hypsubst; code_simp)
next
  case (OpTerminal x)
  then show ?thesis
    by (cases x; hypsubst; code_simp)
next
  case (OpBrowser x)
  then show ?thesis
    by (cases x; hypsubst; code_simp)
next
  case (OpNotification x)
  then show ?thesis
    by (cases x; hypsubst; code_simp)
next
  case (OpAgent x)
  then show ?thesis
    by (cases x; hypsubst; code_simp)
next
  case (OpSidebarView x)
  then show ?thesis
    by (cases x; hypsubst; code_simp)
next
  case (OpStream x)
  then show ?thesis
    by (cases x; hypsubst; code_simp)
qed

lemma find_snd_iff:
  assumes "distinct (map snd xs)"
  shows "map_option fst (List.find (\<lambda>(_, n). n = s) xs) = Some e \<longleftrightarrow> (e, s) \<in> set xs"
  using assms by (induction xs) (auto simp: rev_image_eqI split: prod.splits)

lemma operation_names_exact: "operation_of_name (operation_name e) = Some e"
proof -
  obtain s where "map_of operation_names e = Some s"
    using operation_listed [of e] by (metis map_of_eq_None_iff not_None_eq set_map)
  moreover from this have "(e, s) \<in> set operation_names"
    by (rule map_of_SomeD)
  ultimately show ?thesis
    using find_snd_iff [OF operation_names_distinct, of s e] by (simp add: operation_name_def operation_of_name_def)
qed

end
