(* ===== verification/Resource.thy ===== *)
theory Resource
  imports Operations Floats "HOL-Library.List_Lexorder" "HOL-Library.Char_ord"
begin

text \<open>
  The shared types of the resource protocol (\<open>cmux-tui-core/src/resource.rs\<close>): decimals, request
  keys, public ids, selectors, envelopes, errors and the journal of deltas. A Rust \<open>str\<close> is the list
  of its bytes as characters; where the code asks for Unicode properties it is the list of its scalar
  values (\<open>utext\<close>). An error keeps its code and its details and leaves out the sentence for the user.
\<close>

unbundle bit_operations_syntax

section \<open>Strings\<close>

definition strip_prefix :: "string \<Rightarrow> string \<Rightarrow> string option" where
  "strip_prefix p s = (if take (length p) s = p then Some (drop (length p) s) else None)"

fun trim_end_matches :: "char \<Rightarrow> string \<Rightarrow> string" where
  "trim_end_matches c s = rev (dropWhile (\<lambda>d. d = c) (rev s))"

definition rsplit_once :: "char \<Rightarrow> string \<Rightarrow> (string \<times> string) option" where
  "rsplit_once c s =
     (if c \<in> set s
      then Some (rev (tl (dropWhile (\<lambda>d. d \<noteq> c) (rev s))), rev (takeWhile (\<lambda>d. d \<noteq> c) (rev s)))
      else None)"

definition is_digit :: "char \<Rightarrow> bool" where
  "is_digit c = (48 \<le> (of_char c :: nat) \<and> (of_char c :: nat) \<le> 57)"

definition is_lower_hex :: "char \<Rightarrow> bool" where
  "is_lower_hex c = (is_digit c \<or> (97 \<le> (of_char c :: nat) \<and> (of_char c :: nat) \<le> 102))"

type_synonym utext = "nat list"

definition utf8_len :: "nat \<Rightarrow> nat" where
  "utf8_len c = (if c < 0x80 then 1 else if c < 0x800 then 2 else if c < 0x10000 then 3 else 4)"

definition text_len :: "utext \<Rightarrow> nat" where
  "text_len s = sum_list (map utf8_len s)"

text \<open>\<open>char::is_control\<close> (category Cc) and \<open>char::is_whitespace\<close> (property White\_Space).\<close>

definition is_control :: "nat \<Rightarrow> bool" where
  "is_control c = (c < 0x20 \<or> (0x7F \<le> c \<and> c < 0xA0))"

definition is_whitespace :: "nat \<Rightarrow> bool" where
  "is_whitespace c = ((9 \<le> c \<and> c \<le> 13) \<or> c \<in> {0x20, 0x85, 0xA0, 0x1680, 0x2028, 0x2029, 0x202F, 0x205F, 0x3000}
     \<or> (0x2000 \<le> c \<and> c \<le> 0x200A))"

definition trim_text :: "utext \<Rightarrow> utext" where
  "trim_text s = rev (dropWhile is_whitespace (rev (dropWhile is_whitespace s)))"

section \<open>JSON values\<close>

text \<open>\<open>serde_json::Value\<close>: an object is its entries, the number is split as \<open>Number\<close> is.\<close>

datatype json = JNull | JBool bool | JUInt u64 | JNegInt int | JFloat f64 | JString string
  | JArray "json list" | JObject "(string \<times> json) list"

fun is_object :: "json \<Rightarrow> bool" where
  "is_object (JObject _) = True"
| "is_object _ = False"

section \<open>Errors\<close>

datatype resource_error =
    ValidationInvalid "string option"
  | SelectorInvalid string string
  | SelectorNotFound string string
  | SelectorAmbiguous string string "string list"
  | SelectorWrongParent string string string string string
  | CursorInvalid string u64 u64
  | CursorGap string u64 u64 u64
  | AllocationFailed string
  | OperationFailed string json
  | TransportClosed
  | TerminalClosed string
  | IdempotencyConflict string string
  | CreationConflict string string string string string
  | RevisionConflict u64 u64
  | ResourcePanic

text \<open>The table of \<open>canonical_resource_scope\<close>; any other word panics.\<close>

definition scope_words :: "(string list \<times> string) list" where
  "scope_words = [
    ([''machine'', ''MachinePublicId''], ''machine''),
    ([''session'', ''SessionPublicId''], ''session''),
    ([''client'', ''ClientPublicId''], ''client''),
    ([''workspace'', ''WorkspacePublicId'', ''ws''], ''workspace''),
    ([''screen'', ''ScreenPublicId''], ''screen''),
    ([''pane'', ''PanePublicId''], ''pane''),
    ([''split'', ''SplitPublicId''], ''split''),
    ([''tab'', ''TabPublicId''], ''tab''),
    ([''terminal'', ''TerminalPublicId'', ''term''], ''terminal''),
    ([''browser'', ''BrowserPublicId''], ''browser''),
    ([''notification'', ''NotificationPublicId''], ''notification''),
    ([''agent'', ''AgentPublicId''], ''agent''),
    ([''frontend_projection'', ''FrontendProjectionPublicId'', ''projection''], ''frontend_projection''),
    ([''pairing_request'', ''PairingRequestPublicId'', ''pairing''], ''pairing_request''),
    ([''sidebar_view'', ''SidebarViewPublicId''], ''sidebar_view''),
    ([''sidebar_plugin'', ''SidebarPluginPublicId''], ''sidebar_plugin''),
    ([''stream'', ''StreamPublicId''], ''stream'')]"

definition canonical_resource_scope :: "string \<Rightarrow> string option" where
  "canonical_resource_scope kind =
     map_option snd (List.find (\<lambda>(ws, _). trim_end_matches CHR ''s'' kind \<in> set ws) scope_words)"

definition scoped :: "string \<Rightarrow> (string \<Rightarrow> resource_error) \<Rightarrow> resource_error" where
  "scoped kind f = (case canonical_resource_scope kind of Some scope \<Rightarrow> f scope | None \<Rightarrow> ResourcePanic)"

definition invalid_id :: "string \<Rightarrow> string \<Rightarrow> resource_error" where
  "invalid_id kind value = scoped kind (\<lambda>scope. SelectorInvalid scope value)"

definition not_found :: "string \<Rightarrow> string \<Rightarrow> resource_error" where
  "not_found kind selector = scoped kind (\<lambda>scope. SelectorNotFound scope selector)"

definition ambiguous :: "string \<Rightarrow> string \<Rightarrow> string list \<Rightarrow> resource_error" where
  "ambiguous kind selector candidates = scoped kind (\<lambda>scope. SelectorAmbiguous scope selector candidates)"

definition selector_invalid :: "string \<Rightarrow> string \<Rightarrow> resource_error" where
  "selector_invalid kind selector = scoped kind (\<lambda>scope. SelectorInvalid scope selector)"

section \<open>Request keys and decimals\<close>

definition max_idempotency_key_bytes :: nat where
  "max_idempotency_key_bytes = 128"

definition validate_idempotency_key :: "utext \<Rightarrow> resource_error + unit" where
  "validate_idempotency_key value =
     (if trim_text value = [] then Inl (ValidationInvalid (Some ''idempotency_key''))
      else if max_idempotency_key_bytes < text_len value then Inl (ValidationInvalid (Some ''idempotency_key''))
      else if list_ex is_control value then Inl (ValidationInvalid (Some ''idempotency_key''))
      else Inr ())"

definition request_id_max_bytes :: nat where
  "request_id_max_bytes = 128"

definition request_id_parse :: "string \<Rightarrow> resource_error + string" where
  "request_id_parse value =
     (if value = [] \<or> request_id_max_bytes < length value then Inl (ValidationInvalid (Some ''id'')) else Inr value)"

fun decimal :: "nat \<Rightarrow> string" where
  "decimal n = (if n < 10 then [char_of (48 + n)] else decimal (n div 10) @ [char_of (48 + n mod 10)])"

declare decimal.simps [simp del]

definition wire_decimal_serialize :: "u64 \<Rightarrow> string" where
  "wire_decimal_serialize v = decimal (unat v)"

text \<open>\<open>str::parse::<u64>\<close>: an optional plus sign and at least one digit, below \<open>2 ^ 64\<close>.\<close>

fun parse_digits :: "nat \<Rightarrow> string \<Rightarrow> nat option" where
  "parse_digits acc [] = Some acc"
| "parse_digits acc (c # cs) =
     (let n = 10 * acc + ((of_char c :: nat) - 48) in
      if is_digit c \<and> n < 2 ^ 64 then parse_digits n cs else None)"

definition parse_u64 :: "string \<Rightarrow> u64 option" where
  "parse_u64 s =
     (let digits = (case s of [] \<Rightarrow> [] | c # cs \<Rightarrow> if c = CHR ''+'' then cs else s)
      in if digits = [] then None else map_option word_of_nat (parse_digits 0 digits))"

definition wire_decimal_deserialize :: "string \<Rightarrow> u64 option" where
  "wire_decimal_deserialize value =
     (if 20 < length value \<or> take 1 value = ''+'' \<or> (take 1 value = ''0'' \<and> length value \<noteq> 1)
      then None else parse_u64 value)"

section \<open>Public ids\<close>

datatype id_kind = MachineId | SessionId | WorkspaceId | ScreenId | PaneId | TabId | TerminalId | BrowserId
  | ClientId | SplitId | StreamId | NotificationId | AgentId | FrontendProjectionId | PairingRequestId
  | SidebarViewId | SidebarPluginId

fun id_prefix :: "id_kind \<Rightarrow> string" where
  "id_prefix MachineId = ''machine''" | "id_prefix SessionId = ''session''" | "id_prefix WorkspaceId = ''ws''"
| "id_prefix ScreenId = ''screen''" | "id_prefix PaneId = ''pane''" | "id_prefix TabId = ''tab''"
| "id_prefix TerminalId = ''term''" | "id_prefix BrowserId = ''browser''" | "id_prefix ClientId = ''client''"
| "id_prefix SplitId = ''split''" | "id_prefix StreamId = ''stream''" | "id_prefix NotificationId = ''notification''"
| "id_prefix AgentId = ''agent''" | "id_prefix FrontendProjectionId = ''projection''"
| "id_prefix PairingRequestId = ''pairing''" | "id_prefix SidebarViewId = ''sidebar_view''"
| "id_prefix SidebarPluginId = ''sidebar_plugin''"

fun id_type_name :: "id_kind \<Rightarrow> string" where
  "id_type_name MachineId = ''MachinePublicId''" | "id_type_name SessionId = ''SessionPublicId''"
| "id_type_name WorkspaceId = ''WorkspacePublicId''" | "id_type_name ScreenId = ''ScreenPublicId''"
| "id_type_name PaneId = ''PanePublicId''" | "id_type_name TabId = ''TabPublicId''"
| "id_type_name TerminalId = ''TerminalPublicId''" | "id_type_name BrowserId = ''BrowserPublicId''"
| "id_type_name ClientId = ''ClientPublicId''" | "id_type_name SplitId = ''SplitPublicId''"
| "id_type_name StreamId = ''StreamPublicId''" | "id_type_name NotificationId = ''NotificationPublicId''"
| "id_type_name AgentId = ''AgentPublicId''" | "id_type_name FrontendProjectionId = ''FrontendProjectionPublicId''"
| "id_type_name PairingRequestId = ''PairingRequestPublicId''" | "id_type_name SidebarViewId = ''SidebarViewPublicId''"
| "id_type_name SidebarPluginId = ''SidebarPluginPublicId''"

definition hex_digits :: string where
  "hex_digits = ''0123456789abcdef''"

definition encode_hex :: "u8 list \<Rightarrow> string" where
  "encode_hex bytes = concat (map (\<lambda>b. [hex_digits ! unat (drop_bit 4 b), hex_digits ! unat (b AND 0x0F)]) bytes)"

text \<open>\<open>random\<close> with the sixteen bytes the system's generator filled, or its failure.\<close>

definition public_id_random :: "id_kind \<Rightarrow> u8 list option \<Rightarrow> resource_error + string" where
  "public_id_random k bytes =
     (case bytes of None \<Rightarrow> Inl (AllocationFailed (id_prefix k)) | Some bs \<Rightarrow> Inr (id_prefix k @ ''_'' @ encode_hex bs))"

definition is_lower_hex_128 :: "string \<Rightarrow> bool" where
  "is_lower_hex_128 value = (length value = 32 \<and> list_all is_lower_hex value)"

definition public_id_parse :: "id_kind \<Rightarrow> string \<Rightarrow> resource_error + string" where
  "public_id_parse k value =
     (case strip_prefix (id_prefix k @ ''_'') value of
        None \<Rightarrow> Inl (invalid_id (id_type_name k) value)
      | Some payload \<Rightarrow> if is_lower_hex_128 payload then Inr value else Inl (invalid_id (id_type_name k) value))"

fun catalog_prefix :: "string \<Rightarrow> string option" where
  "catalog_prefix kind = map_of [(''machine'', ''machine_''), (''session'', ''session_''), (''client'', ''client_''),
     (''workspace'', ''ws_''), (''screen'', ''screen_''), (''pane'', ''pane_''), (''split'', ''split_''),
     (''tab'', ''tab_''), (''terminal'', ''term_''), (''browser'', ''browser_''), (''notification'', ''notification_''),
     (''agent'', ''agent_''), (''frontend_projection'', ''projection_''), (''pairing_request'', ''pairing_''),
     (''sidebar_view'', ''sidebar_view_''), (''stream'', ''stream_'')] kind"

definition resource_id_has_kind :: "string \<Rightarrow> string \<Rightarrow> bool" where
  "resource_id_has_kind value kind =
     (case Option.bind (catalog_prefix kind) (\<lambda>p. strip_prefix p value) of
        Some payload \<Rightarrow> is_lower_hex_128 payload | None \<Rightarrow> False)"

section \<open>Selectors\<close>

datatype selector = Current | SelId string | SelName string

definition reserved_tokens :: "string list" where
  "reserved_tokens =
      [''machine'', ''session'', ''client'', ''window'', ''pairing'', ''request'', ''frontend'',
       ''projection'', ''workspace'', ''screen'', ''pane'', ''tab'', ''terminal'', ''browser'',
       ''split'', ''notification'', ''agent'', ''sidebar'', ''view'', ''plugin'', ''provider'',
       ''scope'', ''action'', ''notice'', ''list'', ''get'', ''show'', ''create'', ''open'',
       ''rename'', ''delete'', ''restore'', ''purge'', ''connect'', ''snapshot'', ''events'',
       ''ping'', ''shutdown'', ''update'', ''metadata'', ''detach'', ''set'', ''clear'',
       ''resolve'', ''put'', ''move'', ''focus'', ''close'', ''run'', ''apply'', ''export'',
       ''undo'', ''neighbor'', ''swap'', ''zoom'', ''resize'', ''send'', ''keys'', ''read'',
       ''history'', ''state'', ''direction'', ''process'', ''renderer'', ''grant'', ''cell'',
       ''pixels'', ''copy'', ''attach'', ''navigate'', ''back'', ''forward'', ''reload'',
       ''activate'', ''install'', ''use'', ''builtin'', ''disable'', ''remove'', ''report'',
       ''notify'']"

definition is_reserved_selector_token :: "string \<Rightarrow> bool" where
  "is_reserved_selector_token value = (value \<in> set reserved_tokens)"

definition registered_prefixes :: "string list" where
  "registered_prefixes = [''machine'', ''session'', ''ws'', ''screen'', ''pane'', ''tab'', ''term'', ''browser'',
     ''client'', ''split'', ''stream'', ''notification'', ''agent'', ''projection'', ''pairing'', ''sidebar_view'',
     ''sidebar_plugin'']"

definition is_registered_public_id :: "string \<Rightarrow> bool" where
  "is_registered_public_id value =
     (case rsplit_once CHR ''_'' value of
        None \<Rightarrow> False
      | Some (prefix, payload) \<Rightarrow> prefix \<in> set registered_prefixes \<and> is_lower_hex_128 payload)"

definition selector_parse :: "string \<Rightarrow> resource_error + selector" where
  "selector_parse value =
     (case strip_prefix ''name:'' value of
        Some name \<Rightarrow> Inr (SelName name)
      | None \<Rightarrow>
          if value = ''current'' then Inr Current
          else if is_registered_public_id value then Inr (SelId value)
          else if CHR ''_'' \<in> set value \<or> is_reserved_selector_token value then Inl (ValidationInvalid None)
          else Inr (SelName value))"

definition resolve_name :: "string \<Rightarrow> string \<Rightarrow> (string \<times> string option \<times> 'a) list \<Rightarrow> resource_error + 'a" where
  "resolve_name kind selector candidates =
     (let matches = filter (\<lambda>(_, name, _). name = Some selector) candidates
      in case matches of
           [] \<Rightarrow> Inl (not_found kind selector)
         | [m] \<Rightarrow> Inr (snd (snd m))
         | _ \<Rightarrow> Inl (ambiguous kind selector (sort (map fst matches))))"

section \<open>Envelopes\<close>

definition protocol_name :: string where
  "protocol_name = ''cmux.protocol/2''"

datatype envelope_type = RequestType | ResponseType | StreamItemType | StreamEndType

record request_envelope =
  rq_protocol :: string
  rq_type :: envelope_type
  rq_id :: string
  rq_operation :: resource_operation
  rq_params :: json
  rq_idempotency_key :: "utext option"

definition request_validate :: "request_envelope \<Rightarrow> resource_error + unit" where
  "request_validate r =
     (if rq_protocol r \<noteq> protocol_name \<or> rq_type r \<noteq> RequestType then Inl (ValidationInvalid (Some ''protocol''))
      else if \<not> is_object (rq_params r) then Inl (ValidationInvalid (Some ''params''))
      else (case (rq_idempotency_key r, operation_class (rq_operation r)) of
          (None, MutationClass) \<Rightarrow> Inl (ValidationInvalid (Some ''idempotency_key''))
        | (None, _) \<Rightarrow> Inr ()
        | (Some key, MutationClass) \<Rightarrow> validate_idempotency_key key
        | (Some _, _) \<Rightarrow> Inl (ValidationInvalid (Some ''idempotency_key''))))"

record response_envelope =
  rs_protocol :: string
  rs_type :: envelope_type
  rs_id :: string
  rs_ok :: bool
  rs_result :: "json option"
  rs_error :: "resource_error option"

definition response_success :: "string \<Rightarrow> json \<Rightarrow> response_envelope" where
  "response_success i result = \<lparr>rs_protocol = protocol_name, rs_type = ResponseType, rs_id = i, rs_ok = True,
     rs_result = Some result, rs_error = None\<rparr>"

definition response_failure :: "string \<Rightarrow> resource_error \<Rightarrow> response_envelope" where
  "response_failure i err = \<lparr>rs_protocol = protocol_name, rs_type = ResponseType, rs_id = i, rs_ok = False,
     rs_result = None, rs_error = Some err\<rparr>"

definition response_validate :: "response_envelope \<Rightarrow> resource_error + unit" where
  "response_validate r =
     (if rs_protocol r \<noteq> protocol_name \<or> rs_type r \<noteq> ResponseType then Inl (ValidationInvalid (Some ''protocol''))
      else (case (rs_ok r, rs_result r \<noteq> None, rs_error r \<noteq> None) of
          (True, True, False) \<Rightarrow> Inr ()
        | (False, False, True) \<Rightarrow> Inr ()
        | _ \<Rightarrow> Inl (ValidationInvalid None)))"

section \<open>The journal of deltas\<close>

record resource_delta =
  dl_sequence :: u32
  dl_event :: string
  dl_data :: json

record delta_batch =
  previous_revision :: u64
  batch_revision :: u64
  deltas :: "resource_delta list"

text \<open>The byte counts are \<open>usize\<close>; they stay below twice the capacity and are numbers here.\<close>

record journal =
  jr_generation :: string
  jr_revision :: u64
  batches :: "(delta_batch \<times> nat) list"
  capacity :: nat
  byte_capacity :: nat
  retained_bytes :: nat

datatype journal_error = RevisionExhausted | TooManyDeltas | BatchTooLarge

definition journal_new :: "string \<Rightarrow> u64 \<Rightarrow> journal" where
  "journal_new generation revision = \<lparr>jr_generation = generation, jr_revision = revision, batches = [],
     capacity = 4096, byte_capacity = 16 * 1024 * 1024, retained_bytes = 0\<rparr>"

text \<open>\<open>enumerate\<close> and \<open>u32::try_from\<close> of the position; \<open>k\<close> is the position of the head.\<close>

fun sequence_deltas :: "nat \<Rightarrow> (string \<times> json) list \<Rightarrow> resource_delta list option" where
  "sequence_deltas k [] = Some []"
| "sequence_deltas k ((event, data) # es) =
     (if k < 2 ^ 32
      then map_option (\<lambda>ds. \<lparr>dl_sequence = word_of_nat k, dl_event = event, dl_data = data\<rparr> # ds)
             (sequence_deltas (Suc k) es)
      else None)"

text \<open>The eviction loop.\<close>

fun evict :: "nat \<Rightarrow> nat \<Rightarrow> (delta_batch \<times> nat) list \<Rightarrow> nat \<Rightarrow> (delta_batch \<times> nat) list \<times> nat" where
  "evict cap bytecap [] retained = ([], retained)"
| "evict cap bytecap ((b, n) # bs) retained =
     (if cap < length ((b, n) # bs) \<or> bytecap < retained then evict cap bytecap bs (retained - n)
      else ((b, n) # bs, retained))"

text \<open>\<open>json_len\<close> is the number of bytes of the JSON text \<open>serde_json::to_vec\<close> gives for a batch.\<close>

definition journal_commit ::
    "(delta_batch \<Rightarrow> nat) \<Rightarrow> journal \<Rightarrow> (string \<times> json) list \<Rightarrow> journal_error + journal \<times> u64" where
  "journal_commit json_len j events =
     (if jr_revision j = - 1 then Inl RevisionExhausted
      else
        let revision = jr_revision j + 1 in
        case sequence_deltas 0 events of
          None \<Rightarrow> Inl TooManyDeltas
        | Some ds \<Rightarrow>
            let batch = \<lparr>previous_revision = jr_revision j, batch_revision = revision, deltas = ds\<rparr>;
                bytes = json_len batch
            in if byte_capacity j < bytes then Inl BatchTooLarge
               else
                 let (bs, retained) = evict (capacity j) (byte_capacity j) (batches j @ [(batch, bytes)])
                       (retained_bytes j + bytes)
                 in Inr (j\<lparr>jr_revision := revision, batches := bs, retained_bytes := retained\<rparr>, revision))"

definition journal_after :: "journal \<Rightarrow> u64 \<Rightarrow> resource_error + delta_batch list" where
  "journal_after j revision =
     (if jr_revision j < revision then Inl (CursorInvalid (jr_generation j) revision (jr_revision j))
      else
        let oldest = (case batches j of [] \<Rightarrow> jr_revision j | (b, _) # _ \<Rightarrow> batch_revision b)
        in if sat_add revision 1 < oldest then Inl (CursorGap (jr_generation j) revision (jr_revision j) oldest)
           else Inr (map fst (filter (\<lambda>(b, _). revision < batch_revision b) (batches j))))"

end
