(* ===== verification/ResourceSelector.thy ===== *)
theory ResourceSelector
  imports Session Resource
begin

text \<open>
  Resolving the selectors of a request against the session (\<open>cmux-tui-core/src/resource_selector.rs\<close>):
  the selectors given, from the workspace down, the target, its ancestors through the indexes, and the
  check that every selector given is an ancestor of the target. A \<open>surface\<close> is what this code reads
  of \<open>Surface\<close> and \<open>SurfaceMeta\<close>.
\<close>

record surface =
  sf_id :: surface_id
  sf_identity :: "(public_id \<times> content_id) option"
  sf_name :: "string option"
  sf_title :: string

datatype resource_target = MachineTarget | SessionTarget | WorkspaceTarget | ScreenTarget | PaneTarget | TabTarget
  | TerminalTarget | BrowserTarget

fun target_depth :: "resource_target \<Rightarrow> nat" where
  "target_depth MachineTarget = 0" | "target_depth SessionTarget = 1" | "target_depth WorkspaceTarget = 2"
| "target_depth ScreenTarget = 3" | "target_depth PaneTarget = 4" | "target_depth TabTarget = 5"
| "target_depth TerminalTarget = 6" | "target_depth BrowserTarget = 6"

fun target_kind :: "resource_target \<Rightarrow> string" where
  "target_kind MachineTarget = ''machine''" | "target_kind SessionTarget = ''session''"
| "target_kind WorkspaceTarget = ''workspace''" | "target_kind ScreenTarget = ''screen''"
| "target_kind PaneTarget = ''pane''" | "target_kind TabTarget = ''tab''"
| "target_kind TerminalTarget = ''terminal''" | "target_kind BrowserTarget = ''browser''"

record resource_selectors =
  se_machine :: "string option"
  se_session :: "string option"
  se_workspace :: "string option"
  se_screen :: "string option"
  se_pane :: "string option"
  se_tab :: "string option"
  se_terminal :: "string option"
  se_browser :: "string option"
  se_client :: "string option"
  se_split :: "string option"
  se_stream :: "string option"
  se_notification :: "string option"
  se_agent :: "string option"
  se_frontend_projection :: "string option"
  se_pairing_request :: "string option"
  se_sidebar_view :: "string option"

definition at_depth :: "resource_selectors \<Rightarrow> resource_target \<Rightarrow> nat \<Rightarrow> string option" where
  "at_depth s target depth =
     (if depth = 0 then se_machine s
      else if depth = 1 then se_session s
      else if depth = 2 then se_workspace s
      else if depth = 3 then se_screen s
      else if depth = 4 then se_pane s
      else if depth = 5 then se_tab s
      else if depth = 6 \<and> target = TerminalTarget then se_terminal s
      else if depth = 6 \<and> target = BrowserTarget then se_browser s
      else None)"

definition unexpected_below :: "resource_selectors \<Rightarrow> resource_target \<Rightarrow> string option" where
  "unexpected_below s target =
     map_option fst (List.find snd
       [(''machine'', se_machine s \<noteq> None \<and> target_depth target < 0),
        (''session'', se_session s \<noteq> None \<and> target_depth target < 1),
        (''workspace'', se_workspace s \<noteq> None \<and> target_depth target < 2),
        (''screen'', se_screen s \<noteq> None \<and> target_depth target < 3),
        (''pane'', se_pane s \<noteq> None \<and> target_depth target < 4),
        (''tab'', se_tab s \<noteq> None \<and> target_depth target < 5),
        (''terminal'', se_terminal s \<noteq> None \<and> target \<noteq> TerminalTarget),
        (''browser'', se_browser s \<noteq> None \<and> target \<noteq> BrowserTarget),
        (''client'', se_client s \<noteq> None), (''split'', se_split s \<noteq> None), (''stream'', se_stream s \<noteq> None),
        (''notification'', se_notification s \<noteq> None), (''agent'', se_agent s \<noteq> None),
        (''frontend_projection'', se_frontend_projection s \<noteq> None),
        (''pairing_request'', se_pairing_request s \<noteq> None), (''sidebar_view'', se_sidebar_view s \<noteq> None)])"

record resolved_path =
  rp_machine :: string
  rp_session :: "string option"
  rp_workspace :: "public_id option"
  rp_screen :: "public_id option"
  rp_pane :: "public_id option"
  rp_tab :: "public_id option"
  rp_terminal :: "public_id option"
  rp_browser :: "public_id option"

record selector_context =
  cx_machine_id :: string
  cx_machine_name :: "string option"
  cx_session_id :: string
  cx_session_name :: string

record resolved_slots =
  rs_path :: resolved_path
  rs_workspace :: "workspace_id option"
  rs_screen :: "screen_id option"
  rs_pane :: "pane_id option"
  rs_tab :: "surface_id option"

type_synonym 'a resolved = "resource_error + 'a"

section \<open>Errors and requirements\<close>

text \<open>The selector an invalid-selector error names is the unexpected or missing word of its details.\<close>

definition invalid_selector :: "string \<Rightarrow> string option \<Rightarrow> resource_error" where
  "invalid_selector kind selector = selector_invalid kind (case selector of Some s \<Rightarrow> s | None \<Rightarrow> ''<invalid>'')"

definition incomplete_chain :: "string \<Rightarrow> string \<Rightarrow> resource_error" where
  "incomplete_chain kind parent = invalid_selector kind None"

definition require_selector :: "string option \<Rightarrow> string \<Rightarrow> string resolved" where
  "require_selector selector kind = ok_or selector (invalid_selector kind (Some kind))"

definition require_resolved_slot :: "'a option \<Rightarrow> string \<Rightarrow> 'a resolved" where
  "require_resolved_slot slot kind = ok_or slot (invalid_selector kind None)"

definition require_target_selector :: "resource_selectors \<Rightarrow> resource_target \<Rightarrow> unit resolved" where
  "require_target_selector s target =
     (if at_depth s target (target_depth target) = None
      then Inl (invalid_selector (target_kind target) (Some (target_kind target))) else Inr ())"

definition is_id_selector :: "selector \<Rightarrow> bool" where
  "is_id_selector s = (case s of SelId _ \<Rightarrow> True | _ \<Rightarrow> False)"

text \<open>The outer loop: \<open>parents\<close> are the levels above, nearest first.\<close>

fun check_chain :: "(string \<times> string option) list \<Rightarrow> (string \<times> string option) list \<Rightarrow> unit resolved" where
  "check_chain parents [] = Inr ()"
| "check_chain parents ((kind, None) # levels) = check_chain ((kind, None) # parents) levels"
| "check_chain parents ((kind, Some raw) # levels) =
     rbind (selector_parse raw) (\<lambda>sel.
       case (if is_id_selector sel then None else List.find (\<lambda>(_, p). p = None) parents) of
         Some (missing, _) \<Rightarrow> Inl (incomplete_chain kind missing)
       | None \<Rightarrow> check_chain ((kind, Some raw) # parents) levels)"

definition validate_contiguous_name_current_chains :: "resource_selectors \<Rightarrow> resource_target \<Rightarrow> unit resolved" where
  "validate_contiguous_name_current_chains s target =
     (let structural = [(''workspace'', se_workspace s), (''screen'', se_screen s), (''pane'', se_pane s), (''tab'', se_tab s)]
      in rbind (check_chain [] structural) (\<lambda>_.
        if target_depth target = 6 then
          (case at_depth s target 6 of
             None \<Rightarrow> Inl ResourcePanic
           | Some raw \<Rightarrow> rbind (selector_parse raw) (\<lambda>sel.
               case (if is_id_selector sel then None else List.find (\<lambda>(_, p). p = None) (rev structural)) of
                 Some (missing, _) \<Rightarrow> Inl (incomplete_chain (target_kind target) missing)
               | None \<Rightarrow> Inr ()))
        else Inr ()))"

definition resolve_singleton :: "string \<Rightarrow> string \<Rightarrow> string \<Rightarrow> string option \<Rightarrow> id_kind \<Rightarrow> string resolved" where
  "resolve_singleton kind raw expected expected_name k =
     rbind (selector_parse raw) (\<lambda>sel. case sel of
         Current \<Rightarrow> Inr expected
       | SelId i \<Rightarrow> rbind (public_id_parse k i) (\<lambda>i. if i = expected then Inr i else Inl (not_found kind raw))
       | SelName name \<Rightarrow> if expected_name = Some name then Inr expected else Inl (not_found kind raw))"

section \<open>Slots and public ids\<close>

definition public_workspace_id :: "'sf session \<Rightarrow> workspace_id \<Rightarrow> public_id resolved" where
  "public_workspace_id st slot = ok_or (workspace_ids (resource_indexes st) slot) (not_found ''workspace'' ''<resolved>'')"

definition public_screen_id :: "'sf session \<Rightarrow> screen_id \<Rightarrow> public_id resolved" where
  "public_screen_id st slot = ok_or (screen_ids (resource_indexes st) slot) (not_found ''screen'' ''<resolved>'')"

definition public_pane_id :: "'sf session \<Rightarrow> pane_id \<Rightarrow> public_id resolved" where
  "public_pane_id st slot = ok_or (ix_pane_ids (resource_indexes st) slot) (not_found ''pane'' ''<resolved>'')"

definition public_tab_id :: "'sf session \<Rightarrow> surface_id \<Rightarrow> public_id resolved" where
  "public_tab_id st slot = ok_or (tab_ids (resource_indexes st) slot) (not_found ''tab'' ''<resolved>'')"

definition workspace_by_slot :: "'sf session \<Rightarrow> workspace_id \<Rightarrow> workspace resolved" where
  "workspace_by_slot st slot =
     rbind (ok_or (workspace_index st slot) (not_found ''workspace'' ''<resolved>'')) (\<lambda>index.
       ok_or (nth_opt (workspaces st) index) ResourcePanic)"

definition screen_by_slot :: "'sf session \<Rightarrow> screen_id \<Rightarrow> screen resolved" where
  "screen_by_slot st slot =
     rbind (ok_or (screen_workspace (resource_indexes st) slot) (not_found ''screen'' ''<resolved>'')) (\<lambda>w.
     rbind (workspace_by_slot st w) (\<lambda>w.
       ok_or (List.find (\<lambda>s. sc_id s = slot) (screens w)) (not_found ''screen'' ''<resolved>'')))"

definition starts_with :: "string \<Rightarrow> string \<Rightarrow> bool" where
  "starts_with p s = (strip_prefix p s \<noteq> None)"

definition wrong_parent :: "string \<Rightarrow> string \<Rightarrow> string \<Rightarrow> string \<Rightarrow> string option \<Rightarrow> resource_error" where
  "wrong_parent child_kind child_id parent_kind expected actual =
     SelectorWrongParent
       (if child_kind = ''target'' then
          if starts_with ''ws_'' child_id then ''workspace''
          else if starts_with ''screen_'' child_id then ''screen''
          else if starts_with ''pane_'' child_id then ''pane''
          else if starts_with ''tab_'' child_id then ''tab''
          else if starts_with ''term_'' child_id then ''terminal''
          else if starts_with ''browser_'' child_id then ''browser''
          else ''pane''
        else child_kind)
       child_id parent_kind expected (case actual of Some a \<Rightarrow> a | None \<Rightarrow> ''<none>'')"

definition validate_immediate_parent ::
    "string \<Rightarrow> string \<Rightarrow> string \<Rightarrow> 'a option \<Rightarrow> 'a option \<Rightarrow> ('a \<Rightarrow> string resolved) \<Rightarrow> unit resolved" where
  "validate_immediate_parent child_kind child_id parent_kind selected actual render =
     (case selected of
        None \<Rightarrow> Inr ()
      | Some s \<Rightarrow>
          if Some s = actual then Inr ()
          else rbind (render s) (\<lambda>expected.
            rbind (case actual of None \<Rightarrow> Inr None | Some a \<Rightarrow> rmap Some (render a)) (\<lambda>found.
              Inl (wrong_parent child_kind child_id parent_kind expected found))))"

definition validate_supplied_parent ::
    "string \<Rightarrow> 'a option \<Rightarrow> 'a \<Rightarrow> string \<Rightarrow> ('a \<Rightarrow> string resolved) \<Rightarrow> unit resolved" where
  "validate_supplied_parent parent_kind supplied actual target_id render =
     (case supplied of
        None \<Rightarrow> Inr ()
      | Some s \<Rightarrow>
          if s = actual then Inr ()
          else rbind (render s) (\<lambda>expected. rbind (render actual) (\<lambda>found.
            Inl (wrong_parent ''target'' target_id parent_kind expected (Some found)))))"

definition validate_content_parent ::
    "'sf session \<Rightarrow> string \<Rightarrow> string \<Rightarrow> surface_id option \<Rightarrow> surface_id \<Rightarrow> unit resolved" where
  "validate_content_parent st kind public parent actual =
     validate_immediate_parent kind public ''tab'' parent (Some actual) (public_tab_id st)"

section \<open>One level\<close>

definition resolve_workspace :: "'sf session \<Rightarrow> string \<Rightarrow> workspace_id resolved" where
  "resolve_workspace st raw =
     rbind (selector_parse raw) (\<lambda>sel. case sel of
         Current \<Rightarrow> ok_or (map_option ws_id (nth_opt (workspaces st) (active_workspace st))) (not_found ''workspace'' raw)
       | SelId i \<Rightarrow> rbind (public_id_parse WorkspaceId i) (\<lambda>i.
           ok_or (ix_workspaces (resource_indexes st) i) (not_found ''workspace'' raw))
       | SelName name \<Rightarrow> resolve_name ''workspace'' name
           (map (\<lambda>w. (ws_public w, Some (ws_name w), ws_id w)) (workspaces st)))"

definition resolve_screen :: "'sf session \<Rightarrow> string \<Rightarrow> workspace_id option \<Rightarrow> screen_id resolved" where
  "resolve_screen st raw parent =
     rbind (rbind (selector_parse raw) (\<lambda>sel. case sel of
         SelId i \<Rightarrow> rbind (public_id_parse ScreenId i) (\<lambda>i.
           ok_or (ix_screens (resource_indexes st) i) (not_found ''screen'' raw))
       | Current \<Rightarrow>
           rbind (ok_or parent (incomplete_chain ''screen'' ''workspace'')) (\<lambda>p.
           rbind (workspace_by_slot st p) (\<lambda>w.
             ok_or (map_option sc_id (active_screen_ref w)) (not_found ''screen'' raw)))
       | SelName name \<Rightarrow>
           rbind (ok_or parent (incomplete_chain ''screen'' ''workspace'')) (\<lambda>p.
           rbind (workspace_by_slot st p) (\<lambda>w.
             resolve_name ''screen'' name (map (\<lambda>s. (sc_public s, sc_name s, sc_id s)) (screens w)))))) (\<lambda>screen.
     rbind (public_screen_id st screen) (\<lambda>public.
     rbind (validate_immediate_parent ''screen'' public ''workspace'' parent
              (screen_workspace (resource_indexes st) screen) (public_workspace_id st)) (\<lambda>_.
       Inr screen)))"

definition resolve_pane :: "'sf session \<Rightarrow> string \<Rightarrow> screen_id option \<Rightarrow> pane_id resolved" where
  "resolve_pane st raw parent =
     rbind (rbind (selector_parse raw) (\<lambda>sel. case sel of
         SelId i \<Rightarrow> rbind (public_id_parse PaneId i) (\<lambda>i.
           ok_or (ix_panes (resource_indexes st) i) (not_found ''pane'' raw))
       | Current \<Rightarrow>
           rbind (ok_or parent (incomplete_chain ''pane'' ''screen'')) (\<lambda>p.
           rbind (screen_by_slot st p) (\<lambda>s. Inr (active_pane s)))
       | SelName name \<Rightarrow>
           rbind (ok_or parent (incomplete_chain ''pane'' ''screen'')) (\<lambda>p.
             resolve_name ''pane'' name (map (\<lambda>x. (pn_public x, pn_name x, pn_id x))
               (filter (\<lambda>x. pane_screen (resource_indexes st) (pn_id x) = Some p) (map snd (ses_panes st))))))) (\<lambda>pane.
     rbind (public_pane_id st pane) (\<lambda>public.
     rbind (validate_immediate_parent ''pane'' public ''screen'' parent
              (pane_screen (resource_indexes st) pane) (public_screen_id st)) (\<lambda>_.
       Inr pane)))"

definition resolve_tab :: "surface session \<Rightarrow> string \<Rightarrow> pane_id option \<Rightarrow> surface_id resolved" where
  "resolve_tab st raw parent =
     rbind (rbind (selector_parse raw) (\<lambda>sel. case sel of
         SelId i \<Rightarrow> rbind (public_id_parse TabId i) (\<lambda>i.
           ok_or (ix_tabs (resource_indexes st) i) (not_found ''tab'' raw))
       | Current \<Rightarrow>
           rbind (ok_or parent (incomplete_chain ''tab'' ''pane'')) (\<lambda>p.
             ok_or (Option.bind (pane_lookup st p) active_surface) (not_found ''tab'' raw))
       | SelName name \<Rightarrow>
           rbind (ok_or parent (incomplete_chain ''tab'' ''pane'')) (\<lambda>p.
           rbind (ok_or (pane_lookup st p) (not_found ''pane'' ''<resolved>'')) (\<lambda>x.
             resolve_name ''tab'' name (List.map_filter (\<lambda>t.
               map_option (\<lambda>i. (i, Option.bind (map_of (surfaces st) t) sf_name, t)) (tab_ids (resource_indexes st) t))
               (tabs x)))))) (\<lambda>tab.
     rbind (public_tab_id st tab) (\<lambda>public.
     rbind (validate_immediate_parent ''tab'' public ''pane'' parent
              (tab_pane (resource_indexes st) tab) (public_pane_id st)) (\<lambda>_.
       Inr tab)))"

definition placement_matches_scope ::
    "'sf session \<Rightarrow> surface_id \<Rightarrow> pane_id option \<Rightarrow> screen_id option \<Rightarrow> workspace_id option \<Rightarrow> bool" where
  "placement_matches_scope st placement pane screen w =
     (let actual_pane = tab_pane (resource_indexes st) placement;
          actual_screen = Option.bind actual_pane (pane_screen (resource_indexes st));
          actual_workspace = Option.bind actual_screen (screen_workspace (resource_indexes st))
      in (pane = None \<or> actual_pane = pane) \<and> (screen = None \<or> actual_screen = screen)
         \<and> (w = None \<or> actual_workspace = w))"

definition first_some :: "'a option \<Rightarrow> 'a option \<Rightarrow> 'a option" where
  "first_some a b = (case a of Some x \<Rightarrow> Some x | None \<Rightarrow> b)"

definition surface_title :: "surface session \<Rightarrow> surface_id \<Rightarrow> string" where
  "surface_title st t = (case map_of (surfaces st) t of Some sf \<Rightarrow> sf_title sf | None \<Rightarrow> [])"

definition resolve_terminal ::
    "surface session \<Rightarrow> string \<Rightarrow> surface_id option \<Rightarrow> pane_id option \<Rightarrow> screen_id option \<Rightarrow> workspace_id option
     \<Rightarrow> (surface_id \<times> public_id) resolved" where
  "resolve_terminal st raw parent pane screen w =
     rbind (selector_parse raw) (\<lambda>sel. case sel of
         SelId i \<Rightarrow> rbind (public_id_parse TerminalId i) (\<lambda>i.
           let content = TerminalContent i;
               own = (case parent of Some p \<Rightarrow> if content_ids (resource_indexes st) p = Some content then Some p else None
                      | None \<Rightarrow> None);
               placed = Option.bind (content_placements (resource_indexes st) content) (\<lambda>ps.
                 first_some (List.find (\<lambda>p. placement_matches_scope st p pane screen w) ps) (nth_opt ps 0));
               slot = first_some own (first_some placed (map_option sf_id (terminal_catalog st i)))
           in rbind (ok_or slot (not_found ''terminal'' raw)) (\<lambda>slot.
              rbind (validate_content_parent st ''terminal'' i parent slot) (\<lambda>_. Inr (slot, i))))
       | Current \<Rightarrow>
           rbind (ok_or parent (incomplete_chain ''terminal'' ''tab'')) (\<lambda>p.
             case content_ids (resource_indexes st) p of
               Some (TerminalContent i) \<Rightarrow> Inr (p, i) | _ \<Rightarrow> Inl (not_found ''terminal'' raw))
       | SelName name \<Rightarrow>
           rbind (ok_or parent (incomplete_chain ''terminal'' ''tab'')) (\<lambda>p.
             case content_ids (resource_indexes st) p of
               Some (TerminalContent i) \<Rightarrow> if surface_title st p = name then Inr (p, i) else Inl (not_found ''terminal'' name)
             | _ \<Rightarrow> Inl (not_found ''terminal'' raw)))"

definition resolve_browser :: "surface session \<Rightarrow> string \<Rightarrow> surface_id option \<Rightarrow> (surface_id \<times> public_id) resolved" where
  "resolve_browser st raw parent =
     rbind (selector_parse raw) (\<lambda>sel. case sel of
         SelId i \<Rightarrow> rbind (public_id_parse BrowserId i) (\<lambda>i.
           rbind (ok_or (single_placement_of_content st (BrowserContent i)) (not_found ''browser'' raw)) (\<lambda>slot.
           rbind (validate_content_parent st ''browser'' i parent slot) (\<lambda>_. Inr (slot, i))))
       | Current \<Rightarrow>
           rbind (ok_or parent (incomplete_chain ''browser'' ''tab'')) (\<lambda>p.
             case content_ids (resource_indexes st) p of
               Some (BrowserContent i) \<Rightarrow> Inr (p, i) | _ \<Rightarrow> Inl (not_found ''browser'' raw))
       | SelName name \<Rightarrow>
           rbind (ok_or parent (incomplete_chain ''browser'' ''tab'')) (\<lambda>p.
             case content_ids (resource_indexes st) p of
               Some (BrowserContent i) \<Rightarrow> if surface_title st p = name then Inr (p, i) else Inl (not_found ''browser'' name)
             | _ \<Rightarrow> Inl (not_found ''browser'' raw)))"

section \<open>The whole request\<close>

definition target_public_id ::
    "'sf session \<Rightarrow> resource_target \<Rightarrow> workspace_id \<Rightarrow> screen_id option \<Rightarrow> pane_id option \<Rightarrow> surface_id option
     \<Rightarrow> string resolved" where
  "target_public_id st target w screen pane tab =
     (case target of
        WorkspaceTarget \<Rightarrow> public_workspace_id st w
      | ScreenTarget \<Rightarrow> rbind (ok_or screen (not_found ''screen'' ''<resolved>'')) (public_screen_id st)
      | PaneTarget \<Rightarrow> rbind (ok_or pane (not_found ''pane'' ''<resolved>'')) (public_pane_id st)
      | TabTarget \<Rightarrow> rbind (ok_or tab (not_found ''tab'' ''<resolved>'')) (public_tab_id st)
      | MachineTarget \<Rightarrow> Inl (not_found (target_kind target) ''<resolved>'')
      | SessionTarget \<Rightarrow> Inl (not_found (target_kind target) ''<resolved>'')
      | _ \<Rightarrow> rbind (ok_or tab (not_found (target_kind target) ''<resolved>'')) (\<lambda>t.
          ok_or (map_option (\<lambda>c. case c of TerminalContent i \<Rightarrow> i | BrowserContent i \<Rightarrow> i)
                   (content_ids (resource_indexes st) t))
            (not_found (target_kind target) ''<resolved>'')))"

definition resolve_opt :: "string option \<Rightarrow> (string \<Rightarrow> 'a resolved) \<Rightarrow> 'a option resolved" where
  "resolve_opt raw f = (case raw of None \<Rightarrow> Inr None | Some r \<Rightarrow> rmap Some (f r))"

record supplied_slots =
  sp_workspace :: "workspace_id option"
  sp_screen :: "screen_id option"
  sp_pane :: "pane_id option"
  sp_tab :: "surface_id option"

definition resolve_supplied :: "surface session \<Rightarrow> resource_selectors \<Rightarrow> supplied_slots resolved" where
  "resolve_supplied st s =
     rbind (resolve_opt (se_workspace s) (resolve_workspace st)) (\<lambda>w.
     rbind (resolve_opt (se_screen s) (\<lambda>raw. resolve_screen st raw w)) (\<lambda>sc.
     rbind (resolve_opt (se_pane s) (\<lambda>raw. resolve_pane st raw sc)) (\<lambda>p.
     rbind (resolve_opt (se_tab s) (\<lambda>raw. resolve_tab st raw p)) (\<lambda>t.
       Inr \<lparr>sp_workspace = w, sp_screen = sc, sp_pane = p, sp_tab = t\<rparr>))))"

text \<open>The tab of the target, and its terminal or browser.\<close>

definition resolve_target_tab ::
    "surface session \<Rightarrow> resource_target \<Rightarrow> resource_selectors \<Rightarrow> supplied_slots
     \<Rightarrow> (surface_id option \<times> public_id option \<times> public_id option) resolved" where
  "resolve_target_tab st target s sp =
     (case target of
        TerminalTarget \<Rightarrow>
          (case se_terminal s of
             None \<Rightarrow> Inl ResourcePanic
           | Some raw \<Rightarrow> rmap (\<lambda>(slot, i). (Some slot, Some i, None))
               (resolve_terminal st raw (sp_tab sp) (sp_pane sp) (sp_screen sp) (sp_workspace sp)))
      | BrowserTarget \<Rightarrow>
          (case se_browser s of
             None \<Rightarrow> Inl ResourcePanic
           | Some raw \<Rightarrow> rmap (\<lambda>(slot, i). (Some slot, None, Some i)) (resolve_browser st raw (sp_tab sp)))
      | TabTarget \<Rightarrow> Inr (sp_tab sp, None, None)
      | _ \<Rightarrow> Inr (None, None, None))"

text \<open>The ancestors of the target, by the indexes.\<close>

definition target_slots :: "'sf session \<Rightarrow> resource_target \<Rightarrow> supplied_slots \<Rightarrow> surface_id option \<Rightarrow> supplied_slots" where
  "target_slots st target sp tab =
     (let ix = resource_indexes st;
          pane = (if target \<in> {TerminalTarget, BrowserTarget, TabTarget} then Option.bind tab (tab_pane ix)
                  else if target = PaneTarget then sp_pane sp else None);
          screen = (if target \<in> {TerminalTarget, BrowserTarget, TabTarget, PaneTarget} then Option.bind pane (pane_screen ix)
                    else if target = ScreenTarget then sp_screen sp else None);
          w = (if target \<in> {TerminalTarget, BrowserTarget, TabTarget, PaneTarget, ScreenTarget}
               then Option.bind screen (screen_workspace ix)
               else if target = WorkspaceTarget then sp_workspace sp else None)
      in \<lparr>sp_workspace = w, sp_screen = screen, sp_pane = pane, sp_tab = tab\<rparr>)"

definition bare_path :: "string \<Rightarrow> string option \<Rightarrow> public_id option \<Rightarrow> resolved_slots" where
  "bare_path machine session terminal = \<lparr>rs_path = \<lparr>rp_machine = machine, rp_session = session, rp_workspace = None,
     rp_screen = None, rp_pane = None, rp_tab = None, rp_terminal = terminal, rp_browser = None\<rparr>,
     rs_workspace = None, rs_screen = None, rs_pane = None, rs_tab = None\<rparr>"

text \<open>A terminal whose last view is gone: no structural selector may have been given.\<close>

definition detached_terminal ::
    "'sf session \<Rightarrow> string \<Rightarrow> string \<Rightarrow> supplied_slots \<Rightarrow> public_id \<Rightarrow> resolved_slots resolved" where
  "detached_terminal st machine session sp terminal =
     (case sp_pane sp of
        Some p \<Rightarrow> rbind (public_pane_id st p) (\<lambda>i. Inl (wrong_parent ''target'' terminal ''pane'' i None))
      | None \<Rightarrow>
     (case sp_screen sp of
        Some s \<Rightarrow> rbind (public_screen_id st s) (\<lambda>i. Inl (wrong_parent ''target'' terminal ''screen'' i None))
      | None \<Rightarrow>
     (case sp_workspace sp of
        Some w \<Rightarrow> rbind (public_workspace_id st w) (\<lambda>i. Inl (wrong_parent ''target'' terminal ''workspace'' i None))
      | None \<Rightarrow> Inr (bare_path machine (Some session) (Some terminal)))))"

text \<open>One \<open>validate_supplied_parent\<close>: the level is derived, the target named, the selector compared.\<close>

definition check_level ::
    "string \<Rightarrow> 'a option \<Rightarrow> 'a option \<Rightarrow> ('a \<Rightarrow> string resolved) \<Rightarrow> ('a \<Rightarrow> string resolved) \<Rightarrow> 'a resolved" where
  "check_level kind supplied actual target_id render =
     rbind (require_resolved_slot actual kind) (\<lambda>a.
     rbind (target_id a) (\<lambda>i.
     rbind (validate_supplied_parent kind supplied a i render) (\<lambda>_. Inr a)))"

definition check_levels ::
    "'sf session \<Rightarrow> resource_target \<Rightarrow> supplied_slots \<Rightarrow> supplied_slots \<Rightarrow> workspace_id resolved" where
  "check_levels st target sp tg =
     rbind (check_level ''workspace'' (sp_workspace sp) (sp_workspace tg)
              (\<lambda>w. target_public_id st target w (sp_screen tg) (sp_pane tg) (sp_tab tg)) (public_workspace_id st)) (\<lambda>w.
     rbind (if target_depth target < 3 then Inr () else rmap (\<lambda>_. ()) (check_level ''screen'' (sp_screen sp) (sp_screen tg)
              (\<lambda>s. target_public_id st target w (Some s) (sp_pane tg) (sp_tab tg)) (public_screen_id st))) (\<lambda>_.
     rbind (if target_depth target < 4 then Inr () else rmap (\<lambda>_. ()) (check_level ''pane'' (sp_pane sp) (sp_pane tg)
              (\<lambda>p. target_public_id st target w (sp_screen tg) (Some p) (sp_tab tg)) (public_pane_id st))) (\<lambda>_.
     rbind (if target_depth target < 5 then Inr () else rmap (\<lambda>_. ()) (check_level ''tab'' (sp_tab sp) (sp_tab tg)
              (\<lambda>t. target_public_id st target w (sp_screen tg) (sp_pane tg) (Some t)) (public_tab_id st))) (\<lambda>_.
       Inr w))))"

definition public_of :: "'a option \<Rightarrow> ('a \<Rightarrow> string resolved) \<Rightarrow> string option resolved" where
  "public_of slot render = (case slot of None \<Rightarrow> Inr None | Some s \<Rightarrow> rmap Some (render s))"

text \<open>From the target's slots to the result.\<close>

definition resolved_target ::
    "'sf session \<Rightarrow> string \<Rightarrow> string \<Rightarrow> resource_target \<Rightarrow> supplied_slots
     \<Rightarrow> surface_id option \<times> public_id option \<times> public_id option \<Rightarrow> resolved_slots resolved" where
  "resolved_target st machine session target sp found =
     (case found of (tab, terminal, browser) \<Rightarrow>
       let tg = target_slots st target sp tab in
       if target = TerminalTarget \<and> sp_pane tg = None then
         (case terminal of None \<Rightarrow> Inl ResourcePanic | Some i \<Rightarrow> detached_terminal st machine session sp i)
       else
       rbind (check_levels st target sp tg) (\<lambda>w.
       rbind (public_workspace_id st w) (\<lambda>workspace_id.
       rbind (public_of (sp_screen tg) (public_screen_id st)) (\<lambda>screen_id.
       rbind (public_of (sp_pane tg) (public_pane_id st)) (\<lambda>pane_id.
       rbind (public_of (sp_tab tg) (public_tab_id st)) (\<lambda>tab_id.
         Inr \<lparr>rs_path = \<lparr>rp_machine = machine, rp_session = Some session, rp_workspace = Some workspace_id,
                rp_screen = screen_id, rp_pane = pane_id, rp_tab = tab_id, rp_terminal = terminal, rp_browser = browser\<rparr>,
              rs_workspace = Some w, rs_screen = sp_screen tg, rs_pane = sp_pane tg, rs_tab = sp_tab tg\<rparr>))))))"

definition resolve_structural ::
    "surface session \<Rightarrow> string \<Rightarrow> string \<Rightarrow> resource_target \<Rightarrow> resource_selectors \<Rightarrow> resolved_slots resolved" where
  "resolve_structural st machine session target s =
     rbind (require_target_selector s target) (\<lambda>_.
     rbind (validate_contiguous_name_current_chains s target) (\<lambda>_.
     rbind (resolve_supplied st s) (\<lambda>sp.
     rbind (resolve_target_tab st target s sp) (\<lambda>found.
       resolved_target st machine session target sp found))))"

definition resolve_resource_selectors ::
    "surface session \<Rightarrow> selector_context \<Rightarrow> resource_target \<Rightarrow> resource_selectors \<Rightarrow> resolved_slots resolved" where
  "resolve_resource_selectors st context target s =
     (case unexpected_below s target of
        Some unexpected \<Rightarrow> Inl (invalid_selector (target_kind target) (Some unexpected))
      | None \<Rightarrow>
     if se_terminal s \<noteq> None \<and> se_browser s \<noteq> None then Inl (invalid_selector (target_kind target) None)
     else
       rbind (require_selector (se_machine s) ''machine'') (\<lambda>raw.
       rbind (resolve_singleton ''machine'' raw (cx_machine_id context) (cx_machine_name context) MachineId) (\<lambda>machine.
       if target = MachineTarget then
         rbind (require_target_selector s target) (\<lambda>_. Inr (bare_path machine None None))
       else
       rbind (require_selector (se_session s) ''session'') (\<lambda>raw.
       rbind (resolve_singleton ''session'' raw (cx_session_id context) (Some (cx_session_name context)) SessionId) (\<lambda>session.
       if target = SessionTarget then
         rbind (require_target_selector s target) (\<lambda>_. Inr (bare_path machine (Some session) None))
       else resolve_structural st machine session target s)))))"

end
