(* ===== verification/ResourceProps.thy ===== *)
theory ResourceProps
  imports Resource
begin

text \<open>
  The wire forms of the resource protocol: decimals and operation names are read back exactly, public
  ids of different kinds never meet, selectors say what they parse to, and the journal answers a
  cursor with the batches after it.
\<close>

section \<open>Decimals\<close>

fun digits_value :: "nat \<Rightarrow> string \<Rightarrow> nat" where
  "digits_value acc [] = acc"
| "digits_value acc (c # cs) = digits_value (10 * acc + ((of_char c :: nat) - 48)) cs"

lemma digits_value_append: "digits_value acc (xs @ ys) = digits_value (digits_value acc xs) ys"
  by (induction acc xs rule: digits_value.induct) simp_all

lemma digits_value_ge: "acc \<le> digits_value acc cs"
proof (induction acc cs rule: digits_value.induct)
  case (2 acc c cs)
  then show ?case
    by simp
qed simp

lemma parse_digits_iff:
  "parse_digits acc cs = Some n \<longleftrightarrow> list_all is_digit cs \<and> digits_value acc cs = n \<and> (cs = [] \<or> n < 2 ^ 64)"
proof (induction acc cs arbitrary: n rule: parse_digits.induct)
  case (2 acc c cs)
  let ?n = "10 * acc + ((of_char c :: nat) - 48)"
  show ?case
  proof (cases "is_digit c \<and> ?n < 2 ^ 64")
    case True
    with "2.IH" [OF refl True] show ?thesis
      by (auto simp: Let_def)
  next
    case False
    then show ?thesis
      using digits_value_ge [of ?n cs] by auto
  qed
qed simp

lemma digit_char: "d < 10 \<Longrightarrow> is_digit (char_of (48 + d)) \<and> (of_char (char_of (48 + d)) :: nat) = 48 + d"
  by (simp add: is_digit_def of_char_of)

lemma char_of_digit: "is_digit c \<Longrightarrow> char_of (48 + ((of_char c :: nat) - 48)) = c \<and> (of_char c :: nat) - 48 < 10"
proof -
  assume "is_digit c"
  then have "48 + ((of_char c :: nat) - 48) = of_char c" "(of_char c :: nat) - 48 < 10"
    by (auto simp: is_digit_def)
  then show ?thesis
    by (simp only: char_of_char)
qed

lemma decimal_digits_ok: "list_all is_digit (decimal n) \<and> digits_value 0 (decimal n) = n \<and> decimal n \<noteq> []"
proof (induction n rule: decimal.induct)
  case (1 n)
  show ?case
  proof (cases "n < 10")
    case True
    with digit_char [of n] show ?thesis
      by (subst (1 2 3) decimal.simps) simp
  next
    case False
    with 1 digit_char [of "n mod 10"] show ?thesis
      by (subst (1 2 3) decimal.simps) (simp add: digits_value_append)
  qed
qed

lemma decimal_head: "hd (decimal n) = CHR ''0'' \<longleftrightarrow> n = 0"
proof (induction n rule: decimal.induct)
  case (1 n)
  show ?case
  proof (cases "n < 10")
    case True
    moreover have "char_of (48 + n) = CHR ''0'' \<longleftrightarrow> n = 0"
    proof
      assume "char_of (48 + n) = CHR ''0''"
      then have "(of_char (char_of (48 + n)) :: nat) = of_char (CHR ''0'')"
        by simp
      with digit_char [OF True] show "n = 0"
        by simp
    next
      have "(of_char (char_of (48 :: nat)) :: nat) = of_char (CHR ''0'')"
        using digit_char [of 0] by simp
      then have "char_of (48 :: nat) = CHR ''0''"
        by (simp only: of_char_eq_iff)
      then show "n = 0 \<Longrightarrow> char_of (48 + n) = CHR ''0''"
        by simp
    qed
    ultimately show ?thesis
      by (subst decimal.simps) simp
  next
    case False
    then have "hd (decimal n) = hd (decimal (n div 10))"
      using decimal_digits_ok [of "n div 10"] by (subst decimal.simps) simp
    with 1 False show ?thesis
      by simp
  qed
qed


lemma decimal_canonical:
  "list_all is_digit s \<Longrightarrow> s \<noteq> [] \<Longrightarrow> (hd s = CHR ''0'' \<longrightarrow> length s = 1) \<Longrightarrow> decimal (digits_value 0 s) = s"
proof (induction s rule: rev_induct)
  case (snoc c xs)
  let ?d = "(of_char c :: nat) - 48"
  have c: "char_of (48 + ?d) = c" "?d < 10"
    using snoc.prems(1) char_of_digit by simp_all
  show ?case
  proof (cases "xs = []")
    case True
    with c show ?thesis
      by (subst decimal.simps) simp
  next
    case False
    then have hd: "hd xs \<noteq> CHR ''0''"
      using snoc.prems(3) by auto
    with False snoc have IH: "decimal (digits_value 0 xs) = xs"
      by simp
    then have pos: "digits_value 0 xs \<noteq> 0"
      using decimal_head [of "digits_value 0 xs"] hd by auto
    let ?v = "10 * digits_value 0 xs + ?d"
    have v: "digits_value 0 (xs @ [c]) = ?v" "\<not> ?v < 10" "?v div 10 = digits_value 0 xs" "?v mod 10 = ?d"
      using pos c(2) by (simp_all add: digits_value_append)
    show ?thesis
      unfolding v(1) by (subst decimal.simps) (simp only: v(2,3,4) IH c if_False)
  qed
qed simp

lemma decimal_length: "n < 10 ^ Suc k \<Longrightarrow> length (decimal n) \<le> Suc k"
proof (induction k arbitrary: n)
  case 0
  then show ?case
    by (subst decimal.simps) simp
next
  case (Suc k)
  then have "n div 10 < 10 ^ Suc k"
    by (simp add: less_mult_imp_div_less mult.commute)
  with Suc.IH [of "n div 10"] show ?case
    by (subst decimal.simps) simp
qed

lemma wire_decimal_iff: "wire_decimal_deserialize s = Some v \<longleftrightarrow> s = wire_decimal_serialize v"
proof
  assume s: "s = wire_decimal_serialize v"
  have u: "unat v < 2 ^ 64"
    using unsigned_less [of v] by simp
  then have "unat v < 10 ^ Suc 19"
    by simp
  from decimal_length [OF this] have len: "length s \<le> 20"
    by (simp add: s wire_decimal_serialize_def)
  have d: "list_all is_digit s" "digits_value 0 s = unat v" "s \<noteq> []" "hd s = CHR ''0'' \<longleftrightarrow> unat v = 0"
    using decimal_digits_ok [of "unat v"] decimal_head [of "unat v"] by (simp_all add: s wire_decimal_serialize_def)
  obtain c cs where cs: "s = c # cs"
    using d(3) by (cases s) auto
  have plus: "c \<noteq> CHR ''+''"
    using d(1) cs by (auto simp: is_digit_def)
  have zero: "c = CHR ''0'' \<Longrightarrow> cs = []"
  proof -
    assume "c = CHR ''0''"
    with d(4) cs have "s = decimal 0"
      by (simp add: s wire_decimal_serialize_def)
    then show "cs = []"
      using cs by (simp add: decimal.simps)
  qed
  have "parse_digits 0 s = Some (unat v)"
    using d u by (simp add: parse_digits_iff)
  then have "parse_u64 s = Some v"
    using plus cs by (simp add: parse_u64_def)
  with len plus zero cs show "wire_decimal_deserialize s = Some v"
    by (auto simp: wire_decimal_deserialize_def)
next
  assume a: "wire_decimal_deserialize s = Some v"
  then have p: "parse_u64 s = Some v" "take 1 s \<noteq> ''+''" "take 1 s = ''0'' \<Longrightarrow> length s = 1"
    by (auto simp: wire_decimal_deserialize_def split: if_splits)
  then obtain c cs where cs: "s = c # cs"
    by (cases s) (auto simp: parse_u64_def)
  with p obtain n where n: "parse_digits 0 s = Some n" "v = word_of_nat n"
    by (auto simp: parse_u64_def split: if_splits)
  have d: "list_all is_digit s" "digits_value 0 s = n" "n < 2 ^ 64"
    using n(1) cs unfolding parse_digits_iff by blast+
  have "decimal n = s"
    using decimal_canonical [OF d(1)] d(2) p(3) cs by auto
  with n(2) d(3) show "s = wire_decimal_serialize v"
    by (simp add: wire_decimal_serialize_def unat_word_of_nat_small)
qed

section \<open>Public ids\<close>

lemma nibbles: "unat (drop_bit 4 b) < 16" "unat (b AND 0x0F) < 16"
    "unat (b :: u8) = 16 * unat (drop_bit 4 b) + unat (b AND 0x0F)"
proof -
  have low: "unat (b AND 0x0F) = unat b mod 16"
  proof -
    have "b AND 0x0F = take_bit 4 b"
      by (simp add: take_bit_eq_mask mask_eq_exp_minus_1)
    then have "unat (b AND 0x0F) = take_bit 4 (unat b)"
      by (simp only: unsigned_take_bit_eq)
    then show ?thesis
      by (simp add: take_bit_eq_mod)
  qed
  have high: "unat (drop_bit 4 b) = unat b div 16"
    by (simp only: unat_drop_bit_eq) (simp add: drop_bit_eq_div)
  have "unat b < 256"
    using unsigned_less [of b] by simp
  with low high show "unat (drop_bit 4 b) < 16" "unat (b AND 0x0F) < 16"
    "unat b = 16 * unat (drop_bit 4 b) + unat (b AND 0x0F)"
    by auto
qed

lemma hex_digits_ok: "length hex_digits = 16" "distinct hex_digits" "list_all is_lower_hex hex_digits"
  by (simp_all add: hex_digits_def is_lower_hex_def is_digit_def)

lemma hex_nth: "i < 16 \<Longrightarrow> is_lower_hex (hex_digits ! i)"
  using hex_digits_ok by (simp add: list_all_length)

lemma encode_hex_payload: "length (encode_hex bs) = 2 * length bs \<and> list_all is_lower_hex (encode_hex bs)"
  by (induction bs) (simp_all add: encode_hex_def hex_nth nibbles(1,2))

lemma encode_hex_inj: "length as = length bs \<Longrightarrow> encode_hex as = encode_hex bs \<Longrightarrow> as = bs"
proof (induction as bs rule: list_induct2)
  case (Cons a as b bs)
  then have "hex_digits ! unat (drop_bit 4 a) = hex_digits ! unat (drop_bit 4 b)"
    "hex_digits ! unat (a AND 0x0F) = hex_digits ! unat (b AND 0x0F)" "encode_hex as = encode_hex bs"
    by (simp_all add: encode_hex_def)
  then have "unat (drop_bit 4 a) = unat (drop_bit 4 b)" "unat (a AND 0x0F) = unat (b AND 0x0F)"
    using nth_eq_iff_index_eq [OF hex_digits_ok(2)] nibbles hex_digits_ok(1) by metis+
  then have "unat a = unat b"
    using nibbles(3) [of a] nibbles(3) [of b] by simp
  then have "a = b"
    by (rule unsigned_word_eqI)
  with Cons show ?case
    by (simp add: encode_hex_def)
qed simp

lemma id_prefix_inj: "id_prefix k = id_prefix k' \<longleftrightarrow> k = k'"
  by (cases k; cases k') simp_all

lemma id_prefix_facts: "id_prefix k \<in> set registered_prefixes" "strip_prefix ''name:'' (id_prefix k @ s) = None"
  "canonical_resource_scope (id_type_name k) \<noteq> None"
  by (cases k; simp add: registered_prefixes_def strip_prefix_def canonical_resource_scope_def scope_words_def)+

lemma rsplit_once_last: "c \<notin> set ys \<Longrightarrow> rsplit_once c (xs @ c # ys) = Some (xs, ys)"
proof -
  assume "c \<notin> set ys"
  then have "\<forall>d \<in> set (rev ys). d \<noteq> c"
    by auto
  then have "takeWhile (\<lambda>d. d \<noteq> c) (rev ys @ c # rev xs) = rev ys" "dropWhile (\<lambda>d. d \<noteq> c) (rev ys @ c # rev xs) = c # rev xs"
    by (simp_all add: takeWhile_append dropWhile_append)
  then show ?thesis
    by (simp add: rsplit_once_def)
qed

lemma hex_no_underscore: "list_all is_lower_hex s \<Longrightarrow> CHR ''_'' \<notin> set s"
  by (auto simp: list_all_iff is_lower_hex_def is_digit_def)

lemma strip_prefix_Some: "strip_prefix p s = Some r \<longleftrightarrow> s = p @ r"
  by (auto simp: strip_prefix_def) (metis append_take_drop_id)

lemma public_id_parse_iff:
  "public_id_parse k s = Inr t \<longleftrightarrow> t = s \<and> (\<exists>h. s = id_prefix k @ ''_'' @ h \<and> is_lower_hex_128 h)"
  by (auto simp: public_id_parse_def strip_prefix_Some [of "id_prefix k @ ''_''", simplified] split: option.splits)
    (metis not_None_eq strip_prefix_Some [of "id_prefix k @ ''_''", simplified])

lemma id_of_kind:
  assumes "is_lower_hex_128 h"
  shows "public_id_parse k (id_prefix j @ ''_'' @ h) = Inr t \<longleftrightarrow> t = id_prefix j @ ''_'' @ h \<and> k = j"
proof -
  have "id_prefix j @ ''_'' @ h = id_prefix k @ ''_'' @ g \<longleftrightarrow> j = k \<and> h = g" if "is_lower_hex_128 g" for g
  proof
    assume e: "id_prefix j @ ''_'' @ h = id_prefix k @ ''_'' @ g"
    then have "(id_prefix j @ ''_'') @ h = (id_prefix k @ ''_'') @ g" "length h = length g"
      using assms that by (simp_all add: is_lower_hex_128_def)
    then have "id_prefix j = id_prefix k \<and> h = g"
      by (metis append_eq_append_conv append_same_eq)
    then show "j = k \<and> h = g"
      by (simp add: id_prefix_inj)
  qed auto
  with assms show ?thesis
    unfolding public_id_parse_iff by blast
qed

lemma selector_of_id:
  assumes "is_lower_hex_128 h"
  shows "selector_parse (id_prefix k @ ''_'' @ h) = Inr (SelId (id_prefix k @ ''_'' @ h))"
proof -
  have "CHR ''_'' \<notin> set h"
    using assms by (simp add: is_lower_hex_128_def hex_no_underscore)
  from rsplit_once_last [OF this, of "id_prefix k"] have "is_registered_public_id (id_prefix k @ ''_'' @ h)"
    using assms id_prefix_facts(1) by (simp add: is_registered_public_id_def)
  moreover have "id_prefix k @ ''_'' @ h \<noteq> ''current''"
  proof
    assume "id_prefix k @ ''_'' @ h = ''current''"
    then have "CHR ''_'' \<in> set ''current''"
      by (metis in_set_conv_decomp append_Cons append_Nil)
    then show False
      by simp
  qed
  ultimately show ?thesis
    using id_prefix_facts(2) [of k "''_'' @ h"] by (simp add: selector_parse_def)
qed

section \<open>The journal\<close>

text \<open>The journals reached from a new one by successful commits, with the hist of all their batches.\<close>

inductive journal_reach :: "(delta_batch \<Rightarrow> nat) \<Rightarrow> string \<Rightarrow> u64 \<Rightarrow> delta_batch list \<Rightarrow> journal \<Rightarrow> bool"
  for json_len generation base where
  reach_new: "journal_reach json_len generation base [] (journal_new generation base)"
| reach_commit: "journal_reach json_len generation base (hist @ [\<lparr>previous_revision = jr_revision j,
      batch_revision = r, deltas = ds\<rparr>]) j'"
  if "journal_reach json_len generation base hist j" and "journal_commit json_len j events = Inr (j', r)"
    and "sequence_deltas 0 events = Some ds"

declare upt_Suc [simp del]

definition journal_ok :: "string \<Rightarrow> u64 \<Rightarrow> delta_batch list \<Rightarrow> journal \<Rightarrow> bool" where
  "journal_ok generation base hist j \<longleftrightarrow> jr_generation j = generation
     \<and> unat (jr_revision j) = unat base + length hist
     \<and> map (\<lambda>b. unat (batch_revision b)) hist = [Suc (unat base)..<Suc (unat base) + length hist]
     \<and> map (\<lambda>b. unat (previous_revision b)) hist = [unat base..<unat base + length hist]
     \<and> (\<exists>k \<le> length hist. map fst (batches j) = drop k hist) \<and> (hist \<noteq> [] \<longrightarrow> batches j \<noteq> [])
     \<and> retained_bytes j = sum_list (map snd (batches j)) \<and> retained_bytes j \<le> byte_capacity j
     \<and> length (batches j) \<le> capacity j \<and> 0 < capacity j"

text \<open>Evicting keeps a suffix that fits and keeps the newest batch.\<close>

lemma evict_spec:
  assumes "evict cap bytecap bs (sum_list (map snd bs)) = (cs, n)"
  shows "\<exists>k \<le> length bs. cs = drop k bs" and "n = sum_list (map snd cs)" and "n \<le> bytecap" and "length cs \<le> cap"
    and "bs \<noteq> [] \<Longrightarrow> snd (last bs) \<le> bytecap \<Longrightarrow> 0 < cap \<Longrightarrow> cs \<noteq> []"
proof -
  have "(\<exists>k \<le> length bs. cs = drop k bs) \<and> n = sum_list (map snd cs) \<and> n \<le> bytecap \<and> length cs \<le> cap
    \<and> (bs \<noteq> [] \<longrightarrow> snd (last bs) \<le> bytecap \<longrightarrow> 0 < cap \<longrightarrow> cs \<noteq> [])"
    using assms
  proof (induction bs)
    case Nil
    then show ?case
      by simp
  next
    case (Cons e es)
    obtain b m where e: "e = (b, m)"
      by (cases e)
    show ?case
    proof (cases "cap < length (e # es) \<or> bytecap < sum_list (map snd (e # es))")
      case True
      with Cons.prems e have "evict cap bytecap es (sum_list (map snd es)) = (cs, n)"
        by auto
      note IH = Cons.IH [OF this]
      then obtain k where "k \<le> length es" "cs = drop k es"
        by blast
      then have "Suc k \<le> length (e # es) \<and> cs = drop (Suc k) (e # es)"
        by simp
      moreover have "cs \<noteq> []" if "snd (last (e # es)) \<le> bytecap" "0 < cap"
        using that True IH by (cases "es = []") auto
      ultimately show ?thesis
        using IH by blast
    next
      case False
      with Cons.prems e have "cs = e # es" "n = sum_list (map snd (e # es))"
        by (auto split: if_splits)
      with False show ?thesis
        by (auto intro: exI [of _ 0])
    qed
  qed
  then show "\<exists>k \<le> length bs. cs = drop k bs" "n = sum_list (map snd cs)" "n \<le> bytecap" "length cs \<le> cap"
    "bs \<noteq> [] \<Longrightarrow> snd (last bs) \<le> bytecap \<Longrightarrow> 0 < cap \<Longrightarrow> cs \<noteq> []"
    by blast+
qed

lemma unat_suc: "(r :: u64) \<noteq> - 1 \<Longrightarrow> unat (r + 1) = Suc (unat r)"
proof -
  assume "r \<noteq> - 1"
  then have "unat r \<noteq> unat (- 1 :: u64)"
    using unsigned_word_eqI by blast
  moreover have "unat r < 2 ^ 64" "unat (- 1 :: u64) = 2 ^ 64 - 1"
    using unsigned_less [of r] unat_minus_one_word_pow [where 'a = 64] by simp_all
  ultimately have "Suc (unat r) < 2 ^ 64"
    by linarith
  then show ?thesis
    by (simp add: unat_word_ariths)
qed

lemma journal_commit_ok:
  assumes ok: "journal_ok generation base hist j" and c: "journal_commit json_len j events = Inr (j', r)"
    and ds: "sequence_deltas 0 events = Some ds"
  shows "journal_ok generation base (hist @ [\<lparr>previous_revision = jr_revision j, batch_revision = r, deltas = ds\<rparr>]) j'"
proof -
  let ?b = "\<lparr>previous_revision = jr_revision j, batch_revision = jr_revision j + 1, deltas = ds\<rparr>"
  obtain bs n where e: "evict (capacity j) (byte_capacity j) (batches j @ [(?b, json_len ?b)]) (retained_bytes j + json_len ?b) = (bs, n)"
    by (cases "evict (capacity j) (byte_capacity j) (batches j @ [(?b, json_len ?b)]) (retained_bytes j + json_len ?b)")
  with c ds have j': "j' = j\<lparr>jr_revision := jr_revision j + 1, batches := bs, retained_bytes := n\<rparr>" "r = jr_revision j + 1"
    and max: "jr_revision j \<noteq> - 1" and fits: "json_len ?b \<le> byte_capacity j"
    by (auto simp: journal_commit_def Let_def not_less split: if_splits)
  have sum: "retained_bytes j + json_len ?b = sum_list (map snd (batches j @ [(?b, json_len ?b)]))"
    using ok by (simp add: journal_ok_def)
  note ev = evict_spec [OF e [unfolded sum]]
  have ne: "bs \<noteq> []"
    using ev(5) fits ok by (simp add: journal_ok_def)
  obtain k l where k: "k \<le> Suc (length (batches j))" "bs = drop k (batches j @ [(?b, json_len ?b)])"
    and l: "l \<le> length hist" "map fst (batches j) = drop l hist"
    using ev(1) ok by (auto simp: journal_ok_def)
  have bs: "map fst bs = drop k (drop l hist @ [?b])"
    unfolding k(2) l(2) [symmetric] by (simp only: drop_map [symmetric] map_append list.simps fst_conv)
  have len: "length (batches j) = length hist - l"
    using arg_cong [OF l(2), of length] by simp
  have "drop l hist @ [?b] = drop l (hist @ [?b])"
    using l(1) by simp
  then have "map fst bs = drop (l + k) (hist @ [?b])"
    unfolding bs by (simp only: drop_drop add.commute)
  moreover have "l + k \<le> length (hist @ [?b])"
    using k(1) l(1) len by simp
  ultimately have "\<exists>i \<le> length (hist @ [?b]). map fst bs = drop i (hist @ [?b])"
    by blast
  with ok ev(2,3,4) ne unat_suc [OF max] show ?thesis
    unfolding journal_ok_def j' by (simp add: upt_Suc_append)
qed

lemma journal_reach_ok: "journal_reach json_len generation base hist j \<Longrightarrow> journal_ok generation base hist j"
proof (induction rule: journal_reach.induct)
  case reach_new
  then show ?case
    by (simp add: journal_ok_def journal_new_def)
next
  case (reach_commit hist j events j' r ds)
  then show ?case
    by (intro journal_commit_ok)
qed

lemma filter_after:
  "map (\<lambda>b. unat (batch_revision b)) xs = [a..<a + length xs] \<Longrightarrow>
     filter (\<lambda>b. unat r < unat (batch_revision b)) xs = drop (Suc (unat r) - a) xs"
proof (induction xs arbitrary: a)
  case (Cons x xs)
  moreover have "[a..<a + length (x # xs)] = a # [Suc a..<Suc a + length xs]"
    by (simp add: upt_conv_Cons del: upt_Suc)
  ultimately have "unat (batch_revision x) = a" "map (\<lambda>b. unat (batch_revision b)) xs = [Suc a..<Suc a + length xs]"
    by (simp_all add: comp_def del: upt_Suc)
  with Cons.IH [of "Suc a"] show ?case
    by (cases "Suc (unat r) - a") (auto simp: Suc_diff_Suc le_imp_diff_is_add)
qed simp


text \<open>The batches a journal retains are numbered up to its revision.\<close>

lemma journal_retained:
  assumes "journal_ok generation base hist j"
  shows "map (\<lambda>b. unat (batch_revision b)) (map fst (batches j))
    = [Suc (unat (jr_revision j)) - length (batches j)..<Suc (unat (jr_revision j))]"
    and "map fst (batches j) = drop (length hist - length (batches j)) hist" and "length (batches j) \<le> length hist"
proof -
  obtain k where k: "k \<le> length hist" "map fst (batches j) = drop k hist"
    using assms by (auto simp: journal_ok_def)
  then have len: "length (batches j) = length hist - k"
    by (metis length_drop length_map)
  with k show "map fst (batches j) = drop (length hist - length (batches j)) hist" "length (batches j) \<le> length hist"
    by simp_all
  have "map (\<lambda>b. unat (batch_revision b)) (drop k hist) = drop k [Suc (unat base)..<Suc (unat base) + length hist]"
    using assms unfolding drop_map [symmetric] journal_ok_def by (simp only:)
  with k len assms show "map (\<lambda>b. unat (batch_revision b)) (map fst (batches j))
    = [Suc (unat (jr_revision j)) - length (batches j)..<Suc (unat (jr_revision j))]"
    unfolding k(2) by (simp add: journal_ok_def drop_upt del: upt_Suc)
qed

lemma journal_after_ok:
  assumes ok: "journal_ok generation base hist j" and r: "base \<le> r" "r \<le> jr_revision j"
  shows "journal_after j r =
    (if unat (jr_revision j) - unat r \<le> length (batches j) then Inr (drop (unat r - unat base) hist)
     else Inl (CursorGap generation r (jr_revision j) (batch_revision (fst (hd (batches j))))))"
proof (cases "batches j")
  case Nil
  with ok have "hist = []"
    by (auto simp: journal_ok_def)
  with ok have "jr_revision j = base"
    using unsigned_word_eqI by (auto simp: journal_ok_def)
  with r have "r = jr_revision j"
    by auto
  moreover have "\<not> sat_add r 1 < r"
  proof -
    have "unat r \<le> min (unat r + 1) (2 ^ 64 - 1)"
      using unat_le_max [of r] by simp
    then show ?thesis
      unfolding word_less_nat_alt unat_sat_add by simp
  qed
  ultimately show ?thesis
    using Nil \<open>hist = []\<close> by (simp add: journal_after_def Let_def)
next
  case (Cons e bs)
  obtain b m where e: "e = (b, m)"
    by (cases e)
  note ret = journal_retained [OF ok]
  let ?n = "length (batches j)" and ?rev = "unat (jr_revision j)"
  have n: "?n \<le> ?rev" "unat r \<le> ?rev" "unat base \<le> unat r" "?rev = unat base + length hist"
    using ret(3) ok r by (auto simp: journal_ok_def word_le_nat_alt)
  have "unat (batch_revision b) = Suc ?rev - ?n"
  proof -
    have "hd (map (\<lambda>b. unat (batch_revision b)) (map fst (batches j))) = Suc ?rev - ?n"
      unfolding ret(1) by (rule hd_upt) (simp add: Cons)
    then show ?thesis
      by (simp add: Cons e)
  qed
  moreover have "unat (sat_add r 1) = min (Suc (unat r)) (2 ^ 64 - 1)"
    by (simp add: unat_sat_add)
  moreover have "Suc ?rev - ?n \<le> 2 ^ 64 - 1"
    using unat_le_max [of "jr_revision j"] Cons by simp
  ultimately have gap: "sat_add r 1 < batch_revision b \<longleftrightarrow> \<not> ?rev - unat r \<le> ?n"
    using n(1,2) unfolding word_less_nat_alt by auto
  have start: "[Suc ?rev - ?n..<Suc ?rev - ?n + length (map fst (batches j))] = [Suc ?rev - ?n..<Suc ?rev]"
    using n(1) by simp
  have "map fst (filter (\<lambda>(b, _). r < batch_revision b) (batches j))
      = filter (\<lambda>b. unat r < unat (batch_revision b)) (map fst (batches j))"
    by (simp add: word_less_nat_alt filter_map comp_def split_def)
  also have "\<dots> = drop (Suc (unat r) - (Suc ?rev - ?n)) (map fst (batches j))"
    by (rule filter_after) (use ret(1) start in simp)
  finally have "map fst (filter (\<lambda>(b, _). r < batch_revision b) (batches j))
      = drop (Suc (unat r) - (Suc ?rev - ?n) + (length hist - ?n)) hist"
    unfolding ret(2) by (simp add: add.commute)
  moreover have "?rev - unat r \<le> ?n \<Longrightarrow> Suc (unat r) - (Suc ?rev - ?n) + (length hist - ?n) = unat r - unat base"
    using n ret(3) by simp
  ultimately show ?thesis
    using r(2) gap Cons e ok by (simp add: journal_after_def Let_def journal_ok_def not_le)
qed


section \<open>Properties\<close>

text \<open>C35. A decimal is accepted exactly in its canonical form: the text that parses to a value is the
  text the value is written as, so no two texts mean the same number and every number comes back.\<close>

theorem wire_decimal_exact: "wire_decimal_deserialize s = Some v \<longleftrightarrow> s = wire_decimal_serialize v"
  by (rule wire_decimal_iff)

text \<open>C36. A generated public id names its kind and its bytes: it parses as its own kind and no other,
  as a selector it is an id, and two generated ids agree only when kind and bytes do.\<close>

theorem public_ids_unambiguous:
  assumes "length bs = 16"
  shows "\<exists>i. public_id_random k (Some bs) = Inr i \<and> selector_parse i = Inr (SelId i)
    \<and> (\<forall>j. is_ok (public_id_parse j i) \<longleftrightarrow> j = k)
    \<and> (\<forall>j cs. length cs = 16 \<longrightarrow> public_id_random j (Some cs) = Inr i \<longrightarrow> j = k \<and> cs = bs)"
proof -
  let ?i = "id_prefix k @ ''_'' @ encode_hex bs"
  have hex: "is_lower_hex_128 (encode_hex cs)" if "length cs = 16" for cs
    using encode_hex_payload [of cs] that by (simp add: is_lower_hex_128_def)
  have kind: "is_ok (public_id_parse j ?i) \<longleftrightarrow> j = k" for j
  proof -
    have "is_ok x \<longleftrightarrow> (\<exists>t. x = Inr t)" for x :: "resource_error + string"
      by (cases x) auto
    then have eq: "is_ok (public_id_parse j ?i) \<longleftrightarrow> (\<exists>t. public_id_parse j ?i = Inr t)"
      by blast
    show ?thesis
      unfolding eq id_of_kind [OF hex [OF assms], of j k] by blast
  qed
  have "j = k \<and> cs = bs" if "length cs = 16" "id_prefix j @ ''_'' @ encode_hex cs = ?i" for j cs
  proof -
    from id_of_kind [OF hex [OF that(1)], of j j ?i] that(2) kind [of j] have "j = k"
      by auto
    with that(2) have "encode_hex cs = encode_hex bs"
      by simp
    with \<open>j = k\<close> show ?thesis
      using encode_hex_inj that(1) assms by auto
  qed
  with kind selector_of_id [OF hex [OF assms], of k] show ?thesis
    unfolding public_id_random_def by (intro exI [of _ ?i]) simp
qed

lemma public_ids_unambiguous_witness:
  "\<exists>i. public_id_random WorkspaceId (Some (replicate 16 0xAB)) = Inr i \<and> selector_parse i = Inr (SelId i)
    \<and> \<not> is_ok (public_id_parse PaneId i)"
proof -
  have "length (replicate 16 (0xAB :: u8)) = 16"
    by simp
  from public_ids_unambiguous [OF this, of WorkspaceId] show ?thesis
    by auto
qed

text \<open>C37. The journal answers a cursor exactly: for a revision since its creation it gives all the
  batches committed after it, in order, or reports a gap when one of them has been evicted.\<close>

theorem journal_after_exact:
  assumes "journal_reach json_len generation base hist j" and "base \<le> r" and "r \<le> jr_revision j"
  shows "journal_after j r =
    (if unat (jr_revision j) - unat r \<le> length (batches j) then Inr (drop (unat r - unat base) hist)
     else Inl (CursorGap generation r (jr_revision j) (batch_revision (fst (hd (batches j))))))"
  by (rule journal_after_ok [OF journal_reach_ok [OF assms(1)] assms(2,3)])

lemma journal_after_exact_witness:
  "\<exists>j. journal_commit (\<lambda>_. 10) (journal_new ''g'' 8) [(''pane.created'', JNull)] = Inr (j, 9)
    \<and> journal_after j 8 = Inr [\<lparr>previous_revision = 8, batch_revision = 9,
        deltas = [\<lparr>dl_sequence = 0, dl_event = ''pane.created'', dl_data = JNull\<rparr>]\<rparr>]
    \<and> journal_after j 9 = Inr []"
proof -
  let ?d = "[\<lparr>dl_sequence = 0, dl_event = ''pane.created'', dl_data = JNull\<rparr>]"
  have ds: "sequence_deltas 0 [(''pane.created'', JNull)] = Some ?d"
    by simp
  have rev: "jr_revision (journal_new ''g'' 8) = 8"
    by (simp add: journal_new_def)
  obtain j where j: "journal_commit (\<lambda>_. 10) (journal_new ''g'' 8) [(''pane.created'', JNull)] = Inr (j, 9)"
    "jr_revision j = 9" "length (batches j) = 1"
    by (simp add: journal_commit_def journal_new_def Let_def)
  from reach_commit [OF reach_new j(1) ds] rev have "journal_reach (\<lambda>_. 10) ''g'' 8
      [\<lparr>previous_revision = 8, batch_revision = 9, deltas = ?d\<rparr>] j"
    by simp
  from journal_after_exact [OF this, of 8] journal_after_exact [OF this, of 9] j show ?thesis
    by simp
qed

text \<open>A new journal answers the cursor just before its first revision with no batches at all, though it
  never held the batch of that revision; after one commit it reports the gap.\<close>

theorem journal_new_misses_gap:
  assumes "0 < base"
  shows "journal_after (journal_new generation base) (base - 1) = Inr []
    \<and> (journal_reach json_len generation base hist j \<and> hist \<noteq> []
        \<longrightarrow> (\<exists>oldest. journal_after j (base - 1) = Inl (CursorGap generation (base - 1) (jr_revision j) oldest)))"
proof (intro conjI impI)
  have b: "Suc (unat (base - 1)) = unat base"
    using assms by (simp add: unat_minus_one word_less_nat_alt unat_gt_0)
  then have s: "unat (sat_add (base - 1) 1) = unat base"
    using unat_le_max [of base] by (simp add: unat_sat_add)
  have less: "\<not> r < base - 1" if "unat base \<le> unat r" for r
    using that b by (simp add: word_less_nat_alt)
  show "journal_after (journal_new generation base) (base - 1) = Inr []"
    using s less [of base] by (simp add: journal_after_def journal_new_def word_less_nat_alt)
  assume a: "journal_reach json_len generation base hist j \<and> hist \<noteq> []"
  then have ok: "journal_ok generation base hist j"
    by (blast intro: journal_reach_ok)
  then obtain b m bs where bs: "batches j = (b, m) # bs"
    using a by (cases "batches j") (auto simp: journal_ok_def)
  have "length (batches j) \<le> length hist"
    by (rule journal_retained(3) [OF ok])
  moreover have "unat (batch_revision b) = hd (map (\<lambda>b. unat (batch_revision b)) (map fst (batches j)))"
    by (simp add: bs)
  moreover have "hd [Suc (unat (jr_revision j)) - length (batches j)..<Suc (unat (jr_revision j))]
      = Suc (unat (jr_revision j)) - length (batches j)"
    by (rule hd_upt) (simp add: bs)
  ultimately have "unat base < unat (batch_revision b)"
    unfolding journal_retained(1) [OF ok] using ok by (simp add: journal_ok_def)
  with s have "sat_add (base - 1) 1 < batch_revision b"
    by (simp add: word_less_nat_alt)
  moreover have "\<not> jr_revision j < base - 1"
    using less [of "jr_revision j"] ok by (simp add: journal_ok_def)
  ultimately show "\<exists>oldest. journal_after j (base - 1) = Inl (CursorGap generation (base - 1) (jr_revision j) oldest)"
    using ok by (simp add: journal_after_def bs journal_ok_def)
qed

text \<open>Every word of the table of scopes finds its scope except \<open>ws\<close>: its last letter is trimmed before
  the table is asked, and the call panics.\<close>

theorem scope_ws_panics:
  "(\<forall>(words, scope) \<in> set scope_words. \<forall>w \<in> set words.
      canonical_resource_scope w = (if w = ''ws'' then None else Some scope))
   \<and> not_found ''ws'' i = ResourcePanic"
  by (simp add: canonical_resource_scope_def scope_words_def not_found_def scoped_def)

end
