(* ===== verification/ErrorCatalog.thy ===== *)
theory ErrorCatalog
  imports ResourceProps
begin

text \<open>
  The contract of resource errors (\<open>cmux-tui-core/src/resource.rs\<close>): \<open>ResourceError::new\<close> asserts that
  the code is known and that details and retryability match the catalog checked in as
  \<open>cmux-tui/spec/resource-operations-v2.json\<close>. Here are the matcher, the part of the catalog that errors
  reach, what each constructor builds, and the exact condition under which its assertion holds.
\<close>

section \<open>Reading JSON\<close>

text \<open>\<open>value.get(key)\<close>, and \<open>value[key]\<close>, which is \<open>Null\<close> where there is none.\<close>

definition json_get :: "string \<Rightarrow> json \<Rightarrow> json option" where
  "json_get k v = (case v of JObject es \<Rightarrow> map_of es k | _ \<Rightarrow> None)"

definition json_index :: "string \<Rightarrow> json \<Rightarrow> json" where
  "json_index k v = (case json_get k v of Some x \<Rightarrow> x | None \<Rightarrow> JNull)"

fun as_str :: "json \<Rightarrow> string option" where
  "as_str (JString s) = Some s" | "as_str _ = None"

fun as_u64 :: "json \<Rightarrow> u64 option" where
  "as_u64 (JUInt v) = Some v" | "as_u64 _ = None"

fun as_bool :: "json \<Rightarrow> bool option" where
  "as_bool (JBool b) = Some b" | "as_bool _ = None"

fun as_array :: "json \<Rightarrow> json list option" where
  "as_array (JArray vs) = Some vs" | "as_array _ = None"

fun as_object :: "json \<Rightarrow> (string \<times> json) list option" where
  "as_object (JObject es) = Some es" | "as_object _ = None"

section \<open>The matcher\<close>

text \<open>\<open>Iterator::all\<close> over a predicate that may run out of fuel.\<close>

fun all_opt :: "('a \<Rightarrow> bool option) \<Rightarrow> 'a list \<Rightarrow> bool option" where
  "all_opt f [] = Some True"
| "all_opt f (x # xs) = (case f x of None \<Rightarrow> None | Some b \<Rightarrow> if b then all_opt f xs else Some False)"

definition at_least :: "json \<Rightarrow> string \<Rightarrow> nat \<Rightarrow> bool" where
  "at_least d k n = (case as_u64 (json_index k d) of None \<Rightarrow> True | Some m \<Rightarrow> unat m \<le> n)"

definition at_most :: "json \<Rightarrow> string \<Rightarrow> nat \<Rightarrow> bool" where
  "at_most d k n = (case as_u64 (json_index k d) of None \<Rightarrow> True | Some m \<Rightarrow> n \<le> unat m)"

definition catalog_decimal :: "string \<Rightarrow> bool" where
  "catalog_decimal s = (s = ''0'' \<or> (take 1 s \<noteq> ''0'' \<and> length s \<le> 20 \<and> list_all is_digit s \<and> parse_u64 s \<noteq> None))"

definition primitive_matches :: "json \<Rightarrow> json \<Rightarrow> bool" where
  "primitive_matches value d =
     (case as_str (json_index ''name'' d) of
        None \<Rightarrow> False
      | Some n \<Rightarrow>
          if n = ''json'' then True
          else if n = ''string'' then
            (case as_str value of None \<Rightarrow> False
             | Some s \<Rightarrow> at_least d ''min_length'' (length s) \<and> at_most d ''max_length'' (length s))
          else if n = ''decimal'' then (case as_str value of None \<Rightarrow> False | Some s \<Rightarrow> catalog_decimal s)
          else if n = ''boolean'' then as_bool value \<noteq> None
          else if n = ''uint32'' then (case as_u64 value of None \<Rightarrow> False | Some v \<Rightarrow> unat v < 2 ^ 32)
          else if n = ''uint64'' then as_u64 value \<noteq> None
          else False)"

text \<open>A \<open>ref\<close> names another descriptor of the catalog, so nothing bounds the recursion: fuel does.\<close>

primrec catalog_value_matches :: "nat \<Rightarrow> json \<Rightarrow> json \<Rightarrow> json \<Rightarrow> bool option" where
  "catalog_value_matches 0 catalog value d = None"
| "catalog_value_matches (Suc n) catalog value d =
     (case as_str (json_index ''kind'' d) of
        None \<Rightarrow> Some False
      | Some k \<Rightarrow>
          if k = ''primitive'' then Some (primitive_matches value d)
          else if k = ''resource_id'' then
            (case (as_str value, as_str (json_index ''resource'' d)) of
               (Some v, Some r) \<Rightarrow> Some (resource_id_has_kind v r)
             | _ \<Rightarrow> Some False)
          else if k = ''enum'' then
            Some (case as_array (json_index ''values'' d) of None \<Rightarrow> False | Some vs \<Rightarrow> value \<in> set vs)
          else if k = ''array'' then
            (case as_array value of
               None \<Rightarrow> Some False
             | Some vs \<Rightarrow>
                 if \<not> at_least d ''min_items'' (length vs) \<or> \<not> at_most d ''max_items'' (length vs) then Some False
                 else all_opt (\<lambda>v. catalog_value_matches n catalog v (json_index ''items'' d)) vs)
          else if k = ''map'' then
            (case as_object value of
               None \<Rightarrow> Some False
             | Some es \<Rightarrow> all_opt (\<lambda>e. catalog_value_matches n catalog (snd e) (json_index ''values'' d)) es)
          else if k = ''object'' then
            (case (as_object value, as_object (json_index ''fields'' d)) of
               (Some es, Some fs) \<Rightarrow>
                 if json_index ''extra'' d = JBool False \<and> list_ex (\<lambda>e. map_of fs (fst e) = None) es then Some False
                 else all_opt (\<lambda>f. case map_of es (fst f) of
                     Some v \<Rightarrow> catalog_value_matches n catalog v (json_index ''type'' (snd f))
                   | None \<Rightarrow> Some (json_index ''required'' (snd f) \<noteq> JBool True)) fs
             | _ \<Rightarrow> Some False)
          else if k = ''ref'' then
            (case Option.bind (as_str (json_index ''name'' d)) (\<lambda>r. json_get r (json_index ''types'' catalog)) of
               None \<Rightarrow> Some False
             | Some d' \<Rightarrow> catalog_value_matches n catalog value d')
          else Some False)"

section \<open>The catalog\<close>

text \<open>The \<open>errors\<close> of the catalog and the \<open>types\<close> they refer to, less descriptions and constraints, which
  no code reads. The descriptors have few shapes, each written once.\<close>

definition d_primitive :: "string \<Rightarrow> json" where
  "d_primitive name = JObject [(''kind'', JString ''primitive''), (''name'', JString name)]"

definition d_text :: "u64 option \<Rightarrow> u64 option \<Rightarrow> json" where
  "d_text lo hi = JObject ([(''kind'', JString ''primitive''), (''name'', JString ''string'')]
     @ (case lo of None \<Rightarrow> [] | Some n \<Rightarrow> [(''min_length'', JUInt n)])
     @ (case hi of None \<Rightarrow> [] | Some n \<Rightarrow> [(''max_length'', JUInt n)]))"

definition d_ref :: "string \<Rightarrow> json" where
  "d_ref name = JObject [(''kind'', JString ''ref''), (''name'', JString name)]"

definition d_enum :: "string list \<Rightarrow> json" where
  "d_enum vs = JObject [(''kind'', JString ''enum''), (''values'', JArray (map JString vs))]"

definition d_id :: "string \<Rightarrow> json" where
  "d_id resource = JObject [(''kind'', JString ''resource_id''), (''resource'', JString resource)]"

definition d_array :: "json \<Rightarrow> u64 \<Rightarrow> json" where
  "d_array items lo = JObject [(''kind'', JString ''array''), (''items'', items), (''min_items'', JUInt lo)]"

definition d_map :: "json \<Rightarrow> json" where
  "d_map vs = JObject [(''kind'', JString ''map''), (''values'', vs)]"

definition d_field :: "string \<Rightarrow> bool \<Rightarrow> json \<Rightarrow> string \<times> json" where
  "d_field name required t = (name, JObject [(''required'', JBool required), (''type'', t)])"

definition d_object :: "(string \<times> json) list \<Rightarrow> json" where
  "d_object fs = JObject [(''kind'', JString ''object''), (''fields'', JObject fs), (''extra'', JBool False)]"

definition d_error :: "string \<Rightarrow> bool \<Rightarrow> json \<Rightarrow> string \<times> json" where
  "d_error code retryable details = (code, JObject [(''retryable'', JBool retryable), (''details'', details)])"

definition resource_scopes :: "string list" where
  "resource_scopes = [''machine'', ''session'', ''workspace'', ''screen'', ''pane'', ''tab'', ''terminal'', ''browser'',
     ''client'', ''split'', ''stream'', ''notification'', ''agent'',
     ''frontend_projection'', ''pairing_request'', ''sidebar_view'', ''sidebar_plugin'']"

definition catalog_errors :: "(string \<times> json) list" where
  "catalog_errors =
    [d_error ''confirmation.required'' False
      (d_ref ''ConfirmationRequiredDetails''),
     d_error ''creation.conflict'' False
      (d_object [d_field ''correlation_key'' True (d_text (Some 1) (Some 128)),
       d_field ''existing_operation'' True (d_text (Some 1) None),
       d_field ''requested_operation'' True (d_text (Some 1) None),
       d_field ''existing_fingerprint'' True (d_text (Some 1) None),
       d_field ''requested_fingerprint'' True (d_text (Some 1) None)]),
     d_error ''cursor.gap'' True
      (d_object [d_field ''requested'' True (d_ref ''Cursor''),
       d_field ''current'' True (d_ref ''Cursor''),
       d_field ''oldest_revision'' True (d_primitive ''decimal'')]),
     d_error ''cursor.invalid'' False
      (d_object [d_field ''requested'' True (d_ref ''Cursor''),
       d_field ''current'' True (d_ref ''Cursor''),
       d_field ''reason'' True (d_primitive ''string'')]),
     d_error ''idempotency.conflict'' False
      (d_object [d_field ''idempotency_key'' True (d_primitive ''string''),
       d_field ''committed_operation'' True (d_primitive ''string'')]),
     d_error ''local.io'' False
      (d_object [d_field ''path'' False (d_primitive ''string''),
       d_field ''reason'' True (d_primitive ''string'')]),
     d_error ''mutation.indeterminate'' False
      (d_object [d_field ''idempotency_key'' True (d_primitive ''string''),
       d_field ''operation'' True (d_primitive ''string''),
       d_field ''recovery'' True (d_enum [''inspect_state_then_retry_with_new_key''])]),
     d_error ''operation.failed'' False
      (d_object [d_field ''operation'' True (d_primitive ''string''),
       d_field ''reason'' True (d_primitive ''string''),
       d_field ''extra'' False (d_map (d_ref ''JsonValue''))]),
     d_error ''resource.not_found'' False
      (d_object [d_field ''scope'' True (d_enum resource_scopes),
       d_field ''id'' True (d_primitive ''string'')]),
     d_error ''revision.conflict'' True
      (d_object [d_field ''expected'' True (d_primitive ''decimal''),
       d_field ''actual'' True (d_primitive ''decimal'')]),
     d_error ''selector.ambiguous'' False
      (d_object [d_field ''scope'' True (d_enum resource_scopes),
       d_field ''selector'' True (d_primitive ''string''),
       d_field ''candidates'' True (d_array (d_primitive ''string'') 2)]),
     d_error ''selector.invalid'' False
      (d_object [d_field ''scope'' True (d_enum resource_scopes),
       d_field ''selector'' True (d_primitive ''string''),
       d_field ''reason'' True (d_primitive ''string'')]),
     d_error ''selector.not_found'' False
      (d_object [d_field ''scope'' True (d_enum resource_scopes),
       d_field ''selector'' True (d_primitive ''string'')]),
     d_error ''selector.wrong_parent'' False
      (d_object [d_field ''scope'' True
         (d_enum [''workspace'', ''screen'', ''pane'', ''tab'', ''terminal'', ''browser'']),
       d_field ''selector'' True (d_primitive ''string''),
       d_field ''parent_scope'' True
         (d_enum [''workspace'', ''screen'', ''pane'', ''tab'']),
       d_field ''expected_parent'' True (d_primitive ''string''),
       d_field ''actual_parent'' True (d_primitive ''string'')]),
     d_error ''terminal.closed'' False
      (d_object [d_field ''terminal_id'' True (d_id ''terminal'')]),
     d_error ''transport.closed'' True
      (d_object [d_field ''reason'' True (d_primitive ''string'')]),
     d_error ''validation.invalid'' False
      (d_object [d_field ''field'' False (d_primitive ''string''),
       d_field ''reason'' True (d_primitive ''string'')])]"

definition catalog_types :: "(string \<times> json) list" where
  "catalog_types =
    [(''Cursor'', d_object [d_field ''generation'' True (d_text (Some 1) (Some 128)),
       d_field ''revision'' True (d_primitive ''decimal'')]),
     (''ConfirmationRequiredDetails'', d_object [d_field ''confirmation_token'' True (d_text (Some 1) (Some 128)),
       d_field ''revision'' True (d_primitive ''decimal''),
       d_field ''closes_panes'' True (d_array (d_id ''pane'') 1)]),
     (''JsonValue'', d_primitive ''json'')]"

definition error_catalog :: json where
  "error_catalog = JObject [(''types'', JObject catalog_types), (''errors'', JObject catalog_errors)]"

section \<open>Building an error\<close>

definition resource_error_codes :: "string list" where
  "resource_error_codes = [''confirmation.required'', ''creation.conflict'', ''cursor.gap'', ''cursor.invalid'',
     ''idempotency.conflict'', ''local.io'', ''mutation.indeterminate'', ''operation.failed'', ''resource.not_found'',
     ''revision.conflict'', ''selector.ambiguous'', ''selector.invalid'', ''selector.not_found'',
     ''selector.wrong_parent'', ''terminal.closed'', ''transport.closed'', ''validation.invalid'']"

definition is_catalog_error_code :: "string \<Rightarrow> bool" where
  "is_catalog_error_code code = (code \<in> set resource_error_codes)"

definition catalog_error_contract_matches :: "nat \<Rightarrow> string \<Rightarrow> json \<Rightarrow> bool \<Rightarrow> bool option" where
  "catalog_error_contract_matches fuel code details retryable =
     (case json_get code (json_index ''errors'' error_catalog) of
        None \<Rightarrow> Some False
      | Some e \<Rightarrow>
          if as_bool (json_index ''retryable'' e) = Some retryable
          then catalog_value_matches fuel error_catalog details (json_index ''details'' e)
          else Some False)"

definition catalog_fuel :: nat where
  "catalog_fuel = 5"

text \<open>\<open>ResourceError::new\<close>: an assertion that fails panics.\<close>

definition resource_error_new :: "string \<Rightarrow> json \<Rightarrow> bool \<Rightarrow> (string \<times> json \<times> bool) option" where
  "resource_error_new code details retryable =
     (if is_catalog_error_code code
         \<and> catalog_error_contract_matches catalog_fuel code details retryable = Some True
      then Some (code, details, retryable) else None)"

text \<open>What each constructor passes to it; \<open>reason\<close> is the sentence for the user.\<close>

fun error_code :: "resource_error \<Rightarrow> string" where
  "error_code (ValidationInvalid _) = ''validation.invalid''"
| "error_code (SelectorInvalid _ _) = ''selector.invalid''"
| "error_code (SelectorNotFound _ _) = ''selector.not_found''"
| "error_code (SelectorAmbiguous _ _ _) = ''selector.ambiguous''"
| "error_code (SelectorWrongParent _ _ _ _ _) = ''selector.wrong_parent''"
| "error_code (CursorInvalid _ _ _) = ''cursor.invalid''"
| "error_code (CursorGap _ _ _ _) = ''cursor.gap''"
| "error_code (AllocationFailed _) = ''operation.failed''"
| "error_code (OperationFailed _ _) = ''operation.failed''"
| "error_code TransportClosed = ''transport.closed''"
| "error_code (TerminalClosed _) = ''terminal.closed''"
| "error_code (IdempotencyConflict _ _) = ''idempotency.conflict''"
| "error_code (CreationConflict _ _ _ _ _) = ''creation.conflict''"
| "error_code (RevisionConflict _ _) = ''revision.conflict''"
| "error_code ResourcePanic = []"

definition error_retryable :: "resource_error \<Rightarrow> bool" where
  "error_retryable e = (case e of CursorGap _ _ _ _ \<Rightarrow> True | TransportClosed \<Rightarrow> True | RevisionConflict _ _ \<Rightarrow> True
     | _ \<Rightarrow> False)"

definition cursor_json :: "string \<Rightarrow> u64 \<Rightarrow> json" where
  "cursor_json generation revision = JObject [(''generation'', JString generation),
     (''revision'', JString (wire_decimal_serialize revision))]"

definition operation_details :: "string \<Rightarrow> string \<Rightarrow> json \<Rightarrow> json" where
  "operation_details operation reason extra =
     JObject ([(''operation'', JString operation), (''reason'', JString reason)]
       @ (if as_object extra = Some [] then [] else [(''extra'', extra)]))"

fun error_details :: "string \<Rightarrow> resource_error \<Rightarrow> json" where
  "error_details reason (ValidationInvalid field) = JObject ([(''reason'', JString reason)]
     @ (case field of None \<Rightarrow> [] | Some f \<Rightarrow> [(''field'', JString f)]))"
| "error_details reason (SelectorInvalid scope s) =
     JObject [(''scope'', JString scope), (''selector'', JString s), (''reason'', JString reason)]"
| "error_details reason (SelectorNotFound scope s) = JObject [(''scope'', JString scope), (''selector'', JString s)]"
| "error_details reason (SelectorAmbiguous scope s cs) =
     JObject [(''scope'', JString scope), (''selector'', JString s), (''candidates'', JArray (map JString cs))]"
| "error_details reason (SelectorWrongParent scope s parent expected actual) =
     JObject [(''scope'', JString scope), (''selector'', JString s), (''parent_scope'', JString parent),
       (''expected_parent'', JString expected), (''actual_parent'', JString actual)]"
| "error_details reason (CursorInvalid g r c) =
     JObject [(''requested'', cursor_json g r), (''current'', cursor_json g c), (''reason'', JString reason)]"
| "error_details reason (CursorGap g r c oldest) =
     JObject [(''requested'', cursor_json g r), (''current'', cursor_json g c),
       (''oldest_revision'', JString (wire_decimal_serialize oldest))]"
| "error_details reason (AllocationFailed kind) =
     operation_details ''resource.allocate'' reason (JObject [(''kind'', JString kind)])"
| "error_details reason (OperationFailed operation extra) = operation_details operation reason extra"
| "error_details reason TransportClosed = JObject [(''reason'', JString reason)]"
| "error_details reason (TerminalClosed i) = JObject [(''terminal_id'', JString i)]"
| "error_details reason (IdempotencyConflict key operation) =
     JObject [(''idempotency_key'', JString key), (''committed_operation'', JString operation)]"
| "error_details reason (CreationConflict key eo ro ef rf) =
     JObject [(''correlation_key'', JString key), (''existing_operation'', JString eo),
       (''requested_operation'', JString ro), (''existing_fingerprint'', JString ef), (''requested_fingerprint'', JString rf)]"
| "error_details reason (RevisionConflict expected actual) =
     JObject [(''expected'', JString (wire_decimal_serialize expected)), (''actual'', JString (wire_decimal_serialize actual))]"
| "error_details reason ResourcePanic = JNull"

text \<open>The call: \<open>operation_failed\<close> asserts an object first.\<close>

definition build_error :: "string \<Rightarrow> resource_error \<Rightarrow> (string \<times> json \<times> bool) option" where
  "build_error reason e =
     (case e of
        ResourcePanic \<Rightarrow> None
      | OperationFailed _ extra \<Rightarrow>
          if is_object extra then resource_error_new (error_code e) (error_details reason e) (error_retryable e) else None
      | _ \<Rightarrow> resource_error_new (error_code e) (error_details reason e) (error_retryable e))"

end
