(* ===== verification/ErrorProps.thy ===== *)
theory ErrorProps
  imports ErrorCatalog
begin

text \<open>
  When building an error panics: the matcher settles on every contract of the catalog, and each
  constructor meets its contract under a condition on its arguments that is stated exactly.
\<close>

section \<open>The matcher on the shapes of the catalog\<close>

lemma json_index_simps [simp]:
  "json_index k (JObject es) = (case map_of es k of Some x \<Rightarrow> x | None \<Rightarrow> JNull)"
  "json_get k (JObject es) = map_of es k"
  by (simp_all add: json_index_def json_get_def)

lemma field_simps_of [simp]:
  "fst (d_field name required t) = name" "json_index ''type'' (snd (d_field name required t)) = t"
  "json_index ''required'' (snd (d_field name required t)) = JBool required"
  by (simp_all add: d_field_def)

lemma decimal_catalog: "catalog_decimal s \<longleftrightarrow> (\<exists>v. s = wire_decimal_serialize v)"
proof -
  have zero: "''0'' = wire_decimal_serialize 0"
    using decimal_head [of 0] by (simp add: wire_decimal_serialize_def decimal.simps [of 0])
  have digits: "list_all is_digit (wire_decimal_serialize v)" for v
    using decimal_digits_ok [of "unat v"] by (simp add: wire_decimal_serialize_def)
  have plus: "take 1 s \<noteq> ''+''" if "list_all is_digit s"
    using that by (cases s) (auto simp: is_digit_def)
  show ?thesis
  proof (cases "s = ''0''")
    case True
    then show ?thesis
      using zero by (auto simp: catalog_decimal_def)
  next
    case False
    then have "take 1 s = ''0'' \<Longrightarrow> length s \<noteq> 1"
      by (cases s) auto
    then have "catalog_decimal s \<longleftrightarrow> list_all is_digit s \<and> wire_decimal_deserialize s \<noteq> None"
      using False plus by (auto simp: catalog_decimal_def wire_decimal_deserialize_def)
    then show ?thesis
      using wire_decimal_iff [of s] digits by auto
  qed
qed

lemma match_primitive [simp]:
  "catalog_value_matches (Suc n) c v (d_primitive ''string'') = Some (as_str v \<noteq> None)"
  "catalog_value_matches (Suc n) c v (d_primitive ''json'') = Some True"
  "catalog_value_matches (Suc n) c v (d_primitive ''decimal'')
     = Some (case as_str v of None \<Rightarrow> False | Some s \<Rightarrow> catalog_decimal s)"
  by (auto simp: d_primitive_def primitive_matches_def at_least_def at_most_def split: option.split)

lemma match_text [simp]:
  "catalog_value_matches (Suc n) c (JString s) (d_text lo hi)
     = Some ((case lo of None \<Rightarrow> True | Some m \<Rightarrow> unat m \<le> length s) \<and> (case hi of None \<Rightarrow> True | Some m \<Rightarrow> length s \<le> unat m))"
  by (auto simp: d_text_def primitive_matches_def at_least_def at_most_def split: option.split)

lemma match_enum [simp]:
  "catalog_value_matches (Suc n) c (JString s) (d_enum vs) = Some (s \<in> set vs)"
  by (auto simp: d_enum_def)

lemma match_id [simp]:
  "catalog_value_matches (Suc n) c (JString s) (d_id r) = Some (resource_id_has_kind s r)"
  by (simp add: d_id_def)

lemma match_array [simp]:
  "catalog_value_matches (Suc n) c (JArray vs) (d_array items lo)
     = (if length vs < unat lo then Some False else all_opt (\<lambda>v. catalog_value_matches n c v items) vs)"
  by (auto simp: d_array_def at_least_def at_most_def)

lemma match_map [simp]:
  "catalog_value_matches (Suc n) c (JObject es) (d_map d) = all_opt (\<lambda>e. catalog_value_matches n c (snd e) d) es"
  by (simp add: d_map_def)

lemma match_object [simp]:
  "catalog_value_matches (Suc n) c (JObject es) (d_object fs)
     = (if list_ex (\<lambda>e. map_of fs (fst e) = None) es then Some False
        else all_opt (\<lambda>f. case map_of es (fst f) of
            Some v \<Rightarrow> catalog_value_matches n c v (json_index ''type'' (snd f))
          | None \<Rightarrow> Some (json_index ''required'' (snd f) \<noteq> JBool True)) fs)"
  by (simp add: d_object_def)

lemma match_ref [simp]:
  "catalog_value_matches (Suc n) error_catalog v (d_ref r)
     = (case map_of catalog_types r of None \<Rightarrow> Some False | Some d \<Rightarrow> catalog_value_matches n error_catalog v d)"
  by (simp add: d_ref_def error_catalog_def split: option.split)

declare catalog_value_matches.simps(2) [simp del]

lemma all_opt_map_of [simp]: "map_of (d_field name required t # fs) k
    = (if k = name then Some (JObject [(''required'', JBool required), (''type'', t)]) else map_of fs k)"
  by (auto simp: d_field_def)

section \<open>The contract of each constructor\<close>

text \<open>The conditions on the arguments.\<close>

fun error_ok :: "resource_error \<Rightarrow> bool" where
  "error_ok (SelectorInvalid scope _) = (scope \<in> set resource_scopes)"
| "error_ok (SelectorNotFound scope _) = (scope \<in> set resource_scopes)"
| "error_ok (SelectorAmbiguous scope _ cs) = (scope \<in> set resource_scopes \<and> 2 \<le> length cs)"
| "error_ok (SelectorWrongParent scope _ parent _ _) =
     (scope \<in> {''workspace'', ''screen'', ''pane'', ''tab'', ''terminal'', ''browser''}
      \<and> parent \<in> {''workspace'', ''screen'', ''pane'', ''tab''})"
| "error_ok (CursorInvalid g _ _) = (g \<noteq> [] \<and> length g \<le> 128)"
| "error_ok (CursorGap g _ _ _) = (g \<noteq> [] \<and> length g \<le> 128)"
| "error_ok (OperationFailed _ extra) = is_object extra"
| "error_ok (TerminalClosed i) = resource_id_has_kind i ''terminal''"
| "error_ok (CreationConflict key eo ro ef rf) =
     (key \<noteq> [] \<and> length key \<le> 128 \<and> eo \<noteq> [] \<and> ro \<noteq> [] \<and> ef \<noteq> [] \<and> rf \<noteq> [])"
| "error_ok ResourcePanic = False"
| "error_ok _ = True"

lemma catalog_decimal_of [simp]: "catalog_decimal (wire_decimal_serialize v)"
  using decimal_catalog by blast

lemma all_opt_True: "(\<And>x. x \<in> set xs \<Longrightarrow> f x = Some True) \<Longrightarrow> all_opt f xs = Some True"
  by (induction xs) auto

lemma types_of [simp]:
  "map_of catalog_types ''Cursor'' = Some (d_object [d_field ''generation'' True (d_text (Some 1) (Some 128)),
     d_field ''revision'' True (d_primitive ''decimal'')])"
  "map_of catalog_types ''JsonValue'' = Some (d_primitive ''json'')"
  by (simp_all add: catalog_types_def)

lemma cursor_matches [simp]:
  "catalog_value_matches (Suc (Suc n)) c (cursor_json g r) (d_object [d_field ''generation'' True (d_text (Some 1) (Some 128)),
     d_field ''revision'' True (d_primitive ''decimal'')]) = Some (g \<noteq> [] \<and> length g \<le> 128)"
  by (cases g) (auto simp: cursor_json_def)

lemma codes_of_catalog: "map fst catalog_errors = resource_error_codes"
  by (simp only: catalog_errors_def resource_error_codes_def d_error_def list.map fst_conv)

lemma distinct_codes: "distinct resource_error_codes"
  by (simp add: resource_error_codes_def)

lemma contract_code:
  assumes "d_error code retryable details \<in> set catalog_errors"
  shows "catalog_error_contract_matches n code v b
     = (if b = retryable then catalog_value_matches n error_catalog v details else Some False)"
proof -
  have "map_of catalog_errors code = Some (JObject [(''retryable'', JBool retryable), (''details'', details)])"
    using assms distinct_codes unfolding codes_of_catalog [symmetric] d_error_def by (simp add: map_of_eq_Some_iff)
  then show ?thesis
    by (auto simp: catalog_error_contract_matches_def error_catalog_def)
qed

lemma contract_of:
  "catalog_error_contract_matches n ''creation.conflict'' v b = (if b = False then catalog_value_matches n error_catalog v
     (d_object [d_field ''correlation_key'' True (d_text (Some 1) (Some 128)),
      d_field ''existing_operation'' True (d_text (Some 1) None),
      d_field ''requested_operation'' True (d_text (Some 1) None),
      d_field ''existing_fingerprint'' True (d_text (Some 1) None),
      d_field ''requested_fingerprint'' True (d_text (Some 1) None)]) else Some False)"
  "catalog_error_contract_matches n ''cursor.gap'' v b = (if b = True then catalog_value_matches n error_catalog v
     (d_object [d_field ''requested'' True (d_ref ''Cursor''),
      d_field ''current'' True (d_ref ''Cursor''),
      d_field ''oldest_revision'' True (d_primitive ''decimal'')]) else Some False)"
  "catalog_error_contract_matches n ''cursor.invalid'' v b = (if b = False then catalog_value_matches n error_catalog v
     (d_object [d_field ''requested'' True (d_ref ''Cursor''),
      d_field ''current'' True (d_ref ''Cursor''),
      d_field ''reason'' True (d_primitive ''string'')]) else Some False)"
  "catalog_error_contract_matches n ''idempotency.conflict'' v b = (if b = False then catalog_value_matches n error_catalog v
     (d_object [d_field ''idempotency_key'' True (d_primitive ''string''),
      d_field ''committed_operation'' True (d_primitive ''string'')]) else Some False)"
  "catalog_error_contract_matches n ''operation.failed'' v b = (if b = False then catalog_value_matches n error_catalog v
     (d_object [d_field ''operation'' True (d_primitive ''string''),
      d_field ''reason'' True (d_primitive ''string''),
      d_field ''extra'' False (d_map (d_ref ''JsonValue''))]) else Some False)"
  "catalog_error_contract_matches n ''revision.conflict'' v b = (if b = True then catalog_value_matches n error_catalog v
     (d_object [d_field ''expected'' True (d_primitive ''decimal''),
      d_field ''actual'' True (d_primitive ''decimal'')]) else Some False)"
  "catalog_error_contract_matches n ''selector.ambiguous'' v b = (if b = False then catalog_value_matches n error_catalog v
     (d_object [d_field ''scope'' True (d_enum resource_scopes),
      d_field ''selector'' True (d_primitive ''string''),
      d_field ''candidates'' True (d_array (d_primitive ''string'') 2)]) else Some False)"
  "catalog_error_contract_matches n ''selector.invalid'' v b = (if b = False then catalog_value_matches n error_catalog v
     (d_object [d_field ''scope'' True (d_enum resource_scopes),
      d_field ''selector'' True (d_primitive ''string''),
      d_field ''reason'' True (d_primitive ''string'')]) else Some False)"
  "catalog_error_contract_matches n ''selector.not_found'' v b = (if b = False then catalog_value_matches n error_catalog v
     (d_object [d_field ''scope'' True (d_enum resource_scopes),
      d_field ''selector'' True (d_primitive ''string'')]) else Some False)"
  "catalog_error_contract_matches n ''selector.wrong_parent'' v b = (if b = False then catalog_value_matches n error_catalog v
     (d_object [d_field ''scope'' True (d_enum [''workspace'', ''screen'', ''pane'', ''tab'', ''terminal'', ''browser'']),
      d_field ''selector'' True (d_primitive ''string''),
      d_field ''parent_scope'' True (d_enum [''workspace'', ''screen'', ''pane'', ''tab'']),
      d_field ''expected_parent'' True (d_primitive ''string''),
      d_field ''actual_parent'' True (d_primitive ''string'')]) else Some False)"
  "catalog_error_contract_matches n ''terminal.closed'' v b = (if b = False then catalog_value_matches n error_catalog v
     (d_object [d_field ''terminal_id'' True (d_id ''terminal'')]) else Some False)"
  "catalog_error_contract_matches n ''transport.closed'' v b = (if b = True then catalog_value_matches n error_catalog v
     (d_object [d_field ''reason'' True (d_primitive ''string'')]) else Some False)"
  "catalog_error_contract_matches n ''validation.invalid'' v b = (if b = False then catalog_value_matches n error_catalog v
     (d_object [d_field ''field'' False (d_primitive ''string''),
      d_field ''reason'' True (d_primitive ''string'')]) else Some False)"
  by (rule contract_code, simp only: catalog_errors_def list.set insert_iff simp_thms)+

lemma fuel_Suc: "catalog_fuel = Suc (Suc (Suc (Suc (Suc 0))))"
  by (simp add: catalog_fuel_def)

lemmas contract_eval = contract_of error_retryable_def fuel_Suc

lemma strings_match [simp]: "all_opt (\<lambda>v. Some (\<exists>y. as_str v = Some y)) (map JString cs) = Some True"
  by (induction cs) auto

lemma any_match [simp]: "all_opt (\<lambda>e. Some True) es = Some True"
  by (rule all_opt_True) simp

lemma contract_selectors:
  "catalog_error_contract_matches catalog_fuel ''selector.invalid'' (error_details reason (SelectorInvalid scope sel)) False
     = Some (scope \<in> set resource_scopes)"
  "catalog_error_contract_matches catalog_fuel ''selector.not_found'' (error_details reason (SelectorNotFound scope sel)) False
     = Some (scope \<in> set resource_scopes)"
  "catalog_error_contract_matches catalog_fuel ''selector.ambiguous'' (error_details reason (SelectorAmbiguous scope sel cs)) False
     = Some (scope \<in> set resource_scopes \<and> 2 \<le> length cs)"
  by (simp_all add: contract_eval)

lemma contract_wrong_parent:
  "catalog_error_contract_matches catalog_fuel ''selector.wrong_parent''
     (error_details reason (SelectorWrongParent scope sel parent expected actual)) False
     = Some (error_ok (SelectorWrongParent scope sel parent expected actual))"
  by (simp add: contract_eval)

lemma contract_cursors:
  "catalog_error_contract_matches catalog_fuel ''cursor.invalid'' (error_details reason (CursorInvalid g r c)) False
     = Some (g \<noteq> [] \<and> length g \<le> 128)"
  "catalog_error_contract_matches catalog_fuel ''cursor.gap'' (error_details reason (CursorGap g r c oldest)) True
     = Some (g \<noteq> [] \<and> length g \<le> 128)"
  by (simp_all add: contract_eval)

lemma contract_operation:
  "as_object extra \<noteq> None \<Longrightarrow> catalog_error_contract_matches catalog_fuel ''operation.failed''
     (operation_details operation reason extra) False = Some True"
  by (cases extra) (simp_all add: contract_eval operation_details_def)

lemma contract_others:
  "catalog_error_contract_matches catalog_fuel ''validation.invalid'' (error_details reason (ValidationInvalid field)) False
     = Some True"
  "catalog_error_contract_matches catalog_fuel ''transport.closed'' (error_details reason TransportClosed) True = Some True"
  "catalog_error_contract_matches catalog_fuel ''terminal.closed'' (error_details reason (TerminalClosed i)) False
     = Some (resource_id_has_kind i ''terminal'')"
  "catalog_error_contract_matches catalog_fuel ''idempotency.conflict'' (error_details reason (IdempotencyConflict key op)) False
     = Some True"
  "catalog_error_contract_matches catalog_fuel ''revision.conflict'' (error_details reason (RevisionConflict a b)) True = Some True"
  by (cases field; simp add: contract_eval)+

lemma contract_creation:
  "catalog_error_contract_matches catalog_fuel ''creation.conflict'' (error_details reason (CreationConflict key eo ro ef rf)) False
     = Some (error_ok (CreationConflict key eo ro ef rf))"
  by (cases key; cases eo; cases ro; cases ef; cases rf) (simp_all add: contract_eval)

text \<open>Which calls panic.\<close>

lemma catalog_codes [simp]: "e \<noteq> ResourcePanic \<Longrightarrow> is_catalog_error_code (error_code e)"
  by (cases e) (simp_all add: is_catalog_error_code_def resource_error_codes_def)

lemma contract_holds:
  assumes "e \<noteq> ResourcePanic" and "\<forall>operation extra. e = OperationFailed operation extra \<longrightarrow> is_object extra"
  shows "catalog_error_contract_matches catalog_fuel (error_code e) (error_details reason e) (error_retryable e) = Some (error_ok e)"
proof -
  have object: "is_object extra \<Longrightarrow> as_object extra \<noteq> None" for extra
    by (cases extra) simp_all
  show ?thesis
    using assms
    by (cases e) (simp_all del: error_details.simps
      add: error_details.simps(8,9) error_retryable_def contract_selectors contract_wrong_parent contract_cursors
        contract_operation contract_others contract_creation object)
qed

lemma build_error_iff: "build_error reason e =
    (if error_ok e then Some (error_code e, error_details reason e, error_retryable e) else None)"
proof (cases "e = ResourcePanic \<or> (\<exists>operation extra. e = OperationFailed operation extra \<and> \<not> is_object extra)")
  case True
  then show ?thesis
    by (auto simp: build_error_def)
next
  case False
  then have "catalog_error_contract_matches catalog_fuel (error_code e) (error_details reason e) (error_retryable e) = Some (error_ok e)"
    by (intro contract_holds) auto
  with False have "resource_error_new (error_code e) (error_details reason e) (error_retryable e)
      = (if error_ok e then Some (error_code e, error_details reason e, error_retryable e) else None)"
    by (simp add: resource_error_new_def)
  with False show ?thesis
    unfolding build_error_def by (cases e) auto
qed

section \<open>Enough fuel\<close>

text \<open>How deep a descriptor of a catalog reaches.\<close>

primrec settled :: "nat \<Rightarrow> json \<Rightarrow> json \<Rightarrow> bool" where
  "settled 0 catalog d = False"
| "settled (Suc n) catalog d =
     (case as_str (json_index ''kind'' d) of
        None \<Rightarrow> True
      | Some k \<Rightarrow>
          if k = ''array'' then settled n catalog (json_index ''items'' d)
          else if k = ''map'' then settled n catalog (json_index ''values'' d)
          else if k = ''object'' then
            (case as_object (json_index ''fields'' d) of
               None \<Rightarrow> True | Some fs \<Rightarrow> list_all (\<lambda>f. settled n catalog (json_index ''type'' (snd f))) fs)
          else if k = ''ref'' then
            (case Option.bind (as_str (json_index ''name'' d)) (\<lambda>r. json_get r (json_index ''types'' catalog)) of
               None \<Rightarrow> True | Some d' \<Rightarrow> settled n catalog d')
          else True)"

lemma all_opt_settles: "(\<And>x. x \<in> set xs \<Longrightarrow> f x \<noteq> None) \<Longrightarrow> all_opt f xs \<noteq> None"
  by (induction xs) (auto split: option.split)

lemma settled_matches: "settled n catalog d \<Longrightarrow> catalog_value_matches n catalog v d \<noteq> None"
proof (induction n arbitrary: v d)
  case (Suc n)
  have object: "all_opt (\<lambda>f. case map_of es (fst f) of
        Some v \<Rightarrow> catalog_value_matches n catalog v (json_index ''type'' (snd f))
      | None \<Rightarrow> Some (json_index ''required'' (snd f) \<noteq> JBool True)) fs \<noteq> None"
    if "list_all (\<lambda>f. settled n catalog (json_index ''type'' (snd f))) fs" for es fs
    using that Suc.IH by (intro all_opt_settles) (auto simp: list_all_iff split: option.split)
  have items: "all_opt (\<lambda>v. catalog_value_matches n catalog v d) vs \<noteq> None" if "settled n catalog d" for d vs
    using that Suc.IH by (intro all_opt_settles) auto
  have entries: "all_opt (\<lambda>e. catalog_value_matches n catalog (snd e) d) es \<noteq> None" if "settled n catalog d"
    for d and es :: "(string \<times> json) list"
    using that Suc.IH by (intro all_opt_settles) auto
  have some_answer: "\<exists>y. \<not> y" "Ex Not"
    by auto
  show ?case
  proof (cases "as_str (json_index ''kind'' d)")
    case (Some k)
    consider "k = ''array''" | "k = ''map''" | "k = ''object''" | "k = ''ref''"
      | "k \<notin> {''array'', ''map'', ''object'', ''ref''}"
      by blast
    then show ?thesis
    proof cases
      case 1
      with Suc.prems Some items show ?thesis
        by (auto simp: catalog_value_matches.simps(2) split: option.split)
    next
      case 2
      with Suc.prems Some entries show ?thesis
        by (auto simp: catalog_value_matches.simps(2) split: option.split)
    next
      case 3
      with Suc.prems Some object show ?thesis
        by (auto simp: catalog_value_matches.simps(2) split: option.split)
    next
      case 4
      with Suc Some show ?thesis
        by (auto simp: catalog_value_matches.simps(2) split: option.split option.split_asm)
    next
      case 5
      with Some some_answer show ?thesis
        by (simp add: catalog_value_matches.simps(2) split: option.split)
    qed
  qed (simp add: catalog_value_matches.simps(2))
qed simp

text \<open>More fuel changes no answer.\<close>

lemma all_opt_mono:
  "(\<And>x b. x \<in> set xs \<Longrightarrow> f x = Some b \<Longrightarrow> g x = Some b) \<Longrightarrow> all_opt f xs = Some b \<Longrightarrow> all_opt g xs = Some b"
proof (induction xs)
  case (Cons x xs)
  then show ?case
    by (cases "f x") (auto split: if_splits)
qed simp

lemma more_fuel: "catalog_value_matches n catalog v d = Some b \<Longrightarrow> catalog_value_matches (Suc n) catalog v d = Some b"
proof (induction n arbitrary: v d b)
  case (Suc n)
  let ?m = "\<lambda>n. catalog_value_matches n catalog"
  have items: "all_opt (\<lambda>v. ?m n v d) vs = Some b \<Longrightarrow> all_opt (\<lambda>v. ?m (Suc n) v d) vs = Some b" for d vs b
    by (rule all_opt_mono) (use Suc.IH in auto)
  have entries: "all_opt (\<lambda>e. ?m n (snd e) d) es = Some b \<Longrightarrow> all_opt (\<lambda>e. ?m (Suc n) (snd e) d) es = Some b"
    for d b and es :: "(string \<times> json) list"
    by (rule all_opt_mono) (use Suc.IH in auto)
  have fs: "all_opt (\<lambda>f. case map_of es (fst f) of Some v \<Rightarrow> ?m n v (json_index ''type'' (snd f)) | None \<Rightarrow> g f) fs = Some b
      \<Longrightarrow> all_opt (\<lambda>f. case map_of es (fst f) of Some v \<Rightarrow> ?m (Suc n) v (json_index ''type'' (snd f)) | None \<Rightarrow> g f) fs = Some b"
    for es fs b and g :: "string \<times> json \<Rightarrow> bool option"
    by (rule all_opt_mono) (use Suc.IH in \<open>auto split: option.splits\<close>)
  show ?case
  proof (cases "as_str (json_index ''kind'' d)")
    case None
    with Suc.prems show ?thesis
      by (simp add: catalog_value_matches.simps(2))
  next
    case (Some k)
    note eq = catalog_value_matches.simps(2) [of "Suc n" catalog v d] catalog_value_matches.simps(2) [of n catalog v d]
    consider "k = ''array''" | "k = ''map''" | "k = ''object''" | "k = ''ref''"
      | "k \<notin> {''array'', ''map'', ''object'', ''ref''}"
      by blast
    then show ?thesis
    proof cases
      case 1
      with Suc.prems items Some show ?thesis
        by (auto simp: eq split: option.splits if_splits)
    next
      case 2
      with Suc.prems entries Some show ?thesis
        by (auto simp: eq split: option.splits if_splits)
    next
      case 3
      with Suc.prems fs Some show ?thesis
        by (auto simp: eq split: option.splits if_splits)
    next
      case 4
      with Suc.prems Suc.IH Some show ?thesis
        by (auto simp: eq split: option.splits if_splits)
    next
      case 5
      with Suc.prems Some show ?thesis
        by (auto simp: eq split: if_splits)
    qed
  qed
qed simp

lemma enough_fuel:
  assumes "settled n catalog d"
  shows "\<exists>b. \<forall>m \<ge> n. catalog_value_matches m catalog v d = Some b"
proof -
  obtain b where b: "catalog_value_matches n catalog v d = Some b"
    using settled_matches [OF assms, of v] by blast
  have "catalog_value_matches m catalog v d = Some b" if "n \<le> m" for m
    using that by (induction m rule: dec_induct) (use b more_fuel in auto)
  then show ?thesis
    by blast
qed

lemma settled_shapes [simp]:
  "settled (Suc n) c (d_primitive name)" "settled (Suc n) c (d_text lo hi)" "settled (Suc n) c (d_enum vs)"
  "settled (Suc n) c (d_id r)"
  "settled (Suc n) c (d_array items k) = settled n c items" "settled (Suc n) c (d_map d) = settled n c d"
  "settled (Suc n) c (d_object fs) = list_all (\<lambda>f. settled n c (json_index ''type'' (snd f))) fs"
  "settled (Suc n) error_catalog (d_ref r) = (case map_of catalog_types r of None \<Rightarrow> True | Some d \<Rightarrow> settled n error_catalog d)"
  by (simp_all add: d_primitive_def d_text_def d_enum_def d_id_def d_array_def d_map_def d_object_def d_ref_def
      error_catalog_def split: option.split)

declare settled.simps(2) [simp del]

lemma details_settled: "d_error code retryable d \<in> set catalog_errors \<Longrightarrow> settled catalog_fuel error_catalog d"
  by (simp only: catalog_errors_def list.set insert_iff) (auto simp: d_error_def fuel_Suc catalog_types_def)

lemma contract_settles:
  "\<exists>b. \<forall>m. catalog_error_contract_matches (catalog_fuel + m) code v r = Some b"
proof (cases "map_of catalog_errors code")
  case None
  then show ?thesis
    by (auto simp: catalog_error_contract_matches_def error_catalog_def)
next
  case (Some e)
  then have in_errors: "(code, e) \<in> set catalog_errors"
    by (rule map_of_SomeD)
  moreover have "list_all (\<lambda>p. \<exists>r d. p = d_error (fst p) r d) catalog_errors"
    unfolding catalog_errors_def list.pred_inject by (intro conjI TrueI) (auto simp: d_error_def)
  ultimately obtain retryable d where e: "d_error code retryable d \<in> set catalog_errors"
    by (force simp: list_all_iff)
  from enough_fuel [OF details_settled [OF e], of v] obtain b where
    "\<And>m. catalog_value_matches (catalog_fuel + m) error_catalog v d = Some b"
    by (metis le_add1)
  then show ?thesis
    by (cases "r = retryable") (auto simp: contract_code [OF e])
qed

section \<open>Properties\<close>

text \<open>C34. Building a resource error panics exactly when its arguments break the stated condition: every
  error the constructors build otherwise meets the contract of the catalog, and the matcher settles
  on every contract with the fuel chosen, so more fuel never changes the verdict.\<close>

theorem errors_meet_contract:
  "build_error reason e = (if error_ok e then Some (error_code e, error_details reason e, error_retryable e) else None)
   \<and> (\<exists>b. \<forall>m. catalog_error_contract_matches (catalog_fuel + m) code v r = Some b)"
  using build_error_iff contract_settles by blast

end
