(* ===== verification/SelectorProps.thy ===== *)
theory SelectorProps
  imports ResourceSelector SessionProps ErrorProps
begin

text \<open>
  What resolving selectors promises: no request panics, the path found is a chain of the indexes that
  agrees with every selector given, and \<open>current\<close> at every level is the active tab.
\<close>

section \<open>No panics\<close>

definition no_panic :: "'a resolved \<Rightarrow> bool" where
  "no_panic r \<longleftrightarrow> (\<forall>e. r = Inl e \<longrightarrow> error_ok e)"

named_theorems np_rules "calls that do not panic"

lemma no_panic_Inr [np_rules]: "no_panic (Inr x)"
  by (simp add: no_panic_def)

lemma no_panic_rbind: "no_panic r \<Longrightarrow> (\<And>x. r = Inr x \<Longrightarrow> no_panic (f x)) \<Longrightarrow> no_panic (rbind r f)"
  by (cases r) (auto simp: no_panic_def)

lemma no_panic_ok_or [np_rules]: "error_ok e \<Longrightarrow> no_panic (ok_or x e)"
  by (cases x) (simp_all add: no_panic_def)

lemma no_panic_rmap [np_rules]: "no_panic r \<Longrightarrow> no_panic (rmap f r)"
  by (cases r) (simp_all add: no_panic_def)

lemma no_panic_Inl [np_rules]: "error_ok e \<Longrightarrow> no_panic (Inl e)"
  by (simp add: no_panic_def)

text \<open>The kinds the resolver names all have a scope.\<close>

definition kinds :: "string list" where
  "kinds = [''machine'', ''session'', ''workspace'', ''screen'', ''pane'', ''tab'', ''terminal'', ''browser'']"

lemma scope_known: "canonical_resource_scope kind = Some scope \<Longrightarrow> scope \<in> set resource_scopes"
proof -
  assume "canonical_resource_scope kind = Some scope"
  then obtain ws where "(ws, scope) \<in> set scope_words"
    by (auto simp: canonical_resource_scope_def dest: find_SomeD)
  moreover have "list_all (\<lambda>(_, scope). scope \<in> set resource_scopes) scope_words"
    by (simp add: scope_words_def resource_scopes_def)
  ultimately show ?thesis
    by (auto simp: list_all_iff)
qed

lemma kind_scope: "kind \<in> set kinds \<Longrightarrow> canonical_resource_scope kind \<noteq> None"
proof -
  have "\<forall>kind \<in> set kinds. canonical_resource_scope kind \<noteq> None"
    by (simp add: kinds_def canonical_resource_scope_def scope_words_def)
  then show "kind \<in> set kinds \<Longrightarrow> canonical_resource_scope kind \<noteq> None"
    by blast
qed

lemma kind_errors:
  assumes "kind \<in> set kinds"
  shows "error_ok (not_found kind i)" "2 \<le> length cs \<Longrightarrow> error_ok (ambiguous kind i cs)" "error_ok (invalid_selector kind w)"
    "error_ok (incomplete_chain kind p)"
  using kind_scope [OF assms] scope_known
  by (auto simp: not_found_def ambiguous_def invalid_selector_def incomplete_chain_def selector_invalid_def scoped_def)

text \<open>The kinds that have a parent, and the kinds that are one.\<close>

definition child_kinds :: "string list" where
  "child_kinds = [''screen'', ''pane'', ''tab'', ''terminal'', ''browser'', ''target'']"

definition parent_kinds :: "string list" where
  "parent_kinds = [''workspace'', ''screen'', ''pane'', ''tab'']"

lemma wrong_parent_ok: "c \<in> set child_kinds \<Longrightarrow> p \<in> set parent_kinds \<Longrightarrow> error_ok (wrong_parent c i p e a)"
  by (auto simp: wrong_parent_def child_kinds_def parent_kinds_def)

lemma child_kinds_of [simp]: "''screen'' \<in> set child_kinds" "''pane'' \<in> set child_kinds" "''tab'' \<in> set child_kinds"
  "''terminal'' \<in> set child_kinds" "''browser'' \<in> set child_kinds" "''target'' \<in> set child_kinds"
  by (simp_all add: child_kinds_def)

lemma parent_kinds_of [simp]: "''workspace'' \<in> set parent_kinds" "''screen'' \<in> set parent_kinds"
  "''pane'' \<in> set parent_kinds" "''tab'' \<in> set parent_kinds"
  by (simp_all add: parent_kinds_def)

lemma target_kind_known: "target_kind t \<in> set kinds"
  by (cases t) (simp_all add: kinds_def)

lemma known_kinds [simp]: "''machine'' \<in> set kinds" "''session'' \<in> set kinds" "''workspace'' \<in> set kinds"
  "''screen'' \<in> set kinds" "''pane'' \<in> set kinds" "''tab'' \<in> set kinds" "''terminal'' \<in> set kinds" "''browser'' \<in> set kinds"
  by (simp_all add: kinds_def)

lemma no_panic_selector [np_rules]: "no_panic (selector_parse raw)"
  by (simp add: selector_parse_def no_panic_def split: option.split)

lemma no_panic_id [np_rules]: "no_panic (public_id_parse k i)"
  using id_prefix_facts(3) [of k] scope_known
  by (auto simp: public_id_parse_def invalid_id_def scoped_def no_panic_def split: option.splits)

lemma no_panic_name [np_rules]: "kind \<in> set kinds \<Longrightarrow> no_panic (resolve_name kind n cs)"
  by (auto simp: resolve_name_def Let_def no_panic_def kind_errors split: list.split)

lemma no_panic_public [np_rules]:
  "no_panic (public_workspace_id st a)" "no_panic (public_screen_id st b)" "no_panic (public_pane_id st c)"
  "no_panic (public_tab_id st d)"
  by (simp_all add: public_workspace_id_def public_screen_id_def public_pane_id_def public_tab_id_def np_rules kind_errors)

lemma no_panic_immediate [np_rules]:
  "a \<in> set child_kinds \<Longrightarrow> c \<in> set parent_kinds \<Longrightarrow> (\<And>x. no_panic (render x)) \<Longrightarrow>
   no_panic (validate_immediate_parent a b c selected actual render)"
  unfolding validate_immediate_parent_def
  by (auto intro!: no_panic_rbind np_rules wrong_parent_ok split: option.split)

lemma no_panic_supplied [np_rules]:
  "a \<in> set parent_kinds \<Longrightarrow> (\<And>x. no_panic (render x)) \<Longrightarrow>
   no_panic (validate_supplied_parent a supplied actual i render)"
  unfolding validate_supplied_parent_def
  by (auto intro!: no_panic_rbind np_rules wrong_parent_ok split: option.split)

definition indexes_in_range :: "'sf session \<Rightarrow> bool" where
  "indexes_in_range st \<longleftrightarrow> (\<forall>i n. workspace_index st i = Some n \<longrightarrow> n < length (workspaces st))"

lemma no_panic_slot: "indexes_in_range st \<Longrightarrow> no_panic (workspace_by_slot st i)"
  by (cases "workspace_index st i")
    (auto simp: workspace_by_slot_def kind_errors nth_opt_def indexes_in_range_def no_panic_def)

lemma no_panic_screen_slot: "indexes_in_range st \<Longrightarrow> no_panic (screen_by_slot st i)"
  unfolding screen_by_slot_def
  by (auto intro!: no_panic_rbind np_rules no_panic_slot simp: kind_errors)

lemma no_panic_workspace [np_rules]: "no_panic (resolve_workspace st raw)"
  unfolding resolve_workspace_def
  by (auto intro!: no_panic_rbind np_rules simp: kind_errors split: selector.split)

lemma no_panic_screen: "indexes_in_range st \<Longrightarrow> no_panic (resolve_screen st raw parent)"
  unfolding resolve_screen_def
  by (auto intro!: no_panic_rbind np_rules no_panic_slot simp: kind_errors split: selector.split)

lemma no_panic_pane: "indexes_in_range st \<Longrightarrow> no_panic (resolve_pane st raw parent)"
  unfolding resolve_pane_def
  by (auto intro!: no_panic_rbind np_rules no_panic_screen_slot simp: kind_errors split: selector.split)

lemma no_panic_tab [np_rules]: "no_panic (resolve_tab st raw parent)"
  unfolding resolve_tab_def
  by (auto intro!: no_panic_rbind np_rules simp: kind_errors split: selector.split)

lemma no_panic_content [np_rules]: "a \<in> set child_kinds \<Longrightarrow> no_panic (validate_content_parent st a b c d)"
  unfolding validate_content_parent_def by (auto intro!: np_rules)

lemma no_panic_terminal [np_rules]: "no_panic (resolve_terminal st raw a b c d)"
  unfolding resolve_terminal_def Let_def
  by (auto intro!: no_panic_rbind np_rules simp: kind_errors split: selector.split option.split content_id.split)

lemma no_panic_browser [np_rules]: "no_panic (resolve_browser st raw a)"
  unfolding resolve_browser_def
  by (auto intro!: no_panic_rbind np_rules simp: kind_errors split: selector.split option.split content_id.split)

lemma no_panic_chain:
  "\<forall>(kind, _) \<in> set levels. kind \<in> set kinds \<Longrightarrow> no_panic (check_chain parents levels)"
  by (induction parents levels rule: check_chain.induct)
    (auto intro!: no_panic_rbind np_rules simp: kind_errors split: option.split)

lemma no_panic_target_id [np_rules]: "no_panic (target_public_id st target a b c d)"
  unfolding target_public_id_def
  by (auto intro!: no_panic_rbind np_rules simp: kind_errors target_kind_known split: resource_target.split)

lemma no_panic_level [np_rules]:
  "kind \<in> set kinds \<Longrightarrow> kind \<in> set parent_kinds \<Longrightarrow> (\<And>x. no_panic (i x)) \<Longrightarrow> (\<And>x. no_panic (render x)) \<Longrightarrow>
   no_panic (check_level kind a b i render)"
  unfolding check_level_def require_resolved_slot_def
  by (auto intro!: no_panic_rbind np_rules simp: kind_errors)

lemma no_panic_levels [np_rules]: "no_panic (check_levels st target a b)"
  unfolding check_levels_def by (auto intro!: no_panic_rbind np_rules)

lemma no_panic_singleton [np_rules]: "kind \<in> set kinds \<Longrightarrow> no_panic (resolve_singleton kind a b c k)"
  unfolding resolve_singleton_def
  by (auto intro!: no_panic_rbind np_rules simp: kind_errors split: selector.split)

lemma no_panic_detached [np_rules]: "no_panic (detached_terminal st a b sp t)"
  unfolding detached_terminal_def by (auto intro!: no_panic_rbind np_rules wrong_parent_ok split: option.split)

lemma no_panic_opt [np_rules]: "(\<And>x. no_panic (f x)) \<Longrightarrow> no_panic (resolve_opt raw f)"
  "(\<And>x. no_panic (g x)) \<Longrightarrow> no_panic (public_of slot g)"
  by (auto simp: resolve_opt_def public_of_def intro!: np_rules split: option.split)

lemma no_panic_resolve_supplied: "indexes_in_range st \<Longrightarrow> no_panic (resolve_supplied st s)"
  unfolding resolve_supplied_def
  by (auto intro!: no_panic_rbind np_rules no_panic_screen no_panic_pane)

lemma target_given: "require_target_selector s target = Inr u \<Longrightarrow> at_depth s target (target_depth target) \<noteq> None"
  by (auto simp: require_target_selector_def split: if_splits)

lemma no_panic_chains:
  assumes "require_target_selector s target = Inr u"
  shows "no_panic (validate_contiguous_name_current_chains s target)"
  using target_given [OF assms] unfolding validate_contiguous_name_current_chains_def Let_def
  by (auto intro!: no_panic_rbind np_rules no_panic_chain simp: kind_errors target_kind_known split: option.split)

lemma no_panic_target_tab:
  assumes "require_target_selector s target = Inr u"
  shows "no_panic (resolve_target_tab st target s sp)"
  using target_given [OF assms] unfolding resolve_target_tab_def
  by (auto intro!: np_rules simp: at_depth_def split: resource_target.split option.split)

lemma no_panic_target_selector [np_rules]: "no_panic (require_target_selector s target)"
  by (simp add: require_target_selector_def no_panic_def kind_errors target_kind_known)

lemma no_panic_require [np_rules]: "kind \<in> set kinds \<Longrightarrow> no_panic (require_selector x kind)"
  by (simp add: require_selector_def kind_errors np_rules)

lemma target_terminal [simp]: "resolve_target_tab st TerminalTarget s sp \<noteq> Inr (tab, None, browser)"
  by (auto simp: resolve_target_tab_def result_rules split: option.splits)

lemma resolve_no_panic:
  assumes "indexes_in_range st"
  shows "no_panic (resolve_resource_selectors st cx target s)"
proof -
  have "no_panic (resolved_target st machine session target sp found)" if "resolve_target_tab st target s sp = Inr found"
    for machine session sp found
    using that unfolding resolved_target_def Let_def
    by (auto intro!: no_panic_rbind np_rules split: option.split prod.split)
  then have "no_panic (resolve_structural st machine session target s)" for machine session
    unfolding resolve_structural_def
    by (auto intro!: no_panic_rbind np_rules no_panic_resolve_supplied [OF assms] no_panic_chains no_panic_target_tab)
  then show ?thesis
    unfolding resolve_resource_selectors_def
    by (auto intro!: no_panic_rbind np_rules simp: kind_errors target_kind_known split: option.split)
qed

section \<open>The path found\<close>

text \<open>The slots form a chain of the indexes, and the path names them.\<close>

definition path_consistent :: "'sf session \<Rightarrow> resolved_slots \<Rightarrow> bool" where
  "path_consistent st r \<longleftrightarrow>
     (let ix = resource_indexes st; p = rs_path r in
      (\<exists>w. rs_workspace r = Some w \<and> workspace_ids ix w \<noteq> None \<and> rp_workspace p = workspace_ids ix w)
      \<and> (\<forall>s. rs_screen r = Some s \<longrightarrow> screen_workspace ix s = rs_workspace r \<and> screen_ids ix s \<noteq> None \<and> rp_screen p = screen_ids ix s)
      \<and> (\<forall>q. rs_pane r = Some q \<longrightarrow> pane_screen ix q = rs_screen r \<and> rs_screen r \<noteq> None
           \<and> ix_pane_ids ix q \<noteq> None \<and> rp_pane p = ix_pane_ids ix q)
      \<and> (\<forall>t. rs_tab r = Some t \<longrightarrow> tab_pane ix t = rs_pane r \<and> rs_pane r \<noteq> None
           \<and> tab_ids ix t \<noteq> None \<and> rp_tab p = tab_ids ix t))"

text \<open>Every selector given resolves to the ancestor found.\<close>

definition selectors_agree :: "surface session \<Rightarrow> resource_selectors \<Rightarrow> resolved_slots \<Rightarrow> bool" where
  "selectors_agree st s r \<longleftrightarrow>
     (\<forall>raw. se_workspace s = Some raw \<longrightarrow> rmap Some (resolve_workspace st raw) = Inr (rs_workspace r))
     \<and> (\<forall>raw. se_screen s = Some raw \<longrightarrow> (\<exists>w. rmap Some (resolve_screen st raw w) = Inr (rs_screen r)))
     \<and> (\<forall>raw. se_pane s = Some raw \<longrightarrow> (\<exists>sc. rmap Some (resolve_pane st raw sc) = Inr (rs_pane r)))
     \<and> (\<forall>raw. se_tab s = Some raw \<longrightarrow> (\<exists>q. rmap Some (resolve_tab st raw q) = Inr (rs_tab r)))"

lemma check_level_Inr:
  "check_level kind a b i render = Inr x \<longleftrightarrow> b = Some x \<and> (\<exists>y. i x = Inr y) \<and> (a = None \<or> a = Some x)"
  by (cases b; cases a)
    (auto simp: check_level_def require_resolved_slot_def validate_supplied_parent_def result_rules)

lemma resolve_opt_Inr: "resolve_opt raw f = Inr x \<longleftrightarrow> (case raw of None \<Rightarrow> x = None | Some r \<Rightarrow> rmap Some (f r) = Inr x)"
  by (auto simp: resolve_opt_def split: option.split)

lemma public_of_Inr: "public_of slot render = Inr x \<longleftrightarrow> (case slot of None \<Rightarrow> x = None | Some s \<Rightarrow> rmap Some (render s) = Inr x)"
  by (auto simp: public_of_def split: option.split)


lemma public_Inr:
  "public_workspace_id st a = Inr x \<longleftrightarrow> workspace_ids (resource_indexes st) a = Some x"
  "public_screen_id st b = Inr x \<longleftrightarrow> screen_ids (resource_indexes st) b = Some x"
  "public_pane_id st c = Inr x \<longleftrightarrow> ix_pane_ids (resource_indexes st) c = Some x"
  "public_tab_id st d = Inr x \<longleftrightarrow> tab_ids (resource_indexes st) d = Some x"
  by (simp_all add: public_workspace_id_def public_screen_id_def public_pane_id_def public_tab_id_def result_rules)

text \<open>A resolution that succeeds: the slots supplied, the target and the checks it passed.\<close>

lemma singleton_Inr: "resolve_singleton kind raw expected name k = Inr x \<Longrightarrow> x = expected"
  by (cases "selector_parse raw"; cases "projr (selector_parse raw)")
    (auto simp: resolve_singleton_def result_rules split: if_splits)

lemma resolve_Inr:
  assumes "resolve_resource_selectors st cx target s = Inr r" and "2 \<le> target_depth target"
  obtains "resolve_structural st (cx_machine_id cx) (cx_session_id cx) target s = Inr r" and "unexpected_below s target = None"
proof -
  have deep: "target \<noteq> MachineTarget" "target \<noteq> SessionTarget"
    using assms(2) by auto
  have "unexpected_below s target = None"
    using assms(1) by (cases "unexpected_below s target") (simp_all add: resolve_resource_selectors_def)
  with assms(1) deep that show thesis
    by (auto simp: resolve_resource_selectors_def result_rules dest!: singleton_Inr split: if_splits)
qed

lemma resolved_target_Inr:
  assumes "resolved_target st machine session target sp (tab, terminal, browser) = Inr r"
    and "\<not> (target = TerminalTarget \<and> sp_pane (target_slots st target sp tab) = None)"
  shows "\<exists>w. check_levels st target sp (target_slots st target sp tab) = Inr w \<and> rs_workspace r = Some w
        \<and> rs_screen r = sp_screen (target_slots st target sp tab) \<and> rs_pane r = sp_pane (target_slots st target sp tab)
        \<and> rs_tab r = sp_tab (target_slots st target sp tab)
        \<and> public_workspace_id st w = Inr (the (rp_workspace (rs_path r))) \<and> rp_workspace (rs_path r) \<noteq> None
        \<and> public_of (rs_screen r) (public_screen_id st) = Inr (rp_screen (rs_path r))
        \<and> public_of (rs_pane r) (public_pane_id st) = Inr (rp_pane (rs_path r))
        \<and> public_of (rs_tab r) (public_tab_id st) = Inr (rp_tab (rs_path r))
        \<and> rp_machine (rs_path r) = machine \<and> rp_session (rs_path r) = Some session
        \<and> rp_terminal (rs_path r) = terminal \<and> rp_browser (rs_path r) = browser"
  using assms by (auto simp: resolved_target_def Let_def result_rules simp del: not_None_eq split_paired_Ex)

lemma rmap_Some_None [simp]: "rmap Some x \<noteq> Inr None"
  by (cases x) simp_all

lemma rmap_unit_Inr: "rmap (\<lambda>_. ()) x = Inr u \<longleftrightarrow> (\<exists>y. x = Inr y)"
  by (cases x) simp_all

lemma check_levels_Inr:
  assumes "check_levels st target sp tg = Inr w"
  shows "sp_workspace tg = Some w \<and> (sp_workspace sp = None \<or> sp_workspace sp = sp_workspace tg)"
    and "3 \<le> target_depth target \<Longrightarrow> sp_screen tg \<noteq> None \<and> (sp_screen sp = None \<or> sp_screen sp = sp_screen tg)"
    and "4 \<le> target_depth target \<Longrightarrow> sp_pane tg \<noteq> None \<and> (sp_pane sp = None \<or> sp_pane sp = sp_pane tg)"
    and "5 \<le> target_depth target \<Longrightarrow> sp_tab tg \<noteq> None \<and> (sp_tab sp = None \<or> sp_tab sp = sp_tab tg)"
  using assms unfolding check_levels_def
  by (auto simp: result_rules check_level_Inr rmap_unit_Inr not_less split: if_splits)

lemma supplied_Inr:
  assumes "resolve_supplied st s = Inr sp"
  shows "resolve_opt (se_workspace s) (resolve_workspace st) = Inr (sp_workspace sp)"
    and "\<exists>w. resolve_opt (se_screen s) (\<lambda>raw. resolve_screen st raw w) = Inr (sp_screen sp)"
    and "\<exists>sc. resolve_opt (se_pane s) (\<lambda>raw. resolve_pane st raw sc) = Inr (sp_pane sp)"
    and "\<exists>q. resolve_opt (se_tab s) (\<lambda>raw. resolve_tab st raw q) = Inr (sp_tab sp)"
  using assms unfolding resolve_supplied_def by (auto simp: result_rules)

lemma nothing_below:
  assumes "unexpected_below s target = None"
  shows "se_screen s \<noteq> None \<Longrightarrow> 3 \<le> target_depth target" and "se_pane s \<noteq> None \<Longrightarrow> 4 \<le> target_depth target"
    and "se_tab s \<noteq> None \<Longrightarrow> 5 \<le> target_depth target"
  using assms by (rule_tac [!] ccontr) (auto simp: unexpected_below_def not_le split: if_splits)

text \<open>A selector that was given has a slot.\<close>

lemma given_agrees:
  assumes "resolve_opt raw f = Inr x" and "raw \<noteq> None \<Longrightarrow> x = None \<or> x = y" and "raw = Some r"
  shows "rmap Some (f r) = Inr y"
proof -
  obtain v where "f r = Inr v" "x = Some v"
    using assms(1,3) by (cases "f r") (auto simp: resolve_opt_def)
  with assms(2,3) show ?thesis
    by auto
qed

lemma checked_agrees:
  assumes sup: "resolve_supplied st s = Inr sp" and below: "unexpected_below s target = None"
    and c: "check_levels st target sp tg = Inr w"
    and r: "rs_workspace r = Some w" "rs_screen r = sp_screen tg" "rs_pane r = sp_pane tg" "rs_tab r = sp_tab tg"
  shows "selectors_agree st s r"
proof -
  note lv = check_levels_Inr [OF c] and su = supplied_Inr [OF sup] and nb = nothing_below [OF below]
  show ?thesis
    unfolding selectors_agree_def
  proof (intro conjI allI impI)
    fix raw
    show "rmap Some (resolve_workspace st raw) = Inr (rs_workspace r)" if "se_workspace s = Some raw"
      using given_agrees [OF su(1) _ that] lv(1) r(1) by auto
    show "\<exists>w. rmap Some (resolve_screen st raw w) = Inr (rs_screen r)" if raw: "se_screen s = Some raw"
    proof -
      obtain w where "resolve_opt (se_screen s) (\<lambda>raw. resolve_screen st raw w) = Inr (sp_screen sp)"
        using su(2) by blast
      from given_agrees [OF this _ raw, of "rs_screen r"] show ?thesis
        using lv(2) nb(1) r(2) by auto
    qed
    show "\<exists>sc. rmap Some (resolve_pane st raw sc) = Inr (rs_pane r)" if raw: "se_pane s = Some raw"
    proof -
      obtain sc where "resolve_opt (se_pane s) (\<lambda>raw. resolve_pane st raw sc) = Inr (sp_pane sp)"
        using su(3) by blast
      from given_agrees [OF this _ raw, of "rs_pane r"] show ?thesis
        using lv(3) nb(2) r(3) by auto
    qed
    show "\<exists>q. rmap Some (resolve_tab st raw q) = Inr (rs_tab r)" if raw: "se_tab s = Some raw"
    proof -
      obtain q where "resolve_opt (se_tab s) (\<lambda>raw. resolve_tab st raw q) = Inr (sp_tab sp)"
        using su(4) by blast
      from given_agrees [OF this _ raw, of "rs_tab r"] show ?thesis
        using lv(4) nb(3) r(4) by auto
    qed
  qed
qed

text \<open>The levels of a target below the workspace are those of its kind.\<close>

lemma target_slots_chain:
  assumes "2 \<le> target_depth target" and "target_depth target < 5 \<Longrightarrow> tab = None"
  shows "sp_tab (target_slots st target sp tab) = tab"
    and "sp_tab (target_slots st target sp tab) = Some t \<Longrightarrow>
      sp_pane (target_slots st target sp tab) = tab_pane (resource_indexes st) t"
    and "sp_pane (target_slots st target sp tab) = Some q \<Longrightarrow>
      sp_screen (target_slots st target sp tab) = pane_screen (resource_indexes st) q"
    and "sp_screen (target_slots st target sp tab) = Some sc \<Longrightarrow>
      sp_workspace (target_slots st target sp tab) = screen_workspace (resource_indexes st) sc"
    and "sp_tab (target_slots st target sp tab) \<noteq> None \<Longrightarrow> 5 \<le> target_depth target"
    and "sp_pane (target_slots st target sp tab) \<noteq> None \<Longrightarrow> 4 \<le> target_depth target"
    and "sp_screen (target_slots st target sp tab) \<noteq> None \<Longrightarrow> 3 \<le> target_depth target"
  using assms by (cases target; cases tab; simp add: target_slots_def Let_def del: Option.bind_assoc; fail)+

lemma target_tab_depth:
  "resolve_target_tab st target s sp = Inr (tab, terminal, browser) \<Longrightarrow> target_depth target < 5 \<Longrightarrow> tab = None"
  by (cases target) (auto simp: resolve_target_tab_def)

lemma checked_path:
  assumes d: "2 \<le> target_depth target" "target_depth target < 5 \<Longrightarrow> tab = None"
    and r: "resolved_target st machine session target sp (tab, terminal, browser) = Inr r"
    and view: "\<not> (target = TerminalTarget \<and> sp_pane (target_slots st target sp tab) = None)"
  shows "path_consistent st r"
proof -
  let ?tg = "target_slots st target sp tab" and ?ix = "resource_indexes st"
  note chain = target_slots_chain [where st = st and sp = sp, OF d]
  obtain w where c: "check_levels st target sp ?tg = Inr w" and slots: "rs_workspace r = Some w"
    "rs_screen r = sp_screen ?tg" "rs_pane r = sp_pane ?tg" "rs_tab r = sp_tab ?tg"
    and pub: "public_workspace_id st w = Inr (the (rp_workspace (rs_path r)))" "rp_workspace (rs_path r) \<noteq> None"
    "public_of (rs_screen r) (public_screen_id st) = Inr (rp_screen (rs_path r))"
    "public_of (rs_pane r) (public_pane_id st) = Inr (rp_pane (rs_path r))"
    "public_of (rs_tab r) (public_tab_id st) = Inr (rp_tab (rs_path r))"
    using resolved_target_Inr [OF r view] by blast
  note lv = check_levels_Inr [OF c]
  have ids: "rp_workspace (rs_path r) = workspace_ids ?ix w" "workspace_ids ?ix w \<noteq> None"
    "rs_screen r = Some sc \<Longrightarrow> screen_ids ?ix sc \<noteq> None \<and> rp_screen (rs_path r) = screen_ids ?ix sc"
    "rs_pane r = Some q \<Longrightarrow> ix_pane_ids ?ix q \<noteq> None \<and> rp_pane (rs_path r) = ix_pane_ids ?ix q"
    "rs_tab r = Some t \<Longrightarrow> tab_ids ?ix t \<noteq> None \<and> rp_tab (rs_path r) = tab_ids ?ix t" for sc q t
    using pub by (auto simp: public_Inr public_of_def result_rules)
  have "rs_screen r = Some sc \<Longrightarrow> screen_workspace ?ix sc = rs_workspace r" for sc
    using chain(4) lv(1) slots by auto
  moreover have "rs_pane r = Some q \<Longrightarrow> pane_screen ?ix q = rs_screen r \<and> rs_screen r \<noteq> None" for q
    using chain(3,6) lv(2) slots by auto
  moreover have "rs_tab r = Some t \<Longrightarrow> tab_pane ?ix t = rs_pane r \<and> rs_pane r \<noteq> None" for t
    using chain(2,5) lv(3) slots by auto
  ultimately show ?thesis
    using ids slots(1) unfolding path_consistent_def Let_def by auto
qed

section \<open>Terminals and browsers\<close>

text \<open>The content indexes as a rebuild leaves them: the placements of a content are the tabs that have
  it, every tab with an identity is in a pane, and a surface of the catalog that is a tab is the tab of
  its terminal.\<close>

definition content_indexed :: "surface session \<Rightarrow> bool" where
  "content_indexed st \<longleftrightarrow>
     (let ix = resource_indexes st in
      (\<forall>c t. t \<in> set (placements_of_content st c) \<longleftrightarrow> content_ids ix t = Some c)
      \<and> (\<forall>c. content_placements ix c \<noteq> Some [])
      \<and> (\<forall>t. content_ids ix t \<noteq> None \<or> tab_ids ix t \<noteq> None \<longrightarrow> tab_pane ix t \<noteq> None)
      \<and> (\<forall>i sf. terminal_catalog st i = Some sf \<longrightarrow> tab_pane ix (sf_id sf) \<noteq> None
           \<longrightarrow> content_ids ix (sf_id sf) = Some (TerminalContent i)))"

text \<open>A terminal has a view when a tab of some pane shows it.\<close>

definition has_view :: "surface session \<Rightarrow> public_id \<Rightarrow> bool" where
  "has_view st i \<longleftrightarrow>
     (\<exists>(p, x) \<in> set (ses_panes st). \<exists>t \<in> set (tabs x). content_ids (resource_indexes st) t = Some (TerminalContent i))"

text \<open>A content selector picks a content: its id names it, its name is the title of the tab.\<close>

definition names_content :: "id_kind \<Rightarrow> string option \<Rightarrow> public_id \<Rightarrow> string \<Rightarrow> bool" where
  "names_content k raw i title \<longleftrightarrow> (\<exists>sel. Option.bind raw (\<lambda>raw. case selector_parse raw of Inl _ \<Rightarrow> None | Inr sel \<Rightarrow> Some sel) = Some sel
     \<and> (case sel of SelId j \<Rightarrow> public_id_parse k j = Inr i | Current \<Rightarrow> True | SelName n \<Rightarrow> title = n))"

lemma view_iff:
  assumes "session_ok st" and "content_indexed st"
  shows "has_view st i \<longleftrightarrow> (\<exists>t. content_ids (resource_indexes st) t = Some (TerminalContent i))"
proof -
  have "tabs_indexed (tab_pane (resource_indexes st)) (ses_panes st)"
    using assms(1) by (simp add: session_ok_def ses_ok_def)
  moreover have "\<forall>t. content_ids (resource_indexes st) t \<noteq> None \<longrightarrow> tab_pane (resource_indexes st) t \<noteq> None"
    using assms(2) by (simp add: content_indexed_def Let_def)
  ultimately show ?thesis
    unfolding has_view_def tabs_indexed_def by fast
qed

lemma either_Some: "first_some a b = Some x \<longleftrightarrow> a = Some x \<or> (a = None \<and> b = Some x)"
  by (simp add: first_some_def split: option.split)

lemma content_parent_Inr: "validate_content_parent st kind i parent slot = Inr u \<Longrightarrow> parent = None \<or> parent = Some slot"
  by (auto simp: validate_content_parent_def validate_immediate_parent_def result_rules split: option.splits if_splits)

lemma terminal_by_id:
  assumes ix: "content_indexed st"
    and slot: "first_some (case parent of Some p \<Rightarrow> if content_ids (resource_indexes st) p = Some (TerminalContent i) then Some p else None
          | None \<Rightarrow> None)
        (first_some (Option.bind (content_placements (resource_indexes st) (TerminalContent i)) (\<lambda>ps.
            first_some (List.find f ps) (nth_opt ps 0))) (map_option sf_id (terminal_catalog st i))) = Some t"
  shows "content_ids (resource_indexes st) t = Some (TerminalContent i)
    \<or> ((\<forall>u. content_ids (resource_indexes st) u \<noteq> Some (TerminalContent i))
        \<and> tab_pane (resource_indexes st) t = None \<and> terminal_catalog st i \<noteq> None)"
proof (cases "content_placements (resource_indexes st) (TerminalContent i)")
  case None
  then have none: "content_ids (resource_indexes st) u \<noteq> Some (TerminalContent i)" for u
    using ix by (force simp: content_indexed_def Let_def placements_of_content_def)
  with None slot obtain sf where "terminal_catalog st i = Some sf" "sf_id sf = t"
    by (auto simp: either_Some split: option.splits)
  moreover from this have "tab_pane (resource_indexes st) t \<noteq> None \<longrightarrow> content_ids (resource_indexes st) t = Some (TerminalContent i)"
    using ix unfolding content_indexed_def Let_def by blast
  ultimately show ?thesis
    using none by auto
next
  case (Some ps)
  with ix have ps: "ps \<noteq> []" "\<And>u. u \<in> set ps \<Longrightarrow> content_ids (resource_indexes st) u = Some (TerminalContent i)"
    by (auto simp: content_indexed_def Let_def placements_of_content_def dest!: spec [of _ "TerminalContent i"])
  then have "\<exists>u. u \<in> set ps \<and> first_some (List.find f ps) (nth_opt ps 0) = Some u"
    by (cases "List.find f ps") (auto simp: first_some_def nth_opt_def dest: find_SomeD)
  then obtain u where u: "u \<in> set ps" "first_some (List.find f ps) (nth_opt ps 0) = Some u"
    by blast
  then have "first_some (Option.bind (content_placements (resource_indexes st) (TerminalContent i)) (\<lambda>ps.
      first_some (List.find f ps) (nth_opt ps 0))) c = Some u" for c
    using Some by (simp add: first_some_def)
  with slot ps(2) u(1) show ?thesis
    by (auto simp: either_Some split: option.splits if_splits)
qed

lemma terminal_Inr:
  assumes ix: "content_indexed st" and r: "resolve_terminal st raw parent q sc w = Inr (t, i)"
  shows "(parent = None \<or> parent = Some t) \<and> names_content TerminalId (Some raw) i (surface_title st t)
    \<and> (content_ids (resource_indexes st) t = Some (TerminalContent i)
       \<or> ((\<forall>u. content_ids (resource_indexes st) u \<noteq> Some (TerminalContent i)) \<and> tab_pane (resource_indexes st) t = None
           \<and> terminal_catalog st i \<noteq> None \<and> selector_parse raw = Inr (SelId i)))"
proof -
  obtain sel where sel: "selector_parse raw = Inr sel"
    using r by (cases "selector_parse raw") (simp_all add: resolve_terminal_def)
  show ?thesis
  proof (cases sel)
    case (SelId j)
    have "i = j" "public_id_parse TerminalId j = Inr j"
      using r by (auto simp: resolve_terminal_def sel SelId result_rules Let_def public_id_parse_def split: option.splits if_splits)
    moreover define found where "found = first_some (case parent of Some p \<Rightarrow>
          if content_ids (resource_indexes st) p = Some (TerminalContent j) then Some p else None | None \<Rightarrow> None)
        (first_some (Option.bind (content_placements (resource_indexes st) (TerminalContent j)) (\<lambda>ps.
            first_some (List.find (\<lambda>p. placement_matches_scope st p q sc w) ps) (nth_opt ps 0)))
          (map_option sf_id (terminal_catalog st j)))"
    ultimately have found: "found = Some t" "\<exists>u. validate_content_parent st ''terminal'' i parent t = Inr u"
      using r by (auto simp: resolve_terminal_def sel SelId result_rules Let_def simp flip: found_def)
    then have "parent = None \<or> parent = Some t"
      using content_parent_Inr by blast
    with terminal_by_id [OF ix, of j parent "\<lambda>p. placement_matches_scope st p q sc w" t, folded found_def]
      found(1) \<open>i = j\<close> \<open>public_id_parse TerminalId j = Inr j\<close> show ?thesis
      by (auto simp: sel SelId names_content_def)
  qed (use r in \<open>cases parent; auto simp: resolve_terminal_def sel ok_or_def names_content_def split: option.splits content_id.splits if_splits\<close>)+
qed

lemma browser_Inr:
  assumes ix: "content_indexed st" and r: "resolve_browser st raw parent = Inr (t, i)"
  shows "names_content BrowserId (Some raw) i (surface_title st t) \<and> content_ids (resource_indexes st) t = Some (BrowserContent i)"
proof -
  obtain sel where sel: "selector_parse raw = Inr sel"
    using r by (cases "selector_parse raw") (simp_all add: resolve_browser_def)
  have placed: "single_placement_of_content st (BrowserContent j) = Some u \<Longrightarrow>
      content_ids (resource_indexes st) u = Some (BrowserContent j)" for j u
    using ix by (force simp: content_indexed_def Let_def single_placement_of_content_def split: list.splits)
  show ?thesis
  proof (cases sel)
    case (SelId j)
    have "i = j" "public_id_parse BrowserId j = Inr j"
      using r by (auto simp: resolve_browser_def sel SelId result_rules public_id_parse_def split: option.splits if_splits)
    with r placed show ?thesis
      by (auto simp: resolve_browser_def sel SelId result_rules names_content_def)
  qed (use r in \<open>cases parent; auto simp: resolve_browser_def sel ok_or_def names_content_def split: option.splits content_id.splits if_splits\<close>)+
qed

text \<open>Exactly the levels down to the target are there.\<close>

definition full_path :: "resource_target \<Rightarrow> resolved_slots \<Rightarrow> bool" where
  "full_path target r \<longleftrightarrow> (rs_screen r \<noteq> None \<longleftrightarrow> 3 \<le> target_depth target)
     \<and> (rs_pane r \<noteq> None \<longleftrightarrow> 4 \<le> target_depth target) \<and> (rs_tab r \<noteq> None \<longleftrightarrow> 5 \<le> target_depth target)"

text \<open>The terminal or browser of the path is the content of its tab and the one its selector asks for.\<close>

definition content_agrees :: "surface session \<Rightarrow> resource_target \<Rightarrow> resource_selectors \<Rightarrow> resolved_slots \<Rightarrow> bool" where
  "content_agrees st target s r \<longleftrightarrow>
     (rp_terminal (rs_path r) \<noteq> None \<longleftrightarrow> target = TerminalTarget) \<and> (rp_browser (rs_path r) \<noteq> None \<longleftrightarrow> target = BrowserTarget)
     \<and> (\<forall>t i. rs_tab r = Some t \<longrightarrow> rp_terminal (rs_path r) = Some i \<longrightarrow>
          content_ids (resource_indexes st) t = Some (TerminalContent i)
          \<and> names_content TerminalId (se_terminal s) i (surface_title st t))
     \<and> (\<forall>t i. rs_tab r = Some t \<longrightarrow> rp_browser (rs_path r) = Some i \<longrightarrow>
          content_ids (resource_indexes st) t = Some (BrowserContent i)
          \<and> names_content BrowserId (se_browser s) i (surface_title st t))"

text \<open>What the resolver returns: a terminal without a view, or the whole chain.\<close>

definition detached_result :: "surface session \<Rightarrow> resource_selectors \<Rightarrow> resolved_slots \<Rightarrow> bool" where
  "detached_result st s r \<longleftrightarrow>
     (\<exists>i raw. r = bare_path (rp_machine (rs_path r)) (rp_session (rs_path r)) (Some i)
       \<and> se_terminal s = Some raw \<and> selector_parse raw = Inr (SelId i) \<and> terminal_catalog st i \<noteq> None
       \<and> se_workspace s = None \<and> se_screen s = None \<and> se_pane s = None \<and> se_tab s = None)"

lemma attached_result:
  assumes d: "2 \<le> target_depth target" and below: "unexpected_below s target = None"
    and sup: "resolve_supplied st s = Inr sp" and f: "resolve_target_tab st target s sp = Inr (tab, terminal, browser)"
    and r: "resolved_target st machine session target sp (tab, terminal, browser) = Inr r"
    and view: "\<not> (target = TerminalTarget \<and> sp_pane (target_slots st target sp tab) = None)"
  shows "path_consistent st r \<and> selectors_agree st s r \<and> full_path target r \<and> rs_tab r = tab
    \<and> rp_machine (rs_path r) = machine \<and> rp_session (rs_path r) = Some session
    \<and> rp_terminal (rs_path r) = terminal \<and> rp_browser (rs_path r) = browser"
proof -
  let ?tg = "target_slots st target sp tab"
  obtain w where c: "check_levels st target sp ?tg = Inr w" and slots: "rs_workspace r = Some w"
    "rs_screen r = sp_screen ?tg" "rs_pane r = sp_pane ?tg" "rs_tab r = sp_tab ?tg"
    and names: "rp_machine (rs_path r) = machine" "rp_session (rs_path r) = Some session"
      "rp_terminal (rs_path r) = terminal" "rp_browser (rs_path r) = browser"
    using resolved_target_Inr [OF r view] by blast
  note tab = target_tab_depth [OF f] and lv = check_levels_Inr [OF c]
  note chain = target_slots_chain [where st = st and sp = sp, OF d tab]
  have "full_path target r"
    using slots lv(2-4) chain(5-7) by (auto simp: full_path_def)
  moreover have "rs_tab r = tab"
    using slots(4) chain(1) by simp
  ultimately show ?thesis
    using checked_agrees [OF sup below c slots] checked_path [OF d tab r view] names by blast
qed

lemma resolved_path_ok:
  assumes ok: "session_ok st" "content_indexed st"
    and r: "resolve_resource_selectors st cx target s = Inr r" "2 \<le> target_depth target"
  shows "rp_machine (rs_path r) = cx_machine_id cx \<and> rp_session (rs_path r) = Some (cx_session_id cx)
    \<and> (if target = TerminalTarget \<and> \<not> has_view st (the (rp_terminal (rs_path r))) then detached_result st s r
       else full_path target r \<and> path_consistent st r \<and> selectors_agree st s r \<and> content_agrees st target s r)"
proof -
  have st: "resolve_structural st (cx_machine_id cx) (cx_session_id cx) target s = Inr r"
    and below: "unexpected_below s target = None"
    using resolve_Inr [OF r] by blast+
  obtain sp tab terminal browser where sp: "resolve_supplied st s = Inr sp"
    and f: "resolve_target_tab st target s sp = Inr (tab, terminal, browser)"
    and t: "resolved_target st (cx_machine_id cx) (cx_session_id cx) target sp (tab, terminal, browser) = Inr r"
    using st by (auto simp: resolve_structural_def result_rules)
  note su = supplied_Inr [OF sp]
  have pane: "content_ids (resource_indexes st) u \<noteq> None \<or> tab_ids (resource_indexes st) u \<noteq> None \<Longrightarrow>
      tab_pane (resource_indexes st) u \<noteq> None" for u
    using ok(2) unfolding content_indexed_def Let_def by blast
  consider (is_term) "target = TerminalTarget" | (is_browser) "target = BrowserTarget" | (other) "target \<noteq> TerminalTarget" "target \<noteq> BrowserTarget"
    by blast
  then show ?thesis
  proof cases
    case is_term
    with f obtain raw slot i where raw: "se_terminal s = Some raw" and found: "tab = Some slot" "terminal = Some i" "browser = None"
      and res: "resolve_terminal st raw (sp_tab sp) (sp_pane sp) (sp_screen sp) (sp_workspace sp) = Inr (slot, i)"
      by (auto simp: resolve_target_tab_def result_rules split: option.splits)
    note T = terminal_Inr [OF ok(2) res]
    have tg: "sp_pane (target_slots st target sp tab) = tab_pane (resource_indexes st) slot"
      using is_term found by (simp add: target_slots_def Let_def)
    show ?thesis
    proof (cases "content_ids (resource_indexes st) slot = Some (TerminalContent i)")
      case True
      then have "\<not> (target = TerminalTarget \<and> sp_pane (target_slots st target sp tab) = None)" and v: "has_view st i"
        using pane [of slot] tg view_iff [OF ok] by auto
      from attached_result [OF r(2) below sp f t this(1)] show ?thesis
        using is_term v True T raw found by (simp add: content_agrees_def)
    next
      case False
      then have no: "tab_pane (resource_indexes st) slot = None" "\<not> has_view st i"
        using T view_iff [OF ok] by auto
      have "detached_terminal st (cx_machine_id cx) (cx_session_id cx) sp i = Inr r"
        using t is_term no(1) tg found by (simp add: resolved_target_def Let_def)
      then have none: "sp_pane sp = None" "sp_screen sp = None" "sp_workspace sp = None"
        and b: "r = bare_path (cx_machine_id cx) (Some (cx_session_id cx)) (Some i)"
        by (auto simp: detached_terminal_def result_rules split: option.splits)
      have "sp_tab sp = None"
      proof (rule ccontr)
        assume "sp_tab sp \<noteq> None"
        then have "sp_tab sp = Some slot" using T by auto
        then have "tab_ids (resource_indexes st) slot \<noteq> None"
          using su(4) by (auto simp: resolve_opt_def resolve_tab_def public_tab_id_def result_rules split: option.splits)
        with pane no(1) show False by blast
      qed
      with su none have "se_workspace s = None \<and> se_screen s = None \<and> se_pane s = None \<and> se_tab s = None"
        by (auto simp: resolve_opt_def split: option.splits)
      then show ?thesis
        using is_term no(2) b raw T False by (auto simp: detached_result_def bare_path_def)
    qed
  next
    case is_browser
    with f obtain raw slot i where "se_browser s = Some raw" "tab = Some slot" "terminal = None" "browser = Some i"
      "resolve_browser st raw (sp_tab sp) = Inr (slot, i)"
      by (auto simp: resolve_target_tab_def result_rules split: option.splits)
    with browser_Inr [OF ok(2) this(5)] attached_result [OF r(2) below sp f t] is_browser show ?thesis
      by (auto simp: content_agrees_def)
  next
    case other
    with f have "terminal = None" "browser = None"
      by (auto simp: resolve_target_tab_def split: resource_target.splits option.splits)
    with attached_result [OF r(2) below sp f t] other show ?thesis
      by (auto simp: content_agrees_def)
  qed
qed

section \<open>The current resource\<close>

definition current_selectors :: resource_selectors where
  "current_selectors = \<lparr>se_machine = Some ''current'', se_session = Some ''current'', se_workspace = Some ''current'',
     se_screen = Some ''current'', se_pane = Some ''current'', se_tab = Some ''current'', se_terminal = None,
     se_browser = None, se_client = None, se_split = None, se_stream = None, se_notification = None, se_agent = None,
     se_frontend_projection = None, se_pairing_request = None, se_sidebar_view = None\<rparr>"

lemma selector_current [simp]: "selector_parse ''current'' = Inr Current"
  by (simp add: selector_parse_def strip_prefix_def)

lemma workspace_slot:
  assumes "workspaces_indexed st" and "nth_opt (workspaces st) i = Some w"
  shows "workspace_by_slot st (ws_id w) = Inr w"
proof -
  have w: "i < length (workspaces st)" "workspaces st ! i = w"
    using assms(2) by (simp_all add: nth_opt_Some_iff)
  obtain j where j: "position (\<lambda>v. ws_id v = ws_id w) (workspaces st) = Some j"
    using w by (cases "position (\<lambda>v. ws_id v = ws_id w) (workspaces st)") (auto simp: position_None_iff)
  then have jl: "j < length (workspaces st)" "ws_id (workspaces st ! j) = ws_id w"
    using position_Some_less by fastforce+
  have "distinct (map ws_id (workspaces st))"
    using assms(1) by (simp add: workspaces_indexed_def)
  from nth_eq_iff_index_eq [OF this, of j i] jl w have "j = i"
    by simp
  with j w assms(1) show ?thesis
    by (simp add: workspace_by_slot_def workspace_index_def workspaces_indexed_def nth_opt_def)
qed

lemma find_unique:
  assumes "distinct (map f xs)" and "x \<in> set xs"
  shows "List.find (\<lambda>y. f y = f x) xs = Some x"
proof -
  obtain y where y: "List.find (\<lambda>z. f z = f x) xs = Some y"
    using assms(2) by (cases "List.find (\<lambda>z. f z = f x) xs") (auto simp: find_None_iff)
  from find_SomeD [OF y] assms have "y = x"
    by (auto simp: distinct_map inj_on_def)
  with y show ?thesis
    by simp
qed

lemma immediate_ok: "validate_immediate_parent a b c (Some x) (Some x) render = Inr ()"
  by (simp add: validate_immediate_parent_def)

text \<open>The indexes know the active chain.\<close>

lemma active_chain_indexed:
  assumes ok: "session_ok st" and lv: "levels_indexed st"
    and w: "nth_opt (workspaces st) (active_workspace st) = Some w" and s: "active_screen_ref w = Some s"
    and x: "pane_lookup st (active_pane s) = Some x" and t: "active_surface x = Some t"
  shows "\<exists>wi si pi ti. workspace_ids (resource_indexes st) (ws_id w) = Some wi
    \<and> screen_ids (resource_indexes st) (sc_id s) = Some si \<and> screen_workspace (resource_indexes st) (sc_id s) = Some (ws_id w)
    \<and> pane_screen (resource_indexes st) (active_pane s) = Some (sc_id s)
    \<and> ix_pane_ids (resource_indexes st) (active_pane s) = Some pi
    \<and> tab_pane (resource_indexes st) t = Some (active_pane s) \<and> tab_ids (resource_indexes st) t = Some ti"
proof -
  have win: "w \<in> set (workspaces st)"
    using w by (auto simp: nth_opt_Some_iff)
  have sin: "s \<in> set (screens w)"
    using s by (auto simp: active_screen_ref_def nth_opt_Some_iff)
  then have "s \<in> set (all_screens st)"
    using win by (auto simp: all_screens_def)
  then have ap: "active_pane s \<in> layout_panes s"
    using ok by (auto simp: session_ok_def ses_ok_def screens_ok_def screen_ok_def)
  have xin: "(active_pane s, x) \<in> set (ses_panes st)"
    using x by (auto simp: pane_lookup_def dest: map_of_SomeD)
  have tin: "t \<in> set (tabs x)"
    using t by (auto simp: active_surface_def nth_opt_Some_iff)
  show ?thesis
    using lv win sin ap xin tin unfolding levels_indexed_def Let_def by fast
qed

text \<open>One level of \<open>current\<close> after the other.\<close>

lemma current_levels:
  assumes ok: "session_ok st" and wsi: "workspaces_indexed st" and lv: "levels_indexed st"
    and sc: "distinct (map sc_id (all_screens st))"
    and w: "nth_opt (workspaces st) (active_workspace st) = Some w" and s: "active_screen_ref w = Some s"
    and x: "pane_lookup st (active_pane s) = Some x" and t: "active_surface x = Some t"
  shows "resolve_workspace st ''current'' = Inr (ws_id w)"
    and "resolve_screen st ''current'' (Some (ws_id w)) = Inr (sc_id s)"
    and "resolve_pane st ''current'' (Some (sc_id s)) = Inr (active_pane s)"
    and "resolve_tab st ''current'' (Some (active_pane s)) = Inr t"
proof -
  let ?ix = "resource_indexes st"
  have win: "w \<in> set (workspaces st)"
    using w by (auto simp: nth_opt_Some_iff)
  have sin: "s \<in> set (screens w)"
    using s by (auto simp: active_screen_ref_def nth_opt_Some_iff)
  obtain wi si pi ti where ids: "workspace_ids ?ix (ws_id w) = Some wi" "screen_ids ?ix (sc_id s) = Some si"
    "screen_workspace ?ix (sc_id s) = Some (ws_id w)" "pane_screen ?ix (active_pane s) = Some (sc_id s)"
    "ix_pane_ids ?ix (active_pane s) = Some pi" "tab_pane ?ix t = Some (active_pane s)" "tab_ids ?ix t = Some ti"
    using active_chain_indexed [OF ok lv w s x t] by blast
  note slot = workspace_slot [OF wsi w]
  have "distinct (map sc_id (screens w))"
    using sc win unfolding all_screens_def by (force simp: map_concat distinct_concat_iff dest: split_list)
  from find_unique [OF this sin] have find: "screen_by_slot st (sc_id s) = Inr s"
    by (simp add: screen_by_slot_def ids slot)
  show "resolve_workspace st ''current'' = Inr (ws_id w)"
    by (simp add: resolve_workspace_def w)
  show "resolve_screen st ''current'' (Some (ws_id w)) = Inr (sc_id s)"
    by (simp add: resolve_screen_def slot s public_screen_id_def ids immediate_ok)
  show "resolve_pane st ''current'' (Some (sc_id s)) = Inr (active_pane s)"
    by (simp add: resolve_pane_def find public_pane_id_def ids immediate_ok)
  show "resolve_tab st ''current'' (Some (active_pane s)) = Inr t"
    by (simp add: resolve_tab_def x t public_tab_id_def ids immediate_ok)
qed

text \<open>The session after a rebuild of its indexes.\<close>

lemma rebuilt_same [simp]:
  "workspaces (rebuild_split_screen_index ident st) = workspaces st"
  "ses_panes (rebuild_split_screen_index ident st) = ses_panes st"
  "active_workspace (rebuild_split_screen_index ident st) = active_workspace st"
  "workspace_index_by_id (rebuild_split_screen_index ident st) = workspace_index_by_id st"
  "workspace_id_by_key (rebuild_split_screen_index ident st) = workspace_id_by_key st"
  by (simp_all add: rebuild_split_screen_index_def rebuild_resource_indexes_def)

lemma rebuilt_levels:
  assumes "session_ok st" and "identified ident st"
    and "distinct (map ws_id (workspaces st))" and "distinct (map sc_id (all_screens st))"
  shows "levels_indexed (rebuild_split_screen_index ident st)"
  unfolding rebuild_split_screen_index_def
  by (rule rebuild_levels) (use assms in \<open>simp_all add: session_ok_def all_screens_def identified_def\<close>)

lemma selected:
  assumes "sel_surface (active_tree_selection st) = Some t"
  obtains w s x where "nth_opt (workspaces st) (active_workspace st) = Some w" and "active_screen_ref w = Some s"
    and "pane_lookup st (active_pane s) = Some x" and "active_surface x = Some t"
    and "active_tree_selection st = \<lparr>sel_workspace = Some (ws_id w), sel_screen = Some (sc_id s),
      sel_pane = Some (active_pane s), sel_surface = Some t\<rparr>"
  using assms
  by (auto simp: active_tree_selection_def Let_def active_screen_ref_def active_surface_def bind_eq_Some_conv)

lemma current_chain: "validate_contiguous_name_current_chains current_selectors TabTarget = Inr ()"
  by (simp add: validate_contiguous_name_current_chains_def current_selectors_def is_id_selector_def)

lemma current_request:
  "resolve_resource_selectors st cx TabTarget current_selectors
     = resolve_structural st (cx_machine_id cx) (cx_session_id cx) TabTarget current_selectors"
  by (simp add: resolve_resource_selectors_def current_selectors_def unexpected_below_def require_selector_def
      resolve_singleton_def)

lemma current_target:
  "require_target_selector current_selectors TabTarget = Inr ()"
  "resolve_target_tab st TabTarget s sp = Inr (sp_tab sp, None, None)"
  by (simp_all add: require_target_selector_def at_depth_def current_selectors_def resolve_target_tab_def)

lemma check_level_ok: "i x = Inr y \<Longrightarrow> check_level kind (Some x) (Some x) i render = Inr x"
  by (simp add: check_level_def require_resolved_slot_def validate_supplied_parent_def)

lemma indexed_in_range: "workspaces_indexed st \<Longrightarrow> indexes_in_range st"
  by (auto simp: indexes_in_range_def workspaces_indexed_def workspace_index_def dest: position_Some_less)

lemma current_resolves:
  assumes "session_ok st" and "identified sf_identity st" and "workspaces_indexed st"
    and "distinct (map sc_id (all_screens st))" and "sel_surface (active_tree_selection st) = Some t"
  shows "\<exists>r. resolve_resource_selectors (rebuild_split_screen_index sf_identity st) cx TabTarget current_selectors = Inr r
    \<and> rs_workspace r = sel_workspace (active_tree_selection st) \<and> rs_screen r = sel_screen (active_tree_selection st)
    \<and> rs_pane r = sel_pane (active_tree_selection st) \<and> rs_tab r = Some t
    \<and> rp_machine (rs_path r) = cx_machine_id cx \<and> rp_session (rs_path r) = Some (cx_session_id cx)"
proof -
  let ?st = "rebuild_split_screen_index sf_identity st"
  obtain w s x where w: "nth_opt (workspaces st) (active_workspace st) = Some w" and s: "active_screen_ref w = Some s"
    and x: "pane_lookup st (active_pane s) = Some x" and t: "active_surface x = Some t"
    and sel: "active_tree_selection st = \<lparr>sel_workspace = Some (ws_id w), sel_screen = Some (sc_id s),
      sel_pane = Some (active_pane s), sel_surface = Some t\<rparr>"
    using selected [OF assms(5)] by blast
  have ok: "session_ok ?st" and lv: "levels_indexed ?st" and wsi: "workspaces_indexed ?st"
    using rebuild_ok [OF assms(1,2)] rebuilt_levels [OF assms(1,2) _ assms(4)] assms(3)
    by (simp_all add: workspaces_indexed_def)
  have at: "nth_opt (workspaces ?st) (active_workspace ?st) = Some w" "pane_lookup ?st (active_pane s) = Some x"
    "distinct (map sc_id (all_screens ?st))"
    using w x assms(4) by (simp_all add: pane_lookup_def all_screens_def)
  obtain wi si pi ti where ids: "workspace_ids (resource_indexes ?st) (ws_id w) = Some wi"
    "screen_ids (resource_indexes ?st) (sc_id s) = Some si"
    "screen_workspace (resource_indexes ?st) (sc_id s) = Some (ws_id w)"
    "pane_screen (resource_indexes ?st) (active_pane s) = Some (sc_id s)"
    "ix_pane_ids (resource_indexes ?st) (active_pane s) = Some pi"
    "tab_pane (resource_indexes ?st) t = Some (active_pane s)" "tab_ids (resource_indexes ?st) t = Some ti"
    using active_chain_indexed [OF ok lv at(1) s at(2) t] by blast
  have sup: "resolve_supplied ?st current_selectors = Inr \<lparr>sp_workspace = Some (ws_id w), sp_screen = Some (sc_id s),
      sp_pane = Some (active_pane s), sp_tab = Some t\<rparr>"
    using current_levels [OF ok wsi lv at(3,1) s at(2) t]
    by (simp add: resolve_supplied_def resolve_opt_def current_selectors_def)
  have "target_slots ?st TabTarget sp (Some t) = \<lparr>sp_workspace = Some (ws_id w), sp_screen = Some (sc_id s),
      sp_pane = Some (active_pane s), sp_tab = Some t\<rparr>" for sp
    by (simp add: target_slots_def ids)
  then show ?thesis
    unfolding sel
    by (simp add: current_request resolve_structural_def current_chain sup current_target resolved_target_def
        check_levels_def check_level_ok target_public_id_def public_workspace_id_def public_screen_id_def
        public_pane_id_def public_tab_id_def public_of_def ids)
qed

section \<open>A rebuild indexes the contents\<close>

lemma rebuilt_content_ids:
  "content_ids (resource_indexes (rebuild_resource_indexes ident st)) t
     = (if t \<in> snd ` set (placed_tabs st) then map_option snd (tab_identity ident st t) else None)"
proof -
  let ?f = "\<lambda>t m. case tab_identity ident st t of None \<Rightarrow> m | Some (tab, content) \<Rightarrow> m(t \<mapsto> content)"
  have one: "content_ids (index_tab ident st p t ix) = ?f t (content_ids ix)" for p t ix
    by (simp add: index_tab_def split: option.split prod.split)
  have "content_ids (index_pane ident st s p ix)
      = (case pane_lookup st p of None \<Rightarrow> id | Some x \<Rightarrow> fold ?f (tabs x)) (content_ids ix)" for s p ix
    by (simp add: index_pane_def fold_through [of content_ids "index_tab ident st q" ?f for q, OF one] split: option.split)
  from rebuild_component [of content_ids, OF _ this]
  have eq: "content_ids (resource_indexes (rebuild_resource_indexes ident st)) = fold ?f (map snd (placed_tabs st)) Map.empty"
    by (simp add: empty_indexes_def placed_tabs_def map_concat fold_concat fold_map comp_def index_split_def split: option.split)
  have "fold ?f ts m t = (if t \<in> set ts \<and> tab_identity ident st t \<noteq> None then map_option snd (tab_identity ident st t) else m t)" for ts m
    by (induction ts arbitrary: m) (auto split: option.splits)
  from this [of "map snd (placed_tabs st)" Map.empty] show ?thesis
    unfolding eq by (cases "tab_identity ident st t") auto
qed

lemma record_placement_nonempty:
  "\<forall>c. m c \<noteq> Some [] \<Longrightarrow> fold (record_placement ident st) ts m c \<noteq> Some []"
  by (induction ts arbitrary: m) (auto simp: record_placement_def split: option.split)

text \<open>A surface of the catalog that is live shows its terminal.\<close>

definition catalog_ok :: "surface session \<Rightarrow> bool" where
  "catalog_ok st \<longleftrightarrow> (\<forall>i sf sf'. terminal_catalog st i = Some sf \<longrightarrow> map_of (surfaces st) (sf_id sf) = Some sf' \<longrightarrow>
     map_option snd (sf_identity sf') = Some (TerminalContent i))"

lemma rebuilt_contents:
  assumes ok: "session_ok st" and id: "identified sf_identity st" and cat: "catalog_ok st"
  shows "content_indexed (rebuild_resource_indexes sf_identity st)"
proof -
  let ?st = "rebuild_resource_indexes sf_identity st" and ?ix = "resource_indexes (rebuild_resource_indexes sf_identity st)"
  have placed: "t \<in> snd ` set (placed_tabs st) \<longleftrightarrow> tab_pane (resource_indexes st) t \<noteq> None" for t
    using placed_tabs_ok [OF ok, of _ t]
    by (cases "tab_pane (resource_indexes st) t") (auto intro: image_eqI [of _ _ "(_, t)"])
  have live: "t \<in> set (pane_tabs (ses_panes st))" if "tab_pane (resource_indexes st) t \<noteq> None" for t
  proof -
    have "tabs_indexed (tab_pane (resource_indexes st)) (ses_panes st)"
      using ok by (simp add: session_ok_def ses_ok_def)
    with that obtain p x where "(p, x) \<in> set (ses_panes st)" "t \<in> set (tabs x)"
      unfolding tabs_indexed_def by blast
    then show ?thesis
      by (force simp: pane_tabs_def)
  qed
  have same: "tab_pane ?ix = tab_pane (resource_indexes st)"
    using identified_tabs [OF ok id] by (intro rebuild_tab_pane [OF ok]) blast
  have "t \<in> set (placements_of_content ?st c) \<longleftrightarrow> content_ids ?ix t = Some c" for t c
    unfolding placements_of_content_def rebuilt_placements record_placement_lookup rebuilt_content_ids by force
  moreover have "content_placements ?ix c \<noteq> Some []" for c
    unfolding rebuilt_placements by (rule record_placement_nonempty) simp
  moreover have "tab_pane ?ix t \<noteq> None" if "content_ids ?ix t \<noteq> None \<or> tab_ids ?ix t \<noteq> None" for t
  proof -
    have "snd ` set (placed_tabs st) = (\<Union>x \<in> set (placed st). set (tabs x))"
      by (force simp: placed_tabs_def)
    with that have "t \<in> snd ` set (placed_tabs st)"
      by (auto simp: rebuilt_content_ids rebuilt_tab_ids simp del: not_None_eq split: if_splits)
    then show ?thesis
      unfolding same placed .
  qed
  moreover have "content_ids ?ix (sf_id sf) = Some (TerminalContent i)"
    if "terminal_catalog st i = Some sf" "tab_pane ?ix (sf_id sf) \<noteq> None" for i sf
  proof -
    have tab: "sf_id sf \<in> set (pane_tabs (ses_panes st))"
      using that(2) live unfolding same by blast
    then obtain sf' where sf': "map_of (surfaces st) (sf_id sf) = Some sf'"
      using ok by (fastforce simp: session_ok_def ses_ok_def dest: weak_map_of_SomeI)
    with cat that(1) obtain j where "sf_identity sf' = Some (j, TerminalContent i)"
      by (fastforce simp: catalog_ok_def)
    with sf' that(2) show ?thesis
      unfolding rebuilt_content_ids placed same by (simp add: tab_identity_def)
  qed
  moreover have "terminal_catalog ?st = terminal_catalog st"
    by (simp add: rebuild_resource_indexes_def)
  ultimately show ?thesis
    unfolding content_indexed_def Let_def by auto
qed

lemma rebuilt_content_indexed:
  assumes "session_ok st" and "identified sf_identity st" and "catalog_ok st"
  shows "content_indexed (rebuild_split_screen_index sf_identity st)"
  unfolding rebuild_split_screen_index_def
  by (rule rebuilt_contents) (use assms in \<open>simp_all add: session_ok_def all_screens_def identified_def catalog_ok_def\<close>)

section \<open>A session to try them on\<close>

definition demo_surfaces :: "(surface_id \<times> surface) list" where
  "demo_surfaces = [(6, \<lparr>sf_id = 6, sf_identity = Some (''tab_6'', TerminalContent ''term_6''), sf_name = None, sf_title = ''sh''\<rparr>),
     (7, \<lparr>sf_id = 7, sf_identity = Some (''tab_7'', TerminalContent ''term_7''), sf_name = Some ''build'', sf_title = ''make''\<rparr>),
     (8, \<lparr>sf_id = 8, sf_identity = Some (''tab_8'', BrowserContent ''browser_8''), sf_name = None, sf_title = ''docs''\<rparr>)]"

definition demo_requests :: "surface session" where
  "demo_requests = \<lparr>workspaces = workspaces demo_session, workspace_index_by_id = workspace_index_by_id demo_session,
     workspace_id_by_key = workspace_id_by_key demo_session, workspace_revision = 0, pane_revision = 0,
     resource_revision = 0, focus_sequence = 0, active_workspace = 0, ses_panes = ses_panes demo_session,
     surfaces = demo_surfaces, terminal_catalog = Map.empty, terminal_catalog_by_runtime = Map.empty,
     split_screens = split_screens demo_session, resource_indexes = resource_indexes demo_session,
     mux_next_id = 10, mux_next_active_at = 2\<rparr>"

definition demo_context :: selector_context where
  "demo_context = \<lparr>cx_machine_id = ''machine_1'', cx_machine_name = None, cx_session_id = ''session_1'', cx_session_name = ''main''\<rparr>"

lemma demo_requests_ok: "session_ok demo_requests" "identified sf_identity demo_requests" "workspaces_indexed demo_requests"
proof -
  have "mux_next_id demo_session = 10" "fst ` set (surfaces demo_session) = fst ` set demo_surfaces"
    by (simp_all add: demo_session_def demo_surfaces_def)
  with demo_session_ok show "session_ok demo_requests"
    by (simp add: demo_requests_def session_ok_def all_screens_def)
  show "identified sf_identity demo_requests"
    by (simp add: demo_requests_def demo_surfaces_def identified_def)
  show "workspaces_indexed demo_requests"
    by (auto simp: workspaces_indexed_def demo_requests_def demo_session_def)
qed

lemma demo_selection:
  "active_tree_selection demo_requests = \<lparr>sel_workspace = Some 5, sel_screen = Some 4, sel_pane = Some 1, sel_surface = Some 6\<rparr>"
  "distinct (map sc_id (all_screens demo_requests))"
  by (simp_all add: active_tree_selection_def demo_requests_def demo_session_def demo_tree_screen_def nth_opt_def
      pane_lookup_def all_screens_def)

text \<open>One more terminal, alive but without a view.\<close>

definition lost_terminal :: public_id where
  "lost_terminal = ''term_00000000000000000000000000000009''"

definition lost_requests :: "surface session" where
  "lost_requests = rebuild_split_screen_index sf_identity (demo_requests\<lparr>terminal_catalog := [lost_terminal \<mapsto>
     \<lparr>sf_id = 9, sf_identity = Some (''tab_9'', TerminalContent lost_terminal), sf_name = None, sf_title = ''top''\<rparr>]\<rparr>)"

definition lost_selectors :: resource_selectors where
  "lost_selectors = current_selectors\<lparr>se_workspace := None, se_screen := None, se_pane := None, se_tab := None,
     se_terminal := Some lost_terminal\<rparr>"

lemma lost_requests_ok: "session_ok lost_requests" "content_indexed lost_requests"
proof -
  let ?st = "demo_requests\<lparr>terminal_catalog := [lost_terminal \<mapsto>
     \<lparr>sf_id = 9, sf_identity = Some (''tab_9'', TerminalContent lost_terminal), sf_name = None, sf_title = ''top''\<rparr>]\<rparr>"
  have "session_ok ?st" "identified sf_identity ?st" "catalog_ok ?st"
    using demo_requests_ok(1,2)
    by (simp_all add: session_ok_def all_screens_def identified_def catalog_ok_def demo_requests_def demo_surfaces_def)
  with rebuild_ok [of ?st sf_identity] rebuilt_content_indexed [of ?st]
  show "session_ok lost_requests" "content_indexed lost_requests"
    by (simp_all add: lost_requests_def)
qed

lemma lost_result:
  "resolve_resource_selectors lost_requests demo_context TerminalTarget lost_selectors
     = Inr (bare_path ''machine_1'' (Some ''session_1'') (Some lost_terminal))"
  by code_simp

lemma shown_result:
  "case resolve_resource_selectors lost_requests demo_context TerminalTarget (current_selectors\<lparr>se_terminal := Some ''current''\<rparr>) of
     Inl _ \<Rightarrow> False | Inr r \<Rightarrow> rs_tab r = Some 6 \<and> rp_terminal (rs_path r) = Some ''term_6''"
  by code_simp

section \<open>Properties\<close>

text \<open>C33. No request panics: on a session whose workspace index is exact, whatever the selectors, the
  target and the other indexes, the resolver returns a path or an error that meets the contract of the
  catalog. The \<open>expect\<close> calls, the unknown scope of an error and the failed assertion of its contract
  are never reached.\<close>

theorem resolver_never_panics:
  assumes "workspaces_indexed st" and "resolve_resource_selectors st cx target s = Inl e"
  shows "e \<noteq> ResourcePanic \<and> build_error reason e = Some (error_code e, error_details reason e, error_retryable e)"
  using resolve_no_panic [OF indexed_in_range [OF assms(1)], of cx target s] assms(2)
  by (cases e) (simp_all add: no_panic_def build_error_iff)

lemma resolver_never_panics_witness:
  "let s = current_selectors\<lparr>se_machine := None\<rparr>
   in \<exists>e. resolve_resource_selectors demo_requests demo_context TabTarget s = Inl e \<and> build_error ''why'' e \<noteq> None"
proof -
  let ?s = "current_selectors\<lparr>se_machine := None\<rparr>"
  have "resolve_resource_selectors demo_requests demo_context TabTarget ?s = Inl (invalid_selector ''machine'' (Some ''machine''))"
    by (simp add: resolve_resource_selectors_def current_selectors_def unexpected_below_def require_selector_def)
  from resolver_never_panics [OF demo_requests_ok(3) this, of "''why''"] this show ?thesis
    by (auto simp: Let_def)
qed

text \<open>C31. What the resolver returns is sound, on a session whose content indexes are those of a
  rebuild. A terminal that no tab of any pane shows comes back without a path: it was named by its id, the
  catalog knows it, and no workspace, screen, pane or tab was given. Everything else, a terminal with a
  view included, comes back with its full path: the slots down to the target are a chain of the indexes,
  their public ids are the path's, every selector given resolves to the ancestor found, and the terminal
  or browser is the content of the tab found and the one its own selector names.\<close>

theorem resolve_sound:
  assumes "session_ok st" and "content_indexed st"
    and "resolve_resource_selectors st cx target s = Inr r" and "2 \<le> target_depth target"
  shows "rp_machine (rs_path r) = cx_machine_id cx \<and> rp_session (rs_path r) = Some (cx_session_id cx)
    \<and> (if target = TerminalTarget \<and> \<not> has_view st (the (rp_terminal (rs_path r))) then detached_result st s r
       else full_path target r \<and> path_consistent st r \<and> selectors_agree st s r \<and> content_agrees st target s r)"
  by (rule resolved_path_ok [OF assms])

lemma resolve_sound_witness:
  "(\<exists>r. resolve_resource_selectors lost_requests demo_context TerminalTarget lost_selectors = Inr r
       \<and> rs_workspace r = None \<and> \<not> has_view lost_requests lost_terminal)
   \<and> (\<exists>r. resolve_resource_selectors lost_requests demo_context TerminalTarget (current_selectors\<lparr>se_terminal := Some ''current''\<rparr>) = Inr r
       \<and> rs_tab r = Some 6 \<and> full_path TerminalTarget r \<and> path_consistent lost_requests r \<and> has_view lost_requests ''term_6'')"
proof
  note sound = resolve_sound [OF lost_requests_ok]
  show "\<exists>r. resolve_resource_selectors lost_requests demo_context TerminalTarget lost_selectors = Inr r
      \<and> rs_workspace r = None \<and> \<not> has_view lost_requests lost_terminal"
    using sound [OF lost_result] by (simp add: lost_result) (auto simp: bare_path_def path_consistent_def split: if_splits)
  let ?s = "current_selectors\<lparr>se_terminal := Some ''current''\<rparr>"
  obtain r where r: "resolve_resource_selectors lost_requests demo_context TerminalTarget ?s = Inr r" "rs_tab r = Some 6"
    "rp_terminal (rs_path r) = Some ''term_6''"
    using shown_result by (auto split: sum.splits)
  have "\<not> detached_result lost_requests ?s r"
    by (simp add: detached_result_def current_selectors_def)
  with sound [OF r(1)] r show "\<exists>r. resolve_resource_selectors lost_requests demo_context TerminalTarget ?s = Inr r
      \<and> rs_tab r = Some 6 \<and> full_path TerminalTarget r \<and> path_consistent lost_requests r \<and> has_view lost_requests ''term_6''"
    by (auto split: if_splits)
qed

text \<open>C32. After a rebuild of the indexes, \<open>current\<close> at every level resolves to the active tab: the
  slots of the result are the active selection of the tree, and the machine and session are those of
  the server.\<close>

theorem resolve_current:
  assumes "session_ok st" and "identified sf_identity st" and "workspaces_indexed st"
    and "distinct (map sc_id (all_screens st))" and "sel_surface (active_tree_selection st) = Some t"
  shows "\<exists>r. resolve_resource_selectors (rebuild_split_screen_index sf_identity st) cx TabTarget current_selectors = Inr r
    \<and> rs_workspace r = sel_workspace (active_tree_selection st) \<and> rs_screen r = sel_screen (active_tree_selection st)
    \<and> rs_pane r = sel_pane (active_tree_selection st) \<and> rs_tab r = Some t
    \<and> rp_machine (rs_path r) = cx_machine_id cx \<and> rp_session (rs_path r) = Some (cx_session_id cx)"
  by (rule current_resolves [OF assms])

lemma resolve_current_witness:
  "\<exists>r. resolve_resource_selectors (rebuild_split_screen_index sf_identity demo_requests) demo_context TabTarget current_selectors
      = Inr r \<and> rs_workspace r = Some 5 \<and> rs_screen r = Some 4 \<and> rs_pane r = Some 1 \<and> rs_tab r = Some 6"
  using resolve_current [OF demo_requests_ok demo_selection(2), of 6 demo_context] by (auto simp: demo_selection)

end
