(* ===== verification/Bytes.thy ===== *)
theory Bytes
  imports Prelude
begin

text \<open>
  Byte strings: little-endian integers (\<open>to_le_bytes\<close>, \<open>from_le_bytes\<close>) and UTF-8
  (\<open>std::str::from_utf8\<close>, \<open>is_char_boundary\<close>). A Rust \<open>String\<close> is the list of its bytes,
  \<open>valid_utf8\<close> wherever the code obtains it from bytes.
\<close>

type_synonym bytes = "u8 list"

section \<open>Little-endian integers\<close>

fun to_le :: "nat \<Rightarrow> nat \<Rightarrow> bytes" where
  "to_le 0 n = []"
| "to_le (Suc k) n = word_of_nat (n mod 256) # to_le k (n div 256)"

fun from_le :: "bytes \<Rightarrow> nat" where
  "from_le [] = 0"
| "from_le (b # bs) = unat b + 256 * from_le bs"

lemma unat_byte_less: "unat (b :: u8) < 256"
proof -
  have "unat b < 2 ^ LENGTH(8)"
    by (rule unsigned_less)
  then show ?thesis
    by simp
qed

lemma length_to_le [simp]: "length (to_le k n) = k"
  by (induction k n rule: to_le.induct) auto

lemma from_to_le: "from_le (to_le k n) = n mod 256 ^ k"
proof (induction k arbitrary: n)
  case 0
  then show ?case by simp
next
  case (Suc k)
  have "n mod (256 * 256 ^ k) = 256 * (n div 256 mod 256 ^ k) + n mod 256"
    by (rule mod_mult2_eq)
  then show ?case
    by (simp add: Suc.IH unat_word_of_nat_small)
qed

lemma from_le_less: "from_le bs < 256 ^ length bs"
proof (induction bs)
  case Nil
  then show ?case by simp
next
  case (Cons b bs)
  have "unat b < 256"
    by (rule unat_byte_less)
  with Cons.IH show ?case
    by simp
qed

lemma to_from_le: "to_le (length bs) (from_le bs) = bs"
proof (induction bs)
  case Nil
  then show ?case by simp
next
  case (Cons b bs)
  have "unat b < 256"
    by (rule unat_byte_less)
  with Cons.IH show ?case
    by simp
qed

text \<open>The two directions at the width of a word.\<close>

definition le_bytes :: "'a::len word \<Rightarrow> bytes" where
  "le_bytes x = to_le (LENGTH('a) div 8) (unat x)"

definition le_word :: "bytes \<Rightarrow> 'a::len word" where
  "le_word bs = word_of_nat (from_le bs)"

lemma length_le_bytes [simp]: "length (le_bytes (x :: 'a::len word)) = LENGTH('a) div 8"
  by (simp add: le_bytes_def)

lemma le_word_le_bytes:
  fixes x :: "'a::len word"
  assumes "8 dvd LENGTH('a)"
  shows "le_word (le_bytes x) = x"
proof -
  have "(256 :: nat) ^ (LENGTH('a) div 8) = 2 ^ (8 * (LENGTH('a) div 8))"
    by (simp add: power_mult)
  also have "\<dots> = 2 ^ LENGTH('a)"
    using assms by simp
  finally have "unat x mod 256 ^ (LENGTH('a) div 8) = unat x"
    by simp
  then show ?thesis
    by (simp add: le_word_def le_bytes_def from_to_le)
qed

lemma le_word_simps [simp]:
  "le_word (le_bytes (a :: u16)) = a" "le_word (le_bytes (b :: u32)) = b"
  "le_word (le_bytes (c :: u64)) = c"
  by (rule le_word_le_bytes, simp)+

lemma le_bytes_le_word:
  assumes "8 * length bs = LENGTH('a::len)"
  shows "le_bytes (le_word bs :: 'a word) = bs"
proof -
  have "(256 :: nat) ^ length bs = 2 ^ LENGTH('a)"
    by (simp add: power_mult flip: assms)
  then have "unat (le_word bs :: 'a word) = from_le bs"
    using from_le_less [of bs] by (simp add: le_word_def unat_word_of_nat_small)
  moreover have "LENGTH('a) div 8 = length bs"
    by (simp flip: assms)
  ultimately show ?thesis
    by (simp add: le_bytes_def to_from_le)
qed

section \<open>UTF-8\<close>

definition cont :: "u8 \<Rightarrow> bool" where
  "cont b = (0x80 \<le> b \<and> b < 0xC0)"

fun valid_utf8 :: "bytes \<Rightarrow> bool" where
  "valid_utf8 [] = True"
| "valid_utf8 (b # bs) =
     (if b < 0x80 then valid_utf8 bs
      else if b < 0xC2 then False
      else if b < 0xE0 then
        (case bs of c # r \<Rightarrow> cont c \<and> valid_utf8 r | _ \<Rightarrow> False)
      else if b < 0xF0 then
        (case bs of c # d # r \<Rightarrow>
             cont c \<and> (b = 0xE0 \<longrightarrow> 0xA0 \<le> c) \<and> (b = 0xED \<longrightarrow> c < 0xA0) \<and> cont d \<and> valid_utf8 r
         | _ \<Rightarrow> False)
      else if b < 0xF5 then
        (case bs of c # d # e # r \<Rightarrow>
             cont c \<and> (b = 0xF0 \<longrightarrow> 0x90 \<le> c) \<and> (b = 0xF4 \<longrightarrow> c < 0x90) \<and> cont d \<and> cont e
             \<and> valid_utf8 r
         | _ \<Rightarrow> False)
      else False)"

definition is_char_boundary :: "bytes \<Rightarrow> nat \<Rightarrow> bool" where
  "is_char_boundary s i = (i = 0 \<or> i = length s \<or> (i < length s \<and> \<not> cont (s ! i)))"

text \<open>A character is one lead byte and up to three continuation bytes.\<close>

lemma valid_utf8_Cons:
  assumes "valid_utf8 (b # bs)"
  obtains cs r where "bs = cs @ r" and "valid_utf8 r" and "\<forall>c \<in> set cs. cont c" and "length cs \<le> 3"
    and "\<not> cont b" and "\<And>r'. valid_utf8 r' \<Longrightarrow> valid_utf8 (b # cs @ r')"
proof (cases "b < 0x80")
  case True
  with assms show ?thesis
    by (intro that [of "[]" bs]) (auto simp: cont_def not_le)
next
  case b1: False
  have b: "\<not> cont b" if "0xC2 \<le> b"
    using that by (auto simp: cont_def not_less intro: order_trans [of "0xC0" "0xC2"])
  show ?thesis
  proof (cases "b < 0xE0")
    case b2: True
    from assms b1 b2 obtain c r where "bs = c # r" "cont c" "valid_utf8 r" "\<not> b < 0xC2"
      by (auto split: list.splits if_splits)
    with b b1 b2 show ?thesis
      by (intro that [of "[c]" r]) auto
  next
    case b2: False
    show ?thesis
    proof (cases "b < 0xF0")
      case b3: True
      from assms b1 b2 b3 obtain c d r where "bs = c # d # r" "cont c" "cont d" "valid_utf8 r"
        "b = 0xE0 \<longrightarrow> 0xA0 \<le> c" "b = 0xED \<longrightarrow> c < 0xA0" "\<not> b < 0xC2"
        by (auto split: list.splits if_splits)
      with b b1 b2 b3 show ?thesis
        by (intro that [of "[c, d]" r]) auto
    next
      case b3: False
      from assms b1 b2 b3 obtain c d e r where "bs = c # d # e # r" "cont c" "cont d" "cont e"
        "valid_utf8 r" "b = 0xF0 \<longrightarrow> 0x90 \<le> c" "b = 0xF4 \<longrightarrow> c < 0x90" "b < 0xF5" "\<not> b < 0xC2"
        by (auto split: list.splits if_splits)
      with b b1 b2 b3 show ?thesis
        by (intro that [of "[c, d, e]" r]) auto
    qed
  qed
qed

lemma valid_utf8_take: "valid_utf8 s \<Longrightarrow> is_char_boundary s i \<Longrightarrow> valid_utf8 (take i s)"
proof (induction "length s" arbitrary: s i rule: less_induct)
  case less
  show ?case
  proof (cases s)
    case (Cons b bs)
    from less.prems(1) Cons obtain cs r where s: "bs = cs @ r" "valid_utf8 r" "\<forall>c \<in> set cs. cont c"
      "\<not> cont b" and pre: "\<And>r'. valid_utf8 r' \<Longrightarrow> valid_utf8 (b # cs @ r')"
      by (metis valid_utf8_Cons)
    show ?thesis
    proof (cases "i \<le> length cs \<and> i \<noteq> 0")
      case True
      then have "i < length s" and "s ! i \<in> set cs"
        using Cons s(1) by (auto simp: nth_append nth_Cons')
      with less.prems(2) True s(3) show ?thesis
        by (auto simp: is_char_boundary_def)
    next
      case False
      show ?thesis
      proof (cases "i = 0")
        case i: False
        with False have "is_char_boundary r (i - Suc (length cs))"
          using less.prems(2) Cons s(1)
          by (cases i) (auto simp: is_char_boundary_def nth_append)
        moreover have "length r < length s"
          using Cons s(1) by simp
        ultimately have "valid_utf8 (take (i - Suc (length cs)) r)"
          using less.hyps s(2) by blast
        from pre [OF this] show ?thesis
          using Cons s(1) i False by (cases i) auto
      qed simp
    qed
  qed simp
qed

lemma boundary_near: "valid_utf8 s \<Longrightarrow> i \<le> length s \<Longrightarrow> \<exists>j \<le> i. i \<le> j + 3 \<and> is_char_boundary s j"
proof (induction "length s" arbitrary: s i rule: less_induct)
  case less
  show ?case
  proof (cases s)
    case (Cons b bs)
    from less.prems(1) Cons obtain cs r where s: "bs = cs @ r" "valid_utf8 r" "length cs \<le> 3"
      by (metis valid_utf8_Cons)
    show ?thesis
    proof (cases "i \<le> length cs")
      case True
      with s(3) show ?thesis
        by (intro exI [of _ 0]) (auto simp: is_char_boundary_def)
    next
      case False
      have "length r < length s"
        using Cons s(1) by simp
      moreover have "i - Suc (length cs) \<le> length r"
        using less.prems(2) Cons s(1) by simp
      ultimately obtain j where j: "j \<le> i - Suc (length cs)" "i - Suc (length cs) \<le> j + 3" "is_char_boundary r j"
        using less.hyps s(2) by blast
      show ?thesis
      proof (cases "j = 0 \<and> r \<noteq> []")
        case True
        then obtain c r' where r: "r = c # r'"
          by (cases r) auto
        with s(2) have "\<not> cont c"
          by (metis valid_utf8_Cons)
        with True j False r Cons s(1) show ?thesis
          by (intro exI [of _ "Suc (length cs)"]) (auto simp: is_char_boundary_def nth_append)
      next
        case no: False
        with j False Cons s(1) show ?thesis
          by (intro exI [of _ "j + Suc (length cs)"]) (auto simp: is_char_boundary_def nth_append)
      qed
    qed
  qed (use less.prems in \<open>auto simp: is_char_boundary_def\<close>)
qed

text \<open>The largest character boundary at most \<open>i\<close>, as the loops
  \<open>while !is_char_boundary(i) { i -= 1 }\<close> find it.\<close>

function boundary_below :: "bytes \<Rightarrow> nat \<Rightarrow> nat" where
  "boundary_below s i = (if is_char_boundary s i then i else boundary_below s (i - 1))"
  by pat_completeness auto
termination
  by (relation "measure snd") (auto simp: is_char_boundary_def)

declare boundary_below.simps [simp del]

lemma boundary_below:
  "is_char_boundary s (boundary_below s i) \<and> boundary_below s i \<le> i
   \<and> (\<forall>j. boundary_below s i < j \<longrightarrow> j \<le> i \<longrightarrow> \<not> is_char_boundary s j)"
proof (induction s i rule: boundary_below.induct)
  case (1 s i)
  show ?case
  proof (cases "is_char_boundary s i")
    case False
    then have "i \<noteq> 0"
      by (auto simp: is_char_boundary_def)
    have eq: "boundary_below s i = boundary_below s (i - 1)"
      using False by (subst boundary_below.simps) simp
    have "\<not> is_char_boundary s j" if "boundary_below s (i - 1) < j" "j \<le> i" for j
    proof (cases "j = i")
      case no: False
      with that \<open>i \<noteq> 0\<close> have "j \<le> i - 1" by simp
      with that(1) 1 [OF False] show ?thesis by blast
    qed (use False in simp)
    with 1 [OF False] \<open>i \<noteq> 0\<close> show ?thesis
      unfolding eq by (auto intro: le_trans)
  qed (simp add: boundary_below.simps)
qed

lemma boundary_below_ge:
  assumes "valid_utf8 s" and "i \<le> length s"
  shows "i \<le> boundary_below s i + 3"
proof -
  from boundary_near [OF assms] obtain j where j: "j \<le> i" "i \<le> j + 3" "is_char_boundary s j"
    by blast
  then have "\<not> boundary_below s i < j"
    using boundary_below [of s i] by blast
  with j(2) show ?thesis by linarith
qed

end
