(* ===== verification/HostProtocol.thy ===== *)
theory HostProtocol
  imports Bytes
begin

text \<open>
  The binary framing of the terminal-host data plane
  (\<open>cmux-tui-core/src/terminal_host_protocol.rs\<close>): frames and their 32-byte header, the exit
  and launch-failure payloads, the blocking reader and the incremental decoder.

  A \<open>String\<close> is a byte list. \<open>usize\<close> is 64 bits wide, so a \<open>u32\<close> length converts to
  \<open>nat\<close> without loss. An \<open>io::Error\<close> is a number; the code
  only passes it on.
\<close>

definition MAGIC :: bytes where "MAGIC = [0x43, 0x4D, 0x54, 0x48]"
definition HEADER_LEN :: nat where "HEADER_LEN = 32"
definition PROTOCOL_VERSION :: u16 where "PROTOCOL_VERSION = 3"
definition MAX_FRAME_PAYLOAD :: nat where "MAX_FRAME_PAYLOAD = 16 * 1024 * 1024"
definition EXIT_PAYLOAD_VERSION :: u16 where "EXIT_PAYLOAD_VERSION = 1"
definition EXIT_PAYLOAD_HEADER_LEN :: nat where "EXIT_PAYLOAD_HEADER_LEN = 12"
definition EXIT_PAYLOAD_STATUS_LEN :: nat where "EXIT_PAYLOAD_STATUS_LEN = EXIT_PAYLOAD_HEADER_LEN + 4"
definition MAX_EXIT_REASON_BYTES :: nat where "MAX_EXIT_REASON_BYTES = 4096"
definition LAUNCH_FAILURE_PAYLOAD_VERSION :: u16 where "LAUNCH_FAILURE_PAYLOAD_VERSION = 1"
definition LAUNCH_FAILURE_PAYLOAD_HEADER_LEN :: nat where "LAUNCH_FAILURE_PAYLOAD_HEADER_LEN = 4"
definition MAX_LAUNCH_FAILURE_MESSAGE_BYTES :: nat where "MAX_LAUNCH_FAILURE_MESSAGE_BYTES = 4096"

lemma length_MAGIC [simp]: "length MAGIC = 4"
  by (simp add: MAGIC_def)

lemmas protocol_consts = HEADER_LEN_def EXIT_PAYLOAD_HEADER_LEN_def
  EXIT_PAYLOAD_STATUS_LEN_def MAX_EXIT_REASON_BYTES_def LAUNCH_FAILURE_PAYLOAD_HEADER_LEN_def
  MAX_LAUNCH_FAILURE_MESSAGE_BYTES_def EXIT_PAYLOAD_VERSION_def LAUNCH_FAILURE_PAYLOAD_VERSION_def

datatype io_error = IoError int

datatype protocol_error = Io io_error | InvalidMagic bytes | InvalidVersion u16
  | UnknownMessageKind u16 | PayloadTooLarge nat nat | Truncated nat nat
  | MalformedExitPayload | MalformedLaunchFailurePayload | DecoderFailed

section \<open>Exit payloads\<close>

datatype exit_outcome = Exit "32 word" | Signal "32 word" bool | Unknown bytes

record terminal_exit =
  outcome :: exit_outcome
  exited_at_ms :: u64

definition truncate_utf8 :: "bytes \<Rightarrow> nat \<Rightarrow> bytes" where
  "truncate_utf8 v max_bytes =
     (if length v \<le> max_bytes then v else take (boundary_below v max_bytes) v)"

text \<open>The clock is a parameter: the milliseconds since the epoch, \<open>None\<close> for a clock before it.\<close>

definition exit_now :: "nat option \<Rightarrow> exit_outcome \<Rightarrow> terminal_exit" where
  "exit_now clock x =
     \<lparr>outcome = x,
      exited_at_ms = word_of_nat (min (case clock of Some ms \<Rightarrow> ms | None \<Rightarrow> 0) (2 ^ 64 - 1))\<rparr>"

definition exit_unknown :: "nat option \<Rightarrow> bytes \<Rightarrow> bytes \<Rightarrow> terminal_exit" where
  "exit_unknown clock unavailable reason =
     exit_now clock (Unknown (truncate_utf8 (if reason = [] then unavailable else reason)
       MAX_EXIT_REASON_BYTES))"

text \<open>\<open>from_exit_status\<close> on Unix: the signal with the core flag, or the exit code.
  \<open>ended\<close> is the message for a status with neither, \<open>unavailable\<close> the one for an empty reason.\<close>

definition from_exit_status ::
    "nat option \<Rightarrow> bytes \<Rightarrow> bytes \<Rightarrow> 32 word option \<Rightarrow> bool \<Rightarrow> 32 word option \<Rightarrow> terminal_exit" where
  "from_exit_status clock unavailable ended signal core_dumped code =
     (case signal of
        Some s \<Rightarrow> exit_now clock (Signal s core_dumped)
      | None \<Rightarrow>
          (case code of
             Some c \<Rightarrow> exit_now clock (Exit c)
           | None \<Rightarrow> exit_unknown clock unavailable ended))"

definition exit_is_valid :: "terminal_exit \<Rightarrow> bool" where
  "exit_is_valid x =
     (case outcome x of
        Exit code \<Rightarrow> 0 \<le> sint code
      | Signal s _ \<Rightarrow> 0 < sint s
      | Unknown reason \<Rightarrow> reason \<noteq> [] \<and> length reason \<le> MAX_EXIT_REASON_BYTES)"

definition encode_terminal_exit :: "terminal_exit \<Rightarrow> bytes" where
  "encode_terminal_exit x = le_bytes EXIT_PAYLOAD_VERSION @
     (case outcome x of
        Exit code \<Rightarrow> [1, 0] @ le_bytes (exited_at_ms x) @ le_bytes code
      | Signal s core \<Rightarrow> [2, if core then 1 else 0] @ le_bytes (exited_at_ms x) @ le_bytes s
      | Unknown reason \<Rightarrow>
          [3, 0] @ le_bytes (exited_at_ms x) @ truncate_utf8 reason MAX_EXIT_REASON_BYTES)"

definition subslice :: "nat \<Rightarrow> nat \<Rightarrow> bytes \<Rightarrow> bytes" where
  "subslice i j bs = take (j - i) (drop i bs)"

definition decode_terminal_exit :: "bytes \<Rightarrow> protocol_error + terminal_exit" where
  "decode_terminal_exit payload =
     (if length payload < EXIT_PAYLOAD_HEADER_LEN then Inl MalformedExitPayload
      else if le_word (subslice 0 2 payload) \<noteq> EXIT_PAYLOAD_VERSION then Inl MalformedExitPayload
      else
        let kind = payload ! 2; flags = payload ! 3; ms = le_word (subslice 4 12 payload) in
        if kind = 1 \<and> flags = 0 \<and> length payload = EXIT_PAYLOAD_STATUS_LEN then
          let code = le_word (subslice 12 16 payload) in
          if sint code < 0 then Inl MalformedExitPayload
          else Inr \<lparr>outcome = Exit code, exited_at_ms = ms\<rparr>
        else if kind = 2 \<and> and flags (not 1) = 0 \<and> length payload = EXIT_PAYLOAD_STATUS_LEN then
          let s = le_word (subslice 12 16 payload) in
          if sint s \<le> 0 then Inl MalformedExitPayload
          else Inr \<lparr>outcome = Signal s (and flags 1 \<noteq> 0), exited_at_ms = ms\<rparr>
        else if kind = 3 \<and> flags = 0 \<and> EXIT_PAYLOAD_HEADER_LEN < length payload
            \<and> length payload \<le> EXIT_PAYLOAD_HEADER_LEN + MAX_EXIT_REASON_BYTES then
          if valid_utf8 (drop 12 payload)
          then Inr \<lparr>outcome = Unknown (drop 12 payload), exited_at_ms = ms\<rparr>
          else Inl MalformedExitPayload
        else Inl MalformedExitPayload)"

section \<open>Launch failures\<close>

datatype launch_failure_kind = PtyCapacityExhausted | LaunchFailed

definition failure_code :: "launch_failure_kind \<Rightarrow> u16" where
  "failure_code k = (case k of PtyCapacityExhausted \<Rightarrow> 1 | LaunchFailed \<Rightarrow> 2)"

definition failure_kind_of_code :: "u16 \<Rightarrow> protocol_error + launch_failure_kind" where
  "failure_kind_of_code v =
     (if v = failure_code PtyCapacityExhausted then Inr PtyCapacityExhausted
      else if v = failure_code LaunchFailed then Inr LaunchFailed
      else Inl MalformedLaunchFailurePayload)"

record launch_failure =
  failure_kind :: launch_failure_kind
  failure_message :: bytes

definition bounded_failure :: "launch_failure_kind \<Rightarrow> bytes \<Rightarrow> launch_failure" where
  "bounded_failure k message =
     \<lparr>failure_kind = k,
      failure_message =
        (if MAX_LAUNCH_FAILURE_MESSAGE_BYTES < length message
         then take (boundary_below message MAX_LAUNCH_FAILURE_MESSAGE_BYTES) message
         else message)\<rparr>"

definition encode_host_launch_failure :: "launch_failure \<Rightarrow> protocol_error + bytes" where
  "encode_host_launch_failure f =
     (if failure_message f = [] \<or> MAX_LAUNCH_FAILURE_MESSAGE_BYTES < length (failure_message f)
      then Inl MalformedLaunchFailurePayload
      else Inr (le_bytes LAUNCH_FAILURE_PAYLOAD_VERSION @ le_bytes (failure_code (failure_kind f))
                @ failure_message f))"

definition decode_host_launch_failure :: "bytes \<Rightarrow> protocol_error + launch_failure" where
  "decode_host_launch_failure payload =
     (if \<not> (LAUNCH_FAILURE_PAYLOAD_HEADER_LEN + 1 \<le> length payload
            \<and> length payload \<le> LAUNCH_FAILURE_PAYLOAD_HEADER_LEN + MAX_LAUNCH_FAILURE_MESSAGE_BYTES)
      then Inl MalformedLaunchFailurePayload
      else if le_word (subslice 0 2 payload) \<noteq> LAUNCH_FAILURE_PAYLOAD_VERSION
      then Inl MalformedLaunchFailurePayload
      else rbind (failure_kind_of_code (le_word (subslice 2 4 payload))) (\<lambda>k.
        let message = drop LAUNCH_FAILURE_PAYLOAD_HEADER_LEN payload in
        if valid_utf8 message then Inr \<lparr>failure_kind = k, failure_message = message\<rparr>
        else Inl MalformedLaunchFailurePayload))"

section \<open>Message kinds\<close>

datatype message_kind = Bootstrap | Ready | ClientHello | HostHello | Snapshot | Output | Resized
  | Colors | Title | Pwd | Bell | ExitMessage | ResyncRequired | Launch | Capability | ResizeAck
  | ClearHistoryAck | CellPixelSizeAck | KittyGraphicsLimitsAck | LaunchFailedMessage | Input | Paste
  | ViewerSize | ReleaseViewer | Terminate | MintCapability | SetDefaults | ClearHistory
  | SetCellPixelSize | SetKittyGraphicsLimits

fun kind_code :: "message_kind \<Rightarrow> u16" where
  "kind_code Bootstrap = 1"
| "kind_code Ready = 2"
| "kind_code ClientHello = 3"
| "kind_code HostHello = 4"
| "kind_code Snapshot = 5"
| "kind_code Output = 6"
| "kind_code Resized = 7"
| "kind_code Colors = 8"
| "kind_code Title = 9"
| "kind_code Pwd = 10"
| "kind_code Bell = 11"
| "kind_code ExitMessage = 12"
| "kind_code ResyncRequired = 13"
| "kind_code Launch = 14"
| "kind_code Capability = 15"
| "kind_code ResizeAck = 16"
| "kind_code ClearHistoryAck = 17"
| "kind_code CellPixelSizeAck = 18"
| "kind_code KittyGraphicsLimitsAck = 19"
| "kind_code LaunchFailedMessage = 20"
| "kind_code Input = 100"
| "kind_code Paste = 101"
| "kind_code ViewerSize = 102"
| "kind_code ReleaseViewer = 103"
| "kind_code Terminate = 104"
| "kind_code MintCapability = 105"
| "kind_code SetDefaults = 106"
| "kind_code ClearHistory = 107"
| "kind_code SetCellPixelSize = 108"
| "kind_code SetKittyGraphicsLimits = 109"

definition kind_of_code :: "u16 \<Rightarrow> protocol_error + message_kind" where
  "kind_of_code v =
     (if v = 1 then Inr Bootstrap
      else if v = 2 then Inr Ready
      else if v = 3 then Inr ClientHello
      else if v = 4 then Inr HostHello
      else if v = 5 then Inr Snapshot
      else if v = 6 then Inr Output
      else if v = 7 then Inr Resized
      else if v = 8 then Inr Colors
      else if v = 9 then Inr Title
      else if v = 10 then Inr Pwd
      else if v = 11 then Inr Bell
      else if v = 12 then Inr ExitMessage
      else if v = 13 then Inr ResyncRequired
      else if v = 14 then Inr Launch
      else if v = 15 then Inr Capability
      else if v = 16 then Inr ResizeAck
      else if v = 17 then Inr ClearHistoryAck
      else if v = 18 then Inr CellPixelSizeAck
      else if v = 19 then Inr KittyGraphicsLimitsAck
      else if v = 20 then Inr LaunchFailedMessage
      else if v = 100 then Inr Input
      else if v = 101 then Inr Paste
      else if v = 102 then Inr ViewerSize
      else if v = 103 then Inr ReleaseViewer
      else if v = 104 then Inr Terminate
      else if v = 105 then Inr MintCapability
      else if v = 106 then Inr SetDefaults
      else if v = 107 then Inr ClearHistory
      else if v = 108 then Inr SetCellPixelSize
      else if v = 109 then Inr SetKittyGraphicsLimits
      else Inl (UnknownMessageKind v))"

lemma kind_of_kind_code [simp]: "kind_of_code (kind_code k) = Inr k"
  by (cases k) (simp_all add: kind_of_code_def)

lemma kind_of_code_Inr: "kind_of_code v = Inr k \<Longrightarrow> kind_code k = v"
  by (auto simp: kind_of_code_def split: if_splits)

section \<open>Frames\<close>

record frame =
  version :: u16
  kind :: message_kind
  flags :: u32
  request_id :: u64
  sequence :: u64
  payload :: bytes

definition frame_new :: "message_kind \<Rightarrow> bytes \<Rightarrow> frame" where
  "frame_new k p = \<lparr>version = PROTOCOL_VERSION, kind = k, flags = 0, request_id = 0, sequence = 0, payload = p\<rparr>"

record frame_header =
  hd_version :: u16
  hd_kind :: message_kind
  hd_flags :: u32
  hd_payload_len :: nat
  hd_request_id :: u64
  hd_sequence :: u64

definition parse_header :: "bytes \<Rightarrow> nat \<Rightarrow> protocol_error + frame_header" where
  "parse_header bytes max_payload =
     (if subslice 0 4 bytes \<noteq> MAGIC then Inl (InvalidMagic (subslice 0 4 bytes))
      else
        let v = le_word (subslice 4 6 bytes) in
        if v = 0 then Inl (InvalidVersion v)
        else rbind (kind_of_code (le_word (subslice 6 8 bytes))) (\<lambda>k.
          let len = unat (le_word (subslice 12 16 bytes) :: u32) in
          if max_payload < len then Inl (PayloadTooLarge len max_payload)
          else Inr \<lparr>hd_version = v, hd_kind = k, hd_flags = le_word (subslice 8 12 bytes),
                    hd_payload_len = len, hd_request_id = le_word (subslice 16 24 bytes),
                    hd_sequence = le_word (subslice 24 32 bytes)\<rparr>))"

definition encode_header :: "frame \<Rightarrow> nat \<Rightarrow> protocol_error + bytes" where
  "encode_header f max_payload =
     (if version f = 0 then Inl (InvalidVersion (version f))
      else if max_payload < length (payload f) then Inl (PayloadTooLarge (length (payload f)) max_payload)
      else if 2 ^ 32 \<le> length (payload f) then Inl (PayloadTooLarge (length (payload f)) max_payload)
      else Inr (MAGIC @ le_bytes (version f) @ le_bytes (kind_code (kind f)) @ le_bytes (flags f)
                @ le_bytes (word_of_nat (length (payload f)) :: u32)
                @ le_bytes (request_id f) @ le_bytes (sequence f)))"

text \<open>\<open>write_frame\<close> into a \<open>Vec<u8>\<close>, whose writes do not fail.\<close>

definition encode_frame :: "frame \<Rightarrow> protocol_error + bytes" where
  "encode_frame f = rbind (encode_header f MAX_FRAME_PAYLOAD) (\<lambda>h. Inr (h @ payload f))"

definition frame_of :: "frame_header \<Rightarrow> bytes \<Rightarrow> frame" where
  "frame_of h p = \<lparr>version = hd_version h, kind = hd_kind h, flags = hd_flags h,
     request_id = hd_request_id h, sequence = hd_sequence h, payload = p\<rparr>"

section \<open>Round trips\<close>

lemma slice_append [simp]:
  "subslice i j (xs @ ys) = (if j \<le> length xs then subslice i j xs
     else if length xs \<le> i then subslice (i - length xs) (j - length xs) ys
     else drop i xs @ take (j - length xs) ys)"
  by (auto simp: subslice_def)

lemma slice_all [simp]: "length xs = n \<Longrightarrow> subslice 0 n xs = xs"
  by (simp add: subslice_def)

lemma length_slice [simp]: "length (subslice i j xs) = min (j - i) (length xs - i)"
  by (simp add: subslice_def min.commute)

lemma slice_split: "i \<le> j \<Longrightarrow> j \<le> k \<Longrightarrow> subslice i j xs @ subslice j k xs = subslice i k xs"
proof -
  assume "i \<le> j" "j \<le> k"
  then have "take (k - i) (drop i xs) = take (j - i) (drop i xs) @ take (k - j) (drop (j - i) (drop i xs))"
    by (metis add_diff_inverse_nat diff_add_assoc2 le_add_diff_inverse2 not_less take_add le_trans Nat.diff_diff_right)
  then show ?thesis
    using \<open>i \<le> j\<close> by (simp add: subslice_def)
qed

lemma parse_encode_header:
  assumes "encode_header f m = Inr h"
  shows "length h = HEADER_LEN
    \<and> parse_header h m = Inr \<lparr>hd_version = version f, hd_kind = kind f, hd_flags = flags f,
        hd_payload_len = length (payload f), hd_request_id = request_id f, hd_sequence = sequence f\<rparr>"
  using assms
  by (auto simp: encode_header_def parse_header_def HEADER_LEN_def unat_word_of_nat_small split: if_splits)

lemma encode_header_ok_iff:
  "is_ok (encode_header f m) \<longleftrightarrow> version f \<noteq> 0 \<and> length (payload f) \<le> m \<and> length (payload f) < 2 ^ 32"
  by (auto simp: encode_header_def)

lemma parse_header_payload: "parse_header bs m = Inr h \<Longrightarrow> hd_payload_len h \<le> m"
  by (auto simp: parse_header_def result_rules Let_def split: if_splits)

lemma parse_header_mono:
  assumes "parse_header bs m = Inr h" and "hd_payload_len h \<le> m'"
  shows "parse_header bs m' = Inr h"
  using assms by (auto simp: parse_header_def result_rules Let_def split: if_splits)

text \<open>Every header that parses is the encoding of the frame it announces.\<close>

lemma encode_parse_header:
  assumes "length bs = HEADER_LEN" and "parse_header bs m = Inr h" and "length p = hd_payload_len h"
  shows "encode_header (frame_of h p) m = Inr bs"
proof -
  have bs: "bs = subslice 0 4 bs @ subslice 4 6 bs @ subslice 6 8 bs @ subslice 8 12 bs @ subslice 12 16 bs
      @ subslice 16 24 bs @ subslice 24 32 bs"
    using assms(1) by (simp add: slice_split HEADER_LEN_def)
  have "unat (le_word (subslice 12 16 bs) :: u32) < 2 ^ LENGTH(32)"
    by (rule unsigned_less)
  with assms show ?thesis
    apply (subst (asm) parse_header_def)
    apply (subst bs)
    apply (auto simp: encode_header_def frame_of_def HEADER_LEN_def result_rules Let_def
        le_bytes_le_word split: if_splits dest!: kind_of_code_Inr)
    done
qed

end
