(* ===== verification/HostStream.thy ===== *)
theory HostStream
  imports HostProtocol
begin

text \<open>
  Reading frames from a byte stream: \<open>read_frame\<close> and \<open>FrameDecoder\<close> of
  \<open>terminal_host_protocol.rs\<close>. Both are compared with \<open>parse_stream\<close>, which parses a complete
  byte string at once.
\<close>

section \<open>The blocking reader\<close>

text \<open>A reader is the list of the results its calls to \<open>read\<close> give: data (an empty one is the
  end of the stream), an interruption, or an error. What does not fit the buffer stays for the
  next call. After the last result the stream has ended.\<close>

datatype read_result = Data bytes | Interrupted | Failed io_error

datatype read_loop = Filled bytes "read_result list" | Eof bytes | ReadError io_error

fun fill_buffer :: "nat \<Rightarrow> bytes \<Rightarrow> read_result list \<Rightarrow> read_loop" where
  "fill_buffer n got [] = (if length got < n then Eof got else Filled got [])"
| "fill_buffer n got (r # rs) =
     (if n \<le> length got then Filled got (r # rs)
      else case r of
        Interrupted \<Rightarrow> fill_buffer n got rs
      | Failed e \<Rightarrow> ReadError e
      | Data bs \<Rightarrow>
          if bs = [] then Eof got
          else if length got + length bs \<le> n then fill_buffer n (got @ bs) rs
          else Filled (got @ take (n - length got) bs) (Data (drop (n - length got) bs) # rs))"

definition read_frame ::
    "read_result list \<Rightarrow> nat \<Rightarrow> protocol_error + (frame \<times> read_result list) option" where
  "read_frame reader max_payload =
     (let max_payload = min max_payload MAX_FRAME_PAYLOAD in
      case fill_buffer HEADER_LEN [] reader of
        ReadError e \<Rightarrow> Inl (Io e)
      | Eof got \<Rightarrow> if got = [] then Inr None else Inl (Truncated HEADER_LEN (length got))
      | Filled hb reader \<Rightarrow>
          rbind (parse_header hb max_payload) (\<lambda>h.
            case fill_buffer (hd_payload_len h) [] reader of
              ReadError e \<Rightarrow> Inl (Io e)
            | Eof got \<Rightarrow> Inl (Truncated (HEADER_LEN + hd_payload_len h) (HEADER_LEN + length got))
            | Filled p reader \<Rightarrow> Inr (Some (frame_of h p, reader))))"

section \<open>The incremental decoder\<close>

record decoder =
  buffer :: bytes
  expected_total :: "nat option"
  dec_max_payload :: nat
  dec_failed :: bool

definition decoder_new :: "nat \<Rightarrow> decoder" where
  "decoder_new max_payload =
     \<lparr>buffer = [], expected_total = None, dec_max_payload = min max_payload MAX_FRAME_PAYLOAD,
      dec_failed = False\<rparr>"

text \<open>Move input into the buffer until it holds \<open>n\<close> bytes.\<close>

definition fill_to :: "nat \<Rightarrow> bytes \<Rightarrow> bytes \<Rightarrow> bytes \<times> bytes" where
  "fill_to n b input =
     (if length b < n
      then let count = min (n - length b) (length input) in (b @ take count input, drop count input)
      else (b, input))"

text \<open>The two halves of an iteration: \<open>Break\<close> leaves the loop, \<open>Fail\<close> returns the error,
  \<open>Go\<close> goes on with the rest of the input.\<close>

datatype 'a flow = Break decoder | Fail decoder protocol_error | Go decoder bytes 'a

definition header_phase :: "decoder \<Rightarrow> bytes \<Rightarrow> nat flow" where
  "header_phase d input =
     (case expected_total d of
        Some e \<Rightarrow> Go d input e
      | None \<Rightarrow>
          let (b, input) = fill_to HEADER_LEN (buffer d) input; d = d\<lparr>buffer := b\<rparr> in
          if length b < HEADER_LEN then Break d
          else (case parse_header (take HEADER_LEN b) (dec_max_payload d) of
                  Inl err \<Rightarrow> Fail d err
                | Inr h \<Rightarrow>
                    let e = HEADER_LEN + hd_payload_len h in
                    Go (d\<lparr>expected_total := Some e\<rparr>) input e))"

definition payload_phase :: "decoder \<Rightarrow> bytes \<Rightarrow> nat \<Rightarrow> frame flow" where
  "payload_phase d input e =
     (let (b, input) = fill_to e (buffer d) input; d = d\<lparr>buffer := b\<rparr> in
      if length b < e then Break d
      else (case parse_header (take HEADER_LEN b) (dec_max_payload d) of
              Inl err \<Rightarrow> Fail d err
            | Inr h \<Rightarrow>
                Go (d\<lparr>buffer := [], expected_total := None\<rparr>) input (frame_of h (drop HEADER_LEN b))))"

definition pending :: "decoder \<Rightarrow> bytes \<Rightarrow> nat" where
  "pending d input = length (buffer d) + length input + (if expected_total d = None then 0 else 1)"

lemma fill_to_length: "fill_to n b input = (b', input') \<Longrightarrow> length b' + length input' = length b + length input"
  by (auto simp: fill_to_def Let_def split: if_splits)

lemma header_phase_pending:
  assumes "header_phase d input = Go d' input' e"
  shows "expected_total d' = Some e \<and> pending d' input' \<le> Suc (pending d input)
    \<and> (expected_total d = None \<longrightarrow> HEADER_LEN \<le> length (buffer d'))
    \<and> (expected_total d \<noteq> None \<longrightarrow> d' = d \<and> input' = input)"
  using assms
  by (auto simp: header_phase_def pending_def Let_def dest: fill_to_length
      split: option.splits prod.splits if_splits sum.splits)

lemma payload_phase_pending:
  assumes "payload_phase d input e = Go d' input' f"
  shows "expected_total d' = None \<and> buffer d' = [] \<and> length input' \<le> length (buffer d) + length input
    \<and> (HEADER_LEN \<le> length (buffer d) \<longrightarrow> HEADER_LEN + length input' \<le> length (buffer d) + length input)"
  using assms
  by (auto simp: payload_phase_def Let_def fill_to_def split: prod.splits if_splits sum.splits)

lemma iteration_decreases:
  assumes "header_phase d input = Go d' input' e" and "payload_phase d' input' e = Go d'' input'' f"
  shows "pending d'' input'' < pending d input"
  using header_phase_pending [OF assms(1)] payload_phase_pending [OF assms(2)]
  by (cases "expected_total d") (auto simp: pending_def HEADER_LEN_def)

function push_inner ::
    "decoder \<Rightarrow> bytes \<Rightarrow> frame list \<Rightarrow> decoder \<times> (protocol_error + frame list)" where
  "push_inner d input frames =
     (case header_phase d input of
        Break d \<Rightarrow> (d, Inr frames)
      | Fail d err \<Rightarrow> (d, Inl err)
      | Go d input e \<Rightarrow>
          (case payload_phase d input e of
             Break d \<Rightarrow> (d, Inr frames)
           | Fail d err \<Rightarrow> (d, Inl err)
           | Go d input f \<Rightarrow> push_inner d input (frames @ [f])))"
  by pat_completeness auto

termination
  by (relation "measure (\<lambda>(d, input, _). pending d input)") (auto intro!: iteration_decreases)

declare push_inner.simps [simp del]

definition push :: "decoder \<Rightarrow> bytes \<Rightarrow> decoder \<times> (protocol_error + frame list)" where
  "push d input =
     (if dec_failed d then (d, Inl DecoderFailed)
      else let (d, r) = push_inner d input [] in (if is_ok r then d else d\<lparr>dec_failed := True\<rparr>, r))"

definition finish :: "decoder \<Rightarrow> protocol_error + unit" where
  "finish d =
     (if dec_failed d then Inl DecoderFailed
      else if buffer d = [] \<and> expected_total d = None then Inr ()
      else Inl (Truncated (case expected_total d of Some e \<Rightarrow> e | None \<Rightarrow> HEADER_LEN) (length (buffer d))))"

definition buffered_len :: "decoder \<Rightarrow> nat" where
  "buffered_len d = length (buffer d)"

section \<open>Parsing a complete byte string\<close>

text \<open>The frames, the bytes left of an unfinished frame and the error that ends the parse.\<close>

function parse_stream :: "nat \<Rightarrow> bytes \<Rightarrow> frame list \<times> bytes \<times> protocol_error option" where
  "parse_stream m bs =
     (if length bs < HEADER_LEN then ([], bs, None)
      else case parse_header (take HEADER_LEN bs) m of
        Inl e \<Rightarrow> ([], bs, Some e)
      | Inr h \<Rightarrow>
          if length bs < HEADER_LEN + hd_payload_len h then ([], bs, None)
          else
            let f = frame_of h (take (hd_payload_len h) (drop HEADER_LEN bs));
                (fs, r, e) = parse_stream m (drop (HEADER_LEN + hd_payload_len h) bs)
            in (f # fs, r, e))"
  by pat_completeness auto
termination
  by (relation "measure (\<lambda>(_, bs). length bs)") (auto simp: HEADER_LEN_def)

declare parse_stream.simps [simp del]

lemma parse_stream_cases:
  "parse_stream m bs = (fs, r, e) \<longleftrightarrow>
     (length bs < HEADER_LEN \<and> fs = [] \<and> r = bs \<and> e = None)
     \<or> (HEADER_LEN \<le> length bs \<and>
        ((\<exists>err. parse_header (take HEADER_LEN bs) m = Inl err \<and> fs = [] \<and> r = bs \<and> e = Some err)
         \<or> (\<exists>h. parse_header (take HEADER_LEN bs) m = Inr h \<and> length bs < HEADER_LEN + hd_payload_len h
              \<and> fs = [] \<and> r = bs \<and> e = None)
         \<or> (\<exists>h fs'. parse_header (take HEADER_LEN bs) m = Inr h \<and> HEADER_LEN + hd_payload_len h \<le> length bs
              \<and> fs = frame_of h (take (hd_payload_len h) (drop HEADER_LEN bs)) # fs'
              \<and> parse_stream m (drop (HEADER_LEN + hd_payload_len h) bs) = (fs', r, e))))"
  by (subst parse_stream.simps) (auto simp: Let_def split: sum.splits prod.splits)

lemma parse_stream_frame:
  assumes "HEADER_LEN \<le> length bs" and "parse_header (take HEADER_LEN bs) m = Inr h"
    and "HEADER_LEN + hd_payload_len h \<le> length bs"
    and "parse_stream m (drop (HEADER_LEN + hd_payload_len h) bs) = (fs, r, e)"
  shows "parse_stream m bs = (frame_of h (take (hd_payload_len h) (drop HEADER_LEN bs)) # fs, r, e)"
  using assms by (subst parse_stream.simps) simp

lemma parse_stream_append:
  assumes "parse_stream m bs = (fs, r, None)" and "parse_stream m (r @ cs) = (gs, r', e)"
  shows "parse_stream m (bs @ cs) = (fs @ gs, r', e)"
  using assms
proof (induction m bs arbitrary: fs rule: parse_stream.induct)
  case (1 m bs)
  from "1.prems"(1) consider "fs = []" "r = bs"
    | (frame) h fs' where "HEADER_LEN \<le> length bs" "parse_header (take HEADER_LEN bs) m = Inr h"
      "HEADER_LEN + hd_payload_len h \<le> length bs"
      "fs = frame_of h (take (hd_payload_len h) (drop HEADER_LEN bs)) # fs'"
      "parse_stream m (drop (HEADER_LEN + hd_payload_len h) bs) = (fs', r, None)"
    by (subst (asm) parse_stream_cases) auto
  then show ?case
  proof cases
    case 1
    with "1.prems"(2) show ?thesis by simp
  next
    case frame
    have "parse_stream m (drop (HEADER_LEN + hd_payload_len h) bs @ cs) = (fs' @ gs, r', e)"
      using frame "1.prems"(2) by (intro "1.IH") (auto simp: not_less)
    with frame show ?thesis
      by (subst parse_stream_frame [where h = h]) auto
  qed
qed

lemma parse_stream_rest: "parse_stream m bs = (fs, r, None) \<Longrightarrow> parse_stream m r = ([], r, None)"
proof (induction m bs arbitrary: fs rule: parse_stream.induct)
  case (1 m bs)
  then show ?case
    by (cases "fs = []") (auto simp: not_less parse_stream_cases [of m bs])
qed

section \<open>The decoder implements the parser\<close>

definition decoder_ok :: "decoder \<Rightarrow> bool" where
  "decoder_ok d \<longleftrightarrow> \<not> dec_failed d \<and>
     (case expected_total d of
        None \<Rightarrow> length (buffer d) < HEADER_LEN
      | Some e \<Rightarrow> HEADER_LEN \<le> length (buffer d) \<and> length (buffer d) < e \<and>
          (\<exists>h. parse_header (take HEADER_LEN (buffer d)) (dec_max_payload d) = Inr h
               \<and> e = HEADER_LEN + hd_payload_len h))"

lemma decoder_new_ok: "decoder_ok (decoder_new m)"
  by (simp add: decoder_ok_def decoder_new_def HEADER_LEN_def)

lemma fill_to_spec:
  "fill_to n b input = (if length b < n then (take n (b @ input), drop (n - length b) input) else (b, input))"
  by (auto simp: fill_to_def Let_def min_def)

lemma fill_to_append: "fill_to n b input = (b', input') \<Longrightarrow> b' @ input' = b @ input"
  by (auto simp: fill_to_def Let_def split: if_splits)

text \<open>One iteration of the loop against one step of the parser.\<close>

lemma header_phase_refines:
  assumes "decoder_ok d"
  shows "case header_phase d input of
      Break d' \<Rightarrow> decoder_ok d' \<and> buffer d' = buffer d @ input \<and> dec_max_payload d' = dec_max_payload d
        \<and> length (buffer d @ input) < HEADER_LEN
    | Fail d' e \<Rightarrow> HEADER_LEN \<le> length (buffer d @ input)
        \<and> parse_header (take HEADER_LEN (buffer d @ input)) (dec_max_payload d) = Inl e
    | Go d' input' e \<Rightarrow> \<exists>h. parse_header (take HEADER_LEN (buffer d @ input)) (dec_max_payload d) = Inr h
        \<and> e = HEADER_LEN + hd_payload_len h \<and> expected_total d' = Some e \<and> \<not> dec_failed d'
        \<and> dec_max_payload d' = dec_max_payload d \<and> buffer d' @ input' = buffer d @ input
        \<and> HEADER_LEN \<le> length (buffer d') \<and> length (buffer d') \<le> e"
proof (cases "expected_total d")
  case None
  with assms show ?thesis
    by (auto simp: header_phase_def decoder_ok_def Let_def fill_to_spec split: sum.splits if_splits)
next
  case (Some e)
  with assms show ?thesis
    by (auto simp: header_phase_def decoder_ok_def)
qed

lemma payload_phase_refines:
  assumes "parse_header (take HEADER_LEN (buffer d @ input)) (dec_max_payload d) = Inr h"
    and "expected_total d = Some (HEADER_LEN + hd_payload_len h)" and "\<not> dec_failed d"
    and "HEADER_LEN \<le> length (buffer d)" and "length (buffer d) \<le> HEADER_LEN + hd_payload_len h"
  shows "case payload_phase d input (HEADER_LEN + hd_payload_len h) of
      Break d' \<Rightarrow> decoder_ok d' \<and> buffer d' = buffer d @ input \<and> dec_max_payload d' = dec_max_payload d
        \<and> length (buffer d @ input) < HEADER_LEN + hd_payload_len h
    | Fail d' e \<Rightarrow> False
    | Go d' input' f \<Rightarrow> decoder_ok d' \<and> buffer d' = [] \<and> dec_max_payload d' = dec_max_payload d
        \<and> HEADER_LEN + hd_payload_len h \<le> length (buffer d @ input)
        \<and> input' = drop (HEADER_LEN + hd_payload_len h) (buffer d @ input)
        \<and> f = frame_of h (take (hd_payload_len h) (drop HEADER_LEN (buffer d @ input)))"
  using assms
  by (auto simp: payload_phase_def decoder_ok_def Let_def fill_to_spec drop_take HEADER_LEN_def
      add.commute [of "32::nat"] split: sum.splits if_splits)

lemma push_inner_refines:
  assumes "decoder_ok d" and "parse_stream (dec_max_payload d) (buffer d @ input) = (fs, r, err)"
  shows "case err of
      None \<Rightarrow> \<exists>d'. push_inner d input frames = (d', Inr (frames @ fs)) \<and> decoder_ok d' \<and> buffer d' = r
        \<and> dec_max_payload d' = dec_max_payload d
    | Some e \<Rightarrow> \<exists>d'. push_inner d input frames = (d', Inl e)"
  using assms
proof (induction d input frames arbitrary: fs rule: push_inner.induct)
  case (1 d input frames)
  show ?case
  proof (cases "header_phase d input")
    case (Break d')
    then show ?thesis
      using header_phase_refines [OF "1.prems"(1), of input] "1.prems"(2)
      by (subst push_inner.simps) (auto simp: parse_stream_cases [of "dec_max_payload d" "buffer d @ input"])
  next
    case (Fail d' e)
    then show ?thesis
      using header_phase_refines [OF "1.prems"(1), of input] "1.prems"(2)
      by (subst push_inner.simps) (auto simp: parse_stream_cases [of "dec_max_payload d" "buffer d @ input"])
  next
    case (Go d' input' e)
    with header_phase_refines [OF "1.prems"(1), of input] obtain h where
      h: "parse_header (take HEADER_LEN (buffer d @ input)) (dec_max_payload d) = Inr h"
      and e: "e = HEADER_LEN + hd_payload_len h" and max: "dec_max_payload d' = dec_max_payload d"
      and app: "buffer d' @ input' = buffer d @ input" and len: "HEADER_LEN \<le> length (buffer d')"
      and rest: "expected_total d' = Some e" "\<not> dec_failed d'" "length (buffer d') \<le> e"
      by auto
    note refines = payload_phase_refines [of d' input' h, unfolded app max, OF h]
    have long: "HEADER_LEN \<le> length (buffer d @ input)"
      using len app by (metis le_add1 le_trans length_append)
    show ?thesis
    proof (cases "payload_phase d' input' e")
      case (Break d'')
      then show ?thesis
        using refines rest len e Go h long "1.prems"(2)
        by (subst push_inner.simps) (auto simp: parse_stream_cases [of "dec_max_payload d" "buffer d @ input"])
    next
      case (Fail d'' err)
      then show ?thesis
        using refines rest len e by auto
    next
      case p: (Go d'' input'' f)
      then have d'': "decoder_ok d''" "buffer d'' = []" "dec_max_payload d'' = dec_max_payload d"
        "HEADER_LEN + hd_payload_len h \<le> length (buffer d @ input)"
        "input'' = drop (HEADER_LEN + hd_payload_len h) (buffer d @ input)"
        "f = frame_of h (take (hd_payload_len h) (drop HEADER_LEN (buffer d @ input)))"
        using refines rest len e by auto
      with "1.prems"(2) h long obtain gs where gs: "fs = f # gs"
        "parse_stream (dec_max_payload d'') (buffer d'' @ input'') = (gs, r, err)"
        by (auto simp: parse_stream_cases [of "dec_max_payload d" "buffer d @ input"])
      from "1.IH" [OF Go p d''(1) gs(2)] gs(1) d''(3) Go p show ?thesis
        by (subst (1 2) push_inner.simps) (simp split: option.splits)
    qed
  qed
qed

lemma push_refines:
  assumes "decoder_ok d" and "parse_stream (dec_max_payload d) (buffer d @ input) = (fs, r, err)"
  shows "case err of
      None \<Rightarrow> \<exists>d'. push d input = (d', Inr fs) \<and> decoder_ok d' \<and> buffer d' = r
        \<and> dec_max_payload d' = dec_max_payload d
    | Some e \<Rightarrow> \<exists>d'. push d input = (d', Inl e) \<and> dec_failed d'"
  using push_inner_refines [OF assms, of "[]"] assms(1)
  by (auto simp: push_def decoder_ok_def split: option.splits)

text \<open>Pushing the chunks of a stream one by one.\<close>

fun push_all :: "decoder \<Rightarrow> bytes list \<Rightarrow> decoder \<times> (protocol_error + frame list)" where
  "push_all d [] = (d, Inr [])"
| "push_all d (c # cs) =
     (case push d c of
        (d, Inl e) \<Rightarrow> (d, Inl e)
      | (d, Inr fs) \<Rightarrow>
          (case push_all d cs of (d, Inl e) \<Rightarrow> (d, Inl e) | (d, Inr gs) \<Rightarrow> (d, Inr (fs @ gs))))"

lemma parse_stream_error_append:
  assumes "parse_stream m bs = (fs, r, Some e)"
  shows "\<exists>r'. parse_stream m (bs @ cs) = (fs, r', Some e)"
  using assms
proof (induction m bs arbitrary: fs rule: parse_stream.induct)
  case (1 m bs)
  from "1.prems" consider (err) "HEADER_LEN \<le> length bs" "parse_header (take HEADER_LEN bs) m = Inl e" "fs = []"
    | (frame) h fs' where "HEADER_LEN \<le> length bs" "parse_header (take HEADER_LEN bs) m = Inr h"
      "HEADER_LEN + hd_payload_len h \<le> length bs"
      "fs = frame_of h (take (hd_payload_len h) (drop HEADER_LEN bs)) # fs'"
      "parse_stream m (drop (HEADER_LEN + hd_payload_len h) bs) = (fs', r, Some e)"
    by (subst (asm) parse_stream_cases) auto
  then show ?case
  proof cases
    case err
    then show ?thesis
      by (subst parse_stream.simps) simp
  next
    case frame
    have "\<exists>r'. parse_stream m (drop (HEADER_LEN + hd_payload_len h) bs @ cs) = (fs', r', Some e)"
      using frame by (intro "1.IH") (auto simp: not_less)
    with frame show ?thesis
      by (subst parse_stream.simps) auto
  qed
qed

lemma parse_stream_prefix:
  assumes "parse_stream m (bs @ cs) = (fs, r, None)"
  obtains gs q hs where "parse_stream m bs = (gs, q, None)" and "parse_stream m (q @ cs) = (hs, r, None)"
    and "fs = gs @ hs"
proof -
  obtain gs q err where bs: "parse_stream m bs = (gs, q, err)"
    by (metis prod_cases3)
  obtain hs r' err' where cs: "parse_stream m (q @ cs) = (hs, r', err')"
    by (metis prod_cases3)
  have None: "err = None"
    using parse_stream_error_append [of m bs gs q _ cs] bs assms by (cases err) auto
  with parse_stream_append [of m bs gs q cs hs r' err'] bs cs assms
  have "fs = gs @ hs" "r' = r" "err' = None"
    by auto
  with bs cs None show thesis
    by (auto intro: that)
qed

lemma push_all_refines:
  assumes "decoder_ok d" and "parse_stream (dec_max_payload d) (buffer d @ concat chunks) = (fs, r, None)"
    and "parse_stream (dec_max_payload d) (buffer d) = ([], buffer d, None)"
  shows "\<exists>d'. push_all d chunks = (d', Inr fs) \<and> decoder_ok d' \<and> buffer d' = r
    \<and> dec_max_payload d' = dec_max_payload d"
  using assms
proof (induction chunks arbitrary: d fs)
  case Nil
  then show ?case by simp
next
  case (Cons c cs)
  from Cons.prems(2) obtain gs q hs where
    c: "parse_stream (dec_max_payload d) (buffer d @ c) = (gs, q, None)"
    and cs: "parse_stream (dec_max_payload d) (q @ concat cs) = (hs, r, None)" and fs: "fs = gs @ hs"
    by (metis append_assoc concat.simps(2) parse_stream_prefix)
  from push_refines [OF Cons.prems(1) c] obtain d' where
    d': "push d c = (d', Inr gs)" "decoder_ok d'" "buffer d' = q" "dec_max_payload d' = dec_max_payload d"
    by auto
  with Cons.IH [of d' hs] cs parse_stream_rest [OF c] fs show ?case
    by auto
qed

section \<open>Encoded frames\<close>

lemma parse_stream_encoded:
  assumes "encode_frame f = Inr bs" and "length (payload f) \<le> m" and "parse_stream m rest = (fs, r, e)"
  shows "parse_stream m (bs @ rest) = (f # fs, r, e)"
proof -
  from assms(1) obtain h where h: "encode_header f MAX_FRAME_PAYLOAD = Inr h" and bs: "bs = h @ payload f"
    by (auto simp: encode_frame_def result_rules)
  let ?h = "\<lparr>hd_version = version f, hd_kind = kind f, hd_flags = flags f,
        hd_payload_len = length (payload f), hd_request_id = request_id f, hd_sequence = sequence f\<rparr>"
  from parse_encode_header [OF h] assms(2) have "length h = HEADER_LEN" "parse_header h m = Inr ?h"
    by (auto intro: parse_header_mono)
  with assms(3) bs show ?thesis
    by (subst parse_stream_frame [where h = ?h]) (auto simp: frame_of_def)
qed

lemma parse_stream_Nil [simp]: "parse_stream m [] = ([], [], None)"
  by (subst parse_stream.simps) (simp add: HEADER_LEN_def)

fun encode_all :: "frame list \<Rightarrow> protocol_error + bytes" where
  "encode_all [] = Inr []"
| "encode_all (f # fs) = rbind (encode_frame f) (\<lambda>b. rbind (encode_all fs) (\<lambda>bs. Inr (b @ bs)))"

lemma parse_stream_encoded_all:
  assumes "encode_all fs = Inr bs" and "\<forall>f \<in> set fs. length (payload f) \<le> m"
    and "parse_stream m rest = (gs, r, e)"
  shows "parse_stream m (bs @ rest) = (fs @ gs, r, e)"
  using assms(1,2)
proof (induction fs arbitrary: bs)
  case Nil
  with assms(3) show ?case by simp
next
  case (Cons f fs)
  then obtain b bs' where b: "encode_frame f = Inr b" "encode_all fs = Inr bs'" "bs = b @ bs'"
    by (auto simp: result_rules)
  with Cons show ?case
    by (auto intro: parse_stream_encoded)
qed

section \<open>The reader implements the parser\<close>

text \<open>The bytes a reader still gives, and how they end.\<close>

fun reader_bytes :: "read_result list \<Rightarrow> bytes" where
  "reader_bytes [] = []"
| "reader_bytes (Interrupted # rs) = reader_bytes rs"
| "reader_bytes (Failed e # rs) = []"
| "reader_bytes (Data bs # rs) = (if bs = [] then [] else bs @ reader_bytes rs)"

fun reader_error :: "read_result list \<Rightarrow> io_error option" where
  "reader_error [] = None"
| "reader_error (Interrupted # rs) = reader_error rs"
| "reader_error (Failed e # rs) = Some e"
| "reader_error (Data bs # rs) = (if bs = [] then None else reader_error rs)"

lemma fill_buffer_spec:
  assumes "length got \<le> n"
  shows "if n \<le> length got + length (reader_bytes rs)
    then \<exists>rs'. fill_buffer n got rs = Filled (take n (got @ reader_bytes rs)) rs'
      \<and> reader_bytes rs' = drop (n - length got) (reader_bytes rs) \<and> reader_error rs' = reader_error rs
    else fill_buffer n got rs = (case reader_error rs of Some e \<Rightarrow> ReadError e | None \<Rightarrow> Eof (got @ reader_bytes rs))"
  using assms
proof (induction n got rs rule: fill_buffer.induct)
  case (1 n got)
  then show ?case by simp
next
  case (2 n got r rs)
  show ?case
  proof (cases "n \<le> length got")
    case True
    with "2.prems" show ?thesis by simp
  next
    case False
    note n = this
    show ?thesis
    proof (cases r)
      case Interrupted
      with "2.IH"(2) [OF n Interrupted] n "2.prems" show ?thesis
        by (auto split: option.splits if_splits)
    next
      case (Failed e)
      with n show ?thesis by simp
    next
      case (Data bs)
      show ?thesis
      proof (cases "bs = [] \<or> n < length got + length bs")
        case True
        with n Data show ?thesis by auto
      next
        case False
        with "2.IH"(1) [OF n Data] n Data "2.prems" show ?thesis
          by (auto simp: not_less add.assoc split: if_splits option.splits)
      qed
    qed
  qed
qed

text \<open>The length of the frame that begins \<open>bs\<close>, as far as its header is there.\<close>

definition announced :: "nat \<Rightarrow> bytes \<Rightarrow> nat" where
  "announced m bs =
     (if length bs < HEADER_LEN then HEADER_LEN
      else case parse_header (take HEADER_LEN bs) m of
        Inl _ \<Rightarrow> HEADER_LEN | Inr h \<Rightarrow> HEADER_LEN + hd_payload_len h)"

lemma read_frame_spec:
  assumes "parse_stream (min m MAX_FRAME_PAYLOAD) (reader_bytes rs) = (fs, r, e)"
  shows "case fs of
      f # fs' \<Rightarrow> \<exists>rs'. read_frame rs m = Inr (Some (f, rs')) \<and> reader_error rs' = reader_error rs
        \<and> parse_stream (min m MAX_FRAME_PAYLOAD) (reader_bytes rs') = (fs', r, e)
    | [] \<Rightarrow> read_frame rs m =
        (case (e, reader_error rs) of
           (Some err, _) \<Rightarrow> Inl err
         | (None, Some x) \<Rightarrow> Inl (Io x)
         | (None, None) \<Rightarrow>
             if reader_bytes rs = [] then Inr None
             else Inl (Truncated (announced (min m MAX_FRAME_PAYLOAD) (reader_bytes rs)) (length (reader_bytes rs))))"
proof (cases "HEADER_LEN \<le> length (reader_bytes rs)")
  case False
  with assms fill_buffer_spec [of "[]" HEADER_LEN rs] show ?thesis
    by (subst (asm) parse_stream.simps) (auto simp: read_frame_def Let_def announced_def split: option.splits)
next
  case long: True
  let ?m = "min m MAX_FRAME_PAYLOAD" and ?bs = "reader_bytes rs"
  from long fill_buffer_spec [of "[]" HEADER_LEN rs] obtain rs' where
    hdr: "fill_buffer HEADER_LEN [] rs = Filled (take HEADER_LEN ?bs) rs'"
    and rs': "reader_bytes rs' = drop HEADER_LEN ?bs" "reader_error rs' = reader_error rs"
    by auto
  show ?thesis
  proof (cases "parse_header (take HEADER_LEN ?bs) ?m")
    case (Inl err)
    with assms long hdr show ?thesis
      by (subst (asm) parse_stream.simps) (auto simp: read_frame_def Let_def)
  next
    case (Inr h)
    note fill = fill_buffer_spec [of "[]" "hd_payload_len h" rs', unfolded rs']
    show ?thesis
    proof (cases "HEADER_LEN + hd_payload_len h \<le> length ?bs")
      case True
      with fill long obtain rs'' where
        "fill_buffer (hd_payload_len h) [] rs' = Filled (take (hd_payload_len h) (drop HEADER_LEN ?bs)) rs''"
        "reader_bytes rs'' = drop (HEADER_LEN + hd_payload_len h) ?bs" "reader_error rs'' = reader_error rs"
        by (auto simp: add.commute le_diff_conv2)
      with True assms long hdr Inr show ?thesis
        by (subst (asm) parse_stream.simps)
          (auto simp: read_frame_def Let_def split: prod.splits)
    next
      case False
      with fill long have
        "fill_buffer (hd_payload_len h) [] rs' =
           (case reader_error rs of Some e \<Rightarrow> ReadError e | None \<Rightarrow> Eof (drop HEADER_LEN ?bs))"
        by (auto split: option.splits)
      with False assms long hdr Inr show ?thesis
        by (subst (asm) parse_stream.simps)
          (auto simp: read_frame_def Let_def announced_def HEADER_LEN_def split: option.splits)
    qed
  qed
qed

end
