(* ===== verification/HostProps.thy ===== *)
theory HostProps
  imports HostStream
begin

text \<open>
  What the terminal-host protocol guarantees: payloads and frames come back as they were sent,
  whatever the chunks they arrive in, and the two ways of reading agree.
\<close>

lemma parse_encoded_stream:
  assumes "encode_all fs = Inr bs" and "\<forall>f \<in> set fs. length (payload f) \<le> m"
  shows "parse_stream m bs = (fs, [], None)"
  using parse_stream_encoded_all [OF assms, of "[]"] by simp

text \<open>A stream that parses completely is the encoding of its frames.\<close>

lemma encode_parse_stream:
  assumes "parse_stream m bs = (fs, [], None)" and "m \<le> MAX_FRAME_PAYLOAD"
  shows "encode_all fs = Inr bs"
  using assms(1)
proof (induction fs arbitrary: bs)
  case Nil
  then show ?case
    by (subst (asm) parse_stream_cases) auto
next
  case (Cons f fs)
  then obtain h where h: "HEADER_LEN \<le> length bs" "parse_header (take HEADER_LEN bs) m = Inr h"
    "HEADER_LEN + hd_payload_len h \<le> length bs"
    and f: "f = frame_of h (take (hd_payload_len h) (drop HEADER_LEN bs))"
    and rest: "parse_stream m (drop (HEADER_LEN + hd_payload_len h) bs) = (fs, [], None)"
    by (subst (asm) parse_stream_cases) auto
  let ?p = "take (hd_payload_len h) (drop HEADER_LEN bs)"
  have "parse_header (take HEADER_LEN bs) MAX_FRAME_PAYLOAD = Inr h"
    using parse_header_mono [OF h(2)] parse_header_payload [OF h(2)] assms(2) by auto
  from encode_parse_header [OF _ this, of ?p] h f
  have "encode_frame f = Inr (take HEADER_LEN bs @ ?p)"
    by (simp add: encode_frame_def frame_of_def)
  with Cons.IH [OF rest] show ?case
    by (simp add: take_add [symmetric] flip: append_assoc)
qed

lemma push_all_spec:
  assumes "decoder_ok d" and "parse_stream (dec_max_payload d) (buffer d @ concat chunks) = (fs, r, Some e)"
    and "parse_stream (dec_max_payload d) (buffer d) = ([], buffer d, None)"
  shows "\<exists>d'. push_all d chunks = (d', Inl e) \<and> dec_failed d'"
  using assms
proof (induction chunks arbitrary: d fs r)
  case Nil
  then show ?case by simp
next
  case (Cons c cs)
  obtain gs q err where c: "parse_stream (dec_max_payload d) (buffer d @ c) = (gs, q, err)"
    by (metis prod_cases3)
  show ?case
  proof (cases err)
    case (Some e')
    with c Cons.prems(2) parse_stream_error_append [of "dec_max_payload d" "buffer d @ c" gs q e' "concat cs"]
    have "e' = e" by auto
    with push_refines [OF Cons.prems(1) c] Some show ?thesis by auto
  next
    case None
    with push_refines [OF Cons.prems(1) c] obtain d' where
      d': "push d c = (d', Inr gs)" "decoder_ok d'" "buffer d' = q" "dec_max_payload d' = dec_max_payload d"
      by auto
    obtain hs r' err' where q: "parse_stream (dec_max_payload d) (q @ concat cs) = (hs, r', err')"
      by (metis prod_cases3)
    with parse_stream_append [of "dec_max_payload d" "buffer d @ c" gs q "concat cs"] c None Cons.prems(2)
    have "err' = Some e" by auto
    with Cons.IH [of d' hs r'] d' q parse_stream_rest [of "dec_max_payload d" "buffer d @ c" gs q] c None
    show ?thesis by auto
  qed
qed

lemma finish_spec:
  assumes "decoder_ok d"
  shows "finish d = (if buffer d = [] then Inr ()
    else Inl (Truncated (announced (dec_max_payload d) (buffer d)) (length (buffer d))))"
  using assms by (auto simp: decoder_ok_def finish_def announced_def HEADER_LEN_def split: option.splits)

lemma decoder_new_simps [simp]:
  "buffer (decoder_new m) = []" "dec_max_payload (decoder_new m) = min m MAX_FRAME_PAYLOAD"
  by (simp_all add: decoder_new_def)

text \<open>C19. Refinement: the incremental decoder computes what parsing the whole byte string at once
  computes, however the bytes are cut into chunks. Without an error it yields the frames of the
  string, buffers the rest, and \<open>finish\<close> reports an unfinished frame with the length its header
  announces; a bad header gives the parser's error and leaves the decoder unusable.\<close>

theorem decoder_refines_parser:
  "case parse_stream (min m MAX_FRAME_PAYLOAD) (concat chunks) of
     (fs, r, None) \<Rightarrow> \<exists>d. push_all (decoder_new m) chunks = (d, Inr fs) \<and> buffered_len d = length r
       \<and> finish d = (if r = [] then Inr ()
           else Inl (Truncated (announced (min m MAX_FRAME_PAYLOAD) r) (length r)))
   | (fs, r, Some e) \<Rightarrow> \<exists>d. push_all (decoder_new m) chunks = (d, Inl e)
       \<and> finish d = Inl DecoderFailed \<and> (\<forall>more. push d more = (d, Inl DecoderFailed))"
proof -
  obtain fs r err where p: "parse_stream (min m MAX_FRAME_PAYLOAD) (concat chunks) = (fs, r, err)"
    by (metis prod_cases3)
  show ?thesis
  proof (cases err)
    case None
    with push_all_refines [OF decoder_new_ok, of m chunks fs r] p obtain d where
      "push_all (decoder_new m) chunks = (d, Inr fs)" "decoder_ok d" "buffer d = r"
      "dec_max_payload d = min m MAX_FRAME_PAYLOAD"
      by auto
    with p None show ?thesis
      by (auto simp: finish_spec buffered_len_def)
  next
    case (Some e)
    with push_all_spec [OF decoder_new_ok, of m chunks fs r e] p show ?thesis
      by (auto simp: finish_def push_def)
  qed
qed

text \<open>C20. Round trip: frames that encode, written one after the other, come out of the decoder
  unchanged and in order whatever the chunks of the stream are, and nothing is left over; the
  blocking reader takes the first of them and leaves the others.\<close>

theorem frames_round_trip:
  assumes "encode_all (f # fs) = Inr bs" and "\<forall>g \<in> set (f # fs). length (payload g) \<le> m"
    and "concat chunks = bs" and "reader_bytes reader = bs"
  shows "\<exists>d reader'. push_all (decoder_new m) chunks = (d, Inr (f # fs)) \<and> finish d = Inr ()
    \<and> read_frame reader m = Inr (Some (f, reader')) \<and> encode_all fs = Inr (reader_bytes reader')"
proof -
  from assms(1) obtain b bs' where b: "encode_frame f = Inr b" "encode_all fs = Inr bs'" "bs = b @ bs'"
    by (auto simp: result_rules)
  have max: "\<forall>g \<in> set (f # fs). length (payload g) \<le> min m MAX_FRAME_PAYLOAD"
  proof -
    have "encode_all gs = Inr cs \<Longrightarrow> \<forall>g \<in> set gs. length (payload g) \<le> MAX_FRAME_PAYLOAD" for gs cs
      by (induction gs arbitrary: cs)
        (auto simp: result_rules encode_frame_def encode_header_def split: if_splits)
    from this [OF assms(1)] assms(2) show ?thesis by auto
  qed
  have p: "parse_stream (min m MAX_FRAME_PAYLOAD) bs = (f # fs, [], None)"
    by (rule parse_encoded_stream [OF assms(1) max])
  from push_all_refines [OF decoder_new_ok, of m chunks "f # fs" "[]"] p assms(3) obtain d where
    d: "push_all (decoder_new m) chunks = (d, Inr (f # fs))" "finish d = Inr ()"
    by (auto simp: finish_spec)
  from read_frame_spec [of m reader "f # fs" "[]" None] p assms(4) obtain reader' where
    r: "read_frame reader m = Inr (Some (f, reader'))"
    "parse_stream (min m MAX_FRAME_PAYLOAD) (reader_bytes reader') = (fs, [], None)"
    by auto
  with d encode_parse_stream [OF r(2)] show ?thesis
    by auto
qed

definition ready_frame :: frame where
  "ready_frame = \<lparr>version = 3, kind = Ready, flags = 0, request_id = 7, sequence = 0, payload = [1, 2]\<rparr>"

definition bell_frame :: frame where
  "bell_frame = \<lparr>version = 3, kind = Bell, flags = 0, request_id = 0, sequence = 9, payload = []\<rparr>"

lemma frames_round_trip_witness:
  "\<exists>bs d reader'. encode_all [ready_frame, bell_frame] = Inr bs \<and> length bs = 66
    \<and> push_all (decoder_new 16) [take 5 bs, drop 5 bs] = (d, Inr [ready_frame, bell_frame]) \<and> finish d = Inr ()
    \<and> read_frame [Interrupted, Data bs] 16 = Inr (Some (ready_frame, reader'))
    \<and> encode_all [bell_frame] = Inr (reader_bytes reader')"
proof -
  obtain bs where bs: "encode_all [ready_frame, bell_frame] = Inr bs" "length bs = 66"
    by (simp add: ready_frame_def bell_frame_def encode_frame_def encode_header_def MAX_FRAME_PAYLOAD_def)
  then have "bs \<noteq> []" by auto
  moreover have "\<forall>g \<in> set [ready_frame, bell_frame]. length (payload g) \<le> 16"
    by (simp add: ready_frame_def bell_frame_def)
  moreover have "concat [take 5 bs, drop 5 bs] = bs"
    by simp
  ultimately have "\<exists>d reader'. push_all (decoder_new 16) [take 5 bs, drop 5 bs] = (d, Inr [ready_frame, bell_frame])
    \<and> finish d = Inr () \<and> read_frame [Interrupted, Data bs] 16 = Inr (Some (ready_frame, reader'))
    \<and> encode_all [bell_frame] = Inr (reader_bytes reader')"
    by (intro frames_round_trip [OF bs(1)]) simp_all
  with bs show ?thesis
    by blast
qed

text \<open>Error behaviour of the blocking reader: it returns the first frame of the reader's bytes
  and leaves the reader at the second; without a complete frame it reports the header's error, the
  reader's error, a clean end before the first byte, or the truncation with the announced and the
  actual length, which is the error \<open>finish\<close> of a decoder fed the same bytes gives.\<close>

theorem read_frame_reads_first_frame:
  "case parse_stream (min m MAX_FRAME_PAYLOAD) (reader_bytes reader) of
     (f # fs, r, e) \<Rightarrow> \<exists>reader'. read_frame reader m = Inr (Some (f, reader'))
       \<and> reader_error reader' = reader_error reader
       \<and> parse_stream (min m MAX_FRAME_PAYLOAD) (reader_bytes reader') = (fs, r, e)
   | ([], r, Some e) \<Rightarrow> read_frame reader m = Inl e
   | ([], r, None) \<Rightarrow> read_frame reader m =
       (case reader_error reader of
          Some x \<Rightarrow> Inl (Io x)
        | None \<Rightarrow>
            if reader_bytes reader = [] then Inr None
            else (case finish (fst (push (decoder_new m) (reader_bytes reader))) of
                    Inl e \<Rightarrow> Inl e | Inr _ \<Rightarrow> Inr None))"
proof -
  obtain fs r err where p: "parse_stream (min m MAX_FRAME_PAYLOAD) (reader_bytes reader) = (fs, r, err)"
    by (metis prod_cases3)
  note spec = read_frame_spec [OF p]
  show ?thesis
  proof (cases "fs = [] \<and> err = None")
    case True
    have r: "r = reader_bytes reader"
      using p True by (subst (asm) parse_stream_cases) auto
    from push_refines [OF decoder_new_ok, of m "reader_bytes reader" "[]" r None] p True obtain d where
      "push (decoder_new m) (reader_bytes reader) = (d, Inr [])" "decoder_ok d" "buffer d = r"
      "dec_max_payload d = min m MAX_FRAME_PAYLOAD"
      by auto
    with True spec p r show ?thesis
      by (auto simp: finish_spec split: option.splits)
  next
    case False
    with spec p show ?thesis
      by (auto split: list.splits option.splits)
  qed
qed

section \<open>Payloads\<close>

text \<open>The text of an exit or a failure is UTF-8, as every \<open>String\<close>.\<close>

definition exit_text_ok :: "terminal_exit \<Rightarrow> bool" where
  "exit_text_ok x = (case outcome x of Unknown reason \<Rightarrow> valid_utf8 reason | _ \<Rightarrow> True)"

lemma subslice_Cons [simp]: "0 < i \<Longrightarrow> subslice i j (x # xs) = subslice (i - 1) (j - 1) xs"
  by (cases i; cases j) (auto simp: subslice_def)

lemma payload_parts:
  assumes "12 \<le> length bs"
  shows "bs = subslice 0 2 bs @ [bs ! 2, bs ! 3] @ subslice 4 12 bs @ drop 12 bs"
proof -
  have "subslice 0 2 bs @ subslice 2 4 bs @ subslice 4 12 bs = take 12 bs"
    by (simp add: slice_split) (simp add: subslice_def)
  then have "bs = subslice 0 2 bs @ subslice 2 4 bs @ subslice 4 12 bs @ drop 12 bs"
    by (metis append_assoc append_take_drop_id)
  moreover have "subslice 2 4 bs = [bs ! 2, bs ! 3]"
    using assms by (auto simp: subslice_def numeral_eq_Suc take_Suc_conv_app_nth)
  ultimately show ?thesis by simp
qed

lemma flags_bit:
  fixes w :: u8
  shows "and w (not 1) = 0 \<longleftrightarrow> w = (if and w 1 \<noteq> 0 then 1 else 0)"
proof -
  have *: "and w (not 1) = 0 \<longleftrightarrow> w = and w 1"
    by (auto simp: bit_eq_iff bit_simps)
  show ?thesis
    by (subst *) (simp add: and_one_eq mod2_eq_if)
qed

lemma decode_encode_exit:
  assumes "exit_is_valid x" and "exit_text_ok x"
  shows "decode_terminal_exit (encode_terminal_exit x) = Inr x"
proof (cases "outcome x")
  case (Exit code)
  with assms show ?thesis
    by (cases x) (auto simp: encode_terminal_exit_def decode_terminal_exit_def exit_is_valid_def
        protocol_consts nth_append Let_def)
next
  case (Signal s core)
  with assms show ?thesis
    by (cases x) (auto simp: encode_terminal_exit_def decode_terminal_exit_def exit_is_valid_def
        protocol_consts nth_append Let_def)
next
  case (Unknown reason)
  with assms show ?thesis
    by (cases x) (auto simp: encode_terminal_exit_def decode_terminal_exit_def exit_is_valid_def
        exit_text_ok_def protocol_consts nth_append Let_def truncate_utf8_def)
qed

lemma encode_decode_exit:
  assumes "decode_terminal_exit bs = Inr x"
  shows "exit_is_valid x \<and> exit_text_ok x \<and> encode_terminal_exit x = bs"
proof -
  from assms have len: "12 \<le> length bs"
    by (auto simp: decode_terminal_exit_def protocol_consts split: if_splits)
  define v where "v = (le_word (subslice 0 2 bs) :: u16)"
  define t where "t = (le_word (subslice 4 12 bs) :: u64)"
  define w where "w = drop 12 bs"
  have bs: "bs = le_bytes v @ [bs ! 2, bs ! 3] @ le_bytes t @ w"
    using payload_parts [OF len] len by (simp add: v_def t_def w_def le_bytes_le_word)
  have s: "subslice 12 16 bs = w" if "length bs = 16"
    using that by (simp add: subslice_def w_def)
  have lw: "length w = length bs - 12"
    by (simp add: w_def)
  have code: "le_bytes (le_word w :: 32 word) = w" if "length bs = 16"
    by (rule le_bytes_le_word) (use that lw in simp)
  from assms len have v: "v = EXIT_PAYLOAD_VERSION"
    by (auto simp: decode_terminal_exit_def v_def split: if_splits)
  from assms len consider
      (exit) "bs ! 2 = 1" "bs ! 3 = 0" "length bs = 16" "0 \<le> sint (le_word w :: 32 word)"
        "x = \<lparr>outcome = Exit (le_word w), exited_at_ms = t\<rparr>"
    | (signal) "bs ! 2 = 2" "and (bs ! 3) (not 1) = 0" "length bs = 16" "0 < sint (le_word w :: 32 word)"
        "x = \<lparr>outcome = Signal (le_word w) (and (bs ! 3) 1 \<noteq> 0), exited_at_ms = t\<rparr>"
    | (unknown) "bs ! 2 = 3" "bs ! 3 = 0" "w \<noteq> []" "length w \<le> 4096" "valid_utf8 w"
        "x = \<lparr>outcome = Unknown w, exited_at_ms = t\<rparr>"
    by (auto simp: decode_terminal_exit_def Let_def protocol_consts s lw t_def w_def not_le not_less
        split: if_splits)
  then show ?thesis
  proof cases
    case exit
    with bs v code show ?thesis
      by (auto simp: exit_is_valid_def exit_text_ok_def encode_terminal_exit_def)
  next
    case signal
    with bs v code flags_bit [of "bs ! 3"] show ?thesis
      by (auto simp: exit_is_valid_def exit_text_ok_def encode_terminal_exit_def)
  next
    case unknown
    with bs v show ?thesis
      by (auto simp: exit_is_valid_def exit_text_ok_def encode_terminal_exit_def truncate_utf8_def
          MAX_EXIT_REASON_BYTES_def)
  qed
qed

text \<open>The exit payload is a bijection between the valid exits and the byte strings the decoder
  accepts: a payload decodes to an exit exactly when it is that exit's encoding, so nothing else
  (a negative code, a signal below one, reserved flags, a wrong length, broken UTF-8) is accepted.\<close>

theorem exit_payload_exact:
  "decode_terminal_exit bs = Inr x \<longleftrightarrow> exit_is_valid x \<and> exit_text_ok x \<and> encode_terminal_exit x = bs"
  using decode_encode_exit encode_decode_exit by blast

lemma launch_failure_bytes:
  assumes "length bs \<ge> 4"
  shows "bs = le_bytes (le_word (subslice 0 2 bs) :: u16) @ le_bytes (le_word (subslice 2 4 bs) :: u16) @ drop 4 bs"
proof -
  have "subslice 0 2 bs @ subslice 2 4 bs = take 4 bs"
    by (simp add: slice_split) (simp add: subslice_def)
  with assms show ?thesis
    by (simp add: le_bytes_le_word) (metis append_assoc append_take_drop_id)
qed

lemma failure_kind_of_code_Inr: "failure_kind_of_code v = Inr k \<longleftrightarrow> failure_code k = v"
  by (cases k) (auto simp: failure_kind_of_code_def failure_code_def)

text \<open>A launch failure survives the bootstrap pipe, and only encodings of failures are
  accepted; a message bounded by \<open>HostLaunchFailure::bounded\<close> is UTF-8, fits, and loses at most
  three bytes more than the limit demands.\<close>

theorem launch_failure_exact:
  "(decode_host_launch_failure bs = Inr f \<longleftrightarrow> encode_host_launch_failure f = Inr bs \<and> valid_utf8 (failure_message f))
   \<and> (valid_utf8 message \<longrightarrow>
      (let m = failure_message (bounded_failure k message) in
       valid_utf8 m \<and> length m \<le> 4096 \<and> m = take (length m) message
       \<and> min 4096 (length message) \<le> length m + 3))"
proof (intro conjI)
  have "decode_host_launch_failure bs = Inr f" if "encode_host_launch_failure f = Inr bs" "valid_utf8 (failure_message f)"
    using that by (cases f) (auto simp: decode_host_launch_failure_def encode_host_launch_failure_def
        protocol_consts failure_kind_of_code_Inr rbind_eq_Inr Suc_le_eq Let_def split: if_splits)
  moreover have "encode_host_launch_failure f = Inr bs \<and> valid_utf8 (failure_message f)"
    if "decode_host_launch_failure bs = Inr f"
    using that launch_failure_bytes [of bs]
    by (cases f) (auto simp: decode_host_launch_failure_def encode_host_launch_failure_def
        protocol_consts failure_kind_of_code_Inr rbind_eq_Inr Let_def split: if_splits)
  ultimately show "decode_host_launch_failure bs = Inr f \<longleftrightarrow>
      encode_host_launch_failure f = Inr bs \<and> valid_utf8 (failure_message f)"
    by blast
  show "valid_utf8 message \<longrightarrow>
      (let m = failure_message (bounded_failure k message) in
       valid_utf8 m \<and> length m \<le> 4096 \<and> m = take (length m) message
       \<and> min 4096 (length message) \<le> length m + 3)"
    using boundary_below [of message 4096] boundary_below_ge [of message 4096]
      valid_utf8_take [of message "boundary_below message 4096"]
    by (auto simp: bounded_failure_def MAX_LAUNCH_FAILURE_MESSAGE_BYTES_def Let_def min_def)
qed

lemma launch_failure_exact_witness:
  "valid_utf8 [0x68, 0x69] \<and> failure_message (bounded_failure LaunchFailed [0x68, 0x69]) = [0x68, 0x69]
   \<and> valid_utf8 (failure_message (bounded_failure LaunchFailed [0x68, 0x69]))
   \<and> decode_host_launch_failure [1, 0, 2, 0, 0x68, 0x69] = Inr (bounded_failure LaunchFailed [0x68, 0x69])"
proof -
  let ?f = "\<lparr>failure_kind = LaunchFailed, failure_message = [0x68, 0x69]\<rparr>"
  have v: "valid_utf8 [0x68, 0x69]" by code_simp
  have b: "bounded_failure LaunchFailed [0x68, 0x69] = ?f"
    by (simp add: bounded_failure_def MAX_LAUNCH_FAILURE_MESSAGE_BYTES_def)
  have "encode_host_launch_failure ?f = Inr [1, 0, 2, 0, 0x68, 0x69]"
    by code_simp
  with launch_failure_exact [of "[1, 0, 2, 0, 0x68, 0x69]" ?f "[0x68, 0x69]" LaunchFailed] v
  have "decode_host_launch_failure [1, 0, 2, 0, 0x68, 0x69] = Inr ?f"
    by simp
  with v b show ?thesis by simp
qed

end
