(* ===== verification/HostHandshake.thy ===== *)
theory HostHandshake
  imports HostStream
begin

text \<open>
  Identities, capabilities and the bootstrap of terminal hosts (\<open>cmux-tui-core/src/terminal_host.rs\<close>).
  Fixed-size arrays are byte lists of that length; instants and durations are numbers of nanoseconds,
  \<open>latest\<close> the last instant the platform can represent. Random bytes and the results of reading and
  writing are arguments; \<open>None\<close> in the list of random bytes is a failure of the generator.
\<close>

unbundle bit_operations_syntax

definition CAPABILITY_TOKEN_LEN :: nat where "CAPABILITY_TOKEN_LEN = 32"
definition TERMINAL_ID_LEN :: nat where "TERMINAL_ID_LEN = 16"
definition CLIENT_HELLO_LEN :: nat where "CLIENT_HELLO_LEN = 60"
definition HOST_HELLO_LEN :: nat where "HOST_HELLO_LEN = 40"
definition BOOTSTRAP_LEN :: nat where "BOOTSTRAP_LEN = 52"
definition READY_LEN :: nat where "READY_LEN = 34"
definition MAX_HANDSHAKE_PAYLOAD :: nat where "MAX_HANDSHAKE_PAYLOAD = 4096"

lemmas handshake_lens = CAPABILITY_TOKEN_LEN_def TERMINAL_ID_LEN_def CLIENT_HELLO_LEN_def HOST_HELLO_LEN_def
  BOOTSTRAP_LEN_def READY_LEN_def

type_synonym terminal_id = bytes
type_synonym incarnation = bytes
type_synonym token = bytes
type_synonym rights = u32

datatype malformed = BadClientHelloLength | NonzeroClientHelloReserved | UnknownRights | UnknownClientRole
  | BadHostHelloLength | NonzeroHostHelloReserved | BadBootstrapLength | ZeroOwnerToken | BadReadyLength
  | MissingBootstrapFrame

datatype handshake_error =
    Protocol protocol_error
  | RandomnessUnavailable
  | MalformedPayload malformed
  | UnexpectedMessage message_kind message_kind
  | UnsupportedVersion u16 u16 u16 u16
  | CapabilityDenied
  | CapabilityCapacity

section \<open>Identities\<close>

definition lower_hex_byte :: "u8 \<Rightarrow> bool" where
  "lower_hex_byte b = ((0x30 \<le> b \<and> b \<le> 0x39) \<or> (0x61 \<le> b \<and> b \<le> 0x66))"

definition hex_nibble :: "u8 \<Rightarrow> u8 option" where
  "hex_nibble b =
     (if 0x30 \<le> b \<and> b \<le> 0x39 then Some (b - 0x30)
      else if 0x61 \<le> b \<and> b \<le> 0x66 then Some (b - 0x61 + 10)
      else None)"

text \<open>The loop over \<open>chunks_exact(2)\<close>.\<close>

fun hex_pairs :: "bytes \<Rightarrow> bytes option" where
  "hex_pairs (a # b # rest) =
     Option.bind (hex_nibble a) (\<lambda>x. Option.bind (hex_nibble b) (\<lambda>y.
       map_option (\<lambda>bs. (push_bit 4 x OR y) # bs) (hex_pairs rest)))"
| "hex_pairs _ = Some []"

definition terminal_id_from_hex :: "bytes \<Rightarrow> terminal_id option" where
  "terminal_id_from_hex value =
     (if length value \<noteq> TERMINAL_ID_LEN * 2 \<or> \<not> list_all lower_hex_byte value \<or> value ! 12 \<noteq> 0x34
         \<or> \<not> (0x38 \<le> value ! 16 \<and> value ! 16 \<le> 0x62)
      then None else hex_pairs value)"

definition hex_alphabet :: bytes where
  "hex_alphabet = [0x30, 0x31, 0x32, 0x33, 0x34, 0x35, 0x36, 0x37, 0x38, 0x39, 0x61, 0x62, 0x63, 0x64, 0x65, 0x66]"

definition terminal_id_to_hex :: "terminal_id \<Rightarrow> bytes" where
  "terminal_id_to_hex i = concat (map (\<lambda>b. [hex_alphabet ! unat (drop_bit 4 b), hex_alphabet ! unat (b AND 0x0F)]) i)"

definition incarnation_from_hex :: "bytes \<Rightarrow> incarnation option" where
  "incarnation_from_hex value = terminal_id_from_hex value"

definition incarnation_to_hex :: "incarnation \<Rightarrow> bytes" where
  "incarnation_to_hex i = terminal_id_to_hex i"

text \<open>The version and variant bits of a random UUID.\<close>

definition uuid_v4_bits :: "bytes \<Rightarrow> bytes" where
  "uuid_v4_bits bs =
     (let bs = bs[6 := (bs ! 6 AND 0x0F) OR 0x40] in bs[8 := (bs ! 8 AND 0x3F) OR 0x80])"

definition random_uuid_v4 :: "bytes option \<Rightarrow> handshake_error + bytes" where
  "random_uuid_v4 random = (case random of None \<Rightarrow> Inl RandomnessUnavailable | Some bs \<Rightarrow> Inr (uuid_v4_bits bs))"

definition token_eq :: "token \<Rightarrow> token \<Rightarrow> bool" where
  "token_eq a b = (fold (\<lambda>i d. d OR (a ! i XOR b ! i)) [0..<CAPABILITY_TOKEN_LEN] (0 :: u8) = 0)"

definition token_is_zero :: "token \<Rightarrow> bool" where
  "token_is_zero t = (fold (\<lambda>b d. d OR b) t (0 :: u8) = 0)"

section \<open>Rights and roles\<close>

definition RIGHT_READ :: rights where "RIGHT_READ = push_bit 0 1"
definition RIGHT_INPUT :: rights where "RIGHT_INPUT = push_bit 1 1"
definition RIGHT_RESIZE :: rights where "RIGHT_RESIZE = push_bit 2 1"
definition RIGHT_TERMINATE :: rights where "RIGHT_TERMINATE = push_bit 3 1"
definition RIGHT_MINT :: rights where "RIGHT_MINT = push_bit 4 1"
definition RIGHTS_RENDERER :: rights where "RIGHTS_RENDERER = RIGHT_READ OR RIGHT_INPUT OR RIGHT_RESIZE"
definition RIGHTS_ADMIN :: rights where "RIGHTS_ADMIN = RIGHTS_RENDERER OR RIGHT_TERMINATE OR RIGHT_MINT"

definition rights_from_bits :: "u32 \<Rightarrow> rights option" where
  "rights_from_bits bits = (if bits AND NOT RIGHTS_ADMIN = 0 then Some bits else None)"

definition rights_contain :: "rights \<Rightarrow> rights \<Rightarrow> bool" where
  "rights_contain r requested = (r AND requested = requested)"

definition rights_empty :: "rights \<Rightarrow> bool" where
  "rights_empty r = (r = 0)"

datatype client_role = DaemonMirror | Renderer | Admin

fun role_code :: "client_role \<Rightarrow> u8" where
  "role_code DaemonMirror = 1" | "role_code Renderer = 2" | "role_code Admin = 3"

definition role_of_code :: "u8 \<Rightarrow> handshake_error + client_role" where
  "role_of_code v =
     (if v = 1 then Inr DaemonMirror else if v = 2 then Inr Renderer else if v = 3 then Inr Admin
      else Inl (MalformedPayload UnknownClientRole))"

fun allowed_rights :: "client_role \<Rightarrow> rights" where
  "allowed_rights DaemonMirror = RIGHT_READ"
| "allowed_rights Renderer = RIGHTS_RENDERER"
| "allowed_rights Admin = RIGHTS_ADMIN"

section \<open>Payloads\<close>

record client_hello =
  ch_min_version :: u16
  ch_max_version :: u16
  ch_role :: client_role
  ch_requested :: rights
  ch_terminal :: terminal_id
  ch_token :: token

definition encode_client_hello :: "client_hello \<Rightarrow> bytes" where
  "encode_client_hello h =
     le_bytes (ch_min_version h) @ le_bytes (ch_max_version h) @ [role_code (ch_role h)] @ [0, 0, 0]
     @ le_bytes (ch_requested h) @ ch_terminal h @ ch_token h"

definition decode_client_hello :: "bytes \<Rightarrow> handshake_error + client_hello" where
  "decode_client_hello p =
     (if length p \<noteq> CLIENT_HELLO_LEN then Inl (MalformedPayload BadClientHelloLength)
      else if subslice 5 8 p \<noteq> [0, 0, 0] then Inl (MalformedPayload NonzeroClientHelloReserved)
      else (case rights_from_bits (le_word (subslice 8 12 p)) of
          None \<Rightarrow> Inl (MalformedPayload UnknownRights)
        | Some rights \<Rightarrow> rbind (role_of_code (p ! 4)) (\<lambda>role.
            Inr \<lparr>ch_min_version = le_word (subslice 0 2 p), ch_max_version = le_word (subslice 2 4 p), ch_role = role,
              ch_requested = rights, ch_terminal = subslice 12 28 p, ch_token = subslice 28 60 p\<rparr>)))"

record host_hello =
  hh_version :: u16
  hh_granted :: rights
  hh_terminal :: terminal_id
  hh_incarnation :: incarnation

definition encode_host_hello :: "host_hello \<Rightarrow> bytes" where
  "encode_host_hello h =
     le_bytes (hh_version h) @ [0, 0] @ le_bytes (hh_granted h) @ hh_terminal h @ hh_incarnation h"

definition decode_host_hello :: "bytes \<Rightarrow> handshake_error + host_hello" where
  "decode_host_hello p =
     (if length p \<noteq> HOST_HELLO_LEN then Inl (MalformedPayload BadHostHelloLength)
      else if subslice 2 4 p \<noteq> [0, 0] then Inl (MalformedPayload NonzeroHostHelloReserved)
      else (case rights_from_bits (le_word (subslice 4 8 p)) of
          None \<Rightarrow> Inl (MalformedPayload UnknownRights)
        | Some rights \<Rightarrow> Inr \<lparr>hh_version = le_word (subslice 0 2 p), hh_granted = rights,
            hh_terminal = subslice 8 24 p, hh_incarnation = subslice 24 40 p\<rparr>))"

record host_bootstrap =
  hb_min_version :: u16
  hb_max_version :: u16
  hb_terminal :: terminal_id
  hb_owner_token :: token

definition encode_bootstrap :: "host_bootstrap \<Rightarrow> bytes" where
  "encode_bootstrap b = le_bytes (hb_min_version b) @ le_bytes (hb_max_version b) @ hb_terminal b @ hb_owner_token b"

definition decode_bootstrap :: "bytes \<Rightarrow> handshake_error + host_bootstrap" where
  "decode_bootstrap p =
     (if length p \<noteq> BOOTSTRAP_LEN then Inl (MalformedPayload BadBootstrapLength)
      else if token_is_zero (subslice 20 52 p) then Inl (MalformedPayload ZeroOwnerToken)
      else Inr \<lparr>hb_min_version = le_word (subslice 0 2 p), hb_max_version = le_word (subslice 2 4 p),
        hb_terminal = subslice 4 20 p, hb_owner_token = subslice 20 52 p\<rparr>)"

record host_ready =
  hr_version :: u16
  hr_terminal :: terminal_id
  hr_incarnation :: incarnation

definition encode_ready :: "host_ready \<Rightarrow> bytes" where
  "encode_ready r = le_bytes (hr_version r) @ hr_terminal r @ hr_incarnation r"

definition decode_ready :: "bytes \<Rightarrow> handshake_error + host_ready" where
  "decode_ready p =
     (if length p \<noteq> READY_LEN then Inl (MalformedPayload BadReadyLength)
      else Inr \<lparr>hr_version = le_word (subslice 0 2 p), hr_terminal = subslice 2 18 p, hr_incarnation = subslice 18 34 p\<rparr>)"

definition client_hello_frame :: "client_hello \<Rightarrow> u64 \<Rightarrow> frame" where
  "client_hello_frame h i = (frame_new ClientHello (encode_client_hello h))\<lparr>request_id := i\<rparr>"

definition bootstrap_frame :: "host_bootstrap \<Rightarrow> u64 \<Rightarrow> frame" where
  "bootstrap_frame b i = (frame_new Bootstrap (encode_bootstrap b))\<lparr>request_id := i\<rparr>"

section \<open>Versions\<close>

definition negotiate_version :: "u16 \<Rightarrow> u16 \<Rightarrow> u16 \<Rightarrow> u16 \<Rightarrow> handshake_error + u16" where
  "negotiate_version client_min client_max host_min host_max =
     (if client_min = 0 \<or> host_min = 0 \<or> client_max < client_min \<or> host_max < host_min
         \<or> client_max < host_min \<or> host_max < client_min
      then Inl (UnsupportedVersion client_min client_max host_min host_max)
      else Inr (min client_max host_max))"

section \<open>The store of capabilities\<close>

record grant =
  gr_token :: token
  gr_terminal :: terminal_id
  gr_rights :: rights
  gr_expires_at :: nat

record capability_store =
  grants :: "grant list"
  max_grants :: nat

definition store_new :: "nat \<Rightarrow> capability_store" where
  "store_new n = \<lparr>grants = [], max_grants = n\<rparr>"

definition retain_live :: "nat \<Rightarrow> capability_store \<Rightarrow> capability_store" where
  "retain_live now s = s\<lparr>grants := filter (\<lambda>g. now < gr_expires_at g) (grants s)\<rparr>"

text \<open>The loop that draws a token; \<open>None\<close> when the random bytes given end before it does.\<close>

fun fresh_token :: "grant list \<Rightarrow> token option list \<Rightarrow> (handshake_error + token) option" where
  "fresh_token gs [] = None"
| "fresh_token gs (None # _) = Some (Inl RandomnessUnavailable)"
| "fresh_token gs (Some candidate # random) =
     (if \<not> list_ex (\<lambda>g. token_eq (gr_token g) candidate) gs then Some (Inr candidate) else fresh_token gs random)"

definition mint ::
    "nat \<Rightarrow> nat \<Rightarrow> capability_store \<Rightarrow> terminal_id \<Rightarrow> rights \<Rightarrow> nat \<Rightarrow> token option list
     \<Rightarrow> ((handshake_error + token) \<times> capability_store) option" where
  "mint latest now s terminal rights ttl random =
     (if rights_empty rights then Some (Inl CapabilityDenied, s)
      else
        let s = retain_live now s in
        if max_grants s \<le> length (grants s) then Some (Inl CapabilityCapacity, s)
        else map_option (\<lambda>drawn. case drawn of
            Inl e \<Rightarrow> (Inl e, s)
          | Inr t \<Rightarrow> (Inr t, s\<lparr>grants := grants s @ [\<lparr>gr_token = t, gr_terminal = terminal, gr_rights = rights,
              gr_expires_at = (if now + ttl \<le> latest then now + ttl else now)\<rparr>]\<rparr>))
          (fresh_token (grants s) random))"

definition accept ::
    "nat \<Rightarrow> capability_store \<Rightarrow> client_hello \<Rightarrow> u16 \<Rightarrow> u16 \<Rightarrow> incarnation
     \<Rightarrow> (handshake_error + host_hello) \<times> capability_store" where
  "accept now s hello host_min host_max incarnation =
     (case negotiate_version (ch_min_version hello) (ch_max_version hello) host_min host_max of
        Inl e \<Rightarrow> (Inl e, s)
      | Inr selected \<Rightarrow>
          let s = retain_live now s in
          (case position (\<lambda>g. token_eq (gr_token g) (ch_token hello)) (grants s) of
             None \<Rightarrow> (Inl CapabilityDenied, s)
           | Some index \<Rightarrow>
               let g = grants s ! index; s = s\<lparr>grants := remove_at index (grants s)\<rparr> in
               if rights_empty (ch_requested hello)
                  \<or> \<not> rights_contain (allowed_rights (ch_role hello)) (ch_requested hello)
                  \<or> gr_terminal g \<noteq> ch_terminal hello \<or> \<not> rights_contain (gr_rights g) (ch_requested hello)
               then (Inl CapabilityDenied, s)
               else (Inr \<lparr>hh_version = selected, hh_granted = ch_requested hello, hh_terminal = ch_terminal hello,
                       hh_incarnation = incarnation\<rparr>, s)))"

definition active_grants :: "nat \<Rightarrow> capability_store \<Rightarrow> nat \<times> capability_store" where
  "active_grants now s = (let s = retain_live now s in (length (grants s), s))"

section \<open>The bootstrap of a host process\<close>

record bootstrapped_host =
  bh_terminal :: terminal_id
  bh_incarnation :: incarnation
  bh_owner_token :: token

text \<open>\<open>written\<close> is the result of writing and flushing the response; the bytes are those handed to the
  writer.\<close>

definition bootstrap_stdio_once ::
    "read_result list \<Rightarrow> bytes option \<Rightarrow> io_error option
     \<Rightarrow> handshake_error + bootstrapped_host \<times> bytes" where
  "bootstrap_stdio_once reader random written =
     (case read_frame reader MAX_HANDSHAKE_PAYLOAD of
        Inl e \<Rightarrow> Inl (Protocol e)
      | Inr None \<Rightarrow> Inl (MalformedPayload MissingBootstrapFrame)
      | Inr (Some (f, _)) \<Rightarrow>
          if kind f \<noteq> Bootstrap then Inl (UnexpectedMessage Bootstrap (kind f))
          else
            rbind (decode_bootstrap (payload f)) (\<lambda>b.
            rbind (negotiate_version (hb_min_version b) (hb_max_version b) PROTOCOL_VERSION PROTOCOL_VERSION) (\<lambda>selected.
              if version f \<noteq> selected then Inl (UnsupportedVersion (version f) (version f) selected selected)
              else
                rbind (random_uuid_v4 random) (\<lambda>incarnation.
                  let ready = \<lparr>hr_version = selected, hr_terminal = hb_terminal b, hr_incarnation = incarnation\<rparr>;
                      response = (frame_new Ready (encode_ready ready))\<lparr>version := selected, request_id := request_id f\<rparr>
                  in case encode_frame response of
                       Inl e \<Rightarrow> Inl (Protocol e)
                     | Inr bytes \<Rightarrow>
                         (case written of
                            Some e \<Rightarrow> Inl (Protocol (Io e))
                          | None \<Rightarrow> Inr (\<lparr>bh_terminal = hb_terminal b, bh_incarnation = incarnation,
                              bh_owner_token = hb_owner_token b\<rparr>, bytes))))))"

end
