(* ===== verification/Pairing.thy ===== *)
theory Pairing
  imports Bytes "HOL-Library.AList" "HOL-Library.Char_ord"
begin

unbundle bit_operations_syntax

text \<open>
  Pairing of browsers with a trusted TUI (\<open>cmux-tui-core/src/pairing.rs\<close>). Instants and
  durations are nanoseconds. The operating system's randomness is a parameter, the list of the
  results its calls give (\<open>None\<close> a failure); so are the text of an address and the durable
  commit. A locked section is one step; the channel of a request is the request's id, and a
  decision sent is part of the result.
\<close>

definition NANOS :: nat where "NANOS = 10 ^ 9"
definition CHALLENGE_TTL :: nat where "CHALLENGE_TTL = 60 * NANOS"
definition CREDENTIAL_TTL :: nat where "CREDENTIAL_TTL = 8 * 60 * 60 * NANOS"
definition RATE_WINDOW :: nat where "RATE_WINDOW = 60 * NANOS"
definition MAX_REQUESTS_PER_WINDOW :: nat where "MAX_REQUESTS_PER_WINDOW = 5"
definition MAX_PENDING :: nat where "MAX_PENDING = 16"
definition MAX_CREDENTIALS :: nat where "MAX_CREDENTIALS = 64"

record challenge =
  ch_id :: u64
  ch_code :: string
  ch_peer :: string
  ch_expires_in :: u64

datatype decision = Approved bytes | Denied

datatype pairing_error = RateLimited | AlreadyPending | Busy | RandomnessUnavailable

record 'ip pending_pairing =
  pp_challenge :: challenge
  pp_peer :: 'ip
  pp_expires_at :: nat

record credential =
  cred_value :: bytes
  cred_expires_at :: nat

record 'ip pairing =
  requests :: "(u64 \<times> 'ip pending_pairing) list"
  recent :: "('ip \<times> nat list) list"
  credentials :: "credential list"

definition pairing_new :: "'ip pairing" where
  "pairing_new = \<lparr>requests = [], recent = [], credentials = []\<rparr>"

definition expire_front :: "nat \<Rightarrow> nat list \<Rightarrow> nat list" where
  "expire_front now = dropWhile (\<lambda>created. RATE_WINDOW \<le> now - created)"

definition prune :: "nat \<Rightarrow> 'ip pairing \<Rightarrow> 'ip pairing" where
  "prune now st =
     st\<lparr>requests := filter (\<lambda>(i, r). now < pp_expires_at r) (requests st),
        credentials := filter (\<lambda>c. now < cred_expires_at c) (credentials st),
        recent := filter (\<lambda>(p, ts). ts \<noteq> []) (map (\<lambda>(p, ts). (p, expire_front now ts)) (recent st))\<rparr>"

definition recent_of :: "'ip pairing \<Rightarrow> 'ip \<Rightarrow> nat list" where
  "recent_of st p = (case map_of (recent st) p of Some ts \<Rightarrow> ts | None \<Rightarrow> [])"

definition set_recent :: "'ip \<Rightarrow> nat list \<Rightarrow> 'ip pairing \<Rightarrow> 'ip pairing" where
  "set_recent p ts st = st\<lparr>recent := AList.update p ts (recent st)\<rparr>"

text \<open>The loop that draws an id; \<open>None\<close> when the list of random numbers ends before it.\<close>

fun fresh_request_id :: "u64 set \<Rightarrow> u64 option list \<Rightarrow> ((pairing_error + u64) \<times> u64 option list) option" where
  "fresh_request_id used [] = None"
| "fresh_request_id used (None # rng) = Some (Inl RandomnessUnavailable, rng)"
| "fresh_request_id used (Some c # rng) =
     (if c \<noteq> 0 \<and> c \<notin> used then Some (Inr c, rng) else fresh_request_id used rng)"

text \<open>\<open>{number:06}\<close> of a number below a million.\<close>

fun decimal_digits :: "nat \<Rightarrow> nat \<Rightarrow> string" where
  "decimal_digits 0 n = []"
| "decimal_digits (Suc w) n = decimal_digits w (n div 10) @ [char_of (48 + n mod 10)]"

definition challenge_code :: "u64 \<Rightarrow> string" where
  "challenge_code number = (let digits = decimal_digits 6 (unat (number mod 1000000)) in
     take 3 digits @ '' '' @ drop 3 digits)"

definition pairing_begin ::
    "('ip \<Rightarrow> string) \<Rightarrow> nat \<Rightarrow> 'ip \<Rightarrow> u64 option list \<Rightarrow> 'ip pairing
     \<Rightarrow> ((pairing_error + challenge) \<times> 'ip pairing) option" where
  "pairing_begin show_ip now peer rng st =
     (let st = prune now st in
      if peer \<in> pp_peer ` snd ` set (requests st) then Some (Inl AlreadyPending, st)
      else if MAX_PENDING \<le> length (requests st) then Some (Inl Busy, st)
      else
        let ts = expire_front now (recent_of st peer); st = set_recent peer ts st in
        if MAX_REQUESTS_PER_WINDOW \<le> length ts then Some (Inl RateLimited, st)
        else Option.bind (fresh_request_id (fst ` set (requests st)) rng) (\<lambda>(i, rng).
          case i of
            Inl e \<Rightarrow> Some (Inl e, st)
          | Inr i \<Rightarrow>
              (case rng of
                 [] \<Rightarrow> None
               | None # _ \<Rightarrow> Some (Inl RandomnessUnavailable, st)
               | Some number # _ \<Rightarrow>
                   let ch = \<lparr>ch_id = i, ch_code = challenge_code number, ch_peer = show_ip peer,
                             ch_expires_in = word_of_nat (CHALLENGE_TTL div NANOS)\<rparr>;
                       st = set_recent peer (recent_of st peer @ [now]) st
                   in Some (Inr ch,
                        st\<lparr>requests := AList.update i
                             \<lparr>pp_challenge = ch, pp_peer = peer, pp_expires_at = now + CHALLENGE_TTL\<rparr>
                             (requests st)\<rparr>))))"

datatype 'e respond_error = NoCredential | NoMemory | CommitFailed 'e

text \<open>\<open>credential\<close> is the result of \<open>random_credential\<close> and \<open>reserved\<close> the one of
  \<open>try_reserve\<close>. The result: nothing for an unknown request, or the committed value with the
  decision sent to the requester.\<close>

definition respond_after ::
    "nat \<Rightarrow> u64 \<Rightarrow> bool \<Rightarrow> bytes option \<Rightarrow> bool \<Rightarrow> (challenge \<Rightarrow> 'e + 'r) \<Rightarrow> 'ip pairing
     \<Rightarrow> ('e respond_error + ('r \<times> decision) option) \<times> 'ip pairing" where
  "respond_after now i approve credential reserved commit st =
     (let st = prune now st in
      case map_of (requests st) i of
        None \<Rightarrow> (Inr None, st)
      | Some r \<Rightarrow>
          if approve \<and> credential = None then (Inl NoCredential, st)
          else if approve \<and> \<not> reserved then (Inl NoMemory, st)
          else (case commit (pp_challenge r) of
              Inl e \<Rightarrow> (Inl (CommitFailed e), st)
            | Inr committed \<Rightarrow>
                let st = st\<lparr>requests := AList.delete i (requests st)\<rparr> in
                (case (if approve then credential else None) of
                   Some v \<Rightarrow>
                     let cs = credentials st @ [\<lparr>cred_value = v, cred_expires_at = now + CREDENTIAL_TTL\<rparr>]
                     in (Inr (Some (committed, Approved v)),
                         st\<lparr>credentials := drop (length cs - MAX_CREDENTIALS) cs\<rparr>)
                 | None \<Rightarrow> (Inr (Some (committed, Denied)), st))))"

definition respond ::
    "nat \<Rightarrow> u64 \<Rightarrow> bool \<Rightarrow> bytes option \<Rightarrow> bool \<Rightarrow> 'ip pairing \<Rightarrow> bool \<times> 'ip pairing" where
  "respond now i approve credential reserved st =
     (case respond_after now i approve credential reserved (\<lambda>_. Inr () :: unit + unit) st of
        (Inr (Some _), st) \<Rightarrow> (True, st) | (_, st) \<Rightarrow> (False, st))"

definition cancel :: "u64 \<Rightarrow> 'ip pairing \<Rightarrow> bool \<times> 'ip pairing" where
  "cancel i st = (map_of (requests st) i \<noteq> None, st\<lparr>requests := AList.delete i (requests st)\<rparr>)"

text \<open>\<open>usize\<close> is 64 bits wide.\<close>

definition constant_time_eq :: "bytes \<Rightarrow> bytes \<Rightarrow> bool" where
  "constant_time_eq a b =
     (let get = (\<lambda>xs i. case nth_opt xs i of Some x \<Rightarrow> x | None \<Rightarrow> 0);
          difference = fold (\<lambda>i d. d OR ucast (get a i XOR get b i)) [0..<max (length a) (length b)]
            (word_of_nat (length a) XOR word_of_nat (length b))
      in difference = (0 :: u64))"

definition authenticate :: "nat \<Rightarrow> bytes \<Rightarrow> 'ip pairing \<Rightarrow> bool \<times> 'ip pairing" where
  "authenticate now provided st =
     (let st = prune now st in
      (list_ex (\<lambda>c. constant_time_eq provided (cred_value c)) (credentials st), st))"

definition pending_challenges :: "nat \<Rightarrow> 'ip pairing \<Rightarrow> challenge list \<times> 'ip pairing" where
  "pending_challenges now st = (let st = prune now st in (map (pp_challenge \<circ> snd) (requests st), st))"

section \<open>Comparing in constant time\<close>

lemma xor_eq_0: "x XOR y = 0 \<longleftrightarrow> x = (y :: 'a::len word)"
  by (auto simp: bit_eq_iff bit_xor_iff)

lemma fold_or_eq_0:
  fixes d :: "'a::len word"
  shows "fold (\<lambda>i d. d OR f i) xs d = 0 \<longleftrightarrow> d = 0 \<and> (\<forall>i \<in> set xs. f i = 0)"
  by (induction xs arbitrary: d) (auto simp: or_eq_0_iff)

lemma constant_time_eq_iff:
  assumes "length a < 2 ^ 64" and "length b < 2 ^ 64"
  shows "constant_time_eq a b \<longleftrightarrow> a = b"
proof -
  let ?get = "\<lambda>xs i. case nth_opt xs i of Some x \<Rightarrow> x | None \<Rightarrow> (0 :: u8)"
  have len: "(word_of_nat (length a) XOR word_of_nat (length b) :: u64) = 0 \<longleftrightarrow> length a = length b"
  proof -
    have "unat (word_of_nat (length a) :: u64) = length a" "unat (word_of_nat (length b) :: u64) = length b"
      using assms by (simp_all add: unat_word_of_nat_small)
    then have "(word_of_nat (length a) :: u64) = word_of_nat (length b) \<longleftrightarrow> length a = length b"
      by metis
    then show ?thesis
      by (simp add: xor_eq_0)
  qed
  have byte: "(ucast (x XOR y) :: u64) = 0 \<longleftrightarrow> x = y" for x y :: u8
  proof -
    have "unat (ucast (x XOR y) :: u64) = unat (x XOR y)"
      by (rule unat_ucast_up) simp
    then have "(ucast (x XOR y) :: u64) = 0 \<longleftrightarrow> x XOR y = 0"
      by (metis unat_eq_zero)
    then show ?thesis
      by (simp add: xor_eq_0)
  qed
  have "constant_time_eq a b \<longleftrightarrow> length a = length b \<and>
      (\<forall>i \<in> set [0..<max (length a) (length b)]. ?get a i = ?get b i)"
    by (simp only: constant_time_eq_def Let_def fold_or_eq_0 len byte)
  also have "\<dots> \<longleftrightarrow> a = b"
    by (auto simp: nth_opt_def intro: nth_equalityI)
  finally show ?thesis .
qed

end
