(* ===== verification/HandshakeProps.thy ===== *)
theory HandshakeProps
  imports HostHandshake HostProps Pairing "HOL-Library.Multiset"
begin

text \<open>
  What the handshake of terminal hosts guarantees: payloads and identities have one spelling, a version is
  the highest both sides speak, and a capability is good for one attempt within the rights, terminal and
  time it was minted for, in every run of the store.
\<close>

unbundle bit_operations_syntax

section \<open>Payloads\<close>

definition rights_known :: "rights \<Rightarrow> bool" where
  "rights_known r \<longleftrightarrow> r AND NOT RIGHTS_ADMIN = 0"

lemma rights_from_bits_Some [simp]: "rights_from_bits b = Some r \<longleftrightarrow> b = r \<and> rights_known r"
  by (auto simp: rights_from_bits_def rights_known_def)

lemma rights_from_bits_None: "rights_from_bits b = None \<longleftrightarrow> \<not> rights_known b"
  by (simp add: rights_from_bits_def rights_known_def)

lemma role_of_code_Inr [simp]: "role_of_code v = Inr r \<longleftrightarrow> v = role_code r"
  by (cases r) (auto simp: role_of_code_def)

definition client_hello_ok :: "client_hello \<Rightarrow> bool" where
  "client_hello_ok h \<longleftrightarrow> rights_known (ch_requested h) \<and> length (ch_terminal h) = 16 \<and> length (ch_token h) = 32"

definition host_hello_ok :: "host_hello \<Rightarrow> bool" where
  "host_hello_ok h \<longleftrightarrow> rights_known (hh_granted h) \<and> length (hh_terminal h) = 16 \<and> length (hh_incarnation h) = 16"

definition bootstrap_ok :: "host_bootstrap \<Rightarrow> bool" where
  "bootstrap_ok b \<longleftrightarrow> length (hb_terminal b) = 16 \<and> length (hb_owner_token b) = 32 \<and> (\<exists>x \<in> set (hb_owner_token b). x \<noteq> 0)"

definition ready_ok :: "host_ready \<Rightarrow> bool" where
  "ready_ok r \<longleftrightarrow> length (hr_terminal r) = 16 \<and> length (hr_incarnation r) = 16"

lemma token_zero_iff: "token_is_zero t \<longleftrightarrow> (\<forall>x \<in> set t. x = 0)"
  unfolding token_is_zero_def by (simp only: fold_or_eq_0 [of "\<lambda>x. x"] simp_thms)

lemma subslice_0_Cons [simp]: "0 < j \<Longrightarrow> subslice 0 j (x # xs) = x # subslice 0 (j - 1) xs" "subslice 0 0 xs = []"
  by (cases j) (auto simp: subslice_def)

lemma ready_decodes: "decode_ready p = Inr r \<longleftrightarrow> ready_ok r \<and> encode_ready r = p"
proof
  assume "ready_ok r \<and> encode_ready r = p"
  then show "decode_ready p = Inr r"
    by (cases r) (auto simp: decode_ready_def encode_ready_def ready_ok_def READY_LEN_def)
next
  assume r: "decode_ready p = Inr r"
  then have "length p = 34"
    by (auto simp: decode_ready_def READY_LEN_def split: if_splits)
  with r show "ready_ok r \<and> encode_ready r = p"
    by (auto simp: decode_ready_def encode_ready_def ready_ok_def READY_LEN_def le_bytes_le_word slice_split)
qed

lemma bootstrap_decodes: "decode_bootstrap p = Inr b \<longleftrightarrow> bootstrap_ok b \<and> encode_bootstrap b = p"
proof
  assume "bootstrap_ok b \<and> encode_bootstrap b = p"
  then show "decode_bootstrap p = Inr b"
    by (cases b) (auto simp: decode_bootstrap_def encode_bootstrap_def bootstrap_ok_def BOOTSTRAP_LEN_def token_zero_iff)
next
  assume b: "decode_bootstrap p = Inr b"
  then have "length p = 52"
    by (auto simp: decode_bootstrap_def BOOTSTRAP_LEN_def split: if_splits)
  with b show "bootstrap_ok b \<and> encode_bootstrap b = p"
    by (auto simp: decode_bootstrap_def encode_bootstrap_def bootstrap_ok_def BOOTSTRAP_LEN_def token_zero_iff
        le_bytes_le_word slice_split split: if_splits)
qed

lemma host_hello_decodes: "decode_host_hello p = Inr h \<longleftrightarrow> host_hello_ok h \<and> encode_host_hello h = p"
proof
  assume "host_hello_ok h \<and> encode_host_hello h = p"
  then show "decode_host_hello p = Inr h"
    by (cases h) (auto simp: decode_host_hello_def encode_host_hello_def host_hello_ok_def HOST_HELLO_LEN_def
        rights_from_bits_None split: option.split)
next
  assume h: "decode_host_hello p = Inr h"
  then have p: "length p = 40" "[0, 0] = subslice 2 4 p"
    by (auto simp: decode_host_hello_def HOST_HELLO_LEN_def split: if_splits)
  then have "subslice 0 2 p @ [0, 0] @ subslice 4 40 p = p"
    unfolding p(2) by (simp add: slice_split)
  with h p(1) show "host_hello_ok h \<and> encode_host_hello h = p"
    unfolding encode_host_hello_def
    by (auto simp: decode_host_hello_def host_hello_ok_def HOST_HELLO_LEN_def le_bytes_le_word slice_split
        split: option.splits if_splits)
qed

lemma client_hello_decodes: "decode_client_hello p = Inr h \<longleftrightarrow> client_hello_ok h \<and> encode_client_hello h = p"
proof
  assume "client_hello_ok h \<and> encode_client_hello h = p"
  then show "decode_client_hello p = Inr h"
    by (cases h) (auto simp: decode_client_hello_def encode_client_hello_def client_hello_ok_def CLIENT_HELLO_LEN_def
        rights_from_bits_None nth_append result_rules split: option.split)
next
  assume h: "decode_client_hello p = Inr h"
  then have p: "length p = 60" "[0, 0, 0] = subslice 5 8 p"
    by (auto simp: decode_client_hello_def CLIENT_HELLO_LEN_def split: if_splits)
  then have role: "[p ! 4] = subslice 4 5 p"
    by (simp add: subslice_def take_Suc_conv_app_nth hd_drop_conv_nth Cons_nth_drop_Suc [symmetric])
  have "subslice 0 2 p @ subslice 2 4 p @ [p ! 4] @ [0, 0, 0] @ subslice 8 60 p = p"
    unfolding p(2) role by (simp add: slice_split p(1))
  with h p(1) show "client_hello_ok h \<and> encode_client_hello h = p"
    unfolding encode_client_hello_def
    by (auto simp: decode_client_hello_def client_hello_ok_def CLIENT_HELLO_LEN_def le_bytes_le_word slice_split
        result_rules split: option.splits if_splits)
qed

section \<open>Versions\<close>

text \<open>The highest version both ranges hold, and neither range begins at zero.\<close>

definition greatest_version :: "u16 \<Rightarrow> u16 \<Rightarrow> u16 \<Rightarrow> u16 \<Rightarrow> u16 \<Rightarrow> bool" where
  "greatest_version v a b c d \<longleftrightarrow> a \<noteq> 0 \<and> c \<noteq> 0 \<and> v \<in> {a..b} \<inter> {c..d} \<and> (\<forall>w \<in> {a..b} \<inter> {c..d}. w \<le> v)"

lemma negotiated_greatest: "negotiate_version a b c d = Inr v \<longleftrightarrow> greatest_version v a b c d"
proof
  assume "negotiate_version a b c d = Inr v"
  then have "a \<noteq> 0" "c \<noteq> 0" "a \<le> b" "c \<le> d" "c \<le> b" "a \<le> d" "v = min b d"
    by (auto simp: negotiate_version_def not_less split: if_splits)
  then show "greatest_version v a b c d"
    unfolding greatest_version_def by auto
next
  assume "greatest_version v a b c d"
  then have v: "a \<noteq> 0 \<and> c \<noteq> 0 \<and> v \<in> {a..b} \<inter> {c..d} \<and> (\<forall>w \<in> {a..b} \<inter> {c..d}. w \<le> v)"
    unfolding greatest_version_def .
  then have "min b d \<in> {a..b} \<inter> {c..d}"
    by (auto simp: min_def)
  with v have "v = min b d"
    by (auto intro: antisym)
  with v show "negotiate_version a b c d = Inr v"
    by (auto simp: negotiate_version_def not_less)
qed

section \<open>Identities\<close>

definition uuid_v4 :: "bytes \<Rightarrow> bool" where
  "uuid_v4 i \<longleftrightarrow> length i = 16 \<and> i ! 6 AND 0xF0 = 0x40 \<and> i ! 8 AND 0xC0 = 0x80"

lemma random_uuid_ok: "length bs = 16 \<Longrightarrow> uuid_v4 (uuid_v4_bits bs)"
  by (simp add: uuid_v4_def uuid_v4_bits_def Let_def bit.conj_disj_distrib2 and.assoc)

text \<open>A fact of all bytes, by trying them.\<close>

lemma all_bytes:
  assumes "list_all (\<lambda>n. P (word_of_nat n :: u8)) [0..<256]"
  shows "P b"
proof -
  have "unat b \<in> set [0..<256]"
    using unat_byte_less [of b] by simp
  with assms have "P (word_of_nat (unat b))"
    by (simp only: list_all_iff)
  then show ?thesis
    by simp
qed

lemma hex_nibble_iff: "hex_nibble b = Some x \<longleftrightarrow> unat x < 16 \<and> b = hex_alphabet ! unat x"
proof
  have "case hex_nibble b of None \<Rightarrow> True | Some x \<Rightarrow> unat x < 16 \<and> b = hex_alphabet ! unat x"
    by (rule all_bytes [of "\<lambda>b. case hex_nibble b of None \<Rightarrow> True | Some x \<Rightarrow> unat x < 16 \<and> b = hex_alphabet ! unat x"])
      code_simp
  then show "hex_nibble b = Some x \<Longrightarrow> unat x < 16 \<and> b = hex_alphabet ! unat x"
    by simp
next
  have "unat x < 16 \<longrightarrow> hex_nibble (hex_alphabet ! unat x) = Some x"
    by (rule all_bytes [of "\<lambda>x. unat x < 16 \<longrightarrow> hex_nibble (hex_alphabet ! unat x) = Some x"]) code_simp
  then show "unat x < 16 \<and> b = hex_alphabet ! unat x \<Longrightarrow> hex_nibble b = Some x"
    by simp
qed

text \<open>The two digits of a byte.\<close>

lemma hex_nibbles_cases:
  fixes b :: u8
  shows "unat (drop_bit 4 b) < 16" "unat (b AND 0x0F) < 16" "push_bit 4 (drop_bit 4 b) OR (b AND 0x0F) = b"
    "unat x < 16 \<Longrightarrow> unat y < 16 \<Longrightarrow> drop_bit 4 (push_bit 4 x OR y) = x"
    "unat x < 16 \<Longrightarrow> unat y < 16 \<Longrightarrow> (push_bit 4 x OR y) AND 0x0F = (y :: u8)"
proof -
  show "unat (drop_bit 4 b) < 16" "unat (b AND 0x0F) < 16" "push_bit 4 (drop_bit 4 b) OR (b AND 0x0F) = b"
    by (rule all_bytes [of "\<lambda>b. unat (drop_bit 4 b) < 16"], code_simp)
      (rule all_bytes [of "\<lambda>b. unat (b AND 0x0F) < 16"], code_simp,
       rule all_bytes [of "\<lambda>b. push_bit 4 (drop_bit 4 b) OR (b AND 0x0F) = b"], code_simp)
  have "unat x < 16 \<longrightarrow> list_all (\<lambda>n. drop_bit 4 (push_bit 4 x OR word_of_nat n) = x
      \<and> (push_bit 4 x OR word_of_nat n) AND 0x0F = (word_of_nat n :: u8)) [0..<16]"
    by (rule all_bytes [of "\<lambda>x. unat x < 16 \<longrightarrow> list_all (\<lambda>n. drop_bit 4 (push_bit 4 x OR word_of_nat n) = x
      \<and> (push_bit 4 x OR word_of_nat n) AND 0x0F = (word_of_nat n :: u8)) [0..<16]"]) code_simp
  then have all: "\<forall>n \<in> set [0..<16]. drop_bit 4 (push_bit 4 x OR word_of_nat n) = x
      \<and> (push_bit 4 x OR word_of_nat n) AND 0x0F = (word_of_nat n :: u8)" if "unat x < 16"
    using that by (simp only: list_all_iff simp_thms)
  have "drop_bit 4 (push_bit 4 x OR y) = x \<and> (push_bit 4 x OR y) AND 0x0F = y" if "unat x < 16" "unat y < 16"
    using bspec [OF all [OF that(1)], of "unat y"] that(2) by simp
  then show "unat x < 16 \<Longrightarrow> unat y < 16 \<Longrightarrow> drop_bit 4 (push_bit 4 x OR y) = x"
    "unat x < 16 \<Longrightarrow> unat y < 16 \<Longrightarrow> (push_bit 4 x OR y) AND 0x0F = y"
    by simp_all
qed

lemma hex_pairs_iff: "even (length s) \<Longrightarrow> hex_pairs s = Some bs \<longleftrightarrow> terminal_id_to_hex bs = s"
proof (induction s arbitrary: bs rule: hex_pairs.induct)
  case (1 a b rest)
  have "hex_pairs (a # b # rest) = Some bs \<longleftrightarrow>
      (\<exists>x y cs. hex_nibble a = Some x \<and> hex_nibble b = Some y \<and> terminal_id_to_hex cs = rest \<and> bs = (push_bit 4 x OR y) # cs)"
  proof -
    have "hex_pairs rest = Some cs \<longleftrightarrow> terminal_id_to_hex cs = rest" if "hex_nibble a = Some x" "hex_nibble b = Some y" for x y cs
      using 1 that by auto
    then show ?thesis
      by (simp add: bind_eq_Some_conv) (metis (no_types, lifting))
  qed
  also have "\<dots> \<longleftrightarrow> terminal_id_to_hex bs = a # b # rest"
    using hex_nibbles_cases unfolding hex_nibble_iff by (cases bs) (auto simp: terminal_id_to_hex_def, metis hex_nibbles_cases)
  finally show ?case .
qed (auto simp: terminal_id_to_hex_def)

lemma to_hex_nth:
  "k < length i \<Longrightarrow> terminal_id_to_hex i ! (2 * k) = hex_alphabet ! unat (drop_bit 4 (i ! k))"
proof (induction i arbitrary: k)
  case (Cons b i)
  then show ?case
    by (cases k) (simp_all add: terminal_id_to_hex_def)
qed simp

lemma length_to_hex [simp]: "length (terminal_id_to_hex i) = 2 * length i"
  by (induction i) (simp_all add: terminal_id_to_hex_def)

lemma to_hex_lower: "list_all lower_hex_byte (terminal_id_to_hex i)"
proof -
  have "lower_hex_byte (hex_alphabet ! unat (drop_bit 4 b)) \<and> lower_hex_byte (hex_alphabet ! unat (b AND 0x0F))" for b :: u8
    by (rule all_bytes [of "\<lambda>b. lower_hex_byte (hex_alphabet ! unat (drop_bit 4 b))
      \<and> lower_hex_byte (hex_alphabet ! unat (b AND 0x0F))"]) code_simp
  then show ?thesis
    by (induction i) (simp_all add: terminal_id_to_hex_def)
qed

lemma version_digit: "hex_alphabet ! unat (drop_bit 4 (b :: u8)) = 0x34 \<longleftrightarrow> b AND 0xF0 = 0x40"
  by (rule all_bytes [of "\<lambda>b. hex_alphabet ! unat (drop_bit 4 b) = 0x34 \<longleftrightarrow> b AND 0xF0 = 0x40"]) code_simp

lemma variant_digit:
  "0x38 \<le> hex_alphabet ! unat (drop_bit 4 (b :: u8)) \<and> hex_alphabet ! unat (drop_bit 4 b) \<le> 0x62 \<longleftrightarrow> b AND 0xC0 = 0x80"
  by (rule all_bytes [of "\<lambda>b. 0x38 \<le> hex_alphabet ! unat (drop_bit 4 b)
    \<and> hex_alphabet ! unat (drop_bit 4 b) \<le> 0x62 \<longleftrightarrow> b AND 0xC0 = 0x80"]) code_simp

lemma from_hex_iff: "terminal_id_from_hex s = Some i \<longleftrightarrow> uuid_v4 i \<and> terminal_id_to_hex i = s"
proof (cases "length s = 32")
  case False
  then show ?thesis
    by (auto simp: terminal_id_from_hex_def TERMINAL_ID_LEN_def uuid_v4_def)
next
  case True
  then have pairs: "hex_pairs s = Some i \<longleftrightarrow> terminal_id_to_hex i = s"
    by (intro hex_pairs_iff) simp
  have "uuid_v4 i \<longleftrightarrow> list_all lower_hex_byte s \<and> s ! 12 = 0x34 \<and> 0x38 \<le> s ! 16 \<and> s ! 16 \<le> 0x62"
    if s: "terminal_id_to_hex i = s"
  proof -
    have len: "length i = 16"
      using True length_to_hex [of i] s by simp
    then have "s ! 12 = hex_alphabet ! unat (drop_bit 4 (i ! 6))" "s ! 16 = hex_alphabet ! unat (drop_bit 4 (i ! 8))"
      using to_hex_nth [of 6 i] to_hex_nth [of 8 i] s by simp_all
    with len s to_hex_lower [of i] show ?thesis
      using version_digit [of "i ! 6"] variant_digit [of "i ! 8"] by (simp add: uuid_v4_def)
  qed
  with True pairs show ?thesis
    by (auto simp: terminal_id_from_hex_def TERMINAL_ID_LEN_def)
qed

section \<open>Tokens and rights\<close>

lemma token_eq_iff: "length a = 32 \<Longrightarrow> length b = 32 \<Longrightarrow> token_eq a b \<longleftrightarrow> a = b"
  by (auto simp: token_eq_def CAPABILITY_TOKEN_LEN_def fold_or_eq_0 xor_eq_0 list_eq_iff_nth_eq)

lemma rights_contain_iff: "rights_contain r q \<longleftrightarrow> (\<forall>n. bit q n \<longrightarrow> bit r n)"
proof
  assume "rights_contain r q"
  then have "bit (r AND q) n \<longleftrightarrow> bit q n" for n
    by (simp add: rights_contain_def)
  then show "\<forall>n. bit q n \<longrightarrow> bit r n"
    by (auto simp: bit_and_iff)
next
  assume "\<forall>n. bit q n \<longrightarrow> bit r n"
  then show "rights_contain r q"
    unfolding rights_contain_def by (intro bit_word_eqI) (auto simp: bit_and_iff)
qed

section \<open>The store\<close>

text \<open>Tokens are 32 bytes and no two live grants share one.\<close>

definition store_ok :: "capability_store \<Rightarrow> bool" where
  "store_ok s \<longleftrightarrow> distinct (map gr_token (grants s)) \<and> (\<forall>g \<in> set (grants s). length (gr_token g) = 32)
     \<and> length (grants s) \<le> max_grants s"

lemma filter_store_ok: "store_ok s \<Longrightarrow> store_ok (s\<lparr>grants := filter P (grants s)\<rparr>)"
  by (auto simp: store_ok_def distinct_map inj_on_def intro: le_trans [OF length_filter_le])

lemma retain_ok: "store_ok s \<Longrightarrow> store_ok (retain_live now s)"
  by (simp add: retain_live_def filter_store_ok)

lemma retain_simps [simp]:
  "grants (retain_live now s) = filter (\<lambda>g. now < gr_expires_at g) (grants s)" "max_grants (retain_live now s) = max_grants s"
  by (simp_all add: retain_live_def)

lemma fresh_token_ok:
  assumes "fresh_token gs random = Some (Inr t)" and "\<forall>g \<in> set gs. length (gr_token g) = 32"
    and "\<forall>c. Some c \<in> set random \<longrightarrow> length c = 32"
  shows "length t = 32 \<and> t \<notin> gr_token ` set gs \<and> Some t \<in> set random"
  using assms
  by (induction gs random rule: fresh_token.induct) (auto simp: list_ex_iff token_eq_iff split: if_splits)

text \<open>What a grant allows.\<close>

definition allows :: "grant \<Rightarrow> client_hello \<Rightarrow> bool" where
  "allows g h \<longleftrightarrow> gr_terminal g = ch_terminal h \<and> ch_requested h \<noteq> 0
     \<and> rights_contain (gr_rights g) (ch_requested h) \<and> rights_contain (allowed_rights (ch_role h)) (ch_requested h)"

lemma position_token:
  assumes "distinct (map gr_token gs)" and "\<forall>g \<in> set gs. length (gr_token g) = 32" and "length t = 32"
  shows "case position (\<lambda>g. token_eq (gr_token g) t) gs of
      None \<Rightarrow> t \<notin> gr_token ` set gs
    | Some i \<Rightarrow> i < length gs \<and> gr_token (gs ! i) = t \<and> remove_at i gs = filter (\<lambda>g. gr_token g \<noteq> t) gs"
  using assms
proof (induction gs)
  case (Cons g gs)
  show ?case
  proof (cases "gr_token g = t")
    case True
    with Cons.prems have "filter (\<lambda>g. gr_token g \<noteq> t) gs = gs"
      by (auto simp: filter_id_conv) (metis image_eqI)
    with True Cons.prems show ?thesis
      by (simp add: token_eq_iff remove_at_def)
  next
    case False
    with Cons show ?thesis
      by (auto simp: token_eq_iff remove_at_def split: option.splits)
  qed
qed simp

lemma accept_denied:
  assumes "negotiate_version (ch_min_version h) (ch_max_version h) lo hi = Inl e"
  shows "accept now s h lo hi inc = (Inl e, s)"
  by (simp add: accept_def assms)

lemma accept_negotiated:
  assumes ok: "store_ok s" and t: "length (ch_token h) = 32"
    and v: "negotiate_version (ch_min_version h) (ch_max_version h) lo hi = Inr v"
  shows "\<exists>r. accept now s h lo hi inc
      = (r, s\<lparr>grants := filter (\<lambda>g. now < gr_expires_at g \<and> gr_token g \<noteq> ch_token h) (grants s)\<rparr>)
    \<and> (if \<exists>g \<in> set (grants s). gr_token g = ch_token h \<and> now < gr_expires_at g \<and> allows g h
       then r = Inr \<lparr>hh_version = v, hh_granted = ch_requested h, hh_terminal = ch_terminal h, hh_incarnation = inc\<rparr>
       else r = Inl CapabilityDenied)"
proof -
  let ?s = "retain_live now s"
  have ok': "store_ok ?s"
    by (rule retain_ok [OF ok])
  then have d: "distinct (map gr_token (grants ?s))" "\<forall>g \<in> set (grants ?s). length (gr_token g) = 32"
    by (simp_all add: store_ok_def)
  note pos = position_token [OF d t]
  show ?thesis
  proof (cases "position (\<lambda>g. token_eq (gr_token g) (ch_token h)) (grants ?s)")
    case None
    with pos have none: "ch_token h \<notin> gr_token ` set (grants ?s)"
      by simp
    then have same: "filter (\<lambda>g. now < gr_expires_at g \<and> gr_token g \<noteq> ch_token h) (grants s) = grants ?s"
      by (auto intro!: filter_cong simp: image_iff)
    have absent: "(\<exists>g \<in> set (grants s). gr_token g = ch_token h \<and> now < gr_expires_at g \<and> allows g h) \<longleftrightarrow> False"
      using none by force
    have state: "?s = s\<lparr>grants := filter (\<lambda>g. now < gr_expires_at g \<and> gr_token g \<noteq> ch_token h) (grants s)\<rparr>"
      unfolding same by (simp add: retain_live_def)
    have "accept now s h lo hi inc = (Inl CapabilityDenied, ?s)"
      using None by (simp add: accept_def v)
    then show ?thesis
      unfolding state absent by (intro exI [of _ "Inl CapabilityDenied"] conjI) (assumption, simp only: if_False)
  next
    case (Some i)
    with pos have i: "i < length (grants ?s)" "gr_token (grants ?s ! i) = ch_token h"
      and rem: "remove_at i (grants ?s) = filter (\<lambda>g. gr_token g \<noteq> ch_token h) (grants ?s)"
      by simp_all
    let ?g = "grants ?s ! i"
    have g: "?g \<in> set (grants s)" "now < gr_expires_at ?g"
      using nth_mem [OF i(1)] by auto
    have unique: "g = ?g" if "g \<in> set (grants s)" "gr_token g = ch_token h" "now < gr_expires_at g" for g
      using that d(1) i nth_mem [OF i(1)] by (auto simp: distinct_map inj_on_def)
    have "(\<exists>g \<in> set (grants s). gr_token g = ch_token h \<and> now < gr_expires_at g \<and> allows g h) \<longleftrightarrow> allows ?g h"
      using g i(2) unique by (metis (no_types))
    moreover have "remove_at i (grants ?s) = filter (\<lambda>g. now < gr_expires_at g \<and> gr_token g \<noteq> ch_token h) (grants s)"
      unfolding rem by (simp add: conj_commute)
    moreover have "?s\<lparr>grants := gs\<rparr> = s\<lparr>grants := gs\<rparr>" for gs
      by (simp add: retain_live_def)
    ultimately show ?thesis
      using Some by (auto simp: accept_def v Let_def allows_def rights_empty_def)
  qed
qed

lemma mint_ok:
  assumes ok: "store_ok s" and m: "mint latest now s terminal rights ttl random = Some (Inr t, s')"
    and random: "\<forall>c. Some c \<in> set random \<longrightarrow> length c = 32"
  shows "store_ok s'" and "max_grants s' = max_grants s" and "rights \<noteq> 0"
    and "grants s' = filter (\<lambda>g. now < gr_expires_at g) (grants s) @ [\<lparr>gr_token = t, gr_terminal = terminal, gr_rights = rights,
      gr_expires_at = (if now + ttl \<le> latest then now + ttl else now)\<rparr>]"
proof -
  let ?s = "retain_live now s"
  have r: "rights \<noteq> 0"
    using m by (auto simp: mint_def rights_empty_def)
  have room: "length (grants ?s) < max_grants s"
    using m r by (auto simp: mint_def Let_def rights_empty_def not_le split: if_splits)
  obtain drawn where drawn: "fresh_token (grants ?s) random = Some drawn"
    using m r room by (auto simp: mint_def Let_def rights_empty_def)
  then obtain t' where t': "drawn = Inr t'"
    using m r room by (cases drawn) (auto simp: mint_def Let_def rights_empty_def)
  have f: "fresh_token (grants ?s) random = Some (Inr t)"
    using m r room drawn t' by (simp add: mint_def Let_def rights_empty_def)
  have s': "s' = ?s\<lparr>grants := grants ?s @ [\<lparr>gr_token = t, gr_terminal = terminal, gr_rights = rights,
      gr_expires_at = (if now + ttl \<le> latest then now + ttl else now)\<rparr>]\<rparr>"
    using m r room f by (auto simp: mint_def Let_def rights_empty_def)
  have ok': "store_ok ?s"
    by (rule retain_ok [OF ok])
  have t: "length t = 32" "t \<notin> gr_token ` set (grants ?s)"
    using fresh_token_ok [OF f _ random] ok' by (auto simp: store_ok_def)
  show "store_ok s'"
    unfolding s' using ok' t room by (auto simp: store_ok_def)
  show "max_grants s' = max_grants s" "rights \<noteq> 0"
    "grants s' = filter (\<lambda>g. now < gr_expires_at g) (grants s) @ [\<lparr>gr_token = t, gr_terminal = terminal, gr_rights = rights,
      gr_expires_at = (if now + ttl \<le> latest then now + ttl else now)\<rparr>]"
    using r by (simp_all add: s')
qed

lemma not_minted:
  assumes "mint latest now s terminal rights ttl random = Some (Inl e, s')"
  shows "s' = s \<or> s' = retain_live now s"
  using assms
  by (cases "fresh_token (grants (retain_live now s)) random"; cases "the (fresh_token (grants (retain_live now s)) random)")
    (auto simp: mint_def Let_def split: if_splits)

section \<open>Runs\<close>

text \<open>\<open>cap_run latest n now s minted accepted\<close>: a store of capacity \<open>n\<close> is in state \<open>s\<close> at time \<open>now\<close> after the
  grants \<open>minted\<close> were given out and the hellos \<open>accepted\<close> let in, each with its time. Instants do not
  decrease, tokens are 32 bytes.\<close>

inductive cap_run ::
    "nat \<Rightarrow> nat \<Rightarrow> nat \<Rightarrow> capability_store \<Rightarrow> grant list \<Rightarrow> (client_hello \<times> nat) list \<Rightarrow> bool" for latest n where
  run_new: "cap_run latest n now (store_new n) [] []"
| run_wait: "cap_run latest n now s M A \<Longrightarrow> now \<le> later \<Longrightarrow> cap_run latest n later s M A"
| run_mint: "cap_run latest n now s M A \<Longrightarrow> \<forall>c. Some c \<in> set random \<longrightarrow> length c = 32 \<Longrightarrow>
    mint latest now s terminal rights ttl random = Some (Inr t, s') \<Longrightarrow>
    cap_run latest n now s' (M @ [\<lparr>gr_token = t, gr_terminal = terminal, gr_rights = rights,
      gr_expires_at = (if now + ttl \<le> latest then now + ttl else now)\<rparr>]) A"
| run_not_minted: "cap_run latest n now s M A \<Longrightarrow> mint latest now s terminal rights ttl random = Some (Inl e, s') \<Longrightarrow>
    cap_run latest n now s' M A"
| run_accept: "cap_run latest n now s M A \<Longrightarrow> length (ch_token h) = 32 \<Longrightarrow> accept now s h lo hi inc = (Inr r, s') \<Longrightarrow>
    cap_run latest n now s' M (A @ [(h, now)])"
| run_deny: "cap_run latest n now s M A \<Longrightarrow> length (ch_token h) = 32 \<Longrightarrow> accept now s h lo hi inc = (Inl e, s') \<Longrightarrow>
    cap_run latest n now s' M A"
| run_count: "cap_run latest n now s M A \<Longrightarrow> active_grants now s = (k, s') \<Longrightarrow> cap_run latest n now s' M A"

text \<open>A grant and the hello it let in at a time.\<close>

definition served :: "grant \<Rightarrow> client_hello \<times> nat \<Rightarrow> bool" where
  "served g a \<longleftrightarrow> gr_token g = ch_token (fst a) \<and> snd a < gr_expires_at g \<and> allows g (fst a)"

text \<open>Every accepted hello has used up a minted grant of its own.\<close>

definition accounted :: "capability_store \<Rightarrow> grant list \<Rightarrow> (client_hello \<times> nat) list \<Rightarrow> bool" where
  "accounted s M A \<longleftrightarrow> (\<exists>used. list_all2 served used A \<and> mset used + mset (grants s) \<subseteq># mset M)"

lemma accounted_fewer: "accounted s M A \<Longrightarrow> mset (grants s') \<subseteq># mset (grants s) \<Longrightarrow> accounted s' M A"
  unfolding accounted_def by (meson subset_mset.add_left_mono subset_mset.order_trans)

lemma mset_filter_without:
  assumes "g \<in> set gs" and "\<not> P g"
  shows "mset (filter P gs) + {#g#} \<subseteq># mset gs"
proof -
  have "{#g#} \<subseteq># mset (filter (\<lambda>x. \<not> P x) gs)"
    using assms by simp
  then have "mset (filter P gs) + {#g#} \<subseteq># mset (filter P gs) + mset (filter (\<lambda>x. \<not> P x) gs)"
    by (rule subset_mset.add_left_mono)
  then show ?thesis
    by (simp add: multiset_partition [symmetric])
qed

lemma accept_cases:
  assumes ok: "store_ok s" and t: "length (ch_token h) = 32" and a: "accept now s h lo hi inc = (r, s')"
  shows "store_ok s'" and "max_grants s' = max_grants s" and "mset (grants s') \<subseteq># mset (grants s)"
    and "r = Inr x \<Longrightarrow> \<exists>g \<in> set (grants s). served g (h, now) \<and> mset (grants s') + {#g#} \<subseteq># mset (grants s)"
proof -
  let ?P = "\<lambda>g. now < gr_expires_at g \<and> gr_token g \<noteq> ch_token h"
  have "s' = s \<and> (\<exists>e. r = Inl e) \<or> s' = s\<lparr>grants := filter ?P (grants s)\<rparr>
      \<and> ((\<exists>g \<in> set (grants s). served g (h, now)) \<or> (\<exists>e. r = Inl e))"
  proof (cases "negotiate_version (ch_min_version h) (ch_max_version h) lo hi")
    case (Inl e)
    with a show ?thesis
      by (auto simp: accept_denied)
  next
    case (Inr v)
    from accept_negotiated [OF ok t this, of now inc] a show ?thesis
      by (auto simp: served_def split: if_splits)
  qed
  then consider "s' = s" "\<exists>e. r = Inl e" | "s' = s\<lparr>grants := filter ?P (grants s)\<rparr>" "\<exists>e. r = Inl e"
    | g where "s' = s\<lparr>grants := filter ?P (grants s)\<rparr>" "g \<in> set (grants s)" "served g (h, now)"
    by blast
  then have "store_ok s' \<and> max_grants s' = max_grants s \<and> mset (grants s') \<subseteq># mset (grants s)
    \<and> (r = Inr x \<longrightarrow> (\<exists>g \<in> set (grants s). served g (h, now) \<and> mset (grants s') + {#g#} \<subseteq># mset (grants s)))"
  proof cases
    case (3 g)
    then have "mset (grants s') + {#g#} \<subseteq># mset (grants s)"
      using mset_filter_without [of g "grants s" ?P] by (simp add: served_def del: mset_filter)
    with 3 filter_store_ok [OF ok] show ?thesis
      by auto
  qed (use ok filter_store_ok [OF ok] in auto)
  then show "store_ok s'" "max_grants s' = max_grants s" "mset (grants s') \<subseteq># mset (grants s)"
    "r = Inr x \<Longrightarrow> \<exists>g \<in> set (grants s). served g (h, now) \<and> mset (grants s') + {#g#} \<subseteq># mset (grants s)"
    by blast+
qed

lemma cap_run_ok: "cap_run latest n now s M A \<Longrightarrow> store_ok s \<and> max_grants s = n \<and> accounted s M A"
proof (induction rule: cap_run.induct)
  case (run_new now)
  then show ?case
    by (simp add: store_ok_def store_new_def accounted_def)
next
  case (run_mint now s M A random terminal rights ttl t s')
  from run_mint.IH have ok: "store_ok s" and n: "max_grants s = n" and acc: "accounted s M A"
    by simp_all
  note m = mint_ok [OF ok run_mint.hyps(3,2)]
  obtain used where u: "list_all2 served used A" "mset used + mset (grants s) \<subseteq># mset M"
    using acc by (auto simp: accounted_def)
  have "mset (filter (\<lambda>g. now < gr_expires_at g) (grants s)) \<subseteq># mset (grants s)"
    by simp
  then have "mset used + mset (filter (\<lambda>g. now < gr_expires_at g) (grants s)) \<subseteq># mset used + mset (grants s)"
    by (rule subset_mset.add_left_mono)
  then have "mset used + mset (filter (\<lambda>g. now < gr_expires_at g) (grants s)) \<subseteq># mset M"
    using u(2) by (rule subset_mset.order_trans)
  then have "mset used + mset (grants s') \<subseteq># mset (M @ [\<lparr>gr_token = t, gr_terminal = terminal, gr_rights = rights,
      gr_expires_at = (if now + ttl \<le> latest then now + ttl else now)\<rparr>])"
    by (simp add: m(4))
  with u(1) m(1,2) n show ?case
    by (auto simp: accounted_def)
next
  case (run_not_minted now s M A terminal rights ttl random e s')
  with not_minted [OF run_not_minted.hyps(2)] show ?case
    by (auto simp: retain_ok intro: accounted_fewer)
next
  case (run_accept now s M A h lo hi inc r s')
  from run_accept.IH have ok: "store_ok s" and n: "max_grants s = n" and acc: "accounted s M A"
    by simp_all
  note c = accept_cases [OF ok run_accept.hyps(2,3)]
  obtain g where g: "served g (h, now)" "mset (grants s') + {#g#} \<subseteq># mset (grants s)"
    using c(4) by blast
  obtain used where u: "list_all2 served used A" "mset used + mset (grants s) \<subseteq># mset M"
    using acc by (auto simp: accounted_def)
  have "mset (used @ [g]) + mset (grants s') \<subseteq># mset used + mset (grants s)"
    using g(2) by (simp add: add.commute)
  with u(2) have "mset (used @ [g]) + mset (grants s') \<subseteq># mset M"
    by (rule subset_mset.order_trans [rotated])
  moreover have "list_all2 served (used @ [g]) (A @ [(h, now)])"
    using u(1) g(1) by (simp add: list_all2_appendI)
  ultimately show ?case
    using c(1,2) n unfolding accounted_def by blast
next
  case (run_deny now s M A h lo hi inc e s')
  with accept_cases(1-3) [OF _ run_deny.hyps(2,3)] show ?case
    by (auto intro: accounted_fewer)
next
  case (run_count now s M A k s')
  then show ?case
    by (auto simp: active_grants_def Let_def retain_ok intro: accounted_fewer)
qed simp

section \<open>The bootstrap\<close>

lemma encode_frame_small:
  assumes "version f \<noteq> 0" and "length (payload f) \<le> 4096"
  obtains out where "encode_frame f = Inr out" and "encode_all [f] = Inr out"
    and "parse_stream 4096 out = ([f], [], None)"
proof -
  have "is_ok (encode_header f MAX_FRAME_PAYLOAD)"
    using assms by (simp add: encode_header_ok_iff MAX_FRAME_PAYLOAD_def)
  then obtain h where h: "encode_header f MAX_FRAME_PAYLOAD = Inr h"
    by (cases "encode_header f MAX_FRAME_PAYLOAD") auto
  then have e: "encode_frame f = Inr (h @ payload f)"
    by (simp add: encode_frame_def)
  then have all: "encode_all [f] = Inr (h @ payload f)"
    by simp
  from parse_encoded_stream [OF all, of 4096] assms(2) e all show thesis
    by (intro that) auto
qed

lemma read_single:
  assumes "encode_frame f = Inr bytes" and "length (payload f) \<le> 4096" and "version f \<noteq> 0" and "reader_bytes reader = bytes"
  shows "\<exists>rest. read_frame reader MAX_HANDSHAKE_PAYLOAD = Inr (Some (f, rest))"
proof -
  have "parse_stream 4096 bytes = ([f], [], None)"
    using assms(1) by (rule_tac encode_frame_small [OF assms(3,2)]) simp
  with read_frame_spec [of MAX_HANDSHAKE_PAYLOAD reader "[f]" "[]" None] assms(4) show ?thesis
    by (auto simp: MAX_HANDSHAKE_PAYLOAD_def MAX_FRAME_PAYLOAD_def)
qed

section \<open>Properties\<close>

text \<open>C40. The four payloads of the handshake and the hexadecimal form of an identity have one spelling: a
  byte string decodes to a value exactly when it is the encoding of that valid value, so unknown rights,
  reserved bytes, a zero owner token, a wrong length or an identity that is no version-4 UUID are
  rejected.\<close>

theorem handshake_payloads_exact:
  "(decode_client_hello p = Inr ch \<longleftrightarrow> client_hello_ok ch \<and> encode_client_hello ch = p)
   \<and> (decode_host_hello p = Inr hh \<longleftrightarrow> host_hello_ok hh \<and> encode_host_hello hh = p)
   \<and> (decode_bootstrap p = Inr b \<longleftrightarrow> bootstrap_ok b \<and> encode_bootstrap b = p)
   \<and> (decode_ready p = Inr r \<longleftrightarrow> ready_ok r \<and> encode_ready r = p)
   \<and> (terminal_id_from_hex p = Some i \<longleftrightarrow> uuid_v4 i \<and> terminal_id_to_hex i = p)"
  using client_hello_decodes host_hello_decodes bootstrap_decodes ready_decodes from_hex_iff by simp

text \<open>C38. In every run of a capability store each accepted hello has used up a minted capability of its
  own, for its terminal, within the rights minted and the rights of its role, and before its expiry; the
  store never holds more than its capacity.\<close>

theorem capabilities_used_once:
  assumes "cap_run latest n now s M A"
  shows "\<exists>used. list_all2 served used A \<and> mset used + mset (grants s) \<subseteq># mset M \<and> length (grants s) \<le> n"
  using cap_run_ok [OF assms] by (auto simp: accounted_def store_ok_def)

definition demo_hello :: client_hello where
  "demo_hello = \<lparr>ch_min_version = 1, ch_max_version = 5, ch_role = Renderer, ch_requested = RIGHT_READ,
     ch_terminal = replicate 16 7, ch_token = replicate 32 9\<rparr>"

definition demo_grant :: grant where
  "demo_grant = \<lparr>gr_token = replicate 32 9, gr_terminal = replicate 16 7, gr_rights = RIGHTS_RENDERER, gr_expires_at = 20\<rparr>"

lemma demo_mint: "cap_run 100 4 10 (store_new 4\<lparr>grants := [demo_grant]\<rparr>) [demo_grant] []"
proof -
  have "mint 100 10 (store_new 4) (replicate 16 7) RIGHTS_RENDERER 10 [Some (replicate 32 9)]
      = Some (Inr (replicate 32 9), store_new 4\<lparr>grants := [demo_grant]\<rparr>)"
    by (simp add: mint_def store_new_def retain_live_def demo_grant_def rights_empty_def RIGHTS_RENDERER_def
        RIGHT_READ_def RIGHT_INPUT_def RIGHT_RESIZE_def)
  from run_mint [OF run_new _ this] show ?thesis
    by (simp add: demo_grant_def)
qed

lemma demo_allows: "allows demo_grant demo_hello"
  by (simp add: allows_def demo_grant_def demo_hello_def rights_contain_def RIGHTS_RENDERER_def RIGHT_READ_def
      RIGHT_INPUT_def RIGHT_RESIZE_def)

lemma demo_accept: "\<exists>r. accept 15 (store_new 4\<lparr>grants := [demo_grant]\<rparr>) demo_hello 3 3 (replicate 16 1)
    = (Inr r, store_new 4\<lparr>grants := []\<rparr>)"
proof -
  have ok: "store_ok (store_new 4\<lparr>grants := [demo_grant]\<rparr>)"
    using cap_run_ok [OF demo_mint] by blast
  have v: "negotiate_version (ch_min_version demo_hello) (ch_max_version demo_hello) 3 3 = Inr 3"
    by (simp add: negotiate_version_def demo_hello_def)
  have t: "length (ch_token demo_hello) = 32"
    by (simp add: demo_hello_def)
  from accept_negotiated [OF ok t v, of 15 "replicate 16 1"] demo_allows show ?thesis
    by (auto simp: demo_grant_def demo_hello_def)
qed

lemma capabilities_used_once_witness:
  "\<exists>s. cap_run 100 4 15 s [demo_grant] [(demo_hello, 15)] \<and> grants s = []
    \<and> (\<exists>used. list_all2 served used [(demo_hello, 15)] \<and> mset used \<subseteq># {#demo_grant#})"
proof -
  obtain r where r: "accept 15 (store_new 4\<lparr>grants := [demo_grant]\<rparr>) demo_hello 3 3 (replicate 16 1)
      = (Inr r, store_new 4\<lparr>grants := []\<rparr>)"
    using demo_accept by blast
  have "length (ch_token demo_hello) = 32"
    by (simp add: demo_hello_def)
  from run_accept [OF run_wait [OF demo_mint] this r] have run: "cap_run 100 4 15 (store_new 4\<lparr>grants := []\<rparr>)
      [demo_grant] [(demo_hello, 15)]"
    by simp
  from capabilities_used_once [OF this] run show ?thesis
    by (intro exI [of _ "store_new 4\<lparr>grants := []\<rparr>"]) auto
qed

text \<open>C39. An attempt succeeds exactly when the ranges of versions meet and a live grant with its token allows
  it; it then gets the requested rights at the highest common version. Once the versions met, the token is
  spent: no later attempt with it succeeds, whatever it asks for.\<close>

theorem accept_exact:
  assumes "cap_run latest n now s M A" and "length (ch_token h) = 32"
  shows "(fst (accept now s h lo hi inc) = Inr r \<longleftrightarrow>
      (\<exists>v. greatest_version v (ch_min_version h) (ch_max_version h) lo hi
        \<and> (\<exists>g \<in> set (grants s). gr_token g = ch_token h \<and> now < gr_expires_at g \<and> allows g h)
        \<and> r = \<lparr>hh_version = v, hh_granted = ch_requested h, hh_terminal = ch_terminal h, hh_incarnation = inc\<rparr>))
    \<and> ((\<exists>v. greatest_version v (ch_min_version h) (ch_max_version h) lo hi) \<longrightarrow> ch_token h' = ch_token h \<longrightarrow>
        fst (accept later (snd (accept now s h lo hi inc)) h' lo' hi' inc') \<noteq> Inr r')"
proof -
  have ok: "store_ok s"
    using cap_run_ok [OF assms(1)] by blast
  note acc = accept_negotiated [OF ok assms(2)]
  have first: "fst (accept now s h lo hi inc) = Inr r \<longleftrightarrow>
      (\<exists>v. greatest_version v (ch_min_version h) (ch_max_version h) lo hi
        \<and> (\<exists>g \<in> set (grants s). gr_token g = ch_token h \<and> now < gr_expires_at g \<and> allows g h)
        \<and> r = \<lparr>hh_version = v, hh_granted = ch_requested h, hh_terminal = ch_terminal h, hh_incarnation = inc\<rparr>)"
  proof (cases "negotiate_version (ch_min_version h) (ch_max_version h) lo hi")
    case (Inl e)
    then have "\<not> greatest_version v (ch_min_version h) (ch_max_version h) lo hi" for v
      using negotiated_greatest [of "ch_min_version h" "ch_max_version h" lo hi v] by auto
    with Inl show ?thesis
      by (simp add: accept_denied)
  next
    case (Inr v)
    have "greatest_version w (ch_min_version h) (ch_max_version h) lo hi \<longleftrightarrow> w = v" for w
      using Inr negotiated_greatest [of "ch_min_version h" "ch_max_version h" lo hi w] by auto
    with acc [OF Inr, of now inc] show ?thesis
      by (auto split: if_splits)
  qed
  have second: "fst (accept later (snd (accept now s h lo hi inc)) h' lo' hi' inc') \<noteq> Inr r'"
    if "greatest_version v (ch_min_version h) (ch_max_version h) lo hi" and t: "ch_token h' = ch_token h" for v
  proof -
    let ?s = "snd (accept now s h lo hi inc)"
    have v: "negotiate_version (ch_min_version h) (ch_max_version h) lo hi = Inr v"
      using that(1) negotiated_greatest by blast
    then have gs: "grants ?s = filter (\<lambda>g. now < gr_expires_at g \<and> gr_token g \<noteq> ch_token h) (grants s)"
      using acc [OF v, of now inc] by auto
    have ok': "store_ok ?s"
      by (rule accept_cases(1) [OF ok assms(2) prod.collapse [symmetric]])
    have t': "length (ch_token h') = 32"
      using t assms(2) by simp
    show ?thesis
    proof (cases "negotiate_version (ch_min_version h') (ch_max_version h') lo' hi'")
      case (Inl e)
      then show ?thesis
        by (simp add: accept_denied)
    next
      case (Inr w)
      from accept_negotiated [OF ok' t' this, of later inc'] gs t show ?thesis
        by (auto split: if_splits)
    qed
  qed
  from first second show ?thesis
    by blast
qed

lemma accept_exact_witness:
  "\<exists>r s'. accept 15 (store_new 4\<lparr>grants := [demo_grant]\<rparr>) demo_hello 3 3 (replicate 16 1) = (Inr r, s')
    \<and> hh_version r = 3 \<and> (\<forall>r'. fst (accept 16 s' demo_hello 3 3 (replicate 16 1)) \<noteq> Inr r')"
proof -
  have run: "cap_run 100 4 15 (store_new 4\<lparr>grants := [demo_grant]\<rparr>) [demo_grant] []"
    by (rule run_wait [OF demo_mint]) simp
  have t: "length (ch_token demo_hello) = 32"
    by (simp add: demo_hello_def)
  have v: "greatest_version 3 (ch_min_version demo_hello) (ch_max_version demo_hello) 3 3"
    by (auto simp: greatest_version_def demo_hello_def)
  obtain r where r: "accept 15 (store_new 4\<lparr>grants := [demo_grant]\<rparr>) demo_hello 3 3 (replicate 16 1)
      = (Inr r, store_new 4\<lparr>grants := []\<rparr>)"
    using demo_accept by blast
  then have "hh_version r = 3"
    using accept_exact [OF run t, of 3 3 "replicate 16 1" r] v by (auto simp: greatest_version_def)
  moreover have "fst (accept 16 (store_new 4\<lparr>grants := []\<rparr>) demo_hello 3 3 (replicate 16 1)) \<noteq> Inr r'" for r'
    using accept_exact [OF run t, of 3 3 "replicate 16 1" r demo_hello 16 3 3 "replicate 16 1" r'] v r by auto
  ultimately show ?thesis
    using r by (intro exI [of _ r] exI [of _ "store_new 4\<lparr>grants := []\<rparr>"]) simp
qed

text \<open>A host started with a valid bootstrap frame that offers version 3 becomes the owner of that terminal
  with a fresh UUID as its incarnation, and writes one frame: a Ready that answers the request with the
  terminal and the incarnation, and nothing of the token.\<close>

theorem bootstrap_completes:
  assumes "bootstrap_ok b" and "encode_frame (bootstrap_frame b i) = Inr bytes" and "reader_bytes reader = bytes"
    and "greatest_version PROTOCOL_VERSION (hb_min_version b) (hb_max_version b) PROTOCOL_VERSION PROTOCOL_VERSION"
    and "length random = 16"
  shows "\<exists>host out f. bootstrap_stdio_once reader (Some random) None = Inr (host, out)
    \<and> bh_terminal host = hb_terminal b \<and> bh_owner_token host = hb_owner_token b \<and> uuid_v4 (bh_incarnation host)
    \<and> f = (frame_new Ready (encode_ready \<lparr>hr_version = PROTOCOL_VERSION, hr_terminal = hb_terminal b,
          hr_incarnation = bh_incarnation host\<rparr>))\<lparr>request_id := i\<rparr>
    \<and> parse_stream MAX_HANDSHAKE_PAYLOAD out = ([f], [], None)
    \<and> decode_ready (payload f) = Inr \<lparr>hr_version = PROTOCOL_VERSION, hr_terminal = hb_terminal b,
          hr_incarnation = bh_incarnation host\<rparr>"
proof -
  let ?inc = "uuid_v4_bits random"
  let ?ready = "\<lparr>hr_version = PROTOCOL_VERSION, hr_terminal = hb_terminal b, hr_incarnation = ?inc\<rparr>"
  let ?f = "(frame_new Ready (encode_ready ?ready))\<lparr>request_id := i\<rparr>"
  have inc: "uuid_v4 ?inc"
    by (rule random_uuid_ok [OF assms(5)])
  have ver: "PROTOCOL_VERSION \<noteq> 0"
    by (simp add: PROTOCOL_VERSION_def)
  have ready: "ready_ok ?ready"
    using assms(1) inc by (simp add: ready_ok_def bootstrap_ok_def uuid_v4_def)
  have "length (payload (bootstrap_frame b i)) \<le> 4096" "version (bootstrap_frame b i) \<noteq> 0"
    using assms(1) ver by (simp_all add: bootstrap_frame_def frame_new_def encode_bootstrap_def bootstrap_ok_def)
  from read_single [OF assms(2) this assms(3)] obtain rest where
    read: "read_frame reader MAX_HANDSHAKE_PAYLOAD = Inr (Some (bootstrap_frame b i, rest))"
    by blast
  have dec: "decode_bootstrap (encode_bootstrap b) = Inr b"
    using assms(1) bootstrap_decodes by blast
  have neg: "negotiate_version (hb_min_version b) (hb_max_version b) PROTOCOL_VERSION PROTOCOL_VERSION = Inr PROTOCOL_VERSION"
    using assms(4) negotiated_greatest by blast
  have "length (payload ?f) \<le> 4096" "version ?f \<noteq> 0"
    using ready ver by (simp_all add: frame_new_def encode_ready_def ready_ok_def)
  from encode_frame_small [OF this(2,1)] obtain out where
    out: "encode_frame ?f = Inr out" "parse_stream 4096 out = ([?f], [], None)"
    by blast
  have same: "?f\<lparr>version := PROTOCOL_VERSION, request_id := i\<rparr> = ?f"
    by (simp add: frame_new_def)
  have "bootstrap_stdio_once reader (Some random) None
      = Inr (\<lparr>bh_terminal = hb_terminal b, bh_incarnation = ?inc, bh_owner_token = hb_owner_token b\<rparr>, out)"
    using out(1) same by (simp add: bootstrap_stdio_once_def read bootstrap_frame_def frame_new_def dec neg
        random_uuid_v4_def Let_def)
  moreover have "decode_ready (payload ?f) = Inr ?ready"
    using ready ready_decodes by (simp add: frame_new_def)
  ultimately show ?thesis
    using out(2) inc by (auto simp: MAX_HANDSHAKE_PAYLOAD_def)
qed

definition demo_bootstrap :: host_bootstrap where
  "demo_bootstrap = \<lparr>hb_min_version = 1, hb_max_version = 4, hb_terminal = replicate 16 7, hb_owner_token = replicate 32 9\<rparr>"

lemma bootstrap_completes_witness:
  "\<exists>bytes host out. encode_frame (bootstrap_frame demo_bootstrap 5) = Inr bytes
    \<and> bootstrap_stdio_once [Data (take 7 bytes), Interrupted, Data (drop 7 bytes)] (Some (replicate 16 0)) None = Inr (host, out)
    \<and> bh_terminal host = replicate 16 7 \<and> uuid_v4 (bh_incarnation host)"
proof -
  have ok: "bootstrap_ok demo_bootstrap"
    by (simp add: bootstrap_ok_def demo_bootstrap_def)
  have "version (bootstrap_frame demo_bootstrap 5) \<noteq> 0" "length (payload (bootstrap_frame demo_bootstrap 5)) \<le> 4096"
    by (simp_all add: bootstrap_frame_def frame_new_def encode_bootstrap_def demo_bootstrap_def PROTOCOL_VERSION_def)
  from encode_frame_small [OF this] obtain bytes where bytes: "encode_frame (bootstrap_frame demo_bootstrap 5) = Inr bytes"
    by blast
  then have "8 < length bytes"
    by (auto simp: encode_frame_def result_rules dest!: parse_encode_header simp: HEADER_LEN_def)
  then have r: "reader_bytes [Data (take 7 bytes), Interrupted, Data (drop 7 bytes)] = bytes"
    by auto
  have v: "greatest_version PROTOCOL_VERSION (hb_min_version demo_bootstrap) (hb_max_version demo_bootstrap)
      PROTOCOL_VERSION PROTOCOL_VERSION"
    by (auto simp: greatest_version_def demo_bootstrap_def PROTOCOL_VERSION_def)
  from bootstrap_completes [OF ok bytes r v, of "replicate 16 0"] bytes show ?thesis
    by (auto simp: demo_bootstrap_def)
qed

end
