(* ===== verification/EventBus.thy ===== *)
theory EventBus
  imports Prelude "HOL-Library.AList" "HOL-Library.Multiset"
begin

text \<open>
  Event delivery to subscribers (\<open>cmux-tui-core/src/event_bus.rs\<close>, the events of \<open>mux.rs\<close>).
  Payloads the code only passes on (titles, JSON values, statuses) have type \<open>'p\<close>. The ordered
  map \<open>BTreeMap\<close> is an association list in key order; a mutex section is one step. A
  \<open>Weak<MuxEventMailbox>\<close> is the number of a mailbox, which the store lacks once it is dropped.
  Sequence numbers are naturals bounded by the \<open>u128\<close> they are.
\<close>

datatype delta_kind = WorkspaceAdded | WorkspaceClosed | WorkspaceRenamed | WorkspaceMoved
  | ScreenAdded | ScreenClosed | ScreenRenamed | PaneAdded | PaneClosed | TabAdded | TabClosed
  | TabRenamed

record 'p tree_delta =
  delta_kind :: delta_kind
  delta_workspace :: workspace_id
  delta_screen :: "screen_id option"
  delta_pane :: "pane_id option"
  delta_surface :: "surface_id option"
  delta_index :: "nat option"
  delta_entity :: 'p
  delta_revision :: "u64 option"

datatype 'p mux_event = SurfaceOutput surface_id
  | SurfaceResized surface_id u16 u16 "u64 option"
  | SurfaceResizeFailed surface_id u16 u16 'p "u64 option" "u64 option"
  | SurfaceExited surface_id
  | TitleChanged surface_id 'p
  | Bell surface_id
  | Notification u64 'p 'p 'p "surface_id option"
  | GraphicsStatus 'p
  | Status 'p
  | ConfigReloadRequested
  | WindowTitleRequested 'p
  | ScrollChanged surface_id u64 bool
  | TreeChanged
  | TreeSelectionChanged
  | TreeDelta "'p tree_delta"
  | FrontendProjectionChanged 'p 'p 'p u64 'p 'p
  | TerminalRegistryChanged 'p 'p u64
  | LayoutChanged screen_id
  | ClientAttached u64 'p "'p option" "'p option"
  | ClientChanged u64 "'p option" "'p option"
  | ClientDetached u64
  | ClientListInvalidated
  | PairingRequested 'p
  | PairingResolved u64
  | EmptyMux

definition MAX_PENDING_EVENTS :: nat where "MAX_PENDING_EVENTS = 4096"

definition MAX_SEQUENCE :: nat where "MAX_SEQUENCE = 2 ^ 128 - 1"

section \<open>Mailboxes\<close>

datatype coalesced_key = TitleKey surface_id | OutputKey surface_id | ScrollKey surface_id

record 'p mailbox =
  next_sequence :: nat
  queued :: "(nat \<times> 'p mux_event) list"
  coalesced_sequences :: "coalesced_key \<rightharpoonup> nat"
  coalesced :: "(nat \<times> coalesced_key \<times> 'p mux_event) list"
  closed :: bool
  overflowed :: bool

definition mailbox_new :: "'p mailbox" where
  "mailbox_new = \<lparr>next_sequence = 0, queued = [], coalesced_sequences = Map.empty, coalesced = [],
     closed = False, overflowed = False\<rparr>"

text \<open>\<open>BTreeMap::insert\<close> and \<open>remove\<close>.\<close>

fun ordered_insert :: "nat \<Rightarrow> 'v \<Rightarrow> (nat \<times> 'v) list \<Rightarrow> (nat \<times> 'v) list" where
  "ordered_insert k v [] = [(k, v)]"
| "ordered_insert k v ((k', v') # xs) =
     (if k < k' then (k, v) # (k', v') # xs
      else if k = k' then (k, v) # xs
      else (k', v') # ordered_insert k v xs)"

definition ordered_remove :: "nat \<Rightarrow> (nat \<times> 'v) list \<Rightarrow> (nat \<times> 'v) list" where
  "ordered_remove k xs = filter (\<lambda>x. fst x \<noteq> k) xs"

definition reserve_pending_slot :: "'p mailbox \<Rightarrow> 'p mailbox \<times> bool" where
  "reserve_pending_slot m =
     (if length (queued m) + length (coalesced m) < MAX_PENDING_EVENTS then (m, True)
      else (m\<lparr>closed := True, overflowed := True\<rparr>, False))"

definition push_coalesced ::
    "'p mailbox \<Rightarrow> nat \<Rightarrow> coalesced_key \<Rightarrow> 'p mux_event \<Rightarrow> 'p mailbox \<times> bool" where
  "push_coalesced m seq key ev =
     (case (case coalesced_sequences m key of
              Some previous \<Rightarrow> (m\<lparr>coalesced := ordered_remove previous (coalesced m)\<rparr>, True)
            | None \<Rightarrow> reserve_pending_slot m) of
        (m, False) \<Rightarrow> (m, False)
      | (m, True) \<Rightarrow>
          (m\<lparr>coalesced_sequences := (coalesced_sequences m)(key \<mapsto> seq),
             coalesced := ordered_insert seq (key, ev) (coalesced m)\<rparr>, True))"

definition discard_coalesced :: "coalesced_key \<Rightarrow> 'p mailbox \<Rightarrow> 'p mailbox" where
  "discard_coalesced key m =
     (case coalesced_sequences m key of
        None \<Rightarrow> m
      | Some previous \<Rightarrow>
          m\<lparr>coalesced_sequences := (coalesced_sequences m)(key := None),
            coalesced := ordered_remove previous (coalesced m)\<rparr>)"

definition discard_surface_state :: "surface_id \<Rightarrow> 'p mailbox \<Rightarrow> 'p mailbox" where
  "discard_surface_state s m =
     discard_coalesced (ScrollKey s) (discard_coalesced (OutputKey s) (discard_coalesced (TitleKey s) m))"

definition is_terminal_event :: "'p mux_event \<Rightarrow> bool" where
  "is_terminal_event ev =
     (case ev of SurfaceExited _ \<Rightarrow> True | TreeDelta d \<Rightarrow> delta_kind d = WorkspaceClosed | _ \<Rightarrow> False)"

definition push_event :: "'p mailbox \<Rightarrow> nat \<Rightarrow> 'p mux_event \<Rightarrow> 'p mailbox \<times> bool" where
  "push_event m seq ev =
     (case reserve_pending_slot m of
        (m, False) \<Rightarrow> (m, False)
      | (m, True) \<Rightarrow> (m\<lparr>queued := queued m @ [(seq, ev)]\<rparr>, True))"

definition push_empty :: "'p mailbox \<Rightarrow> nat \<Rightarrow> 'p mailbox" where
  "push_empty m seq =
     (let terminal = filter (\<lambda>x. is_terminal_event (snd x)) (queued m);
          keep = MAX_PENDING_EVENTS - 1;
          terminal = (if keep < length terminal then drop (length terminal - keep) terminal else terminal)
      in m\<lparr>coalesced_sequences := Map.empty, coalesced := [], queued := terminal @ [(seq, EmptyMux)]\<rparr>)"

definition mailbox_push :: "'p mailbox \<Rightarrow> 'p mux_event \<Rightarrow> 'p mailbox \<times> bool" where
  "mailbox_push m ev =
     (if closed m then (m, False)
      else
        let seq = next_sequence m; m = m\<lparr>next_sequence := min (seq + 1) MAX_SEQUENCE\<rparr> in
        (case ev of
           TitleChanged s _ \<Rightarrow> push_coalesced m seq (TitleKey s) ev
         | SurfaceOutput s \<Rightarrow> push_coalesced m seq (OutputKey s) ev
         | ScrollChanged s _ _ \<Rightarrow> push_coalesced m seq (ScrollKey s) ev
         | SurfaceExited s \<Rightarrow> push_event (discard_surface_state s m) seq ev
         | EmptyMux \<Rightarrow> (push_empty m seq, True)
         | _ \<Rightarrow> push_event m seq ev))"

definition mailbox_close :: "'p mailbox \<Rightarrow> 'p mailbox" where
  "mailbox_close m = m\<lparr>closed := True\<rparr>"

definition mailbox_pop :: "'p mailbox \<Rightarrow> ('p mux_event \<times> 'p mailbox) option" where
  "mailbox_pop m =
     (case (queued m, coalesced m) of
        ([], []) \<Rightarrow> None
      | ((s, ev) # rest, []) \<Rightarrow> Some (ev, m\<lparr>queued := rest\<rparr>)
      | ([], (c, key, ev) # rest) \<Rightarrow>
          Some (ev, m\<lparr>coalesced := rest, coalesced_sequences := (coalesced_sequences m)(key := None)\<rparr>)
      | ((s, ev) # qrest, (c, key, ev') # crest) \<Rightarrow>
          if s \<le> c then Some (ev, m\<lparr>queued := qrest\<rparr>)
          else Some (ev', m\<lparr>coalesced := crest, coalesced_sequences := (coalesced_sequences m)(key := None)\<rparr>))"

section \<open>Receivers\<close>

datatype recv_error = Disconnected | EmptyNow

definition try_recv :: "'p mailbox \<Rightarrow> (recv_error + 'p mux_event) \<times> 'p mailbox" where
  "try_recv m =
     (case mailbox_pop m of
        Some (ev, m) \<Rightarrow> (Inr ev, m)
      | None \<Rightarrow> (Inl (if closed m then Disconnected else EmptyNow), m))"

text \<open>\<open>recv\<close> and \<open>recv_timeout\<close> wait while nothing is pending and the mailbox is open. Each
  element of the second argument is the mailbox as another thread leaves it when the waiter wakes;
  at the end of the list \<open>recv\<close> still waits (\<open>None\<close>) and \<open>recv_timeout\<close> has timed out.\<close>

datatype recv_timeout_error = TimedOut | TimeoutDisconnected

fun recv :: "'p mailbox \<Rightarrow> ('p mailbox \<Rightarrow> 'p mailbox) list \<Rightarrow> ((unit + 'p mux_event) \<times> 'p mailbox) option" where
  "recv m wakes =
     (case mailbox_pop m of
        Some (ev, m) \<Rightarrow> Some (Inr ev, m)
      | None \<Rightarrow>
          if closed m then Some (Inl (), m)
          else (case wakes of [] \<Rightarrow> None | w # ws \<Rightarrow> recv (w m) ws))"

fun recv_timeout ::
    "'p mailbox \<Rightarrow> ('p mailbox \<Rightarrow> 'p mailbox) list \<Rightarrow> (recv_timeout_error + 'p mux_event) \<times> 'p mailbox" where
  "recv_timeout m wakes =
     (case mailbox_pop m of
        Some (ev, m) \<Rightarrow> (Inr ev, m)
      | None \<Rightarrow>
          if closed m then (Inl TimeoutDisconnected, m)
          else (case wakes of [] \<Rightarrow> (Inl TimedOut, m) | w # ws \<Rightarrow> recv_timeout (w m) ws))"

section \<open>Filters and the broadcaster\<close>

record session_scope =
  scope_surface :: surface_id
  scope_workspace :: workspace_id
  scope_screen :: screen_id
  scope_pane :: pane_id

datatype event_filter = AllEvents | AttachedSurface surface_id | SurfaceSession session_scope

definition accepts_tree_delta :: "session_scope \<Rightarrow> 'p tree_delta \<Rightarrow> session_scope \<times> bool" where
  "accepts_tree_delta sc d =
     (let relevant =
        (case delta_kind d of
           TabAdded \<Rightarrow> delta_surface d = Some (scope_surface sc)
         | TabClosed \<Rightarrow> delta_surface d = Some (scope_surface sc)
         | TabRenamed \<Rightarrow> delta_surface d = Some (scope_surface sc)
         | PaneClosed \<Rightarrow> delta_pane d = Some (scope_pane sc)
         | ScreenClosed \<Rightarrow> delta_screen d = Some (scope_screen sc)
         | WorkspaceClosed \<Rightarrow> delta_workspace d = scope_workspace sc
         | _ \<Rightarrow> False)
      in (if delta_surface d = Some (scope_surface sc) \<and> delta_kind d = TabAdded
          then sc\<lparr>scope_workspace := delta_workspace d,
                  scope_screen := (case delta_screen d of Some s \<Rightarrow> s | None \<Rightarrow> scope_screen sc),
                  scope_pane := (case delta_pane d of Some p \<Rightarrow> p | None \<Rightarrow> scope_pane sc)\<rparr>
          else sc, relevant))"

definition scope_accepts :: "session_scope \<Rightarrow> 'p mux_event \<Rightarrow> session_scope \<times> bool" where
  "scope_accepts sc ev =
     (case ev of
        SurfaceOutput s \<Rightarrow> (sc, s = scope_surface sc)
      | SurfaceExited s \<Rightarrow> (sc, s = scope_surface sc)
      | Bell s \<Rightarrow> (sc, s = scope_surface sc)
      | SurfaceResized s _ _ _ \<Rightarrow> (sc, s = scope_surface sc)
      | SurfaceResizeFailed s _ _ _ _ _ \<Rightarrow> (sc, s = scope_surface sc)
      | TitleChanged s _ \<Rightarrow> (sc, s = scope_surface sc)
      | ScrollChanged s _ _ \<Rightarrow> (sc, s = scope_surface sc)
      | Notification _ _ _ _ s \<Rightarrow> (sc, s = None \<or> s = Some (scope_surface sc))
      | TreeDelta d \<Rightarrow> accepts_tree_delta sc d
      | LayoutChanged _ \<Rightarrow> (sc, False)
      | ClientAttached _ _ _ _ \<Rightarrow> (sc, False)
      | ClientChanged _ _ _ \<Rightarrow> (sc, False)
      | ClientDetached _ \<Rightarrow> (sc, False)
      | ClientListInvalidated \<Rightarrow> (sc, False)
      | TreeChanged \<Rightarrow> (sc, False)
      | TreeSelectionChanged \<Rightarrow> (sc, False)
      | _ \<Rightarrow> (sc, True))"

definition filter_accepts :: "event_filter \<Rightarrow> 'p mux_event \<Rightarrow> event_filter \<times> bool" where
  "filter_accepts f ev =
     (case f of
        AllEvents \<Rightarrow> (f, True)
      | AttachedSurface s \<Rightarrow>
          (f, case ev of Notification _ _ _ _ n \<Rightarrow> n = Some s | ScrollChanged s' _ _ \<Rightarrow> s' = s | _ \<Rightarrow> False)
      | SurfaceSession sc \<Rightarrow> (case scope_accepts sc ev of (sc, b) \<Rightarrow> (SurfaceSession sc, b)))"

type_synonym subscriber = "nat \<times> event_filter"
type_synonym 'p mailboxes = "nat \<rightharpoonup> 'p mailbox"

definition subscribe_with_filter ::
    "nat \<Rightarrow> event_filter \<Rightarrow> subscriber list \<Rightarrow> 'p mailboxes \<Rightarrow> subscriber list \<times> 'p mailboxes" where
  "subscribe_with_filter i f subs st = (subs @ [(i, f)], st(i \<mapsto> mailbox_new))"

fun emit :: "'p mux_event \<Rightarrow> subscriber list \<Rightarrow> 'p mailboxes \<Rightarrow> subscriber list \<times> 'p mailboxes" where
  "emit ev [] st = ([], st)"
| "emit ev ((i, f) # subs) st =
     (case st i of
        None \<Rightarrow> emit ev subs st
      | Some m \<Rightarrow>
          let (f, accepted) = filter_accepts f ev;
              (m, keep) = (if accepted then mailbox_push m ev else (m, True));
              (subs, st) = emit ev subs (st(i \<mapsto> m))
          in (if keep then (i, f) # subs else subs, st))"

fun update_surface_session_path ::
    "surface_id \<Rightarrow> workspace_id \<Rightarrow> screen_id \<Rightarrow> pane_id \<Rightarrow> subscriber list \<Rightarrow> 'p mailboxes
     \<Rightarrow> subscriber list \<times> 'p mailboxes" where
  "update_surface_session_path s w sc p [] st = ([], st)"
| "update_surface_session_path s w sc p ((i, f) # subs) st =
     (case st i of
        None \<Rightarrow> update_surface_session_path s w sc p subs st
      | Some m \<Rightarrow>
          (case f of
             SurfaceSession scope \<Rightarrow>
               if scope_surface scope = s then
                 let f = SurfaceSession (scope\<lparr>scope_workspace := w, scope_screen := sc, scope_pane := p\<rparr>);
                     (m, keep) = mailbox_push m TreeChanged;
                     (subs, st) = update_surface_session_path s w sc p subs (st(i \<mapsto> m))
                 in (if keep then (i, f) # subs else subs, st)
               else let (subs, st) = update_surface_session_path s w sc p subs st in ((i, f) # subs, st)
           | _ \<Rightarrow> let (subs, st) = update_surface_session_path s w sc p subs st in ((i, f) # subs, st)))"

text \<open>Dropping the broadcaster closes every live mailbox.\<close>

definition drop_broadcaster :: "subscriber list \<Rightarrow> 'p mailboxes \<Rightarrow> 'p mailboxes" where
  "drop_broadcaster subs st =
     fold (\<lambda>(i, f) st. case st i of Some m \<Rightarrow> st(i \<mapsto> mailbox_close m) | None \<Rightarrow> st) subs st"

end
