(* ===== verification/EventBusInv.thy ===== *)
theory EventBusInv
  imports EventBus
begin

text \<open>
  A mailbox is a bounded queue in sequence order: its invariant, its contents, and what each
  operation does to them.
\<close>

section \<open>Contents\<close>

definition event_key :: "'p mux_event \<Rightarrow> coalesced_key option" where
  "event_key ev = (case ev of
     TitleChanged s _ \<Rightarrow> Some (TitleKey s) | SurfaceOutput s \<Rightarrow> Some (OutputKey s)
   | ScrollChanged s _ _ \<Rightarrow> Some (ScrollKey s) | _ \<Rightarrow> None)"

definition tagged :: "'p mailbox \<Rightarrow> (nat \<times> 'p mux_event) list" where
  "tagged m = queued m @ map (\<lambda>(s, key, ev). (s, ev)) (coalesced m)"

definition timeline :: "'p mailbox \<Rightarrow> (nat \<times> 'p mux_event) list" where
  "timeline m = sort_key fst (tagged m)"

text \<open>What a receiver sees: everything pending, in sequence order.\<close>

definition contents :: "'p mailbox \<Rightarrow> 'p mux_event list" where
  "contents m = map snd (timeline m)"

definition mailbox_ok :: "'p mailbox \<Rightarrow> bool" where
  "mailbox_ok m \<longleftrightarrow>
     sorted (map fst (queued m)) \<and> sorted (map fst (coalesced m)) \<and> distinct (map fst (tagged m))
     \<and> (\<forall>x \<in> set (tagged m). fst x < next_sequence m)
     \<and> (\<forall>x \<in> set (queued m). event_key (snd x) = None)
     \<and> (\<forall>x \<in> set (coalesced m). event_key (snd (snd x)) = Some (fst (snd x)))
     \<and> (\<forall>k s. coalesced_sequences m k = Some s \<longleftrightarrow> (\<exists>ev. (s, k, ev) \<in> set (coalesced m)))
     \<and> length (tagged m) \<le> MAX_PENDING_EVENTS"

lemma mailbox_new_ok [simp]: "mailbox_ok mailbox_new" "contents mailbox_new = []"
  by (simp_all add: mailbox_ok_def mailbox_new_def tagged_def contents_def timeline_def)

lemma length_contents [simp]: "length (contents m) = length (queued m) + length (coalesced m)"
  by (simp add: contents_def timeline_def tagged_def)

lemma timeline_unique:
  assumes "mset xs = mset (tagged m)" and "distinct (map fst (tagged m))" and "sorted (map fst xs)"
  shows "timeline m = xs"
  unfolding timeline_def
  using assms by (intro sort_key_inj_key_eq) (auto simp: distinct_map)

lemma filter_timeline: "filter P (timeline m) = sort_key fst (filter P (tagged m))"
  by (simp add: timeline_def filter_sort)

text \<open>Dropping what a predicate refuses and appending under a new number.\<close>

lemma contents_append:
  assumes "mset (tagged m') = mset (filter (P \<circ> snd) (tagged m) @ [(seq, ev)])"
    and "distinct (map fst (tagged m))" and "\<forall>x \<in> set (tagged m). fst x < seq"
  shows "contents m' = filter P (contents m) @ [ev]"
proof -
  let ?xs = "filter (P \<circ> snd) (timeline m) @ [(seq, ev)]"
  have "timeline m' = ?xs"
  proof (rule timeline_unique)
    show "mset ?xs = mset (tagged m')"
      using assms(1) by (simp add: filter_timeline)
    have "distinct (map fst (filter (P \<circ> snd) (tagged m) @ [(seq, ev)]))"
      using assms(2,3) by (auto simp: distinct_map_filter)
    then show "distinct (map fst (tagged m'))"
      using assms(1) by (metis mset_eq_imp_distinct_iff mset_map)
    have "set (timeline m) = set (tagged m)"
      by (simp add: timeline_def)
    then show "sorted (map fst ?xs)"
      using assms(3) by (auto simp: sorted_append filter_timeline intro: less_imp_le)
  qed
  then show ?thesis
    by (simp add: contents_def filter_map comp_def)
qed

lemma contents_filter:
  assumes "tagged m' = filter (P \<circ> snd) (tagged m)"
  shows "contents m' = filter P (contents m)"
proof -
  have "timeline m' = filter (P \<circ> snd) (timeline m)"
    by (simp add: filter_timeline) (simp add: timeline_def assms)
  then show ?thesis
    by (simp add: contents_def filter_map)
qed

lemma ordered_insert_last: "\<forall>x \<in> set xs. fst x < k \<Longrightarrow> ordered_insert k v xs = xs @ [(k, v)]"
  by (induction k v xs rule: ordered_insert.induct) auto

section \<open>Coalescing\<close>

text \<open>Removing the pending event of a key leaves the events of other keys.\<close>

lemma mailbox_ok_seqs:
  "mailbox_ok m \<Longrightarrow> coalesced_sequences m k = Some s \<longleftrightarrow> (\<exists>ev. (s, k, ev) \<in> set (coalesced m))"
  by (simp add: mailbox_ok_def)

lemma mailbox_ok_key: "mailbox_ok m \<Longrightarrow> (s, k, e) \<in> set (coalesced m) \<Longrightarrow> event_key e = Some k"
  unfolding mailbox_ok_def by fastforce

lemma coalesced_unique:
  assumes "mailbox_ok m" and "coalesced_sequences m k = Some s" and "x \<in> set (coalesced m)"
  shows "fst x = s \<longleftrightarrow> fst (snd x) = k"
proof -
  from assms(1,2) obtain ev where ev: "(s, k, ev) \<in> set (coalesced m)"
    by (auto simp: mailbox_ok_def)
  have "inj_on fst (set (coalesced m))"
    using assms(1) by (auto simp: mailbox_ok_def tagged_def distinct_map case_prod_beta comp_def
        intro: inj_onI dest: inj_onD)
  obtain s' k' ev' where x: "x = (s', k', ev')"
    by (metis prod_cases3)
  with assms(1,3) have "coalesced_sequences m k' = Some s'"
    by (auto simp: mailbox_ok_def)
  with assms(2) x inj_onD [OF \<open>inj_on fst _\<close>, of x "(s, k, ev)"] ev assms(3) show ?thesis
    by auto
qed

lemma discard_tagged:
  assumes "mailbox_ok m"
  shows "tagged (discard_coalesced k m) = filter ((\<lambda>ev. event_key ev \<noteq> Some k) \<circ> snd) (tagged m)"
proof -
  have q: "filter ((\<lambda>ev. event_key ev \<noteq> Some k) \<circ> snd) (queued m) = queued m"
    using assms by (intro filter_True) (auto simp: mailbox_ok_def)
  have c: "\<forall>x \<in> set (coalesced m). event_key (snd (snd x)) = Some (fst (snd x))"
    using assms by (simp add: mailbox_ok_def)
  show ?thesis
  proof (cases "coalesced_sequences m k")
    case None
    then have "\<forall>x \<in> set (coalesced m). fst (snd x) \<noteq> k"
      using mailbox_ok_seqs [OF assms, of k] by (metis option.distinct(1) prod.collapse)
    with q c None show ?thesis
      by (auto simp: discard_coalesced_def tagged_def filter_map case_prod_beta comp_def intro!: filter_True [symmetric])
  next
    case (Some s)
    have "filter (\<lambda>x. fst x \<noteq> s) (coalesced m) = filter (\<lambda>x. event_key (snd (snd x)) \<noteq> Some k) (coalesced m)"
      using coalesced_unique [OF assms Some] c by (intro filter_cong) auto
    with q Some show ?thesis
      by (simp add: discard_coalesced_def tagged_def ordered_remove_def filter_map case_prod_beta comp_def)
  qed
qed

lemma discard_simps [simp]:
  "queued (discard_coalesced k m) = queued m" "next_sequence (discard_coalesced k m) = next_sequence m"
  "closed (discard_coalesced k m) = closed m" "overflowed (discard_coalesced k m) = overflowed m"
  by (simp_all add: discard_coalesced_def split: option.split)

lemma discard_coalesced_subset: "set (coalesced (discard_coalesced k m)) \<subseteq> set (coalesced m)"
  by (auto simp: discard_coalesced_def ordered_remove_def split: option.split)

lemma discard_ok:
  assumes "mailbox_ok m"
  shows "mailbox_ok (discard_coalesced k m)"
proof (cases "coalesced_sequences m k")
  case (Some s)
  have seqs: "coalesced_sequences (discard_coalesced k m) j = Some t \<longleftrightarrow>
      (\<exists>ev. (t, j, ev) \<in> set (coalesced (discard_coalesced k m)))" for j t
  proof -
    have "(t, j, ev) \<in> set (coalesced m) \<Longrightarrow> t \<noteq> s \<longleftrightarrow> j \<noteq> k" for ev
      using coalesced_unique [OF assms Some, of "(t, j, ev)"] by simp
    then show ?thesis
      using mailbox_ok_seqs [OF assms, of j t] Some
      by (auto simp: discard_coalesced_def ordered_remove_def)
  qed
  have "distinct (map fst (tagged (discard_coalesced k m)))"
    "set (tagged (discard_coalesced k m)) \<subseteq> set (tagged m)"
    "length (tagged (discard_coalesced k m)) \<le> length (tagged m)"
    using assms by (auto simp: discard_tagged mailbox_ok_def distinct_map_filter)
  moreover have "sorted (map fst (coalesced (discard_coalesced k m)))"
  proof -
    have "sorted (map fst (coalesced m))"
      using assms by (simp add: mailbox_ok_def)
    then show ?thesis
      using Some by (simp add: discard_coalesced_def ordered_remove_def sorted_filter)
  qed
  moreover have "\<forall>x \<in> set (tagged (discard_coalesced k m)). fst x < next_sequence m"
    using assms calculation(2) unfolding mailbox_ok_def by blast
  moreover have "\<forall>x \<in> set (coalesced (discard_coalesced k m)). event_key (snd (snd x)) = Some (fst (snd x))"
    using assms discard_coalesced_subset [of k m] unfolding mailbox_ok_def by blast
  ultimately show ?thesis
    using assms seqs unfolding mailbox_ok_def by simp
qed (use assms in \<open>simp add: discard_coalesced_def\<close>)

section \<open>Pushing\<close>

lemma add_coalesced_ok:
  assumes ok: "mailbox_ok d" and lt: "\<forall>x \<in> set (tagged d). fst x < seq" and nxt: "seq < next_sequence d"
    and free: "coalesced_sequences d key = None" and room: "length (tagged d) < MAX_PENDING_EVENTS"
    and key: "event_key ev = Some key"
    and m: "m = d\<lparr>coalesced_sequences := (coalesced_sequences d)(key \<mapsto> seq),
                  coalesced := coalesced d @ [(seq, key, ev)]\<rparr>"
  shows "mailbox_ok m \<and> tagged m = tagged d @ [(seq, ev)]"
proof -
  have t: "tagged m = tagged d @ [(seq, ev)]"
    by (simp add: m tagged_def)
  have "(coalesced_sequences m k = Some s) = (\<exists>e. (s, k, e) \<in> set (coalesced m))" for k s
    using mailbox_ok_seqs [OF ok, of k s] mailbox_ok_seqs [OF ok, of key s] free by (auto simp: m)
  moreover have "\<forall>x \<in> set (coalesced d). fst x < seq"
    using lt by (force simp: tagged_def)
  moreover have "\<forall>x \<in> set (tagged m). fst x < next_sequence m"
    using lt nxt t by (auto simp: m dest: bspec intro: less_trans)
  moreover have "distinct (map fst (tagged m))"
    using ok lt t by (auto simp: mailbox_ok_def)
  ultimately show ?thesis
    using ok key room t unfolding mailbox_ok_def by (auto simp: m sorted_append intro: less_imp_le)
qed

lemma push_event_ok:
  assumes ok: "mailbox_ok m" and lt: "\<forall>x \<in> set (tagged m). fst x < seq" and nxt: "seq < next_sequence m"
    and key: "event_key ev = None" and room: "length (tagged m) < MAX_PENDING_EVENTS"
    and m': "m' = m\<lparr>queued := queued m @ [(seq, ev)]\<rparr>"
  shows "mailbox_ok m' \<and> mset (tagged m') = mset (tagged m @ [(seq, ev)])"
proof -
  have t: "mset (tagged m') = mset (tagged m @ [(seq, ev)])"
    by (simp add: m' tagged_def)
  then have st: "set (tagged m') = insert (seq, ev) (set (tagged m))"
    by (metis set_mset_mset set_append list.simps(15) empty_set Un_insert_right sup_bot_right)
  have "distinct (map fst (tagged m @ [(seq, ev)]))"
    using ok lt by (auto simp: mailbox_ok_def)
  then have "distinct (map fst (tagged m'))"
    using t by (metis mset_eq_imp_distinct_iff mset_map)
  moreover have "\<forall>x \<in> set (queued m). fst x < seq"
    using lt by (simp add: tagged_def)
  moreover have "\<forall>x \<in> set (tagged m'). fst x < next_sequence m'"
    using lt nxt st by (auto simp: m' dest: bspec intro: less_trans)
  moreover have "length (tagged m') = Suc (length (tagged m))"
    by (simp add: m' tagged_def)
  ultimately show ?thesis
    using ok key room t unfolding mailbox_ok_def by (auto simp: m' sorted_append intro: less_imp_le)
qed

text \<open>The specification: a bounded list in which an event replaces the pending one of its key, an
  exit drops the pending state of its surface, and \<open>Empty\<close> drops all but the last terminal
  events. \<open>None\<close> is a queue that overflows.\<close>

definition queue_push :: "'p mux_event list \<Rightarrow> 'p mux_event \<Rightarrow> 'p mux_event list option" where
  "queue_push q ev =
     (let append = (\<lambda>q. if length q < MAX_PENDING_EVENTS then Some (q @ [ev]) else None) in
      case event_key ev of
        Some k \<Rightarrow>
          if Some k \<in> event_key ` set q then Some (filter (\<lambda>e. event_key e \<noteq> Some k) q @ [ev]) else append q
      | None \<Rightarrow>
          (case ev of
             SurfaceExited s \<Rightarrow>
               append (filter (\<lambda>e. event_key e \<notin> Some ` {TitleKey s, OutputKey s, ScrollKey s}) q)
           | EmptyMux \<Rightarrow>
               (let t = filter is_terminal_event q in
                Some (drop (length t - (MAX_PENDING_EVENTS - 1)) t @ [EmptyMux]))
           | _ \<Rightarrow> append q))"

lemma contents_keys:
  assumes "mailbox_ok m"
  shows "Some k \<in> event_key ` set (contents m) \<longleftrightarrow> coalesced_sequences m k \<noteq> None"
proof -
  have "set (contents m) = snd ` set (queued m) \<union> (snd \<circ> snd) ` set (coalesced m)"
    by (force simp: contents_def timeline_def tagged_def)
  moreover have "\<forall>x \<in> set (queued m). event_key (snd x) = None"
    "\<forall>x \<in> set (coalesced m). event_key (snd (snd x)) = Some (fst (snd x))"
    using assms by (auto simp: mailbox_ok_def)
  ultimately have "Some k \<in> event_key ` set (contents m) \<longleftrightarrow> (\<exists>x \<in> set (coalesced m). fst (snd x) = k)"
    by (auto simp: image_iff) force+
  also have "\<dots> \<longleftrightarrow> (\<exists>s ev. (s, k, ev) \<in> set (coalesced m))"
    by force
  also have "\<dots> \<longleftrightarrow> coalesced_sequences m k \<noteq> None"
    using mailbox_ok_seqs [OF assms, of k] by auto
  finally show ?thesis .
qed

lemma length_tagged: "length (tagged m) = length (contents m)"
  by (simp add: tagged_def)

text \<open>What a push of \<open>seq\<close> makes of the contents: the queue of the specification, or the closed
  mailbox with nothing lost.\<close>

definition pushed :: "'p mailbox \<Rightarrow> 'p mux_event list option \<Rightarrow> 'p mailbox \<times> bool \<Rightarrow> bool" where
  "pushed m q r \<longleftrightarrow>
     mailbox_ok (fst r) \<and> snd r = (q \<noteq> None) \<and> next_sequence (fst r) = next_sequence m
     \<and> contents (fst r) = (case q of Some q \<Rightarrow> q | None \<Rightarrow> contents m)
     \<and> closed (fst r) = (closed m \<or> q = None) \<and> overflowed (fst r) = (overflowed m \<or> q = None)"

lemma contents_cong:
  "queued m = queued n \<Longrightarrow> coalesced m = coalesced n \<Longrightarrow> contents m = contents n"
  by (simp add: contents_def timeline_def tagged_def)

lemma mailbox_ok_cong:
  assumes "queued m = queued n" and "coalesced m = coalesced n"
    and "coalesced_sequences m = coalesced_sequences n" and "next_sequence m \<le> next_sequence n"
    and "mailbox_ok m"
  shows "mailbox_ok n"
proof -
  have "tagged m = tagged n"
    using assms(1,2) by (simp add: tagged_def)
  with assms show ?thesis
    unfolding mailbox_ok_def by (auto dest: bspec intro: less_le_trans)
qed

lemma reserve_spec:
  "reserve_pending_slot m = (if length (contents m) < MAX_PENDING_EVENTS then (m, True)
     else (m\<lparr>closed := True, overflowed := True\<rparr>, False))"
  by (simp add: reserve_pending_slot_def)

lemma closed_full [simp]:
  "mailbox_ok (m\<lparr>closed := True, overflowed := True\<rparr>) = mailbox_ok m"
  "contents (m\<lparr>closed := True, overflowed := True\<rparr>) = contents m"
  by (simp_all add: mailbox_ok_def tagged_def contents_def timeline_def)

lemma push_event_spec:
  assumes ok: "mailbox_ok m" and lt: "\<forall>x \<in> set (tagged m). fst x < seq" and nxt: "seq < next_sequence m"
    and key: "event_key ev = None"
  shows "pushed m (if length (contents m) < MAX_PENDING_EVENTS then Some (contents m @ [ev]) else None)
    (push_event m seq ev)"
proof (cases "length (contents m) < MAX_PENDING_EVENTS")
  case True
  let ?m = "m\<lparr>queued := queued m @ [(seq, ev)]\<rparr>"
  have "mailbox_ok ?m \<and> mset (tagged ?m) = mset (tagged m @ [(seq, ev)])"
    using ok lt nxt key True by (intro push_event_ok) (simp_all add: length_tagged del: length_contents)
  moreover from this have "contents ?m = contents m @ [ev]"
    using contents_append [of ?m "\<lambda>_. True" m seq ev] ok lt by (simp add: mailbox_ok_def comp_def)
  ultimately show ?thesis
    using True by (simp add: push_event_def reserve_spec pushed_def del: length_contents)
next
  case False
  with ok show ?thesis
    by (simp add: push_event_def reserve_spec pushed_def del: length_contents)
qed

lemma push_coalesced_spec:
  assumes ok: "mailbox_ok m" and lt: "\<forall>x \<in> set (tagged m). fst x < seq" and nxt: "seq < next_sequence m"
    and key: "event_key ev = Some k"
  shows "pushed m (queue_push (contents m) ev) (push_coalesced m seq k ev)"
proof -
  let ?d = "discard_coalesced k m" and ?P = "\<lambda>e. event_key e \<noteq> Some k"
  let ?m = "?d\<lparr>coalesced_sequences := (coalesced_sequences ?d)(k \<mapsto> seq),
                coalesced := coalesced ?d @ [(seq, k, ev)]\<rparr>"
  have d: "mailbox_ok ?d" "tagged ?d = filter (?P \<circ> snd) (tagged m)" "coalesced_sequences ?d k = None"
    by (simp_all add: ok discard_ok discard_tagged) (simp add: discard_coalesced_def split: option.split)
  then have lt': "\<forall>x \<in> set (tagged ?d). fst x < seq"
    using lt by auto
  have lt_c: "\<forall>x \<in> set (coalesced ?d). fst x < seq"
    using lt' by (force simp: tagged_def)
  have queue: "queue_push (contents m) ev =
      (if coalesced_sequences m k \<noteq> None \<or> length (contents m) < MAX_PENDING_EVENTS
       then Some (filter ?P (contents m) @ [ev]) else None)"
  proof -
    have "filter ?P (contents m) = contents m" if "coalesced_sequences m k = None"
      using contents_keys [OF ok, of k] that by (intro filter_True) (metis image_eqI)
    then show ?thesis
      using contents_keys [OF ok, of k] by (auto simp: queue_push_def key Let_def)
  qed
  show ?thesis
  proof (cases "coalesced_sequences m k \<noteq> None \<or> length (contents m) < MAX_PENDING_EVENTS")
    case True
    have push: "push_coalesced m seq k ev = (?m, True)"
      using True lt_c
      by (auto simp: push_coalesced_def reserve_spec discard_coalesced_def ordered_insert_last
          simp del: length_contents split: option.split)
    have "length (tagged ?d) < MAX_PENDING_EVENTS"
    proof (cases "coalesced_sequences m k")
      case None
      with True show ?thesis
        unfolding d(2) using length_filter_le [of "?P \<circ> snd" "tagged m"]
        by (simp add: length_tagged del: length_contents)
    next
      case (Some s)
      then obtain e where e: "(s, k, e) \<in> set (coalesced m)"
        using mailbox_ok_seqs [OF ok] by auto
      then have "(s, e) \<in> set (tagged m)"
        by (auto simp: tagged_def intro: rev_image_eqI)
      moreover have "event_key e = Some k"
        by (rule mailbox_ok_key [OF ok e])
      ultimately
      have "length (tagged ?d) < length (tagged m)"
        unfolding d(2) by (intro length_filter_less [of "(s, e)"]) auto
      with ok show ?thesis
        by (simp add: mailbox_ok_def)
    qed
    from add_coalesced_ok [OF d(1) lt' _ d(3) this key refl] nxt
    have m: "mailbox_ok ?m" "tagged ?m = tagged ?d @ [(seq, ev)]"
      by simp_all
    have "contents ?m = filter ?P (contents m) @ [ev]"
      using m(2) d(2) ok lt by (intro contents_append) (auto simp: mailbox_ok_def)
    with push m(1) queue True show ?thesis
      by (simp add: pushed_def del: length_contents)
  next
    case False
    then show ?thesis
      using ok queue by (simp add: pushed_def push_coalesced_def reserve_spec del: length_contents)
  qed
qed

lemma push_exit_spec:
  assumes ok: "mailbox_ok m" and lt: "\<forall>x \<in> set (tagged m). fst x < seq" and nxt: "seq < next_sequence m"
  shows "pushed m (queue_push (contents m) (SurfaceExited s)) (push_event (discard_surface_state s m) seq (SurfaceExited s))"
proof -
  let ?d = "discard_surface_state s m"
  have "mailbox_ok ?d"
    by (simp add: discard_surface_state_def discard_ok ok)
  have t: "tagged ?d = filter ((\<lambda>e. event_key e \<notin> Some ` {TitleKey s, OutputKey s, ScrollKey s}) \<circ> snd) (tagged m)"
    unfolding discard_surface_state_def
    by (simp only: discard_tagged discard_ok ok filter_filter) (rule filter_cong, auto)
  then have lt': "\<forall>x \<in> set (tagged ?d). fst x < seq"
    using lt by auto
  have c: "contents ?d = filter (\<lambda>e. event_key e \<notin> Some ` {TitleKey s, OutputKey s, ScrollKey s}) (contents m)"
    by (rule contents_filter [OF t])
  have simps: "next_sequence ?d = next_sequence m" "closed ?d = closed m" "overflowed ?d = overflowed m"
    by (simp_all add: discard_surface_state_def)
  have full: "contents ?d = contents m" if "\<not> length (contents ?d) < MAX_PENDING_EVENTS"
  proof -
    have "length (contents m) \<le> MAX_PENDING_EVENTS"
      using ok by (simp only: mailbox_ok_def length_tagged)
    with that c show ?thesis
      by (metis filter_True filter_id_conv length_filter_less nat_neq_iff not_le order.strict_trans2)
  qed
  have "queue_push (contents m) (SurfaceExited s) =
      (if length (contents ?d) < MAX_PENDING_EVENTS then Some (contents ?d @ [SurfaceExited s]) else None)"
    by (simp add: queue_push_def event_key_def Let_def c del: length_contents)
  with push_event_spec [OF \<open>mailbox_ok ?d\<close> lt', of "SurfaceExited s"] nxt full simps show ?thesis
    by (auto simp: pushed_def event_key_def simp del: length_contents split: if_splits)
qed

lemma push_empty_spec:
  assumes ok: "mailbox_ok m" and lt: "\<forall>x \<in> set (tagged m). fst x < seq" and nxt: "seq < next_sequence m"
  shows "pushed m (queue_push (contents m) EmptyMux) (push_empty m seq, True)"
proof -
  let ?t = "filter (is_terminal_event \<circ> snd) (queued m)"
  let ?u = "drop (length ?t - (MAX_PENDING_EVENTS - 1)) ?t"
  let ?m = "push_empty m seq"
  have m: "?m = m\<lparr>coalesced_sequences := Map.empty, coalesced := [], queued := ?u @ [(seq, EmptyMux)]\<rparr>"
    by (simp add: push_empty_def Let_def comp_def)
  have sub: "set ?u \<subseteq> set (queued m)"
    using set_drop_subset [of _ ?t] by auto
  have sorted_t: "sorted (map fst ?t)" "distinct (map fst ?t)"
    using ok by (auto simp: mailbox_ok_def tagged_def sorted_filter distinct_map_filter)
  then have sd: "sorted (map fst ?u)" "distinct (map fst ?u)"
    by (simp_all add: drop_map [symmetric] sorted_wrt_drop distinct_drop)
  have lt_q: "\<forall>x \<in> set (queued m). fst x < seq"
    using lt by (simp add: tagged_def)
  have tag: "tagged ?m = ?u @ [(seq, EmptyMux)]"
    by (simp add: m tagged_def)
  have sorted_u: "sorted (map fst (tagged ?m))" "distinct (map fst (tagged ?m))"
    unfolding tag using sd sub lt_q by (auto simp: sorted_append intro: less_imp_le)
  have c: "contents ?m = map snd ?u @ [EmptyMux]"
    using timeline_unique [OF refl sorted_u(2,1)] by (simp add: contents_def tag)
  have "filter (is_terminal_event \<circ> snd) (timeline m) = ?t"
  proof -
    have "filter (is_terminal_event \<circ> snd) (map (\<lambda>(s, key, ev). (s, ev)) (coalesced m)) = []"
      using ok by (auto simp: filter_empty_conv mailbox_ok_def is_terminal_event_def event_key_def
          split: mux_event.splits)
    then have "filter (is_terminal_event \<circ> snd) (timeline m) = sort_key fst ?t"
      by (simp add: filter_timeline) (simp add: tagged_def)
    then show ?thesis
      using sorted_t(1) by (simp add: sorted_sort_id sort_key_id_if_sorted)
  qed
  then have "filter is_terminal_event (contents m) = map snd ?t"
    by (simp add: contents_def filter_map)
  then have q: "queue_push (contents m) EmptyMux = Some (contents ?m)"
    by (simp add: queue_push_def event_key_def Let_def c drop_map)
  have "mailbox_ok ?m"
  proof -
    have "length ?u \<le> MAX_PENDING_EVENTS - 1"
      by simp
    then have "length (tagged ?m) \<le> MAX_PENDING_EVENTS"
      by (simp add: tag MAX_PENDING_EVENTS_def)
    moreover have "\<forall>x \<in> set (tagged ?m). fst x < next_sequence ?m"
    proof -
      have "\<forall>x \<in> set ?u. fst x < next_sequence m"
        using sub lt_q nxt by (meson less_trans subsetD)
      with nxt show ?thesis
        unfolding tag by (simp add: m)
    qed
    moreover have "\<forall>x \<in> set (queued ?m). event_key (snd x) = None"
      using ok sub by (auto simp: mailbox_ok_def m event_key_def)
    moreover have "sorted (map fst (queued ?m))"
      using sorted_u(1) by (simp add: tag m tagged_def)
    ultimately show ?thesis
      using sorted_u(2) unfolding mailbox_ok_def by (simp add: m)
  qed
  with q show ?thesis
    by (simp add: pushed_def m)
qed

lemma mailbox_push_spec:
  assumes "mailbox_ok m" and "\<not> closed m" and "next_sequence m < MAX_SEQUENCE"
  shows "pushed (m\<lparr>next_sequence := Suc (next_sequence m)\<rparr>) (queue_push (contents m) ev) (mailbox_push m ev)"
proof -
  let ?m = "m\<lparr>next_sequence := Suc (next_sequence m)\<rparr>"
  have ok: "mailbox_ok ?m"
    using assms(1) by (rule mailbox_ok_cong [rotated -1]) simp_all
  have c: "contents ?m = contents m"
    by (rule contents_cong) simp_all
  have lt: "\<forall>x \<in> set (tagged ?m). fst x < next_sequence m"
    using assms(1) by (simp add: mailbox_ok_def tagged_def)
  have min: "min (Suc (next_sequence m)) MAX_SEQUENCE = Suc (next_sequence m)"
    using assms(3) by simp
  note coal = push_coalesced_spec [OF ok lt, unfolded c] and evt = push_event_spec [OF ok lt, unfolded c]
    and ex = push_exit_spec [OF ok lt, unfolded c] and em = push_empty_spec [OF ok lt, unfolded c]
  consider (coalesced) k where "event_key ev = Some k" | (exited) s where "ev = SurfaceExited s"
    | (empty) "ev = EmptyMux"
    | (other) "event_key ev = None" "\<forall>s. ev \<noteq> SurfaceExited s" "ev \<noteq> EmptyMux"
    by (cases "event_key ev") auto
  then show ?thesis
  proof cases
    case (coalesced k)
    then have "mailbox_push m ev = push_coalesced ?m (next_sequence m) k ev"
      using assms(2) by (cases ev) (simp_all add: mailbox_push_def min Let_def event_key_def)
    with coal [of ev k] coalesced show ?thesis by simp
  next
    case (exited s)
    with ex [of s] assms(2) show ?thesis
      by (simp add: mailbox_push_def min Let_def)
  next
    case empty
    with em assms(2) show ?thesis
      by (simp add: mailbox_push_def min Let_def)
  next
    case other
    then have "mailbox_push m ev = push_event ?m (next_sequence m) ev"
      "queue_push (contents m) ev = (if length (contents m) < MAX_PENDING_EVENTS then Some (contents m @ [ev]) else None)"
      using assms(2)
      by (cases ev; simp add: mailbox_push_def min Let_def event_key_def queue_push_def del: length_contents)+
    with evt [of ev] other show ?thesis by simp
  qed
qed

section \<open>Popping\<close>

lemma contents_pop:
  assumes "mailbox_ok m" and "mset (tagged m) = add_mset x (mset (tagged m'))"
    and "\<forall>y \<in> set (tagged m'). fst x \<le> fst y"
  shows "contents m = snd x # contents m'"
proof -
  have "timeline m = x # timeline m'"
  proof (rule timeline_unique)
    show "mset (x # timeline m') = mset (tagged m)"
      by (simp add: timeline_def assms(2))
    show "sorted (map fst (x # timeline m'))"
      using assms(3) by (simp add: timeline_def)
  qed (use assms(1) in \<open>simp add: mailbox_ok_def\<close>)
  then show ?thesis
    by (simp add: contents_def)
qed

lemma pop_queued_ok:
  assumes "mailbox_ok m" and "queued m = x # rest" and "m' = m\<lparr>queued := rest\<rparr>"
  shows "mailbox_ok m' \<and> mset (tagged m) = add_mset x (mset (tagged m'))"
  using assms by (auto simp: mailbox_ok_def tagged_def)

lemma pop_coalesced_ok:
  assumes ok: "mailbox_ok m" and c: "coalesced m = (s, key, ev) # rest"
    and m': "m' = m\<lparr>coalesced := rest, coalesced_sequences := (coalesced_sequences m)(key := None)\<rparr>"
  shows "mailbox_ok m' \<and> mset (tagged m) = add_mset (s, ev) (mset (tagged m'))"
proof -
  have seq: "coalesced_sequences m key = Some s"
    using mailbox_ok_seqs [OF ok] c by auto
  have fresh: "s \<notin> fst ` set rest"
  proof -
    have "distinct (map fst (tagged m))"
      using ok by (simp add: mailbox_ok_def)
    then show ?thesis
      using c by (auto simp: tagged_def case_prod_beta comp_def)
  qed
  have "(coalesced_sequences m' k = Some t) = (\<exists>e. (t, k, e) \<in> set (coalesced m'))" for k t
  proof -
    have "(t, k, e) \<in> set rest \<Longrightarrow> k \<noteq> key" for e
      using coalesced_unique [OF ok seq, of "(t, k, e)"] fresh c by force
    moreover have "k \<noteq> key \<Longrightarrow> (t, k, e) \<in> set (coalesced m) \<longleftrightarrow> (t, k, e) \<in> set rest" for e
      using c by auto
    ultimately show ?thesis
      using mailbox_ok_seqs [OF ok, of k t] by (auto simp: m')
  qed
  then show ?thesis
    using ok c unfolding mailbox_ok_def by (simp add: m' tagged_def)
qed

lemma mailbox_pop_spec:
  assumes "mailbox_ok m"
  shows "case contents m of
      [] \<Rightarrow> mailbox_pop m = None
    | e # es \<Rightarrow> \<exists>m'. mailbox_pop m = Some (e, m') \<and> mailbox_ok m' \<and> contents m' = es
        \<and> closed m' = closed m \<and> overflowed m' = overflowed m \<and> next_sequence m' = next_sequence m"
proof (cases "queued m = [] \<and> coalesced m = []")
  case True
  then have "contents m = []"
    by (simp flip: length_0_conv)
  with True show ?thesis
    by (simp add: mailbox_pop_def)
next
  case False
  have sorted: "sorted (map fst (queued m))" "sorted (map fst (coalesced m))"
    using assms by (simp_all add: mailbox_ok_def)
  consider (queue) s ev rest where "queued m = (s, ev) # rest" "\<forall>x \<in> set (coalesced m). s \<le> fst x"
      "mailbox_pop m = Some (ev, m\<lparr>queued := rest\<rparr>)"
    | (coal) s key ev rest where "coalesced m = (s, key, ev) # rest" "\<forall>x \<in> set (queued m). s \<le> fst x"
      "mailbox_pop m = Some (ev, m\<lparr>coalesced := rest, coalesced_sequences := (coalesced_sequences m)(key := None)\<rparr>)"
  proof (cases "queued m")
    case Nil
    with False obtain x rest where "coalesced m = x # rest"
      by (cases "coalesced m") auto
    with Nil coal show thesis
      by (cases x) (simp add: mailbox_pop_def)
  next
    case (Cons q qrest)
    obtain s ev where q: "q = (s, ev)"
      by (cases q)
    show thesis
    proof (cases "coalesced m")
      case Nil
      with Cons q queue show thesis
        by (simp add: mailbox_pop_def)
    next
      case (Cons x crest)
      obtain c key ev' where x: "x = (c, key, ev')"
        by (cases x) auto
      have "\<forall>y \<in> set (queued m). s \<le> fst y" "\<forall>y \<in> set (coalesced m). c \<le> fst y"
        using sorted \<open>queued m = q # qrest\<close> Cons q x by auto
      then have "s \<le> c \<Longrightarrow> \<forall>y \<in> set (coalesced m). s \<le> fst y"
        "\<not> s \<le> c \<Longrightarrow> \<forall>y \<in> set (queued m). c \<le> fst y"
        by (meson order_trans nle_le)+
      then show thesis
        using queue [of s ev qrest] coal [of c key ev' crest] \<open>queued m = q # qrest\<close> Cons q x
        by (cases "s \<le> c") (simp_all add: mailbox_pop_def)
    qed
  qed
  then show ?thesis
  proof cases
    case queue
    let ?m = "m\<lparr>queued := rest\<rparr>"
    from pop_queued_ok [OF assms queue(1) refl]
    have ok: "mailbox_ok ?m" "mset (tagged m) = add_mset (s, ev) (mset (tagged ?m))" by simp_all
    have "\<forall>y \<in> set (tagged ?m). fst (s, ev) \<le> fst y"
      using queue(1,2) sorted(1) by (auto simp: tagged_def)
    from contents_pop [OF assms ok(2) this] ok(1) queue(3) show ?thesis
      by simp
  next
    case coal
    let ?m = "m\<lparr>coalesced := rest, coalesced_sequences := (coalesced_sequences m)(key := None)\<rparr>"
    from pop_coalesced_ok [OF assms coal(1) refl]
    have ok: "mailbox_ok ?m" "mset (tagged m) = add_mset (s, ev) (mset (tagged ?m))" by simp_all
    have "\<forall>y \<in> set (tagged ?m). fst (s, ev) \<le> fst y"
      using coal(1,2) sorted(2) by (auto simp: tagged_def)
    from contents_pop [OF assms ok(2) this] ok(1) coal(3) show ?thesis
      by simp
  qed
qed

section \<open>Receivers of a queue\<close>

text \<open>What a receiver relies on: popping takes the first element of the contents.\<close>

locale event_source =
  fixes pop :: "'s \<Rightarrow> ('e \<times> 's) option"
    and ok :: "'s \<Rightarrow> bool"
    and pending :: "'s \<Rightarrow> 'e list"
  assumes pop_Nil: "ok s \<Longrightarrow> pending s = [] \<Longrightarrow> pop s = None"
    and pop_Cons: "ok s \<Longrightarrow> pending s = e # es \<Longrightarrow> \<exists>s'. pop s = Some (e, s') \<and> ok s' \<and> pending s' = es"
begin

text \<open>Taking \<open>n\<close> elements one by one, as an iterator over the receiver does.\<close>

fun take_from :: "nat \<Rightarrow> 's \<Rightarrow> 'e list \<times> 's" where
  "take_from 0 s = ([], s)"
| "take_from (Suc n) s =
     (case pop s of None \<Rightarrow> ([], s) | Some (e, s') \<Rightarrow> (let (es, s'') = take_from n s' in (e # es, s'')))"

lemma take_from_pending:
  "ok s \<Longrightarrow> \<exists>s'. take_from n s = (take n (pending s), s') \<and> ok s' \<and> pending s' = drop n (pending s)"
proof (induction n arbitrary: s)
  case 0
  then show ?case by simp
next
  case (Suc n)
  show ?case
  proof (cases "pending s")
    case Nil
    with pop_Nil [OF Suc.prems] show ?thesis
      using Suc.prems by simp
  next
    case (Cons e es)
    with pop_Cons [OF Suc.prems Cons] obtain s' where "pop s = Some (e, s')" "ok s'" "pending s' = es"
      by blast
    with Suc.IH [of s'] Cons show ?thesis
      by auto
  qed
qed

lemma drain: "ok s \<Longrightarrow> length (pending s) < n \<Longrightarrow> \<exists>s'. take_from n s = (pending s, s') \<and> pop s' = None"
  using take_from_pending [of s n] pop_Nil by fastforce

end

interpretation mailbox: event_source mailbox_pop mailbox_ok contents
proof
  show "mailbox_ok m \<Longrightarrow> contents m = [] \<Longrightarrow> mailbox_pop m = None" for m :: "'a mailbox"
    using mailbox_pop_spec [of m] by simp
  show "mailbox_ok m \<Longrightarrow> contents m = e # es \<Longrightarrow>
      \<exists>m'. mailbox_pop m = Some (e, m') \<and> mailbox_ok m' \<and> contents m' = es" for m :: "'a mailbox" and e es
    using mailbox_pop_spec [of m] by auto
qed

end
