(* ===== verification/EventProps.thy ===== *)
theory EventProps
  imports EventBusInv
begin

text \<open>What subscribers can rely on.\<close>

text \<open>C21. Refinement: a mailbox is the bounded queue of \<open>queue_push\<close>. A push that fits makes the
  contents the specified queue; one that does not closes the mailbox and marks it overflowed with
  everything accepted before still there. A pop takes the oldest event of all, coalesced or not.
  Every operation keeps the invariant of the mailbox.\<close>

theorem mailbox_refines_queue:
  assumes "mailbox_ok m" and "\<not> closed m" and "next_sequence m < MAX_SEQUENCE"
  shows "(case queue_push (contents m) ev of
      Some q \<Rightarrow> \<exists>m'. mailbox_push m ev = (m', True) \<and> mailbox_ok m' \<and> contents m' = q \<and> \<not> closed m'
        \<and> overflowed m' = overflowed m
    | None \<Rightarrow> \<exists>m'. mailbox_push m ev = (m', False) \<and> mailbox_ok m' \<and> contents m' = contents m \<and> closed m'
        \<and> overflowed m')
    \<and> (case contents m of
        [] \<Rightarrow> mailbox_pop m = None
      | e # es \<Rightarrow> \<exists>m'. mailbox_pop m = Some (e, m') \<and> mailbox_ok m' \<and> contents m' = es)"
proof
  have "contents (m\<lparr>next_sequence := Suc (next_sequence m)\<rparr>) = contents m"
    by (rule contents_cong) simp_all
  with mailbox_push_spec [OF assms, of ev] assms(2)
  show "case queue_push (contents m) ev of
      Some q \<Rightarrow> \<exists>m'. mailbox_push m ev = (m', True) \<and> mailbox_ok m' \<and> contents m' = q \<and> \<not> closed m'
        \<and> overflowed m' = overflowed m
    | None \<Rightarrow> \<exists>m'. mailbox_push m ev = (m', False) \<and> mailbox_ok m' \<and> contents m' = contents m \<and> closed m'
        \<and> overflowed m'"
    by (cases "mailbox_push m ev") (simp add: pushed_def split: option.split)
  show "case contents m of
        [] \<Rightarrow> mailbox_pop m = None
      | e # es \<Rightarrow> \<exists>m'. mailbox_pop m = Some (e, m') \<and> mailbox_ok m' \<and> contents m' = es"
    using mailbox_pop_spec [OF assms(1)] by (auto split: list.split)
qed

lemma mailbox_refines_queue_witness:
  "(case queue_push [] (Bell 3 :: nat mux_event) of
      Some q \<Rightarrow> q = [Bell 3] \<and> (\<exists>m'. mailbox_push mailbox_new (Bell 3) = (m', True) \<and> contents m' = q)
    | None \<Rightarrow> False)"
proof -
  have "mailbox_ok (mailbox_new :: nat mailbox)" "\<not> closed (mailbox_new :: nat mailbox)"
    "next_sequence (mailbox_new :: nat mailbox) < MAX_SEQUENCE"
    by (simp, simp add: mailbox_new_def, simp add: mailbox_new_def MAX_SEQUENCE_def)
  from mailbox_refines_queue [OF this, of "Bell 3"] show ?thesis
    by (auto simp: queue_push_def event_key_def MAX_PENDING_EVENTS_def)
qed

section \<open>Runs\<close>

text \<open>\<open>None\<close> when a push was refused.\<close>

fun queue_pushes :: "'p mux_event list \<Rightarrow> 'p mux_event list \<Rightarrow> 'p mux_event list option" where
  "queue_pushes q [] = Some q"
| "queue_pushes q (ev # evs) = Option.bind (queue_push q ev) (\<lambda>q. queue_pushes q evs)"

fun mailbox_pushes :: "'p mailbox \<Rightarrow> 'p mux_event list \<Rightarrow> 'p mailbox" where
  "mailbox_pushes m [] = m"
| "mailbox_pushes m (ev # evs) = mailbox_pushes (fst (mailbox_push m ev)) evs"

text \<open>\<open>try_iter\<close>: the results of \<open>n\<close> calls of \<open>try_recv\<close> up to the first error.\<close>

fun try_iter :: "nat \<Rightarrow> 'p mailbox \<Rightarrow> 'p mux_event list \<times> 'p mailbox" where
  "try_iter 0 m = ([], m)"
| "try_iter (Suc n) m =
     (case try_recv m of
        (Inl _, m) \<Rightarrow> ([], m)
      | (Inr ev, m) \<Rightarrow> (let (evs, m) = try_iter n m in (ev # evs, m)))"

lemma try_iter_eq: "try_iter n m = mailbox.take_from n m"
  by (induction n arbitrary: m) (simp_all add: try_recv_def split: option.split prod.split)

text \<open>What may take a pending event away: a newer one of its key, the exit of its surface, or the
  end of all workspaces.\<close>

definition superseded :: "'p mux_event \<Rightarrow> 'p mux_event \<Rightarrow> bool" where
  "superseded ev e \<longleftrightarrow>
     (event_key ev \<noteq> None \<and> event_key e = event_key ev)
     \<or> (case e of SurfaceExited s \<Rightarrow> event_key ev \<in> Some ` {TitleKey s, OutputKey s, ScrollKey s} | _ \<Rightarrow> False)
     \<or> e = EmptyMux"

lemma queue_push_keeps:
  assumes "queue_push q e = Some q'" and "ev \<in> set q" and "\<not> superseded ev e"
  shows "ev \<in> set q'"
proof (cases "event_key e")
  case (Some k)
  with assms(3) have "event_key ev \<noteq> Some k"
    by (auto simp: superseded_def)
  with assms(1,2) Some show ?thesis
    by (auto simp: queue_push_def Let_def split: if_splits)
next
  case None
  with assms show ?thesis
    by (cases e) (auto simp: queue_push_def Let_def superseded_def split: if_splits)
qed

lemma queue_push_adds: "queue_push q e = Some q' \<Longrightarrow> e \<in> set q'"
  by (cases "event_key e"; cases e) (auto simp: queue_push_def Let_def split: if_splits)

lemma queue_pushes_keeps:
  "queue_pushes q evs = Some q' \<Longrightarrow> ev \<in> set q \<Longrightarrow> \<forall>e \<in> set evs. \<not> superseded ev e \<Longrightarrow> ev \<in> set q'"
  by (induction evs arbitrary: q) (auto simp: bind_eq_Some_conv intro: queue_push_keeps)

lemma queue_pushes_append:
  "queue_pushes q (xs @ ys) = Option.bind (queue_pushes q xs) (\<lambda>q. queue_pushes q ys)"
  by (induction xs arbitrary: q) (simp_all add: Option.bind_assoc)

lemma mailbox_pushes_contents:
  assumes "mailbox_ok m" and "\<not> closed m" and "next_sequence m + length evs \<le> MAX_SEQUENCE"
    and "queue_pushes (contents m) evs = Some q"
  shows "mailbox_ok (mailbox_pushes m evs) \<and> contents (mailbox_pushes m evs) = q
    \<and> \<not> closed (mailbox_pushes m evs)"
  using assms
proof (induction evs arbitrary: m)
  case Nil
  then show ?case by simp
next
  case (Cons ev evs)
  obtain q' where q': "queue_push (contents m) ev = Some q'" "queue_pushes q' evs = Some q"
    using Cons.prems(4) by (auto simp: bind_eq_Some_conv)
  have "next_sequence m < MAX_SEQUENCE"
    using Cons.prems(3) by simp
  from mailbox_push_spec [OF Cons.prems(1,2) this, of ev] q'(1) Cons.prems(2)
  have "mailbox_ok (fst (mailbox_push m ev))" "contents (fst (mailbox_push m ev)) = q'"
    "\<not> closed (fst (mailbox_push m ev))" "next_sequence (fst (mailbox_push m ev)) = Suc (next_sequence m)"
    by (simp_all add: pushed_def)
  with Cons.IH [of "fst (mailbox_push m ev)"] q'(2) Cons.prems(3) show ?case
    by simp
qed

lemma mailbox_pop_closed: "mailbox_pop m = Some (ev, m') \<Longrightarrow> closed m' = closed m"
  unfolding mailbox_pop_def by (auto split: list.splits prod.splits if_splits)

lemma take_from_closed: "closed (snd (mailbox.take_from n m)) = closed m"
proof (induction n arbitrary: m)
  case (Suc n)
  show ?case
  proof (cases "mailbox_pop m")
    case (Some r)
    obtain ev m' where "r = (ev, m')"
      by (cases r)
    with Some Suc.IH [of m'] mailbox_pop_closed [of m ev m'] show ?thesis
      by (simp add: case_prod_beta)
  qed simp
qed simp

text \<open>C22. Liveness: nothing a subscriber still has to know is lost. After a run of pushes that was not
  refused, iterating over the receiver yields exactly the specified queue, at most 4096 events, and
  then reports that nothing is pending; an event that was pushed and not superseded by a later one
  is among those delivered.\<close>

theorem pushed_events_are_delivered:
  assumes "queue_pushes [] (before @ ev # later) = Some q"
    and "length (before @ ev # later) < 2 ^ 128"
    and "\<forall>e \<in> set later. \<not> superseded ev e"
  shows "ev \<in> set q \<and> length q \<le> MAX_PENDING_EVENTS
    \<and> (\<exists>m. try_iter (Suc (length q)) (mailbox_pushes mailbox_new (before @ ev # later)) = (q, m)
         \<and> try_recv m = (Inl EmptyNow, m))"
proof (intro conjI)
  let ?m = "mailbox_pushes mailbox_new (before @ ev # later)"
  have "\<not> closed (mailbox_new :: 'a mailbox)"
    by (simp add: mailbox_new_def)
  then have m: "mailbox_ok ?m" "contents ?m = q" "\<not> closed ?m"
    using mailbox_pushes_contents [of mailbox_new "before @ ev # later" q] assms(1,2)
    by (simp_all add: mailbox_new_def [THEN arg_cong, of next_sequence] MAX_SEQUENCE_def)
  show "length q \<le> MAX_PENDING_EVENTS"
    using m(1,2) by (metis length_tagged mailbox_ok_def)
  show "ev \<in> set q"
    using assms(1,3) by (auto simp: queue_pushes_append bind_eq_Some_conv
        intro: queue_pushes_keeps queue_push_adds)
  show "\<exists>n. try_iter (Suc (length q)) ?m = (q, n) \<and> try_recv n = (Inl EmptyNow, n)"
  proof -
    obtain n where n: "mailbox.take_from (Suc (length q)) ?m = (q, n)" "mailbox_ok n" "contents n = []"
      using mailbox.take_from_pending [OF m(1), of "Suc (length q)"] m(2) by auto
    with m(3) take_from_closed [of "Suc (length q)" ?m] have "\<not> closed n"
      by simp
    with n mailbox_pop_spec [OF n(2)] show ?thesis
      by (auto simp: try_iter_eq try_recv_def)
  qed
qed

lemma pushed_events_are_delivered_witness:
  "\<exists>m. try_iter 3 (mailbox_pushes mailbox_new [TitleChanged 1 (0 :: nat), Bell 2, TitleChanged 1 5])
       = ([Bell 2, TitleChanged 1 5], m) \<and> try_recv m = (Inl EmptyNow, m)"
proof -
  have q: "queue_pushes [] ([TitleChanged 1 (0 :: nat)] @ Bell 2 # [TitleChanged 1 5])
      = Some [Bell 2, TitleChanged 1 5]"
    by (simp add: queue_push_def event_key_def Let_def MAX_PENDING_EVENTS_def)
  have n: "length ([TitleChanged 1 (0 :: nat)] @ Bell 2 # [TitleChanged 1 5]) < 2 ^ 128"
    by simp
  have s: "\<forall>e \<in> set [TitleChanged 1 (5 :: nat)]. \<not> superseded (Bell 2) e"
    by (simp add: superseded_def event_key_def)
  from pushed_events_are_delivered [OF q n s] show ?thesis
    by (simp only: append.simps list.size numeral_3_eq_3 One_nat_def add_0_left add_0_right add_Suc_right)
qed

section \<open>Broadcasting\<close>

lemma emit_None: "st i = None \<Longrightarrow> emit ev ((i, f) # subs) st = emit ev subs st"
  by simp

lemma emit_Some:
  assumes "st i = Some m"
  shows "snd (emit ev ((i, f) # subs) st) =
      snd (emit ev subs (st(i \<mapsto> if snd (filter_accepts f ev) then fst (mailbox_push m ev) else m)))"
    and "fst (emit ev ((i, f) # subs) st) =
      (if snd (filter_accepts f ev) \<and> \<not> snd (mailbox_push m ev) then [] else [(i, fst (filter_accepts f ev))])
      @ fst (emit ev subs (st(i \<mapsto> if snd (filter_accepts f ev) then fst (mailbox_push m ev) else m)))"
  using assms by (auto simp: Let_def case_prod_beta)

lemma map_filter_cong: "(\<And>x. x \<in> set xs \<Longrightarrow> f x = g x) \<Longrightarrow> List.map_filter f xs = List.map_filter g xs"
  by (induction xs) (simp_all add: List.map_filter_simps split: option.split)

text \<open>Every subscriber is served on its own: an event reaches exactly the live mailboxes whose
  filter accepts it, each as a push of its own; the others are left alone. A subscriber stays
  subscribed, with the filter as it has learnt from the event, unless its mailbox is gone or has
  refused the event.\<close>

theorem emit_serves_each_subscriber:
  assumes "distinct (map fst subs)"
  shows "snd (emit ev subs st) =
      (\<lambda>i. case (st i, map_of subs i) of
             (Some m, Some f) \<Rightarrow> Some (if snd (filter_accepts f ev) then fst (mailbox_push m ev) else m)
           | (x, _) \<Rightarrow> x)
    \<and> fst (emit ev subs st) =
      List.map_filter (\<lambda>(i, f). case st i of
          None \<Rightarrow> None
        | Some m \<Rightarrow>
            if snd (filter_accepts f ev) \<and> \<not> snd (mailbox_push m ev) then None
            else Some (i, fst (filter_accepts f ev))) subs"
  using assms
proof (induction subs arbitrary: st)
  case Nil
  then show ?case
    by (auto simp: fun_eq_iff List.map_filter_def split: option.split)
next
  case (Cons s subs)
  obtain i f where s: "s = (i, f)"
    by (cases s)
  have i: "map_of subs i = None" "i \<notin> fst ` set subs"
    using Cons.prems s by (simp_all add: map_of_eq_None_iff)
  show ?case
  proof (cases "st i")
    case None
    with Cons.IH [of st] Cons.prems i s show ?thesis
      by (auto simp: fun_eq_iff List.map_filter_simps simp del: emit.simps simp: emit_None split: option.split)
  next
    case (Some m)
    let ?st = "st(i \<mapsto> if snd (filter_accepts f ev) then fst (mailbox_push m ev) else m)"
    have "List.map_filter (\<lambda>(j, f). case ?st j of
          None \<Rightarrow> None
        | Some m \<Rightarrow>
            if snd (filter_accepts f ev) \<and> \<not> snd (mailbox_push m ev) then None
            else Some (j, fst (filter_accepts f ev))) subs
      = List.map_filter (\<lambda>(j, f). case st j of
          None \<Rightarrow> None
        | Some m \<Rightarrow>
            if snd (filter_accepts f ev) \<and> \<not> snd (mailbox_push m ev) then None
            else Some (j, fst (filter_accepts f ev))) subs"
      using i(2) by (intro map_filter_cong) (auto simp: image_iff)
    moreover have "distinct (map fst subs)"
      using Cons.prems by simp
    note IH = Cons.IH [of ?st, OF this]
    ultimately show ?thesis
      unfolding s emit_Some(1) [where st = st, OF Some] emit_Some(2) [where st = st, OF Some] conjunct1 [OF IH] conjunct2 [OF IH]
      using i(1) Some by (intro conjI ext) (simp_all add: List.map_filter_simps split: option.split)
  qed
qed

lemma emit_serves_each_subscriber_witness:
  "snd (emit (Bell 4) [(0, AllEvents), (1, AttachedSurface 4)] [0 \<mapsto> mailbox_new, 1 \<mapsto> (mailbox_new :: nat mailbox)]) 1
     = Some mailbox_new
   \<and> map_option contents
       (snd (emit (Bell 4) [(0, AllEvents), (1, AttachedSurface 4)] [0 \<mapsto> mailbox_new, 1 \<mapsto> (mailbox_new :: nat mailbox)]) 0)
     = Some [Bell 4]"
proof -
  have "distinct (map fst [(0 :: nat, AllEvents), (1, AttachedSurface 4)])"
    by simp
  from emit_serves_each_subscriber [OF this, of "Bell 4" "[0 \<mapsto> mailbox_new, 1 \<mapsto> (mailbox_new :: nat mailbox)]"]
  have *: "snd (emit (Bell 4) [(0, AllEvents), (1, AttachedSurface 4)] [0 \<mapsto> mailbox_new, 1 \<mapsto> (mailbox_new :: nat mailbox)])
      = [0 \<mapsto> fst (mailbox_push mailbox_new (Bell 4)), 1 \<mapsto> mailbox_new]"
    by (auto simp: fun_eq_iff filter_accepts_def split: option.split)
  have "contents (fst (mailbox_push (mailbox_new :: nat mailbox) (Bell 4))) = [Bell 4]"
    by (simp add: mailbox_push_def mailbox_new_def push_event_def reserve_pending_slot_def
        MAX_PENDING_EVENTS_def contents_def timeline_def tagged_def Let_def)
  with * show ?thesis by simp
qed

end
