(* ===== verification/ShortIds.thy ===== *)
theory ShortIds
  imports Prelude "HOL-Library.Char_ord"
begin

text \<open>
  Six-character session ids (\<open>cmux-tui-core/src/short_id.rs\<close>). The probing loop has no bound of
  its own, so it is a partial function: \<open>None\<close> is a call that does not return. All numbers
  stay below \<open>36 ^ 6\<close> after the reduction of the \<open>u64\<close> id, so they are naturals.
\<close>

definition short_id_width :: nat where "short_id_width = 6"
definition short_id_base :: nat where "short_id_base = 36"
definition short_id_space :: nat where "short_id_space = short_id_base ^ short_id_width"

section \<open>Fixed-width numerals\<close>

text \<open>The array is filled from its end; \<open>w\<close> slots are left.\<close>

fun encode_digits :: "nat \<Rightarrow> (nat \<Rightarrow> char) \<Rightarrow> nat \<Rightarrow> nat \<Rightarrow> string" where
  "encode_digits b digit 0 n = []"
| "encode_digits b digit (Suc w) n = encode_digits b digit w (n div b) @ [digit (n mod b)]"

definition digit36 :: "nat \<Rightarrow> char" where
  "digit36 d = (if d < 10 then char_of (48 + d) else char_of (97 + d - 10))"

definition encode_base36 :: "nat \<Rightarrow> string" where
  "encode_base36 n = encode_digits short_id_base digit36 short_id_width n"

lemma length_encode_digits [simp]: "length (encode_digits b digit w n) = w"
  by (induction w arbitrary: n) auto

lemma encode_digits_inj:
  assumes "inj_on digit {..<b}" and "0 < b" and "n < b ^ w" and "m < b ^ w"
    and "encode_digits b digit w n = encode_digits b digit w m"
  shows "n = m"
  using assms(3-5)
proof (induction w arbitrary: n m)
  case 0
  then show ?case by simp
next
  case (Suc w)
  have "n div b < b ^ w" "m div b < b ^ w"
    using Suc.prems(1,2) assms(2) by (simp_all add: less_mult_imp_div_less mult.commute)
  with Suc have "n div b = m div b"
    by simp
  moreover have "n mod b = m mod b"
    using Suc.prems(3) assms(2) inj_onD [OF assms(1), of "n mod b" "m mod b"] by simp
  ultimately show ?case
    by (metis div_mult_mod_eq)
qed

lemma digit36_inj: "inj_on digit36 {..<36}"
  by (rule inj_onI) (auto simp: digit36_def of_char_of dest!: arg_cong [of _ _ "of_char :: char \<Rightarrow> nat"]
      split: if_splits)

lemma encode_base36_inj: "inj_on encode_base36 {..<short_id_space}"
  unfolding encode_base36_def short_id_space_def
  by (rule inj_onI, rule encode_digits_inj [of digit36 short_id_base])
    (auto simp: digit36_inj short_id_base_def)

section \<open>Assigning ids\<close>

partial_function (option) probe :: "string set \<Rightarrow> nat \<Rightarrow> string option" where
  "probe used n =
     (let candidate = encode_base36 n in
      if candidate \<notin> used then Some candidate else probe used ((n + 1) mod short_id_space))"

declare probe.simps [code]

fun assign_loop :: "nat list \<Rightarrow> string set \<Rightarrow> (nat \<times> string) list \<Rightarrow> (nat \<times> string) list option" where
  "assign_loop [] used out = Some out"
| "assign_loop (i # is) used out =
     Option.bind (probe used (i mod short_id_space)) (\<lambda>c.
       assign_loop is (insert c used) (out @ [(i, c)]))"

definition assign_short_ids :: "nat list \<Rightarrow> (nat \<times> string) list option" where
  "assign_short_ids is = assign_loop (remdups_adj (sort is)) {} []"

section \<open>The loop returns while a candidate is free\<close>

lemma short_id_space_pos [simp]: "0 < short_id_space"
  by (simp add: short_id_space_def short_id_base_def)

definition candidate_at :: "nat \<Rightarrow> nat \<Rightarrow> string" where
  "candidate_at n k = encode_base36 ((n + k) mod short_id_space)"

lemma candidate_at_Suc [simp]: "candidate_at (Suc n mod short_id_space) k = candidate_at n (Suc k)"
  by (simp add: candidate_at_def mod_simps)

lemma candidate_at_0: "n < short_id_space \<Longrightarrow> candidate_at n 0 = encode_base36 n"
  by (simp add: candidate_at_def)

lemma candidate_at_range [simp]: "candidate_at n k \<in> encode_base36 ` {..<short_id_space}"
  by (simp add: candidate_at_def)

lemma probe_SomeD:
  assumes "probe used n = Some c"
  shows "n < short_id_space \<longrightarrow> (\<exists>k. c = candidate_at n k \<and> c \<notin> used \<and> (\<forall>j < k. candidate_at n j \<in> used))"
proof (rule probe.raw_induct [where P = "\<lambda>used n c. n < short_id_space \<longrightarrow>
      (\<exists>k. c = candidate_at n k \<and> c \<notin> used \<and> (\<forall>j < k. candidate_at n j \<in> used))", OF _ assms])
  fix probe' used n c
  assume IH: "\<And>used n c. probe' used n = Some c \<Longrightarrow> n < short_id_space \<longrightarrow>
      (\<exists>k. c = candidate_at n k \<and> c \<notin> used \<and> (\<forall>j < k. candidate_at n j \<in> used))"
    and step: "(let candidate = encode_base36 n
       in if candidate \<notin> used then Some candidate else probe' used ((n + 1) mod short_id_space)) = Some c"
  show "n < short_id_space \<longrightarrow> (\<exists>k. c = candidate_at n k \<and> c \<notin> used \<and> (\<forall>j < k. candidate_at n j \<in> used))"
  proof (intro impI)
    assume n: "n < short_id_space"
    show "\<exists>k. c = candidate_at n k \<and> c \<notin> used \<and> (\<forall>j < k. candidate_at n j \<in> used)"
    proof (cases "encode_base36 n \<in> used")
      case False
      with step n show ?thesis
        by (intro exI [of _ 0]) (simp add: candidate_at_0)
    next
      case True
      with step have "probe' used ((n + 1) mod short_id_space) = Some c"
        by simp
      with IH [of used "(n + 1) mod short_id_space" c] obtain k where
        "c = candidate_at n (Suc k)" "c \<notin> used" "\<forall>j < k. candidate_at n (Suc j) \<in> used"
        by (auto simp: mod_less_divisor)
      with True n show ?thesis
        by (intro exI [of _ "Suc k"]) (auto simp: less_Suc_eq_0_disj candidate_at_0)
    qed
  qed
qed

lemma probe_returns:
  assumes "candidate_at n k \<notin> used" and "n < short_id_space"
  shows "\<exists>c. probe used n = Some c"
  using assms
proof (induction k arbitrary: n)
  case 0
  then show ?case
    by (subst probe.simps) (simp add: candidate_at_0)
next
  case (Suc k)
  from Suc.IH [of "(n + 1) mod short_id_space"] Suc.prems show ?case
    by (subst probe.simps) (auto simp: Let_def)
qed

text \<open>The candidates cover the whole space, so a free one is found as long as there is one.\<close>

lemma free_candidate:
  assumes "finite used" and "card used < short_id_space" and "n < short_id_space"
  shows "\<exists>k. candidate_at n k \<notin> used"
proof -
  have "card (encode_base36 ` {..<short_id_space}) = short_id_space"
    by (simp add: card_image encode_base36_inj)
  then have "\<not> encode_base36 ` {..<short_id_space} \<subseteq> used"
    using card_mono [OF assms(1), of "encode_base36 ` {..<short_id_space}"] assms(2) by linarith
  then obtain m where m: "m < short_id_space" "encode_base36 m \<notin> used"
    by auto
  have "(n + (m + short_id_space - n)) mod short_id_space = m"
    using m(1) assms(3) by simp
  with m(2) show ?thesis
    unfolding candidate_at_def by metis
qed

text \<open>The invariant of the outer loop: the used candidates are those of the entries so far.\<close>

definition short_ids_ok :: "(nat \<times> string) list \<Rightarrow> bool" where
  "short_ids_ok out \<longleftrightarrow> distinct (map snd out) \<and> snd ` set out \<subseteq> encode_base36 ` {..<short_id_space}"

lemma short_ids_card: "short_ids_ok out \<Longrightarrow> card (snd ` set out) = length out \<and> length out \<le> short_id_space"
proof -
  assume ok: "short_ids_ok out"
  then have "card (snd ` set out) = length out"
    by (metis short_ids_ok_def distinct_card length_map set_map)
  moreover have "card (snd ` set out) \<le> card (encode_base36 ` {..<short_id_space})"
    using ok by (intro card_mono) (auto simp: short_ids_ok_def)
  moreover have "card (encode_base36 ` {..<short_id_space}) = short_id_space"
    by (simp add: card_image encode_base36_inj)
  ultimately show ?thesis by simp
qed

lemma assign_loop_Some:
  assumes "assign_loop is (snd ` set out) out = Some result" and "short_ids_ok out"
  shows "short_ids_ok result \<and> (\<exists>new. result = out @ new \<and> map fst new = is)"
  using assms
proof (induction "is" arbitrary: out)
  case Nil
  then show ?case by simp
next
  case (Cons i "is")
  from Cons.prems(1) obtain c where c: "probe (snd ` set out) (i mod short_id_space) = Some c"
    and rest: "assign_loop is (snd ` set (out @ [(i, c)])) (out @ [(i, c)]) = Some result"
    by (auto simp: bind_eq_Some_conv)
  from probe_SomeD [OF c] have "c \<notin> snd ` set out" "c \<in> encode_base36 ` {..<short_id_space}"
    by auto
  with Cons.prems(2) have "short_ids_ok (out @ [(i, c)])"
    by (auto simp: short_ids_ok_def)
  from Cons.IH [OF rest this] show ?case
    by auto
qed

lemma assign_loop_returns:
  assumes "length out + length is \<le> short_id_space" and "short_ids_ok out"
  shows "\<exists>result. assign_loop is (snd ` set out) out = Some result"
  using assms
proof (induction "is" arbitrary: out)
  case Nil
  then show ?case by simp
next
  case (Cons i "is")
  have "card (snd ` set out) < short_id_space"
    using Cons.prems short_ids_card [of out] by simp
  from free_candidate [OF _ this, of "i mod short_id_space"] obtain k where
    "candidate_at (i mod short_id_space) k \<notin> snd ` set out"
    by auto
  from probe_returns [OF this] obtain c where c: "probe (snd ` set out) (i mod short_id_space) = Some c"
    by auto
  from probe_SomeD [OF c] have "c \<notin> snd ` set out" "c \<in> encode_base36 ` {..<short_id_space}"
    by auto
  with Cons.prems have "short_ids_ok (out @ [(i, c)])" "length (out @ [(i, c)]) + length is \<le> short_id_space"
    by (auto simp: short_ids_ok_def)
  from Cons.IH [OF this(2,1)] c show ?case
    by simp
qed

lemma sorted_distinct_remdups_adj: "sorted xs \<Longrightarrow> distinct (remdups_adj xs)"
  by (induction xs rule: remdups_adj.induct) auto

lemma sorted_ids: "remdups_adj (sort is) = sorted_list_of_set (set is)"
  by (rule sorted_distinct_set_unique) (simp_all add: sorted_remdups_adj sorted_distinct_remdups_adj)

text \<open>How the loop chooses: entry \<open>k\<close> takes the first candidate, counted from its own id, that none of
  the entries before it has.\<close>

definition takes_first_free :: "(nat \<times> string) list \<Rightarrow> nat \<Rightarrow> bool" where
  "takes_first_free out k \<longleftrightarrow> (\<exists>j. snd (out ! k) = encode_base36 ((fst (out ! k) + j) mod 36 ^ 6)
     \<and> snd (out ! k) \<notin> snd ` set (take k out)
     \<and> (\<forall>i < j. encode_base36 ((fst (out ! k) + i) mod 36 ^ 6) \<in> snd ` set (take k out)))"

lemma short_id_space_eq: "short_id_space = 36 ^ 6"
  by (simp add: short_id_space_def short_id_base_def short_id_width_def)

lemma assign_loop_takes_first_free:
  assumes "assign_loop is (snd ` set out) out = Some result" and "\<forall>k < length out. takes_first_free out k"
  shows "(\<exists>new. result = out @ new) \<and> (\<forall>k < length result. takes_first_free result k)"
  using assms
proof (induction "is" arbitrary: out)
  case (Cons i "is")
  from Cons.prems(1) obtain c where c: "probe (snd ` set out) (i mod short_id_space) = Some c"
    and rest: "assign_loop is (snd ` set (out @ [(i, c)])) (out @ [(i, c)]) = Some result"
    by (auto simp: bind_eq_Some_conv)
  from probe_SomeD [OF c] have "takes_first_free (out @ [(i, c)]) (length out)"
    unfolding takes_first_free_def short_id_space_eq [symmetric] by (simp add: candidate_at_def mod_add_left_eq)
  moreover have "takes_first_free (out @ [(i, c)]) k" if "k < length out" for k
    using that Cons.prems(2) by (simp add: takes_first_free_def nth_append)
  ultimately have "\<forall>k < length (out @ [(i, c)]). takes_first_free (out @ [(i, c)]) k"
    by (simp add: less_Suc_eq)
  from Cons.IH [OF rest this] show ?case by auto
qed simp

text \<open>C23. Short ids. Assigning them returns exactly when the distinct ids fit the six-character
  space. The result lists the distinct ids in increasing order, each with a code of six characters
  of its own: the first one free when counting up, modulo \<open>36 ^ 6\<close>, from the id itself, after all
  smaller ids have taken theirs. Two lists of the same ids, in whatever order and multiplicity, get
  the same assignment, colliding ids included.\<close>

theorem assign_short_ids_terminates:
  assumes "set js = set is"
  shows "(case assign_short_ids is of
      None \<Rightarrow> 36 ^ 6 < card (set is)
    | Some out \<Rightarrow> card (set is) \<le> 36 ^ 6 \<and> map fst out = sorted_list_of_set (set is)
        \<and> distinct (map snd out) \<and> length ` snd ` set out \<subseteq> {6}
        \<and> (\<forall>k < length out. takes_first_free out k))
   \<and> assign_short_ids js = assign_short_ids is"
proof
  let ?ids = "sorted_list_of_set (set is)"
  have ok: "short_ids_ok []"
    by (simp add: short_ids_ok_def)
  have def: "assign_short_ids is = assign_loop ?ids (snd ` set []) []"
    by (simp add: assign_short_ids_def sorted_ids)
  note space = short_id_space_eq
  show "case assign_short_ids is of
      None \<Rightarrow> 36 ^ 6 < card (set is)
    | Some out \<Rightarrow> card (set is) \<le> 36 ^ 6 \<and> map fst out = sorted_list_of_set (set is)
        \<and> distinct (map snd out) \<and> length ` snd ` set out \<subseteq> {6}
        \<and> (\<forall>k < length out. takes_first_free out k)"
  proof (cases "assign_short_ids is")
    case None
    with assign_loop_returns [of "[]" ?ids] ok def space show ?thesis
      by (auto simp: not_less [symmetric])
  next
    case (Some out)
    with assign_loop_Some [of ?ids "[]" out] ok def have "short_ids_ok out" "map fst out = ?ids"
      by auto
    moreover have "\<forall>k < length out. takes_first_free out k"
      using assign_loop_takes_first_free [of ?ids "[]" out] Some def by simp
    ultimately show ?thesis
      using short_ids_card [of out] Some space
      by (auto simp: short_ids_ok_def encode_base36_def short_id_width_def dest!: arg_cong [of _ ?ids length])
  qed
  show "assign_short_ids js = assign_short_ids is"
    by (simp add: assign_short_ids_def sorted_ids assms)
qed

theorem assign_short_ids_terminates_witness:
  "assign_short_ids [36 ^ 6 + 5, 7, 5, 5] = assign_short_ids [5, 7, 36 ^ 6 + 5]
   \<and> (\<exists>out. assign_short_ids [5, 7, 36 ^ 6 + 5] = Some out \<and> map fst out = [5, 7, 36 ^ 6 + 5])"
proof -
  have s: "set [36 ^ 6 + 5, 7, 5, 5] = set [5, 7, 36 ^ 6 + 5 :: nat]" by auto
  have "sorted_list_of_set (set [5, 7, 36 ^ 6 + 5 :: nat]) = [5, 7, 36 ^ 6 + 5]"
    by (subst sorted_ids [symmetric]) simp
  with assign_short_ids_terminates [OF s] show ?thesis
    by (auto split: option.splits)
qed

end
