(* ===== verification/PairingProps.thy ===== *)
theory PairingProps
  imports Pairing
begin

text \<open>
  Runs of the pairing broker as an inductive relation over its operations, with the history of
  successful requests and of issued credentials, and what holds in every run.
\<close>

text \<open>\<open>run now st begins issued\<close>: the broker can be in state \<open>st\<close> at time \<open>now\<close> after the requests
  \<open>begins\<close> (peer and time) were granted and the credentials \<open>issued\<close> (value and time) were given. The steps are
  in the order in which the broker's lock is taken, at instants that never decrease in that order. The code
  reads the clock just before it takes the lock, so two threads racing for it may swap their instants; that
  race is outside of these runs.\<close>

inductive run :: "nat \<Rightarrow> 'ip pairing \<Rightarrow> ('ip \<times> nat) list \<Rightarrow> (bytes \<times> nat) list \<Rightarrow> bool" where
  run_new: "run now pairing_new [] []"
| run_later: "run now st bs is \<Longrightarrow> now \<le> later \<Longrightarrow> run later st bs is"
| run_begin: "run now st bs is \<Longrightarrow> pairing_begin show_ip now peer rng st = Some (Inr ch, st') \<Longrightarrow>
    run now st' (bs @ [(peer, now)]) is"
| run_begin_error: "run now st bs is \<Longrightarrow> pairing_begin show_ip now peer rng st = Some (Inl e, st') \<Longrightarrow>
    run now st' bs is"
| run_approve: "run now st bs is \<Longrightarrow>
    respond_after now i a c m (commit :: challenge \<Rightarrow> unit + unit) st = (Inr (Some (r, Approved v)), st') \<Longrightarrow>
    run now st' bs (is @ [(v, now)])"
| run_respond: "run now st bs is \<Longrightarrow> respond_after now i a c m (commit :: challenge \<Rightarrow> unit + unit) st = (res, st') \<Longrightarrow>
    \<forall>r v. res \<noteq> Inr (Some (r, Approved v)) \<Longrightarrow> run now st' bs is"
| run_cancel: "run now st bs is \<Longrightarrow> run now (snd (cancel i st)) bs is"
| run_authenticate: "run now st bs is \<Longrightarrow> run now (snd (authenticate now v st)) bs is"
| run_pending: "run now st bs is \<Longrightarrow> run now (snd (pending_challenges now st)) bs is"

section \<open>Rate limit\<close>

text \<open>The times kept for a peer are its granted requests but for a prefix out of the window.\<close>

definition tracks :: "nat \<Rightarrow> nat list \<Rightarrow> nat list \<Rightarrow> bool" where
  "tracks now ts all \<longleftrightarrow> (\<exists>old. all = old @ ts \<and> (\<forall>t \<in> set old. t + RATE_WINDOW \<le> now))"

definition times_of :: "'ip \<Rightarrow> ('ip \<times> nat) list \<Rightarrow> nat list" where
  "times_of p bs = map snd (filter (\<lambda>b. fst b = p) bs)"

definition spaced :: "nat list \<Rightarrow> bool" where
  "spaced ts \<longleftrightarrow> (\<forall>i. i + 5 < length ts \<longrightarrow> ts ! i + RATE_WINDOW \<le> ts ! (i + 5))"

definition rate_ok :: "nat \<Rightarrow> 'ip pairing \<Rightarrow> ('ip \<times> nat) list \<Rightarrow> bool" where
  "rate_ok now st bs \<longleftrightarrow> distinct (map fst (recent st))
     \<and> (\<forall>p. tracks now (recent_of st p) (times_of p bs) \<and> spaced (times_of p bs))"

lemma tracks_later: "tracks now ts all \<Longrightarrow> now \<le> later \<Longrightarrow> tracks later ts all"
  unfolding tracks_def by (elim exE conjE, rule exI, rule conjI, assumption) (auto intro: le_trans)

lemma tracks_expire: "tracks now ts all \<Longrightarrow> tracks now (expire_front now ts) all"
proof -
  assume "tracks now ts all"
  then obtain old where old: "all = old @ ts" "\<forall>t \<in> set old. t + RATE_WINDOW \<le> now"
    by (auto simp: tracks_def)
  let ?d = "takeWhile (\<lambda>t. RATE_WINDOW \<le> now - t) ts"
  have "\<forall>t \<in> set ?d. t + RATE_WINDOW \<le> now"
    by (auto dest!: set_takeWhileD simp: RATE_WINDOW_def NANOS_def)
  with old show ?thesis
    unfolding tracks_def expire_front_def
    by (intro exI [of _ "old @ ?d"]) auto
qed

lemma tracks_push: "tracks now ts all \<Longrightarrow> tracks now (ts @ [t]) (all @ [t])"
  by (auto simp: tracks_def)

lemma spaced_push:
  assumes "spaced all" and "tracks now ts all" and "length ts < 5"
  shows "spaced (all @ [now])"
  unfolding spaced_def
proof (intro allI impI)
  fix i
  assume i: "i + 5 < length (all @ [now])"
  show "(all @ [now]) ! i + RATE_WINDOW \<le> (all @ [now]) ! (i + 5)"
  proof (cases "i + 5 < length all")
    case True
    with assms(1) show ?thesis
      by (simp add: spaced_def nth_append)
  next
    case False
    from assms(2) obtain old where old: "all = old @ ts" "\<forall>t \<in> set old. t + RATE_WINDOW \<le> now"
      by (auto simp: tracks_def)
    with False i assms(3) have "i < length old" by simp
    with old False i show ?thesis
      by (auto simp: nth_append)
  qed
qed

lemma map_of_prune:
  assumes "distinct (map fst xs)"
  shows "map_of (filter (\<lambda>(p, ts). ts \<noteq> []) (map (\<lambda>(p, ts). (p, f ts)) xs)) p =
    (case map_of xs p of None \<Rightarrow> None | Some ts \<Rightarrow> if f ts = [] then None else Some (f ts))"
  using assms
proof (induction xs)
  case Nil
  then show ?case by simp
next
  case (Cons x xs)
  obtain q ts where x: "x = (q, ts)"
    by (cases x)
  with Cons.prems have "map_of xs q = None"
    by (simp add: map_of_eq_None_iff)
  with Cons x show ?case
    by (cases "p = q") simp_all
qed

lemma recent_of_prune:
  "distinct (map fst (recent st)) \<Longrightarrow> recent_of (prune now st) p = expire_front now (recent_of st p)"
  by (simp add: recent_of_def prune_def map_of_prune split: option.split) (simp add: expire_front_def)

lemma prune_simps [simp]: "recent_of (st\<lparr>requests := r\<rparr>) p = recent_of st p"
  "recent_of (st\<lparr>credentials := c\<rparr>) p = recent_of st p"
  by (simp_all add: recent_of_def)

lemma prune_rate_ok: "rate_ok now st bs \<Longrightarrow> rate_ok now (prune now st) bs"
proof -
  assume ok: "rate_ok now st bs"
  have "map fst (recent (prune now st)) = map fst (filter (\<lambda>x. expire_front now (snd x) \<noteq> []) (recent st))"
    by (simp add: prune_def filter_map comp_def case_prod_beta)
  then have "distinct (map fst (recent (prune now st)))"
    using ok by (simp add: rate_ok_def distinct_map_filter)
  with ok recent_of_prune [of st now] show ?thesis
    by (simp add: rate_ok_def tracks_expire)
qed

lemma recent_of_set [simp]: "recent_of (set_recent p ts st) q = (if p = q then ts else recent_of st q)"
  by (simp add: recent_of_def set_recent_def update_conv')

lemma set_recent_rate_ok:
  assumes "rate_ok now st bs" and "tracks now ts (times_of p bs)"
  shows "rate_ok now (set_recent p ts st) bs"
proof -
  have "recent (set_recent p ts st) = AList.update p ts (recent st)"
    by (simp add: set_recent_def)
  with assms show ?thesis
    by (simp add: rate_ok_def distinct_update)
qed

lemma rate_ok_cong:
  "recent st = recent st' \<Longrightarrow> rate_ok now st bs = rate_ok now st' bs"
  by (simp add: rate_ok_def recent_of_def)

lemma fresh_request_id_Inr:
  "fresh_request_id used rng = Some (Inr i, rest) \<Longrightarrow> i \<noteq> 0 \<and> i \<notin> used"
  by (induction used rng rule: fresh_request_id.induct) (auto split: if_splits)

lemma recent_requests [simp]: "requests (set_recent p ts st) = requests st"
  "credentials (set_recent p ts st) = credentials st"
  by (simp_all add: set_recent_def)

lemma update_new: "k \<notin> fst ` set xs \<Longrightarrow> AList.update k v xs = xs @ [(k, v)]"
  by (induction xs) auto

lemma fst_imageI: "(a, b) \<in> S \<Longrightarrow> a \<in> fst ` S"
  by force

text \<open>The two outcomes of a request: an error leaves the pruned state, perhaps with the peer's
  expired times dropped; a granted one had room and appends the request and its time.\<close>

lemma begin_error:
  assumes "pairing_begin show_ip now peer rng st = Some (Inl e, st')"
  shows "st' = prune now st
    \<or> st' = set_recent peer (expire_front now (recent_of (prune now st) peer)) (prune now st)"
  using assms
  by (auto simp: pairing_begin_def Let_def bind_eq_Some_conv split: if_splits)
    (auto simp: Let_def split: sum.splits list.splits option.splits)

lemma begin_granted:
  assumes "pairing_begin show_ip now peer rng st = Some (Inr ch, st')"
  defines "ts \<equiv> expire_front now (recent_of (prune now st) peer)"
  shows "peer \<notin> pp_peer ` snd ` set (requests (prune now st))"
    and "length (requests (prune now st)) < MAX_PENDING" and "length ts < MAX_REQUESTS_PER_WINDOW"
    and "recent st' = recent (set_recent peer (ts @ [now]) (set_recent peer ts (prune now st)))"
    and "credentials st' = credentials (prune now st)"
    and "ch_id ch \<notin> fst ` set (requests (prune now st))"
    and "requests st' = requests (prune now st)
      @ [(ch_id ch, \<lparr>pp_challenge = ch, pp_peer = peer, pp_expires_at = now + CHALLENGE_TTL\<rparr>)]"
  using assms(1)
  by (auto simp: pairing_begin_def Let_def bind_eq_Some_conv split: if_splits)
    (auto simp: Let_def ts_def update_new not_le
      dest!: fresh_request_id_Inr dest: fst_imageI split: sum.splits list.splits option.splits)

text \<open>An answer to a request: it removes at most that request, and approving adds one credential,
  dropping the oldest beyond the limit.\<close>

lemma respond_cases:
  assumes "respond_after now i a c m commit st = (res, st')"
  shows "recent st' = recent (prune now st)
    \<and> (requests st' = requests (prune now st) \<or> requests st' = AList.delete i (requests (prune now st)))
    \<and> credentials st' =
        (case res of
           Inr (Some (_, Approved v)) \<Rightarrow>
             (let cs = credentials (prune now st) @ [\<lparr>cred_value = v, cred_expires_at = now + CREDENTIAL_TTL\<rparr>]
              in drop (length cs - MAX_CREDENTIALS) cs)
         | _ \<Rightarrow> credentials (prune now st))"
  using assms
  by (auto simp: respond_after_def Let_def split: if_splits option.splits sum.splits)

lemma run_rate_ok: "run now st bs is \<Longrightarrow> rate_ok now st bs"
proof (induction rule: run.induct)
  case (run_new now)
  then show ?case
    by (simp add: rate_ok_def pairing_new_def recent_of_def times_of_def tracks_def spaced_def)
next
  case (run_later now st bs "is" later)
  then show ?case
    by (auto simp: rate_ok_def intro: tracks_later)
next
  case (run_begin now st bs "is" show_ip peer rng ch st')
  let ?st = "prune now st" and ?ts = "expire_front now (recent_of (prune now st) peer)"
  have ok: "rate_ok now ?st bs"
    by (rule prune_rate_ok [OF run_begin.IH])
  then have t: "tracks now ?ts (times_of peer bs)"
    by (auto simp: rate_ok_def intro: tracks_expire)
  note g = begin_granted [OF run_begin.hyps(2)]
  have ok1: "rate_ok now (set_recent peer ?ts ?st) bs"
    by (rule set_recent_rate_ok [OF ok t])
  have sp: "spaced (times_of peer bs @ [now])"
    using ok t g(3) by (intro spaced_push [OF _ t]) (auto simp: rate_ok_def MAX_REQUESTS_PER_WINDOW_def)
  have times: "times_of p (bs @ [(peer, now)]) = (if p = peer then times_of p bs @ [now] else times_of p bs)" for p
    by (simp add: times_of_def)
  have "rate_ok now (set_recent peer (?ts @ [now]) (set_recent peer ?ts ?st)) (bs @ [(peer, now)])"
    unfolding rate_ok_def
  proof (intro conjI allI)
    show "distinct (map fst (recent (set_recent peer (?ts @ [now]) (set_recent peer ?ts ?st))))"
      using ok by (simp add: rate_ok_def set_recent_def distinct_update)
    show "tracks now (recent_of (set_recent peer (?ts @ [now]) (set_recent peer ?ts ?st)) p) (times_of p (bs @ [(peer, now)]))"
      "spaced (times_of p (bs @ [(peer, now)]))" for p
      using ok1 sp tracks_push [OF t, of now] by (auto simp: rate_ok_def times split: if_splits)
  qed
  then show ?case
    using rate_ok_cong [OF g(4)] by blast
next
  case (run_begin_error now st bs "is" show_ip peer rng e st')
  have ok: "rate_ok now (prune now st) bs"
    by (rule prune_rate_ok [OF run_begin_error.IH])
  then have "rate_ok now (set_recent peer (expire_front now (recent_of (prune now st) peer)) (prune now st)) bs"
    by (rule set_recent_rate_ok) (use ok in \<open>auto simp: rate_ok_def intro: tracks_expire\<close>)
  with ok begin_error [OF run_begin_error.hyps(2)] show ?case
    by auto
next
  case (run_approve now st bs "is" i a c m commit r v st')
  then show ?case
    using respond_cases [OF run_approve.hyps(2)] prune_rate_ok rate_ok_cong by metis
next
  case (run_respond now st bs "is" i a c m commit res st')
  then show ?case
    using respond_cases [OF run_respond.hyps(2)] prune_rate_ok rate_ok_cong by metis
next
  case (run_cancel now st bs "is" i)
  then show ?case
    by (simp add: cancel_def rate_ok_def)
next
  case (run_authenticate now st bs "is" v)
  then show ?case
    by (simp add: authenticate_def prune_rate_ok Let_def)
next
  case (run_pending now st bs "is")
  then show ?case
    by (simp add: pending_challenges_def prune_rate_ok Let_def)
qed

section \<open>Pending requests\<close>

definition requests_ok :: "'ip pairing \<Rightarrow> bool" where
  "requests_ok st \<longleftrightarrow> distinct (map fst (requests st)) \<and> distinct (map (pp_peer \<circ> snd) (requests st))
     \<and> length (requests st) \<le> MAX_PENDING"

lemma requests_ok_filter:
  "requests_ok st \<Longrightarrow> requests st' = filter P (requests st) \<Longrightarrow> requests_ok st'"
  by (auto simp: requests_ok_def distinct_map_filter intro: le_trans [OF length_filter_le])

lemma prune_requests_ok: "requests_ok st \<Longrightarrow> requests_ok (prune now st)"
  by (rule requests_ok_filter) (simp_all add: prune_def)

lemma delete_requests_ok: "requests_ok st \<Longrightarrow> requests st' = AList.delete i (requests st) \<Longrightarrow> requests_ok st'"
  by (rule requests_ok_filter) (simp_all add: AList.delete_eq)

lemma requests_ok_cong: "requests st = requests st' \<Longrightarrow> requests_ok st = requests_ok st'"
  by (simp add: requests_ok_def)

lemma run_requests_ok: "run now st bs is \<Longrightarrow> requests_ok st"
proof (induction rule: run.induct)
  case (run_new now)
  then show ?case
    by (simp add: requests_ok_def pairing_new_def)
next
  case (run_begin now st bs "is" show_ip peer rng ch st')
  then show ?case
    using begin_granted [OF run_begin.hyps(2)] prune_requests_ok [OF run_begin.IH, of now]
    by (auto simp: requests_ok_def)
next
  case (run_begin_error now st bs "is" show_ip peer rng e st')
  then show ?case
    using begin_error [OF run_begin_error.hyps(2)] prune_requests_ok [of st now]
      requests_ok_cong [of "set_recent peer (expire_front now (recent_of (prune now st) peer)) (prune now st)" "prune now st"]
    by auto
next
  case (run_approve now st bs "is" i a c m commit r v st')
  then show ?case
    using respond_cases [OF run_approve.hyps(2)] prune_requests_ok [of st now]
      delete_requests_ok [of "prune now st" st' i] requests_ok_cong [of st' "prune now st"] by blast
next
  case (run_respond now st bs "is" i a c m commit res st')
  then show ?case
    using respond_cases [OF run_respond.hyps(2)] prune_requests_ok [of st now]
      delete_requests_ok [of "prune now st" st' i] requests_ok_cong [of st' "prune now st"] by blast
next
  case (run_cancel now st bs "is" i)
  then show ?case
    by (intro delete_requests_ok [OF run_cancel.IH, of _ i]) (simp add: cancel_def)
qed (simp_all add: authenticate_def pending_challenges_def prune_requests_ok Let_def)

section \<open>Credentials\<close>

text \<open>The last of the issued credentials the broker may still know.\<close>

definition last_issued :: "(bytes \<times> nat) list \<Rightarrow> (bytes \<times> nat) list" where
  "last_issued is = drop (length is - MAX_CREDENTIALS) is"

definition issued_credential :: "bytes \<times> nat \<Rightarrow> credential" where
  "issued_credential x = \<lparr>cred_value = fst x, cred_expires_at = snd x + CREDENTIAL_TTL\<rparr>"

abbreviation live_at :: "nat \<Rightarrow> bytes \<times> nat \<Rightarrow> bool" where
  "live_at t x \<equiv> t < snd x + CREDENTIAL_TTL"

definition credentials_ok :: "nat \<Rightarrow> 'ip pairing \<Rightarrow> (bytes \<times> nat) list \<Rightarrow> bool" where
  "credentials_ok now st is \<longleftrightarrow> sorted (map snd is) \<and> (\<forall>x \<in> set is. snd x \<le> now)
     \<and> (\<forall>t \<ge> now. filter (\<lambda>c. t < cred_expires_at c) (credentials st) =
          map issued_credential (filter (live_at t) (last_issued is)))"

lemma expired_prefix:
  assumes "sorted (map snd xs)"
  obtains k where "filter (live_at t) xs = drop k xs" and "\<forall>x \<in> set (take k xs). \<not> live_at t x"
    and "k \<le> length xs"
proof -
  have "filter (live_at t) xs = dropWhile (\<lambda>x. \<not> live_at t x) xs"
    using assms
  proof (induction xs)
    case (Cons x xs)
    have "filter (live_at t) xs = xs" if "live_at t x"
      using Cons.prems that by (intro filter_True) (auto intro: less_le_trans)
    with Cons show ?case
      by (cases "live_at t x") auto
  qed simp
  moreover have "dropWhile (\<lambda>x. \<not> live_at t x) xs = drop (length (takeWhile (\<lambda>x. \<not> live_at t x) xs)) xs"
    by (simp add: dropWhile_eq_drop)
  moreover have "\<forall>x \<in> set (take (length (takeWhile (\<lambda>x. \<not> live_at t x) xs)) xs). \<not> live_at t x"
    by (metis set_takeWhileD takeWhile_eq_take)
  ultimately show thesis
    using that length_takeWhile_le by metis
qed

lemma last_issued_sorted: "sorted (map snd is) \<Longrightarrow> sorted (map snd (last_issued is))"
  by (simp add: last_issued_def drop_map [symmetric] sorted_wrt_drop)

lemma last_issued_append: "last_issued (is @ [x]) =
    (if length (last_issued is) = MAX_CREDENTIALS then tl (last_issued is) else last_issued is) @ [x]"
proof (cases "MAX_CREDENTIALS \<le> length is")
  case True
  then have "Suc (length is) - MAX_CREDENTIALS = Suc (length is - MAX_CREDENTIALS)"
    by simp
  with True show ?thesis
    by (simp add: last_issued_def drop_Suc tl_drop MAX_CREDENTIALS_def)
next
  case False
  then show ?thesis
    by (simp add: last_issued_def)
qed

lemma length_last_issued: "length (last_issued is) \<le> MAX_CREDENTIALS"
  by (simp add: last_issued_def)

lemma prune_credentials:
  assumes "credentials_ok now st is"
  shows "credentials_ok now (prune now st) is"
    and "credentials (prune now st) = map issued_credential (filter (live_at now) (last_issued is))"
proof -
  show "credentials (prune now st) = map issued_credential (filter (live_at now) (last_issued is))"
    using assms by (simp add: credentials_ok_def prune_def)
  have "filter (\<lambda>c. t < cred_expires_at c) (credentials (prune now st)) =
      filter (\<lambda>c. t < cred_expires_at c) (credentials st)" if "now \<le> t" for t
    using that by (simp add: prune_def filter_filter) (metis (no_types, lifting) le_less_trans filter_cong)
  with assms show "credentials_ok now (prune now st) is"
    by (simp add: credentials_ok_def)
qed

text \<open>Adding a credential to the live ones and dropping the oldest beyond the limit.\<close>

lemma approve_credentials:
  assumes ok: "credentials_ok now st is"
    and cs: "cs = credentials (prune now st) @ [\<lparr>cred_value = v, cred_expires_at = now + CREDENTIAL_TTL\<rparr>]"
    and st': "credentials st' = drop (length cs - MAX_CREDENTIALS) cs"
  shows "credentials_ok now st' (is @ [(v, now)])"
proof -
  let ?L = "last_issued is" and ?x = "(v, now)"
  have sorted: "sorted (map snd is)" "\<forall>x \<in> set is. snd x \<le> now"
    using ok by (simp_all add: credentials_ok_def)
  obtain k where k: "filter (live_at now) ?L = drop k ?L" "\<forall>x \<in> set (take k ?L). \<not> live_at now x" "k \<le> length ?L"
    by (rule expired_prefix [OF last_issued_sorted [OF sorted(1)]])
  have x: "\<lparr>cred_value = v, cred_expires_at = now + CREDENTIAL_TTL\<rparr> = issued_credential ?x"
    by (simp add: issued_credential_def)
  have cs': "cs = map issued_credential (drop k ?L @ [?x])"
    by (simp add: cs prune_credentials(2) [OF ok] k(1) x)
  have eq: "filter (\<lambda>c. t < cred_expires_at c) (credentials st') =
      map issued_credential (filter (live_at t) (last_issued (is @ [?x])))" if t: "now \<le> t" for t
  proof -
    have f: "filter (\<lambda>c. t < cred_expires_at c) (map issued_credential ys) = map issued_credential (filter (live_at t) ys)" for ys
      by (simp add: filter_map comp_def issued_credential_def)
    have old: "filter (live_at t) (take j ?L) = []" if "j \<le> k" for j
      using k(2) t set_take_subset_set_take [OF that, of ?L] by (auto simp: filter_empty_conv dest!: subsetD)
    show ?thesis
    proof (cases "length ?L = MAX_CREDENTIALS \<and> k = 0")
      case True
      then have "credentials st' = map issued_credential (tl ?L @ [?x])"
        using st' cs' by (cases ?L) (auto simp: MAX_CREDENTIALS_def)
      with True f show ?thesis
        by (simp add: last_issued_append issued_credential_def)
    next
      case False
      then have "length cs \<le> MAX_CREDENTIALS"
        using cs' k(3) length_last_issued [of "is"] by auto
      then have "credentials st' = map issued_credential (drop k ?L @ [?x])"
        using st' cs' by simp
      then have "filter (\<lambda>c. t < cred_expires_at c) (credentials st') =
          map issued_credential (filter (live_at t) (drop k ?L @ [?x]))"
        by (simp only: f)
      also have "filter (live_at t) (drop k ?L @ [?x]) = filter (live_at t) (drop j ?L @ [?x])" if "j \<le> k" for j
      proof -
        have "drop j ?L = take (k - j) (drop j ?L) @ drop k ?L"
          using that by (metis append_take_drop_id drop_drop le_add_diff_inverse2)
        moreover have "filter (live_at t) (take (k - j) (drop j ?L)) = []"
          using old [of k] that by (auto simp: filter_empty_conv take_drop dest!: in_set_dropD)
        ultimately show ?thesis
          by (metis append.left_neutral filter_append)
      qed
      note this [of "if length ?L = MAX_CREDENTIALS then 1 else 0"]
      finally show ?thesis
        using False by (auto simp: last_issued_append drop_Suc split: if_splits)
    qed
  qed
  show ?thesis
    using sorted eq by (auto simp: credentials_ok_def sorted_append)
qed

lemma credentials_ok_cong: "credentials st = credentials st' \<Longrightarrow> credentials_ok now st is = credentials_ok now st' is"
  by (simp add: credentials_ok_def)

lemma run_credentials_ok: "run now st bs is \<Longrightarrow> credentials_ok now st is"
proof (induction rule: run.induct)
  case (run_new now)
  then show ?case
    by (simp add: credentials_ok_def pairing_new_def last_issued_def)
next
  case (run_later now st bs "is" later)
  then show ?case
    by (auto simp: credentials_ok_def intro: le_trans)
next
  case (run_begin now st bs "is" show_ip peer rng ch st')
  then show ?case
    using begin_granted(5) [OF run_begin.hyps(2)] prune_credentials(1) credentials_ok_cong by metis
next
  case (run_begin_error now st bs "is" show_ip peer rng e st')
  then have "credentials st' = credentials (prune now st)"
    using begin_error [OF run_begin_error.hyps(2)] by auto
  then show ?case
    using prune_credentials(1) [OF run_begin_error.IH] credentials_ok_cong by metis
next
  case (run_approve now st bs "is" i a c m commit r v st')
  then show ?case
    using respond_cases [OF run_approve.hyps(2)]
    by (intro approve_credentials [OF run_approve.IH refl]) (simp add: Let_def)
next
  case (run_respond now st bs "is" i a c m commit res st')
  then have "credentials st' = credentials (prune now st)"
    using respond_cases [OF run_respond.hyps(2)]
    by (auto split: sum.splits option.splits decision.splits)
  then show ?case
    using prune_credentials(1) [OF run_respond.IH] credentials_ok_cong by metis
next
  case (run_cancel now st bs "is" i)
  then show ?case
    by (simp add: cancel_def credentials_ok_def)
qed (simp_all add: authenticate_def pending_challenges_def prune_credentials Let_def)

section \<open>Properties\<close>

text \<open>C24. Safety: in every run a peer is granted at most five requests in any window of sixty seconds
  (the sixth request after a given one comes a window later), and there are never more than
  sixteen requests pending, at most one for a peer. A run takes its steps at instants that do not decrease
  in the order of the lock.\<close>

theorem pairing_is_rate_limited:
  assumes "run now st begins issued"
  shows "(\<forall>i. i + 5 < length (times_of p begins) \<longrightarrow>
      times_of p begins ! i + RATE_WINDOW \<le> times_of p begins ! (i + 5))
    \<and> length (requests st) \<le> 16 \<and> distinct (map (pp_peer \<circ> snd) (requests st))
    \<and> distinct (map fst (requests st))"
  using run_rate_ok [OF assms] run_requests_ok [OF assms]
  by (auto simp: rate_ok_def requests_ok_def spaced_def MAX_PENDING_def)

text \<open>C25. Safety: a credential is accepted exactly when it is one of the last sixty-four issued by an
  approval and is younger than eight hours; no other string authenticates, and comparing in
  constant time does not change that. A run takes its steps at instants that do not decrease in the
  order of the lock.\<close>

theorem authenticate_exact:
  assumes "run now st begins issued" and "\<forall>x \<in> set issued. length (fst x) < 2 ^ 64"
    and "length provided < 2 ^ 64"
  shows "fst (authenticate now provided st) \<longleftrightarrow>
    (\<exists>t. (provided, t) \<in> set (drop (length issued - 64) issued) \<and> now < t + CREDENTIAL_TTL)"
proof -
  have sub: "set (last_issued issued) \<subseteq> set issued"
    by (simp add: last_issued_def set_drop_subset)
  have "constant_time_eq provided (fst x) \<longleftrightarrow> provided = fst x" if "x \<in> set (last_issued issued)" for x
    using constant_time_eq_iff [OF assms(3)] assms(2) sub that by blast
  then have "fst (authenticate now provided st) \<longleftrightarrow>
      (\<exists>x \<in> set (last_issued issued). live_at now x \<and> provided = fst x)"
    using prune_credentials(2) [OF run_credentials_ok [OF assms(1)]]
    by (auto simp: authenticate_def Let_def list_ex_iff issued_credential_def intro: rev_bexI)
  then show ?thesis
    by (force simp: last_issued_def MAX_CREDENTIALS_def)
qed

text \<open>A run in which one peer asks and is approved.\<close>

definition demo_challenge :: challenge where
  "demo_challenge = \<lparr>ch_id = 7, ch_code = ''123 456'', ch_peer = ''peer'', ch_expires_in = 60\<rparr>"

definition demo_asked :: "nat pairing" where
  "demo_asked = \<lparr>requests = [(7, \<lparr>pp_challenge = demo_challenge, pp_peer = 1, pp_expires_at = 60000000005\<rparr>)],
     recent = [(1, [5])], credentials = []\<rparr>"

definition demo_approved :: "nat pairing" where
  "demo_approved = \<lparr>requests = [], recent = [(1, [5])],
     credentials = [\<lparr>cred_value = [65, 66], cred_expires_at = 28800000000006\<rparr>]\<rparr>"

lemma demo_run: "run 6 demo_approved [(1, 5)] [([65, 66], 6)]"
proof -
  have "challenge_code 123456 = ''123 456''"
  proof -
    have "(6 :: nat) = Suc (Suc (Suc (Suc (Suc (Suc 0)))))"
      by simp
    then have "decimal_digits 6 123456 = decimal_digits (Suc (Suc (Suc (Suc (Suc (Suc 0)))))) 123456"
      by (simp only:)
    also have "\<dots> = ''123456''"
      by (simp only: decimal_digits.simps) (simp add: char_of_def bit_Suc_0_iff)
    finally show ?thesis
      by (simp add: challenge_code_def)
  qed
  then have b: "pairing_begin (\<lambda>_. ''peer'') 5 1 [Some 0, Some 7, Some 123456] pairing_new = Some (Inr demo_challenge, demo_asked)"
    by (simp add: demo_asked_def demo_challenge_def pairing_begin_def pairing_new_def prune_def Let_def
        MAX_PENDING_def MAX_REQUESTS_PER_WINDOW_def expire_front_def recent_of_def set_recent_def
        CHALLENGE_TTL_def NANOS_def)
  have r: "respond_after 6 7 True (Some [65, 66]) True (\<lambda>_. Inr () :: unit + unit) demo_asked
      = (Inr (Some ((), Approved [65, 66])), demo_approved)"
    by (simp add: demo_asked_def demo_approved_def respond_after_def prune_def Let_def expire_front_def
        CREDENTIAL_TTL_def NANOS_def RATE_WINDOW_def MAX_CREDENTIALS_def)
  from run_begin [OF run_new b] have "run 5 demo_asked [(1, 5)] []"
    by simp
  then have "run 6 demo_asked [(1, 5)] []"
    by (rule run_later) simp
  from run_approve [OF this r] show ?thesis
    by simp
qed

lemma pairing_is_rate_limited_witness:
  "length (requests demo_approved) \<le> 16 \<and> distinct (map fst (requests demo_approved))"
  using pairing_is_rate_limited [OF demo_run, of 1] by simp

lemma authenticate_exact_witness:
  "fst (authenticate 6 [65, 66] demo_approved) \<and> \<not> fst (authenticate 6 [65] demo_approved)"
proof -
  have l: "\<forall>x \<in> set [([65, 66] :: bytes, 6 :: nat)]. length (fst x) < 2 ^ 64"
    by simp
  have "fst (authenticate 6 [65, 66] demo_approved)"
    by (subst authenticate_exact [OF demo_run l]) (simp_all add: CREDENTIAL_TTL_def NANOS_def)
  moreover have "\<not> fst (authenticate 6 [65] demo_approved)"
    by (subst authenticate_exact [OF demo_run l]) simp_all
  ultimately show ?thesis by simp
qed

end
