(* ===== verification/PtyInput.thy ===== *)
theory PtyInput
  imports Bytes
begin

text \<open>
  The bounded input scheduler of the terminal client
  (\<open>cmux-tui/src/pty_input.rs\<close>): one queue of terminal input and session mutations, its
  release reservations, the failure handling of its worker threads, and the ways to
  shut it down. Every function that holds the queue's mutex is one definition from state
  to state; the condition variable and the threads are the step relation at the end.
  Closures are named by numbers: calling one is a notice, and the outcome of the
  operation of an event is an argument of \<open>process_event\<close>. \<open>usize\<close> counters are naturals
  (the bounds below keep them far from \<open>2\<^sup>6\<^sup>4\<close>); hash maps are association lists.
\<close>

definition PTY_OPERATION_QUEUE_CAPACITY :: nat where "PTY_OPERATION_QUEUE_CAPACITY = 512"

definition MAX_QUEUED_BYTES :: nat where "MAX_QUEUED_BYTES = 4 * 1024 * 1024"

definition MAX_CONCURRENT_SURFACE_OPERATIONS :: nat where "MAX_CONCURRENT_SURFACE_OPERATIONS = 32"

definition RESERVED_RELEASE_BYTES :: nat where "RESERVED_RELEASE_BYTES = 64"

definition REMOTE_RELEASE_MAX_ATTEMPTS :: u8 where "REMOTE_RELEASE_MAX_ATTEMPTS = 3"

section \<open>Surfaces, errors and events\<close>

datatype surface_kind = PtySurface | BrowserSurface

text \<open>A handle keeps only which side it lives on and its kind: all the scheduler reads.\<close>

datatype surface_handle = Local surface_kind | Remote surface_kind | RemoteBrowserUnsupported

definition is_remote :: "surface_handle \<Rightarrow> bool" where
  "is_remote h = (case h of Remote _ \<Rightarrow> True | _ \<Rightarrow> False)"

definition handle_kind :: "surface_handle \<Rightarrow> surface_kind" where
  "handle_kind h = (case h of Local k \<Rightarrow> k | Remote k \<Rightarrow> k | RemoteBrowserUnsupported \<Rightarrow> BrowserSurface)"

datatype remote_request_error =
    EncodeError string | TransportError string | RequestTimeout | Rejected string | RequestShutdown

datatype operation_error =
    RemoteError remote_request_error | OtherError string | KnownNotDeliveredError operation_error

definition underlying_operation_error :: "operation_error \<Rightarrow> operation_error" where
  "underlying_operation_error e = (case e of KnownNotDeliveredError inner \<Rightarrow> inner | _ \<Rightarrow> e)"

definition is_remote_transport_failure :: "operation_error \<Rightarrow> bool" where
  "is_remote_transport_failure e = (case e of RemoteError (TransportError _) \<Rightarrow> True | _ \<Rightarrow> False)"

definition is_remote_timeout :: "operation_error \<Rightarrow> bool" where
  "is_remote_timeout e = (case e of RemoteError RequestTimeout \<Rightarrow> True | _ \<Rightarrow> False)"

definition remote_error_text :: "remote_request_error \<Rightarrow> string" where
  "remote_error_text e = (case e of
     EncodeError s \<Rightarrow> ''could not encode remote request: '' @ s
   | TransportError s \<Rightarrow> ''remote transport write failed: '' @ s
   | RequestTimeout \<Rightarrow> ''remote session did not respond''
   | Rejected s \<Rightarrow> ''remote command rejected: '' @ s
   | RequestShutdown \<Rightarrow> ''remote response wait canceled for shutdown'')"

fun error_text :: "operation_error \<Rightarrow> string" where
  "error_text (RemoteError e) = remote_error_text e"
| "error_text (OtherError s) = s"
| "error_text (KnownNotDeliveredError e) = error_text e"

datatype input_kind = Ordered | Press | Motion | Release | Mutation

datatype enqueue_result = Accepted | Oversized | Saturated | Failed

datatype delivery = KnownNotDelivered | Ambiguous

type_synonym closure = nat

type_synonym coalesce_key = "string \<times> nat \<times> nat"

record pty_lane =
  lane_generation :: nat
  lane_surface :: surface_id

record pty_event =
  ev_generation :: nat
  ev_surface_id :: surface_id
  ev_surface :: surface_handle
  ev_bytes :: bytes
  ev_retained :: nat
  ev_kind :: input_kind
  ev_mutation :: "closure option"
  ev_after :: "closure option"
  ev_superseded :: "closure option"
  ev_label :: string
  ev_coalesce :: "coalesce_key option"
  ev_failure_surface :: "surface_id option"
  ev_concurrent :: bool
  ev_remote :: bool
  ev_reservation :: "u64 option"
  ev_attempts :: u8

record mutation_identity =
  mi_coalesce :: "coalesce_key option"
  mi_failure_surface :: "surface_id option"
  mi_retained :: nat
  mi_concurrent :: bool

definition default_identity :: mutation_identity where
  "default_identity = \<lparr>mi_coalesce = None, mi_failure_surface = None, mi_retained = 0, mi_concurrent = False\<rparr>"

definition input_event :: "surface_id \<Rightarrow> surface_handle \<Rightarrow> bytes \<Rightarrow> input_kind \<Rightarrow> pty_event" where
  "input_event sid h bs k =
     \<lparr>ev_generation = 1, ev_surface_id = sid, ev_surface = h, ev_bytes = bs, ev_retained = 0, ev_kind = k,
      ev_mutation = None, ev_after = None, ev_superseded = None, ev_label = ''PTY input'',
      ev_coalesce = None, ev_failure_surface = None, ev_concurrent = False, ev_remote = is_remote h,
      ev_reservation = None, ev_attempts = 0\<rparr>"

definition release_event :: "surface_id \<Rightarrow> surface_handle \<Rightarrow> bytes \<Rightarrow> u64 \<Rightarrow> pty_event" where
  "release_event sid h bs rid = (input_event sid h bs Release)\<lparr>ev_reservation := Some rid\<rparr>"

definition mutation_for_surface ::
    "string \<Rightarrow> mutation_identity \<Rightarrow> bool \<Rightarrow> closure option \<Rightarrow> closure option \<Rightarrow> closure \<Rightarrow> pty_event" where
  "mutation_for_surface label idn remote superseded after operation =
     \<lparr>ev_generation = 1, ev_surface_id = 0, ev_surface = RemoteBrowserUnsupported, ev_bytes = [],
      ev_retained = mi_retained idn, ev_kind = Mutation, ev_mutation = Some operation, ev_after = after,
      ev_superseded = superseded, ev_label = label, ev_coalesce = mi_coalesce idn,
      ev_failure_surface = mi_failure_surface idn, ev_concurrent = mi_concurrent idn, ev_remote = remote,
      ev_reservation = None, ev_attempts = 0\<rparr>"

definition queued_byte_len :: "pty_event \<Rightarrow> nat" where
  "queued_byte_len ev = min (length (ev_bytes ev) + ev_retained ev) (2 ^ 64 - 1)"

definition ordering_surface_id :: "pty_event \<Rightarrow> surface_id option" where
  "ordering_surface_id ev =
     (if ev_kind ev = Mutation then (if ev_concurrent ev then ev_failure_surface ev else None)
      else Some (ev_surface_id ev))"

definition ordering_lane :: "pty_event \<Rightarrow> pty_lane option" where
  "ordering_lane ev =
     map_option (\<lambda>sid. \<lparr>lane_generation = ev_generation ev, lane_surface = sid\<rparr>) (ordering_surface_id ev)"

record pty_failure =
  pf_generation :: nat
  pf_surface :: "surface_id option"
  pf_kind :: "input_kind option"
  pf_reservation :: "u64 option"
  pf_label :: string
  pf_error :: string
  pf_lane_failed :: bool
  pf_delivery :: delivery

text \<open>What a locked section leaves to be called once the lock is released, in order.\<close>

datatype notice = Superseded closure | Failure pty_failure | Settled closure

definition superseded_notice :: "closure option \<Rightarrow> notice list" where
  "superseded_notice c = (case c of None \<Rightarrow> [] | Some f \<Rightarrow> [Superseded f])"

definition settled_notice :: "closure option \<Rightarrow> notice list" where
  "settled_notice c = (case c of None \<Rightarrow> [] | Some f \<Rightarrow> [Settled f])"

section \<open>Release reservations\<close>

record release_reservations =
  next_id :: u64
  outstanding :: "(u64 \<times> pty_lane) list"

definition reservations_new :: release_reservations where
  "reservations_new = \<lparr>next_id = 0, outstanding = []\<rparr>"

definition reservations_len :: "release_reservations \<Rightarrow> nat" where
  "reservations_len r = length (outstanding r)"

definition reserve :: "release_reservations \<Rightarrow> pty_lane \<Rightarrow> release_reservations \<times> u64" where
  "reserve r lane = (let i = next_id r + 1 in
     (r\<lparr>next_id := i, outstanding := AList.update i lane (outstanding r)\<rparr>, i))"

fun min_id :: "u64 list \<Rightarrow> u64 option" where
  "min_id [] = None"
| "min_id (i # is) = (case min_id is of None \<Rightarrow> Some i | Some j \<Rightarrow> Some (min i j))"

definition consume :: "release_reservations \<Rightarrow> pty_lane \<Rightarrow> release_reservations \<times> bool" where
  "consume r lane =
     (case min_id (map fst (filter (\<lambda>(_, l). l = lane) (outstanding r))) of
        None \<Rightarrow> (r, False)
      | Some i \<Rightarrow> (r\<lparr>outstanding := AList.delete i (outstanding r)\<rparr>, map_of (outstanding r) i \<noteq> None))"

definition consume_id :: "release_reservations \<Rightarrow> u64 \<Rightarrow> pty_lane \<Rightarrow> release_reservations \<times> bool" where
  "consume_id r i lane =
     (if map_of (outstanding r) i \<noteq> Some lane then (r, False)
      else (r\<lparr>outstanding := AList.delete i (outstanding r)\<rparr>, map_of (outstanding r) i \<noteq> None))"

definition cancel :: "u64 \<Rightarrow> release_reservations \<Rightarrow> release_reservations" where
  "cancel i r = r\<lparr>outstanding := AList.delete i (outstanding r)\<rparr>"

definition clear_reservations :: "release_reservations \<Rightarrow> release_reservations" where
  "clear_reservations r = r\<lparr>outstanding := []\<rparr>"

definition retain_reservations ::
    "(u64 \<Rightarrow> pty_lane \<Rightarrow> bool) \<Rightarrow> release_reservations \<Rightarrow> release_reservations" where
  "retain_reservations keep r = r\<lparr>outstanding := filter (\<lambda>(i, l). keep i l) (outstanding r)\<rparr>"

definition retain_generation :: "nat \<Rightarrow> release_reservations \<Rightarrow> release_reservations" where
  "retain_generation g r = retain_reservations (\<lambda>_ l. lane_generation l = g) r"

section \<open>The queue\<close>

record in_flight_input =
  fl_lane :: "pty_lane option"
  fl_kind :: input_kind

record queue_state =
  q_events :: "pty_event list"
  q_bytes :: nat
  q_reservations :: release_reservations
  q_in_flight :: "in_flight_input option"
  q_operations :: "(pty_lane \<times> nat) list"
  q_failed_lanes :: "pty_lane set"
  q_retired_lanes :: "pty_lane set"
  q_failed_generations :: "nat set"
  q_active_generation :: nat
  q_closed :: bool
  q_release_drain :: bool

definition queue_new :: queue_state where
  "queue_new = \<lparr>q_events = [], q_bytes = 0, q_reservations = reservations_new, q_in_flight = None,
     q_operations = [], q_failed_lanes = {}, q_retired_lanes = {}, q_failed_generations = {},
     q_active_generation = 1, q_closed = False, q_release_drain = False\<rparr>"

subsection \<open>Bounded enqueue\<close>

definition same_input_tail :: "input_kind \<Rightarrow> pty_event \<Rightarrow> pty_event list \<Rightarrow> bool" where
  "same_input_tail k ev events =
     (ev_kind ev = k \<and> events \<noteq> [] \<and> ev_generation (last events) = ev_generation ev \<and>
      ev_kind (last events) = k \<and> ev_surface_id (last events) = ev_surface_id ev)"

text \<open>The loop over \<open>(0..events.len()).rev()\<close>, on the reversed queue.\<close>

fun coalesce_index :: "nat \<Rightarrow> coalesce_key \<Rightarrow> pty_event list \<Rightarrow> nat option" where
  "coalesce_index g key [] = None"
| "coalesce_index g key (e # older) =
     (if ev_generation e = g \<and> ev_coalesce e = Some key then Some (length older)
      else if ev_coalesce e = None then None
      else coalesce_index g key older)"

definition take_coalesced ::
    "pty_event \<Rightarrow> pty_event list \<Rightarrow> nat \<Rightarrow> pty_event list \<times> nat \<times> (nat \<times> pty_event) option" where
  "take_coalesced ev events bytes =
     (case ev_coalesce ev of
        None \<Rightarrow> (events, bytes, None)
      | Some key \<Rightarrow>
          (case coalesce_index (ev_generation ev) key (rev events) of
             None \<Rightarrow> (events, bytes, None)
           | Some i \<Rightarrow> (remove_at i events, bytes - queued_byte_len (events ! i), Some (i, events ! i))))"

text \<open>Putting a replaced mutation back: \<open>VecDeque::insert\<close> panics past the end.\<close>

definition restore_coalesced ::
    "(nat \<times> pty_event) option \<Rightarrow> pty_event list \<Rightarrow> nat \<Rightarrow> (pty_event list \<times> nat) option" where
  "restore_coalesced replaced events bytes =
     (case replaced of
        None \<Rightarrow> Some (events, bytes)
      | Some (i, previous) \<Rightarrow>
          if length events < i then None
          else Some (insert_at i previous events, bytes + queued_byte_len previous))"

definition eviction :: "pty_event \<Rightarrow> pty_failure" where
  "eviction ev = \<lparr>pf_generation = ev_generation ev, pf_surface = Some (ev_surface_id ev), pf_kind = Some Motion,
     pf_reservation = ev_reservation ev, pf_label = ev_label ev,
     pf_error = ''evicted from the bounded PTY queue before delivery'', pf_lane_failed = False,
     pf_delivery = KnownNotDelivered\<rparr>"

text \<open>The eviction loop: whether it made room, the queue, its bytes and the evicted events.\<close>

function evict_motions ::
    "nat \<Rightarrow> nat \<Rightarrow> nat \<Rightarrow> nat \<Rightarrow> pty_event list \<Rightarrow> nat \<Rightarrow> pty_failure list
       \<Rightarrow> bool \<times> pty_event list \<times> nat \<times> pty_failure list" where
  "evict_motions capacity max_bytes projected projected_bytes events bytes evicted =
     (if capacity < projected \<or> max_bytes < projected_bytes then
        (case position (\<lambda>queued. ev_kind queued = Motion) events of
           None \<Rightarrow> (False, events, bytes, evicted)
         | Some i \<Rightarrow>
             let removed = events ! i in
             evict_motions capacity max_bytes (projected - 1) (projected_bytes - queued_byte_len removed)
               (remove_at i events) (bytes - queued_byte_len removed) (evicted @ [eviction removed]))
      else (True, events, bytes, evicted))"
  by pat_completeness auto
termination
  by (relation "measure (\<lambda>(_, _, _, _, events, _). length events)")
     (auto simp: remove_at_def dest!: position_Some_less)

record enqueue_outcome =
  oc_accepted :: bool
  oc_evicted :: "pty_failure list"
  oc_superseded :: "closure option"

text \<open>The queue fields the function borrows: events, their bytes and the reservations.
  \<open>None\<close> is a panic.\<close>

definition consumes_reservation :: "release_reservations \<Rightarrow> pty_event \<Rightarrow> bool" where
  "consumes_reservation r ev =
     (ev_kind ev = Release \<and>
      (case ordering_lane ev of
         None \<Rightarrow> False
       | Some lane \<Rightarrow>
          (case ev_reservation ev of
             Some i \<Rightarrow> map_of (outstanding r) i = Some lane
           | None \<Rightarrow> lane \<in> snd ` set (outstanding r))))"

definition commit_reservation ::
    "release_reservations \<Rightarrow> pty_event \<Rightarrow> (release_reservations \<times> pty_event) option" where
  "commit_reservation r ev =
     (if ev_kind ev = Press then
        (case ordering_lane ev of
           None \<Rightarrow> None
         | Some lane \<Rightarrow> let (r, i) = reserve r lane in Some (r, ev\<lparr>ev_reservation := Some i\<rparr>))
      else if consumes_reservation r ev then
        (case ordering_lane ev of
           None \<Rightarrow> None
         | Some lane \<Rightarrow>
            (case ev_reservation ev of
               Some i \<Rightarrow> Some (fst (consume_id r i lane), ev)
             | None \<Rightarrow> Some (fst (consume r lane), ev)))
      else Some (r, ev))"

definition enqueue_motion ::
    "pty_event list \<Rightarrow> nat \<Rightarrow> release_reservations \<Rightarrow> pty_event \<Rightarrow> nat \<Rightarrow> (nat \<times> pty_event) option
       \<Rightarrow> (enqueue_outcome \<times> pty_event list \<times> nat \<times> release_reservations) option" where
  "enqueue_motion events bytes r ev max_bytes replaced =
     (let previous_len = queued_byte_len (last events) in
      if max_bytes < (bytes - previous_len) + queued_byte_len ev + reservations_len r * RESERVED_RELEASE_BYTES
      then map_option (\<lambda>(events, bytes).
             (\<lparr>oc_accepted = False, oc_evicted = [], oc_superseded = None\<rparr>, events, bytes, r))
             (restore_coalesced replaced events bytes)
      else Some (\<lparr>oc_accepted = True, oc_evicted = [],
                  oc_superseded = Option.bind replaced (\<lambda>(_, previous). ev_superseded previous)\<rparr>,
             butlast events @ [ev], (bytes - previous_len) + queued_byte_len ev, r))"

definition enqueue_bounded_with_evictions ::
    "pty_event list \<Rightarrow> nat \<Rightarrow> release_reservations \<Rightarrow> pty_event \<Rightarrow> nat \<Rightarrow> nat
       \<Rightarrow> (enqueue_outcome \<times> pty_event list \<times> nat \<times> release_reservations) option" where
  "enqueue_bounded_with_evictions events bytes r ev capacity max_bytes =
     (let (events, bytes, replaced) = take_coalesced ev events bytes in
      if same_input_tail Motion ev events then enqueue_motion events bytes r ev max_bytes replaced else
      let merge_stream = same_input_tail Ordered ev events;
          consumes = consumes_reservation r ev;
          projected = length events + reservations_len r + of_bool (\<not> merge_stream) + of_bool (ev_kind ev = Press);
          projected = (if consumes then projected - 1 else projected);
          projected_bytes = bytes + queued_byte_len ev
            + (reservations_len r + of_bool (ev_kind ev = Press)) * RESERVED_RELEASE_BYTES;
          projected_bytes = (if consumes then projected_bytes - RESERVED_RELEASE_BYTES else projected_bytes);
          (room, events, bytes, evicted) = evict_motions capacity max_bytes projected projected_bytes events bytes []
      in if \<not> room then map_option (\<lambda>(events, bytes).
             (\<lparr>oc_accepted = False, oc_evicted = evicted, oc_superseded = None\<rparr>, events, bytes, r))
             (restore_coalesced replaced events bytes)
      else Option.bind (commit_reservation r ev) (\<lambda>(r, ev).
        Some (\<lparr>oc_accepted = True, oc_evicted = evicted,
               oc_superseded = Option.bind replaced (\<lambda>(_, previous). ev_superseded previous)\<rparr>,
          if merge_stream then butlast events @ [(last events)\<lparr>ev_bytes := ev_bytes (last events) @ ev_bytes ev\<rparr>]
          else events @ [ev],
          bytes + queued_byte_len ev, r)))"

subsection \<open>Senders\<close>

text \<open>\<open>enqueue_with_reservation\<close> of a sender of session generation \<open>g\<close>; the notices are
  called after the lock is released.\<close>

definition enqueue_with_reservation ::
    "nat \<Rightarrow> pty_event \<Rightarrow> queue_state \<Rightarrow> ((enqueue_result \<times> u64 option) \<times> notice list \<times> queue_state) option" where
  "enqueue_with_reservation g ev st =
     (let ev = ev\<lparr>ev_generation := g\<rparr> in
      if q_closed st then Some ((Saturated, None), [], st)
      else if q_active_generation st \<noteq> g then Some ((Failed, None), [], st)
      else if g \<in> q_failed_generations st \<and> ev_remote ev then Some ((Failed, None), [], st)
      else if (case ordering_lane ev of None \<Rightarrow> False | Some lane \<Rightarrow> lane \<in> q_failed_lanes st)
              \<and> \<not> consumes_reservation (q_reservations st) ev then Some ((Failed, None), [], st)
      else if MAX_QUEUED_BYTES < queued_byte_len ev then Some ((Oversized, None), [], st)
      else let active_operations = length (q_operations st);
               active_bytes = sum_list (map snd (q_operations st))
      in case enqueue_bounded_with_evictions (q_events st) (q_bytes st) (q_reservations st) ev
                (PTY_OPERATION_QUEUE_CAPACITY - active_operations) (MAX_QUEUED_BYTES - active_bytes) of
           None \<Rightarrow> None
         | Some (outcome, events, bytes, r) \<Rightarrow>
             Some (if oc_accepted outcome
                   then (Accepted, if ev_kind ev = Press then Some (next_id r) else None)
                   else (Saturated, None),
               superseded_notice (oc_superseded outcome) @ map Failure (oc_evicted outcome),
               st\<lparr>q_events := events, q_bytes := bytes, q_reservations := r\<rparr>))"

definition enqueue_mutation ::
    "nat \<Rightarrow> string \<Rightarrow> mutation_identity \<Rightarrow> bool \<Rightarrow> closure option \<Rightarrow> closure option \<Rightarrow> closure
       \<Rightarrow> queue_state \<Rightarrow> (enqueue_result \<times> notice list \<times> queue_state) option" where
  "enqueue_mutation g label idn remote superseded after operation st =
     (case enqueue_with_reservation g (mutation_for_surface label idn remote superseded after operation) st of
        None \<Rightarrow> None
      | Some ((result, _), notices, st) \<Rightarrow>
          Some (result,
            notices @ (if result = Accepted then [] else
              [Failure \<lparr>pf_generation = g, pf_surface = mi_failure_surface idn, pf_kind = None,
                 pf_reservation = None, pf_label = label,
                 pf_error = (if result = Failed
                   then ''remote operation lane is unavailable after a transport failure''
                   else ''operation queue is full; the session was left unchanged''),
                 pf_lane_failed = (result = Failed), pf_delivery = KnownNotDelivered\<rparr>]),
            st))"

definition enqueue_session_mutation_with_settlement ::
    "nat \<Rightarrow> string \<Rightarrow> bool \<Rightarrow> closure \<Rightarrow> closure \<Rightarrow> queue_state
       \<Rightarrow> (enqueue_result \<times> notice list \<times> queue_state) option" where
  "enqueue_session_mutation_with_settlement g label remote after operation st =
     enqueue_mutation g label default_identity remote None (Some after) operation st"

definition enqueue_coalescing_mutation_with_settlement ::
    "nat \<Rightarrow> string \<Rightarrow> coalesce_key \<Rightarrow> bool \<Rightarrow> closure \<Rightarrow> closure \<Rightarrow> closure \<Rightarrow> queue_state
       \<Rightarrow> (enqueue_result \<times> notice list \<times> queue_state) option" where
  "enqueue_coalescing_mutation_with_settlement g label key remote superseded after operation st =
     enqueue_mutation g label (default_identity\<lparr>mi_coalesce := Some key\<rparr>) remote (Some superseded)
       (Some after) operation st"

definition surface_identity :: "string \<Rightarrow> surface_id \<Rightarrow> mutation_identity" where
  "surface_identity label sid =
     default_identity\<lparr>mi_coalesce := Some (label, sid, 0), mi_failure_surface := Some sid, mi_concurrent := True\<rparr>"

definition enqueue_coalescing_surface_operation ::
    "nat \<Rightarrow> string \<Rightarrow> surface_id \<Rightarrow> bool \<Rightarrow> closure \<Rightarrow> queue_state
       \<Rightarrow> (enqueue_result \<times> notice list \<times> queue_state) option" where
  "enqueue_coalescing_surface_operation g label sid remote operation st =
     enqueue_mutation g label (surface_identity label sid) remote None None operation st"

definition retained_identity :: "surface_id \<Rightarrow> nat \<Rightarrow> mutation_identity" where
  "retained_identity sid retained =
     default_identity\<lparr>mi_failure_surface := Some sid, mi_retained := retained, mi_concurrent := True\<rparr>"

definition enqueue_surface_operation_with_retained_bytes ::
    "nat \<Rightarrow> string \<Rightarrow> surface_id \<Rightarrow> bool \<Rightarrow> nat \<Rightarrow> closure \<Rightarrow> queue_state
       \<Rightarrow> (enqueue_result \<times> notice list \<times> queue_state) option" where
  "enqueue_surface_operation_with_retained_bytes g label sid remote retained operation st =
     enqueue_mutation g label (retained_identity sid retained) remote None None operation st"

definition total_bytes :: "pty_event list \<Rightarrow> nat" where
  "total_bytes events = sum_list (map queued_byte_len events)"

definition cancel_release_reservation :: "u64 \<Rightarrow> queue_state \<Rightarrow> queue_state" where
  "cancel_release_reservation i st = st\<lparr>q_reservations := cancel i (q_reservations st)\<rparr>"

definition retire_surface :: "nat \<Rightarrow> surface_id \<Rightarrow> queue_state \<Rightarrow> queue_state" where
  "retire_surface g sid st =
     (let lane = \<lparr>lane_generation = g, lane_surface = sid\<rparr>;
          in_flight = (case q_in_flight st of None \<Rightarrow> False | Some fl \<Rightarrow> fl_lane fl = Some lane)
            \<or> map_of (q_operations st) lane \<noteq> None;
          events = filter (\<lambda>ev. ordering_lane ev \<noteq> Some lane) (q_events st)
      in st\<lparr>q_failed_lanes := q_failed_lanes st - {lane},
            q_retired_lanes := (if in_flight then insert lane (q_retired_lanes st) else q_retired_lanes st - {lane}),
            q_events := events,
            q_reservations := retain_reservations (\<lambda>_ l. l \<noteq> lane) (q_reservations st),
            q_bytes := total_bytes events\<rparr>)"

definition activate_session_generation :: "nat \<Rightarrow> queue_state \<Rightarrow> queue_state" where
  "activate_session_generation g st =
     st\<lparr>q_active_generation := g,
        q_failed_lanes := {l \<in> q_failed_lanes st. lane_generation l = g},
        q_retired_lanes := {l \<in> q_retired_lanes st. lane_generation l = g},
        q_failed_generations := q_failed_generations st \<inter> {g},
        q_reservations := retain_generation g (q_reservations st)\<rparr>"

subsection \<open>The worker\<close>

text \<open>Scan for the first event that may start: its index, or nothing. The outer \<open>None\<close> is
  the panic of an event without a lane.\<close>

fun ready_index :: "(pty_lane \<times> nat) list \<Rightarrow> nat \<Rightarrow> pty_lane set \<Rightarrow> pty_event list \<Rightarrow> nat option option" where
  "ready_index ops i blocked [] = Some None"
| "ready_index ops i blocked (ev # rest) =
     (if ev_kind ev = Mutation \<and> \<not> ev_concurrent ev
      then Some (if i = 0 \<and> ops = [] then Some i else None)
      else case ordering_lane ev of
        None \<Rightarrow> None
      | Some lane \<Rightarrow>
          if lane \<in> blocked then ready_index ops (Suc i) blocked rest
          else if map_of ops lane \<noteq> None then ready_index ops (Suc i) (insert lane blocked) rest
          else if ev_concurrent ev \<and> MAX_CONCURRENT_SURFACE_OPERATIONS \<le> length ops
          then ready_index ops (Suc i) (insert lane blocked) rest
          else Some (Some i))"

definition dequeue_ready_event :: "queue_state \<Rightarrow> (pty_event option \<times> queue_state) option" where
  "dequeue_ready_event st =
     (case ready_index (q_operations st) 0 {} (q_events st) of
        None \<Rightarrow> None
      | Some None \<Rightarrow> Some (None, st)
      | Some (Some i) \<Rightarrow>
          let ev = q_events st ! i;
              st = st\<lparr>q_events := remove_at i (q_events st), q_bytes := q_bytes st - queued_byte_len ev\<rparr>
          in if ev_concurrent ev then
               (case ordering_lane ev of
                  None \<Rightarrow> None
                | Some lane \<Rightarrow>
                    if map_of (q_operations st) lane \<noteq> None then None
                    else Some (Some ev, st\<lparr>q_operations := AList.update lane (queued_byte_len ev) (q_operations st)\<rparr>))
             else Some (Some ev, st\<lparr>q_in_flight := Some \<lparr>fl_lane = ordering_lane ev, fl_kind = ev_kind ev\<rparr>\<rparr>))"

definition failure_kind :: "pty_event \<Rightarrow> input_kind option" where
  "failure_kind ev = (if ev_kind ev = Mutation then None else Some (ev_kind ev))"

definition failure_surface :: "pty_event \<Rightarrow> surface_id option" where
  "failure_surface ev = (if ev_kind ev = Mutation then ev_failure_surface ev else Some (ev_surface_id ev))"

definition fail_surface_operation_spawn ::
    "pty_event \<Rightarrow> string \<Rightarrow> queue_state \<Rightarrow> (notice list \<times> queue_state) option" where
  "fail_surface_operation_spawn ev err st =
     (case ordering_lane ev of
        None \<Rightarrow> None
      | Some lane \<Rightarrow>
          Some (Failure \<lparr>pf_generation = ev_generation ev, pf_surface = Some (lane_surface lane), pf_kind = None,
                  pf_reservation = None, pf_label = ev_label ev,
                  pf_error = ''could not start surface operation worker: '' @ err, pf_lane_failed = False,
                  pf_delivery = KnownNotDelivered\<rparr> # settled_notice (ev_after ev),
                st\<lparr>q_operations := AList.delete lane (q_operations st),
                   q_retired_lanes := q_retired_lanes st - {lane}\<rparr>))"

definition canceled :: "(pty_event \<Rightarrow> surface_id option) \<Rightarrow> string \<Rightarrow> bool \<Rightarrow> pty_event \<Rightarrow> pty_failure" where
  "canceled surface err lane_failed ev =
     \<lparr>pf_generation = ev_generation ev, pf_surface = surface ev, pf_kind = failure_kind ev,
      pf_reservation = ev_reservation ev, pf_label = ev_label ev, pf_error = err,
      pf_lane_failed = lane_failed, pf_delivery = KnownNotDelivered\<rparr>"

definition retain_events :: "(pty_event \<Rightarrow> bool) \<Rightarrow> queue_state \<Rightarrow> queue_state" where
  "retain_events keep st = (let retained = filter keep (q_events st) in
     st\<lparr>q_bytes := total_bytes retained, q_events := retained\<rparr>)"

definition requeue_ambiguous_release :: "pty_event \<Rightarrow> queue_state \<Rightarrow> queue_state" where
  "requeue_ambiguous_release ev st =
     st\<lparr>q_bytes := q_bytes st + queued_byte_len ev, q_events := ev # q_events st\<rparr>"

definition prune_failed_generation :: "nat \<Rightarrow> string \<Rightarrow> queue_state \<Rightarrow> pty_failure list \<times> queue_state" where
  "prune_failed_generation g err st =
     (map (canceled failure_surface err True) (filter (\<lambda>ev. ev_generation ev = g) (q_events st)),
      (retain_events (\<lambda>ev. ev_generation ev \<noteq> g) st)
        \<lparr>q_reservations := retain_reservations (\<lambda>_ l. lane_generation l \<noteq> g) (q_reservations st)\<rparr>)"

text \<open>The reservations of the presses \<open>affected\<close> selects, and the releases that survive:
  those whose press was already delivered.\<close>

definition press_reservations :: "(pty_event \<Rightarrow> bool) \<Rightarrow> pty_event list \<Rightarrow> u64 set" where
  "press_reservations affected events =
     {i. \<exists>ev\<in>set events. affected ev \<and> ev_kind ev = Press \<and> ev_reservation ev = Some i}"

definition retain_release :: "u64 set \<Rightarrow> pty_event \<Rightarrow> bool" where
  "retain_release canceled_presses ev = (ev_kind ev = Release \<and>
     (case ev_reservation ev of None \<Rightarrow> False | Some i \<Rightarrow> i \<notin> canceled_presses))"

definition prune_to_recovery_releases :: "nat \<Rightarrow> string \<Rightarrow> queue_state \<Rightarrow> pty_failure list \<times> queue_state" where
  "prune_to_recovery_releases g err st =
     (let presses = press_reservations (\<lambda>ev. ev_generation ev = g) (q_events st);
          dropped = (\<lambda>ev. ev_generation ev = g \<and> \<not> retain_release presses ev)
      in (map (canceled failure_surface err False) (filter dropped (q_events st)),
          (retain_events (\<lambda>ev. \<not> dropped ev) st)
            \<lparr>q_reservations := retain_reservations (\<lambda>i _. i \<notin> presses) (q_reservations st)\<rparr>))"

definition prune_failed_lane ::
    "pty_lane \<Rightarrow> u64 option \<Rightarrow> string \<Rightarrow> queue_state \<Rightarrow> pty_failure list \<times> queue_state" where
  "prune_failed_lane lane recovery err st =
     (let dropped = (\<lambda>ev. ordering_lane ev = Some lane \<and>
            \<not> (ev_kind ev = Release \<and> ev_reservation ev = recovery \<and> recovery \<noteq> None))
      in (map (canceled (\<lambda>_. Some (lane_surface lane)) err True) (filter dropped (q_events st)),
          (retain_events (\<lambda>ev. \<not> dropped ev) st)
            \<lparr>q_reservations := retain_reservations (\<lambda>i l. l \<noteq> lane \<or> Some i = recovery) (q_reservations st)\<rparr>))"

definition prune_lane_to_recovery_releases ::
    "pty_lane \<Rightarrow> string \<Rightarrow> queue_state \<Rightarrow> pty_failure list \<times> queue_state" where
  "prune_lane_to_recovery_releases lane err st =
     (let presses = press_reservations (\<lambda>ev. ordering_lane ev = Some lane) (q_events st);
          dropped = (\<lambda>ev. ordering_lane ev = Some lane \<and> \<not> retain_release presses ev)
      in (map (canceled (\<lambda>_. Some (lane_surface lane)) err False) (filter dropped (q_events st)),
          (retain_events (\<lambda>ev. \<not> dropped ev) st)
            \<lparr>q_reservations := retain_reservations (\<lambda>i _. i \<notin> presses) (q_reservations st)\<rparr>))"

subsection \<open>Completion of an operation\<close>

text \<open>The flags of \<open>process_event\<close>, for the outcome \<open>r\<close> of the event's operation
  (\<open>None\<close> is \<open>Ok\<close>); \<open>ev\<close> already counts the attempt.\<close>

definition count_attempt :: "pty_event \<Rightarrow> pty_event" where
  "count_attempt ev =
     (if ev_remote ev \<and> ev_kind ev = Release then ev\<lparr>ev_attempts := sat_add (ev_attempts ev) 1\<rparr> else ev)"

definition remote_transport_failed :: "pty_event \<Rightarrow> operation_error option \<Rightarrow> bool" where
  "remote_transport_failed ev r = (ev_remote ev \<and>
     (case r of None \<Rightarrow> False | Some e \<Rightarrow> is_remote_transport_failure (underlying_operation_error e)))"

definition remote_timed_out :: "pty_event \<Rightarrow> operation_error option \<Rightarrow> bool" where
  "remote_timed_out ev r = (ev_remote ev \<and>
     (case r of None \<Rightarrow> False | Some e \<Rightarrow> is_remote_timeout (underlying_operation_error e)))"

definition known_not_delivered :: "pty_event \<Rightarrow> operation_error option \<Rightarrow> bool" where
  "known_not_delivered ev r =
     ((case r of Some (KnownNotDeliveredError _) \<Rightarrow> True | _ \<Rightarrow> False)
      \<or> (ev_kind ev \<noteq> Mutation \<and> \<not> ev_remote ev \<and> handle_kind (ev_surface ev) = BrowserSurface))"

definition suppress_mutation_timeout :: "pty_event \<Rightarrow> operation_error option \<Rightarrow> bool" where
  "suppress_mutation_timeout ev r =
     (remote_timed_out ev r \<and> ev_kind ev = Mutation \<and> ev_failure_surface ev = None)"

definition ambiguous_release :: "pty_event \<Rightarrow> operation_error option \<Rightarrow> bool" where
  "ambiguous_release ev r = (remote_timed_out ev r \<and> ev_kind ev = Release)"

definition retry_ambiguous_release :: "pty_event \<Rightarrow> operation_error option \<Rightarrow> bool" where
  "retry_ambiguous_release ev r = (ambiguous_release ev r \<and> ev_attempts ev < REMOTE_RELEASE_MAX_ATTEMPTS)"

definition exhausted_ambiguous_release :: "pty_event \<Rightarrow> operation_error option \<Rightarrow> bool" where
  "exhausted_ambiguous_release ev r = (ambiguous_release ev r \<and> \<not> retry_ambiguous_release ev r)"

definition ambiguous_surface_failure :: "pty_event \<Rightarrow> operation_error option \<Rightarrow> bool" where
  "ambiguous_surface_failure ev r = (r \<noteq> None \<and> ordering_lane ev \<noteq> None \<and> \<not> known_not_delivered ev r
     \<and> \<not> remote_transport_failed ev r \<and> \<not> remote_timed_out ev r)"

definition timed_out_surface_lane :: "pty_event \<Rightarrow> operation_error option \<Rightarrow> bool" where
  "timed_out_surface_lane ev r =
     (remote_timed_out ev r \<and> ordering_lane ev \<noteq> None \<and> \<not> retry_ambiguous_release ev r)"

definition completion_failure :: "pty_event \<Rightarrow> operation_error option \<Rightarrow> pty_failure option" where
  "completion_failure ev r =
     (case r of
        None \<Rightarrow> None
      | Some e \<Rightarrow>
         if suppress_mutation_timeout ev r \<or> retry_ambiguous_release ev r then None
         else Some \<lparr>pf_generation = ev_generation ev, pf_surface = failure_surface ev,
           pf_kind = failure_kind ev, pf_reservation = ev_reservation ev, pf_label = ev_label ev,
           pf_error = (if exhausted_ambiguous_release ev r
             then ''mouse release timed out after 3 attempts; detach and reconnect before sending more input''
             else error_text e),
           pf_lane_failed = (remote_transport_failed ev r \<or> exhausted_ambiguous_release ev r
             \<or> ambiguous_surface_failure ev r \<or> timed_out_surface_lane ev r),
           pf_delivery = (if known_not_delivered ev r then KnownNotDelivered else Ambiguous)\<rparr>)"

text \<open>The three failure branches of the locked part; \<open>retired\<close> says that the lane was
  retired while the operation ran.\<close>

definition settle_transport_failure ::
    "pty_event \<Rightarrow> operation_error option \<Rightarrow> queue_state \<Rightarrow> pty_failure list \<times> queue_state" where
  "settle_transport_failure ev r st =
     (let st = (if q_active_generation st = ev_generation ev
           then st\<lparr>q_failed_generations := insert (ev_generation ev) (q_failed_generations st)\<rparr> else st)
      in prune_failed_generation (ev_generation ev)
           (if exhausted_ambiguous_release ev r
            then ''canceled after mouse release recovery timed out; detach and reconnect''
            else ''canceled after the remote transport failed'') st)"

definition fail_lane :: "nat \<Rightarrow> pty_lane \<Rightarrow> queue_state \<Rightarrow> queue_state" where
  "fail_lane g lane st =
     (if q_active_generation st = g then st\<lparr>q_failed_lanes := insert lane (q_failed_lanes st)\<rparr> else st)"

definition settle_timeout ::
    "pty_event \<Rightarrow> operation_error option \<Rightarrow> bool \<Rightarrow> queue_state \<Rightarrow> pty_failure list \<times> queue_state" where
  "settle_timeout ev r retired st =
     (let retry = retry_ambiguous_release ev r;
          st = (if \<not> retired \<and> retry \<and> (\<not> q_closed st \<or> q_release_drain st)
                then requeue_ambiguous_release (ev\<lparr>ev_mutation := None, ev_after := None\<rparr>) st else st)
      in case ordering_lane ev of
           Some lane \<Rightarrow>
             if retired then ([], st)
             else prune_lane_to_recovery_releases lane ''canceled after a remote surface request timed out''
                    (if \<not> retry then fail_lane (ev_generation ev) lane st else st)
         | None \<Rightarrow>
             prune_to_recovery_releases (ev_generation ev) ''canceled after a remote request timed out'' st)"

definition settle_ambiguous_failure ::
    "pty_event \<Rightarrow> bool \<Rightarrow> queue_state \<Rightarrow> pty_failure list \<times> queue_state" where
  "settle_ambiguous_failure ev retired st =
     (case ordering_lane ev of
        None \<Rightarrow> ([], st)
      | Some lane \<Rightarrow>
          if retired then ([], st)
          else prune_failed_lane lane (if ev_kind ev = Press then ev_reservation ev else None)
                 ''canceled after ambiguous surface delivery; detach and reconnect''
                 (fail_lane (ev_generation ev) lane st))"

definition drop_undelivered_press ::
    "pty_event \<Rightarrow> operation_error option \<Rightarrow> queue_state \<Rightarrow> queue_state" where
  "drop_undelivered_press ev r st =
     (case (completion_failure ev r, ev_reservation ev) of
        (Some f, Some i) \<Rightarrow>
          if pf_delivery f = KnownNotDelivered \<and> ev_kind ev = Press
          then cancel_release_reservation i st else st
      | _ \<Rightarrow> st)"

definition settle_failure ::
    "pty_event \<Rightarrow> operation_error option \<Rightarrow> bool \<Rightarrow> queue_state \<Rightarrow> pty_failure list \<times> queue_state" where
  "settle_failure ev r retired st =
     (if remote_transport_failed ev r \<or> (exhausted_ambiguous_release ev r \<and> \<not> retired)
      then settle_transport_failure ev r st
      else if remote_timed_out ev r then settle_timeout ev r retired st
      else if ambiguous_surface_failure ev r then settle_ambiguous_failure ev retired st
      else ([], st))"

text \<open>The in-flight slot the event held is given up.\<close>

definition leave_flight :: "pty_event \<Rightarrow> queue_state \<Rightarrow> queue_state" where
  "leave_flight ev st =
     (case (ev_concurrent ev, ordering_lane ev) of
        (True, Some lane) \<Rightarrow> st\<lparr>q_operations := AList.delete lane (q_operations st)\<rparr>
      | _ \<Rightarrow> st\<lparr>q_in_flight := None\<rparr>)"

definition process_event ::
    "pty_event \<Rightarrow> operation_error option \<Rightarrow> queue_state \<Rightarrow> notice list \<times> queue_state" where
  "process_event ev0 r st =
     (let ev = count_attempt ev0;
          retired = (case ordering_lane ev of None \<Rightarrow> False | Some lane \<Rightarrow> lane \<in> q_retired_lanes st);
          st = st\<lparr>q_retired_lanes := (case ordering_lane ev of None \<Rightarrow> q_retired_lanes st
                                       | Some lane \<Rightarrow> q_retired_lanes st - {lane})\<rparr>;
          (cs, st) = settle_failure ev r retired (drop_undelivered_press ev r st)
      in ((case completion_failure ev r of None \<Rightarrow> [] | Some f \<Rightarrow> [Failure f]) @ map Failure cs
            @ settled_notice (ev_after ev), leave_flight ev st))"

subsection \<open>Shutdown\<close>

definition shutdown_close :: "queue_state \<Rightarrow> queue_state" where
  "shutdown_close st = st\<lparr>q_closed := True\<rparr>"

definition drained :: "queue_state \<Rightarrow> bool" where
  "drained st = (q_events st = [] \<and> q_in_flight st = None \<and> q_operations st = [])"

text \<open>The deadline passed: every generation of the queue is pruned (the code's hash set
  leaves their order open).\<close>

fun prune_generations :: "nat list \<Rightarrow> queue_state \<Rightarrow> pty_failure list \<times> queue_state" where
  "prune_generations [] st = ([], st)"
| "prune_generations (g # gs) st =
     (let (fs, st) = prune_to_recovery_releases g ''canceled after the shutdown drain timed out'' st;
          (fs', st) = prune_generations gs st
      in (fs @ fs', st))"

definition shutdown_deadline :: "queue_state \<Rightarrow> bool \<times> notice list \<times> queue_state" where
  "shutdown_deadline st =
     (if drained st then (True, [], st)
      else let (fs, st) = prune_generations (remdups (map ev_generation (q_events st))) (st\<lparr>q_release_drain := True\<rparr>)
           in (False, map Failure fs, st))"

definition drop_dispatcher :: "queue_state \<Rightarrow> queue_state" where
  "drop_dispatcher st =
     (let st = st\<lparr>q_closed := True\<rparr> in
      if q_release_drain st then st
      else st\<lparr>q_events := [], q_bytes := 0, q_reservations := clear_reservations (q_reservations st)\<rparr>)"

definition worker_stops :: "queue_state \<Rightarrow> bool" where
  "worker_stops st = (q_events st = [] \<and> q_operations st = [] \<and> q_closed st)"

section \<open>The threads\<close>

text \<open>The queue with the event the worker is processing itself and those handed to
  operation threads. Senders, the worker, the operation threads, retiring and shutdown
  interleave at the granularity of the queue's lock.\<close>

record scheduler =
  sc_queue :: queue_state
  sc_inline :: "pty_event option"
  sc_running :: "pty_event list"

definition scheduler_new :: scheduler where
  "scheduler_new = \<lparr>sc_queue = queue_new, sc_inline = None, sc_running = []\<rparr>"

text \<open>The events the constructors of the module build.\<close>

definition constructible :: "pty_event \<Rightarrow> bool" where
  "constructible ev =
     (if ev_kind ev = Mutation
      then ev_bytes ev = [] \<and> (ev_concurrent ev \<longleftrightarrow> ev_failure_surface ev \<noteq> None)
           \<and> (ev_coalesce ev = None \<or> ev_retained ev = 0)
      else \<not> ev_concurrent ev \<and> ev_coalesce ev = None \<and> ev_retained ev = 0 \<and> ev_failure_surface ev = None
           \<and> ev_mutation ev = None)"

inductive pty_step :: "scheduler \<Rightarrow> scheduler \<Rightarrow> bool" where
  enqueue: "constructible ev \<Longrightarrow> enqueue_with_reservation g ev (sc_queue s) = Some (res, ns, q)
    \<Longrightarrow> pty_step s (s\<lparr>sc_queue := q\<rparr>)"
| take_inline: "sc_inline s = None \<Longrightarrow> dequeue_ready_event (sc_queue s) = Some (Some ev, q) \<Longrightarrow> \<not> ev_concurrent ev
    \<Longrightarrow> pty_step s (s\<lparr>sc_queue := q, sc_inline := Some ev\<rparr>)"
| spawn: "sc_inline s = None \<Longrightarrow> dequeue_ready_event (sc_queue s) = Some (Some ev, q) \<Longrightarrow> ev_concurrent ev
    \<Longrightarrow> pty_step s (s\<lparr>sc_queue := q, sc_running := ev # sc_running s\<rparr>)"
| spawn_failed: "ev \<in> set (sc_running s) \<Longrightarrow> fail_surface_operation_spawn ev err (sc_queue s) = Some (ns, q)
    \<Longrightarrow> pty_step s (s\<lparr>sc_queue := q, sc_running := remove1 ev (sc_running s)\<rparr>)"
| inline_done: "sc_inline s = Some ev \<Longrightarrow> process_event ev r (sc_queue s) = (ns, q)
    \<Longrightarrow> pty_step s (s\<lparr>sc_queue := q, sc_inline := None\<rparr>)"
| operation_done: "ev \<in> set (sc_running s) \<Longrightarrow> process_event ev r (sc_queue s) = (ns, q)
    \<Longrightarrow> pty_step s (s\<lparr>sc_queue := q, sc_running := remove1 ev (sc_running s)\<rparr>)"
| cancel_reservation: "pty_step s (s\<lparr>sc_queue := cancel_release_reservation i (sc_queue s)\<rparr>)"
| retire: "pty_step s (s\<lparr>sc_queue := retire_surface g sid (sc_queue s)\<rparr>)"
| activate: "pty_step s (s\<lparr>sc_queue := activate_session_generation g (sc_queue s)\<rparr>)"
| close: "pty_step s (s\<lparr>sc_queue := shutdown_close (sc_queue s)\<rparr>)"
| deadline: "shutdown_deadline (sc_queue s) = (ok, ns, q) \<Longrightarrow> pty_step s (s\<lparr>sc_queue := q\<rparr>)"
| drop: "pty_step s (s\<lparr>sc_queue := drop_dispatcher (sc_queue s)\<rparr>)"

inductive pty_reachable :: "scheduler \<Rightarrow> bool" where
  start: "pty_reachable scheduler_new"
| step: "pty_reachable s \<Longrightarrow> pty_step s t \<Longrightarrow> pty_reachable t"

end
