(* ===== verification/PtyInv.thy ===== *)
theory PtyInv
  imports PtyInput
begin

text \<open>
  Facts of the bounded queue: what the eviction loop, the coalescing of mutations and the
  enqueue they make up do to the events and their bytes, and the invariant of the
  scheduler that every step keeps.
\<close>

named_theorems pty_defs "the small operations of the queue"

declare reservations_len_def [pty_defs] cancel_def [pty_defs] retain_reservations_def [pty_defs]
  retain_generation_def [pty_defs] clear_reservations_def [pty_defs] total_bytes_def [pty_defs]

section \<open>Removing and restoring events\<close>

lemma length_removed_at: "i < length xs \<Longrightarrow> length (remove_at i xs) = length xs - 1"
  by (auto simp: remove_at_def)

lemma set_remove_at: "set (remove_at i xs) \<subseteq> set xs"
  by (auto simp: remove_at_def dest: in_set_takeD in_set_dropD)

lemma split_at: "i < length xs \<Longrightarrow> xs = take i xs @ xs ! i # drop (Suc i) xs"
  by (simp add: id_take_nth_drop)

lemma total_remove_at:
  "i < length xs \<Longrightarrow> total_bytes xs = queued_byte_len (xs ! i) + total_bytes (remove_at i xs)"
  by (subst split_at [of i xs]) (simp_all add: total_bytes_def remove_at_def)

lemma total_insert_at: "total_bytes (insert_at i x xs) = queued_byte_len x + total_bytes xs"
proof -
  have "total_bytes xs = total_bytes (take i xs) + total_bytes (drop i xs)"
    by (metis append_take_drop_id map_append sum_list_append total_bytes_def)
  then show ?thesis
    by (simp add: insert_at_def total_bytes_def)
qed

lemma filter_remove_at:
  assumes "i < length xs" and "\<not> P (xs ! i)"
  shows "filter P (remove_at i xs) = filter P xs"
proof -
  have "filter P xs = filter P (take i xs @ xs ! i # drop (Suc i) xs)"
    using split_at [OF assms(1)] by simp
  then show ?thesis
    using assms(2) by (simp add: remove_at_def)
qed

lemma remove_at_butlast: "xs \<noteq> [] \<Longrightarrow> total_bytes xs = total_bytes (butlast xs) + queued_byte_len (last xs)"
  by (induction xs rule: rev_induct) (simp_all add: total_bytes_def)

lemma hd_remove_at: "0 < i \<Longrightarrow> xs \<noteq> [] \<Longrightarrow> hd (remove_at i xs) = hd xs \<and> remove_at i xs \<noteq> []"
  by (cases xs; cases i) (auto simp: remove_at_def)

lemma hd_insert_at: "0 < i \<Longrightarrow> xs \<noteq> [] \<Longrightarrow> hd (insert_at i x xs) = hd xs \<and> insert_at i x xs \<noteq> []"
  by (cases xs; cases i) (auto simp: insert_at_def)

lemma last_remove_at:
  assumes "i < length xs" and "P (last xs)" and "\<not> P (xs ! i)"
  shows "remove_at i xs \<noteq> [] \<and> last (remove_at i xs) = last xs"
proof -
  have "Suc i \<noteq> length xs"
    using assms by (cases xs rule: rev_cases) auto
  then have "drop (Suc i) xs \<noteq> []"
    using assms(1) by simp
  then show ?thesis
    by (simp add: remove_at_def)
qed

section \<open>The eviction loop\<close>

declare evict_motions.simps [simp del]

abbreviation is_motion :: "pty_event \<Rightarrow> bool" where "is_motion ev \<equiv> ev_kind ev = Motion"

text \<open>The loop only takes out motions, keeps the byte count, and when it succeeds the
  event fits.\<close>

lemma evict_motions_spec:
  assumes "evict_motions capacity max_bytes p pb events bytes evicted = (room, events', bytes', evicted')"
    and "bytes = total_bytes events"
  shows "bytes' = total_bytes events' \<and> length events' \<le> length events \<and> bytes' \<le> bytes
    \<and> set events' \<subseteq> set events
    \<and> filter (\<lambda>ev. \<not> is_motion ev) events' = filter (\<lambda>ev. \<not> is_motion ev) events
    \<and> (room \<longrightarrow> p \<le> capacity + (length events - length events') \<and> pb \<le> max_bytes + (bytes - bytes'))"
  using assms
proof (induction capacity max_bytes p pb events bytes evicted
       arbitrary: room events' bytes' evicted' rule: evict_motions.induct)
  case (1 capacity max_bytes p pb events bytes evicted)
  show ?case
  proof (cases "capacity < p \<or> max_bytes < pb")
    case False
    then show ?thesis
      using 1(2,3) by (subst (asm) evict_motions.simps) auto
  next
    case full: True
    show ?thesis
    proof (cases "position (\<lambda>queued. is_motion queued) events")
      case None
      then show ?thesis
        using 1(2,3) full by (subst (asm) evict_motions.simps) auto
    next
      case (Some i)
      let ?events = "remove_at i events"
      let ?bytes = "bytes - queued_byte_len (events ! i)"
      have i: "i < length events" "is_motion (events ! i)"
        using position_Some_less [OF Some] by auto
      have total: "bytes = queued_byte_len (events ! i) + ?bytes" "?bytes = total_bytes ?events"
        using total_remove_at [OF i(1)] 1(3) by auto
      have run: "evict_motions capacity max_bytes (p - 1) (pb - queued_byte_len (events ! i)) ?events ?bytes
          (evicted @ [eviction (events ! i)]) = (room, events', bytes', evicted')"
        using 1(2) full Some by (subst (asm) evict_motions.simps) (simp add: Let_def)
      note IH = 1(1) [OF full Some refl run total(2)]
      show ?thesis
        using IH total(1) i filter_remove_at [OF i(1), of "\<lambda>ev. \<not> is_motion ev"] set_remove_at [of i events]
        by (auto simp: length_removed_at)
    qed
  qed
qed

lemma evict_motions_ends:
  assumes "evict_motions capacity max_bytes p pb events bytes evicted = (room, events', bytes', evicted')"
  shows "(events \<noteq> [] \<and> \<not> is_motion (hd events) \<longrightarrow> events' \<noteq> [] \<and> hd events' = hd events)
    \<and> (events \<noteq> [] \<and> \<not> is_motion (last events) \<longrightarrow> events' \<noteq> [] \<and> last events' = last events)"
  using assms
proof (induction capacity max_bytes p pb events bytes evicted
       arbitrary: room events' bytes' evicted' rule: evict_motions.induct)
  case (1 capacity max_bytes p pb events bytes evicted)
  show ?case
  proof (cases "(capacity < p \<or> max_bytes < pb) \<and> position (\<lambda>queued. is_motion queued) events \<noteq> None")
    case False
    then show ?thesis
      using 1(2) by (subst (asm) evict_motions.simps) (auto split: if_splits)
  next
    case True
    then obtain i where full: "capacity < p \<or> max_bytes < pb" and
      Some: "position (\<lambda>queued. is_motion queued) events = Some i"
      by auto
    have i: "i < length events" "is_motion (events ! i)"
      using position_Some_less [OF Some] by auto
    have run: "evict_motions capacity max_bytes (p - 1) (pb - queued_byte_len (events ! i)) (remove_at i events)
        (bytes - queued_byte_len (events ! i)) (evicted @ [eviction (events ! i)]) = (room, events', bytes', evicted')"
      using 1(2) full Some by (subst (asm) evict_motions.simps) (simp add: Let_def)
    have "0 < i" if "\<not> is_motion (hd events)"
      using that i by (cases i) (auto simp: hd_conv_nth)
    then have hd: "remove_at i events \<noteq> [] \<and> hd (remove_at i events) = hd events"
      if "\<not> is_motion (hd events)"
      using that hd_remove_at [of i events] i(1) by (cases events) simp_all
    have last: "remove_at i events \<noteq> [] \<and> last (remove_at i events) = last events"
      if "\<not> is_motion (last events)"
      using that last_remove_at [OF i(1), of "\<lambda>ev. \<not> is_motion ev"] i(2) by blast
    show ?thesis
      using 1(1) [OF full Some refl run] hd last by metis
  qed
qed

section \<open>Coalescing\<close>

lemma coalesce_index_Some:
  "coalesce_index g key es = Some i \<Longrightarrow>
     \<exists>newer e older. es = newer @ e # older \<and> i = length older \<and> ev_generation e = g
       \<and> ev_coalesce e = Some key \<and> (\<forall>e\<in>set newer. ev_coalesce e \<noteq> None)"
proof (induction g key es rule: coalesce_index.induct)
  case (2 g key e older)
  show ?case
  proof (cases "ev_generation e = g \<and> ev_coalesce e = Some key")
    case True
    then show ?thesis
      using 2(2) by (intro exI [of _ "[]"]) auto
  next
    case False
    then obtain newer e' older' where "older = newer @ e' # older' \<and> i = length older' \<and> ev_generation e' = g
       \<and> ev_coalesce e' = Some key \<and> (\<forall>e\<in>set newer. ev_coalesce e \<noteq> None)" "ev_coalesce e \<noteq> None"
      using 2 by (auto split: if_splits)
    then show ?thesis
      by (intro exI [of _ "e # newer"]) auto
  qed
qed simp

text \<open>Taking the mutation that the new one replaces: it lies behind every keyless event.\<close>

lemma take_coalesced_cases:
  assumes "take_coalesced ev events bytes = (events', bytes', replaced)"
  obtains (keep) "events' = events" "bytes' = bytes" "replaced = None"
  | (replace) before previous after where "events = before @ previous # after" "events' = before @ after"
      "bytes' = bytes - queued_byte_len previous" "replaced = Some (length before, previous)"
      "ev_coalesce previous = ev_coalesce ev" "ev_coalesce ev \<noteq> None"
      "ev_generation previous = ev_generation ev" "\<forall>e\<in>set after. ev_coalesce e \<noteq> None"
proof (cases "ev_coalesce ev")
  case None
  then show thesis
    using assms keep by (simp add: take_coalesced_def)
next
  case (Some key)
  show thesis
  proof (cases "coalesce_index (ev_generation ev) key (rev events)")
    case None
    then show thesis
      using assms keep Some by (simp add: take_coalesced_def)
  next
    case (Some i)
    obtain newer e older where split: "rev events = newer @ e # older" "i = length older" "ev_generation e = ev_generation ev"
        "ev_coalesce e = Some key" "\<forall>e\<in>set newer. ev_coalesce e \<noteq> None"
      using coalesce_index_Some [OF Some] by blast
    have events: "events = rev older @ e # rev newer"
      using arg_cong [OF split(1), of rev] by simp
    show thesis
      using assms Some split(2-5) \<open>ev_coalesce ev = Some key\<close>
      by (intro replace [OF events]) (auto simp: take_coalesced_def events remove_at_def nth_append)
  qed
qed

lemma constructible_keyed:
  "constructible ev \<Longrightarrow> ev_coalesce ev \<noteq> None \<Longrightarrow> ev_kind ev = Mutation \<and> queued_byte_len ev = 0 \<and> ev_bytes ev = []"
  by (auto simp: constructible_def queued_byte_len_def split: if_splits)

section \<open>Enqueue\<close>

lemma min_id_mem: "(min_id is = None \<longleftrightarrow> is = []) \<and> (min_id is = Some i \<longrightarrow> i \<in> set is)"
  by (induction "is" arbitrary: i) (auto simp: min_def split: option.splits if_splits)

lemma length_delete_mem: "i \<in> fst ` set xs \<Longrightarrow> length (AList.delete i xs) < length xs"
proof (induction xs)
  case (Cons x xs)
  then show ?case
    using length_delete_le [of i xs] by (cases "fst x = i") (auto simp: less_Suc_eq_le)
qed simp

lemma length_update_le: "length (AList.update k v xs) \<le> Suc (length xs)"
  by (induction xs) auto

lemma map_of_mem_fst: "map_of xs k = Some v \<Longrightarrow> k \<in> fst ` set xs"
  by (force dest: map_of_SomeD)

lemma commit_reservation_len:
  assumes "commit_reservation r ev = Some (r', ev')"
  shows "reservations_len r' + of_bool (consumes_reservation r ev)
      \<le> reservations_len r + of_bool (ev_kind ev = Press)
    \<and> (\<exists>i. ev' = ev\<lparr>ev_reservation := i\<rparr>)"
proof (cases "ev_kind ev = Press")
  case True
  then show ?thesis
    using assms
    by (auto simp: commit_reservation_def consumes_reservation_def reserve_def Let_def reservations_len_def
        length_update_le split: option.splits)
next
  case not_press: False
  show ?thesis
  proof (cases "consumes_reservation r ev")
    case False
    then show ?thesis
      using assms not_press by (auto simp: commit_reservation_def intro: exI [of _ "ev_reservation ev"])
  next
    case True
    then obtain lane where lane: "ordering_lane ev = Some lane"
      by (auto simp: consumes_reservation_def split: option.splits)
    show ?thesis
    proof (cases "ev_reservation ev")
      case (Some i)
      then have "map_of (outstanding r) i = Some lane"
        using True lane by (simp add: consumes_reservation_def)
      then show ?thesis
        using assms not_press True lane Some length_delete_mem [OF map_of_mem_fst]
        by (auto simp: commit_reservation_def consume_id_def reservations_len_def Suc_le_eq
            intro: exI [of _ "ev_reservation ev"])
    next
      case None
      let ?ids = "map fst (filter (\<lambda>(_, l). l = lane) (outstanding r))"
      have "?ids \<noteq> []"
        using True lane None by (auto simp: consumes_reservation_def filter_empty_conv)
      then obtain i where i: "min_id ?ids = Some i" "i \<in> fst ` set (outstanding r)"
        using min_id_mem [of ?ids] by (cases "min_id ?ids") force+
      then show ?thesis
        using assms not_press True lane None length_delete_mem [OF i(2)]
        by (auto simp: commit_reservation_def consume_def reservations_len_def Suc_le_eq
            intro: exI [of _ "ev_reservation ev"])
    qed
  qed
qed

lemma constructible_reservation [simp]: "constructible (ev\<lparr>ev_reservation := i\<rparr>) = constructible ev"
  by (simp add: constructible_def)

lemma queued_byte_len_reservation [simp]: "queued_byte_len (ev\<lparr>ev_reservation := i\<rparr>) = queued_byte_len ev"
  by (simp add: queued_byte_len_def)

lemma restore_coalesced_spec:
  assumes "restore_coalesced replaced events bytes = Some (events', bytes')"
    and "bytes = total_bytes events"
  shows "bytes' = total_bytes events'
    \<and> (replaced = None \<longrightarrow> events' = events)
    \<and> (\<forall>i previous. replaced = Some (i, previous) \<longrightarrow> i \<le> length events \<and> events' = insert_at i previous events)"
  using assms by (auto simp: restore_coalesced_def total_insert_at split: option.splits if_splits)

lemma merge_total:
  assumes "constructible tail" "constructible ev" "ev_kind tail = Ordered" "ev_kind ev = Ordered"
    and "queued_byte_len tail + queued_byte_len ev < 2 ^ 64 - 1"
  shows "queued_byte_len (tail\<lparr>ev_bytes := ev_bytes tail @ ev_bytes ev\<rparr>) = queued_byte_len tail + queued_byte_len ev"
  using assms by (auto simp: queued_byte_len_def constructible_def)

text \<open>The invariant part of one enqueue: byte count and well-formed events; accepted
  events stay within the bytes and add a slot only within the capacity; a refused one
  only lets motions go; a release at the front stays there.\<close>

definition enqueue_keeps ::
    "pty_event list \<Rightarrow> nat \<Rightarrow> release_reservations \<Rightarrow> nat \<Rightarrow> nat
       \<Rightarrow> enqueue_outcome \<times> pty_event list \<times> nat \<times> release_reservations \<Rightarrow> bool" where
  "enqueue_keeps events bytes r capacity max_bytes = (\<lambda>(outcome, events', bytes', r').
     bytes' = total_bytes events' \<and> (\<forall>e\<in>set events'. constructible e)
     \<and> (oc_accepted outcome \<longrightarrow> bytes' + reservations_len r' * RESERVED_RELEASE_BYTES \<le> max_bytes
          \<and> (length events' + reservations_len r' \<le> capacity \<or> r' = r \<and> length events' = length events))
     \<and> (\<not> oc_accepted outcome \<longrightarrow> r' = r \<and> length events' \<le> length events \<and> bytes' \<le> bytes)
     \<and> (events \<noteq> [] \<and> ev_kind (hd events) = Release \<longrightarrow> events' \<noteq> [] \<and> hd events' = hd events))"

lemma same_input_tail_last:
  "same_input_tail k ev events \<Longrightarrow> events \<noteq> [] \<and> ev_kind (last events) = k \<and> ev_kind ev = k"
  by (simp add: same_input_tail_def)

lemma hd_butlast_append:
  "events \<noteq> [] \<Longrightarrow> hd events \<noteq> last events \<Longrightarrow> hd (butlast events @ [x]) = hd events"
  by (cases events) (auto split: if_splits)

lemma enqueue_motion_keeps:
  assumes "enqueue_motion events bytes r ev max_bytes None = Some result"
    and "same_input_tail Motion ev events" "bytes = total_bytes events"
    and "\<forall>e\<in>set events. constructible e" "constructible ev"
  shows "enqueue_keeps events bytes r capacity max_bytes result"
proof -
  have last: "events \<noteq> []" "ev_kind (last events) = Motion"
    using assms(2) by (auto simp: same_input_tail_def)
  have hd: "hd (butlast events @ [ev]) = hd events" if "ev_kind (hd events) = Release"
    using that last hd_butlast_append [of events ev] by fastforce
  have total: "bytes - queued_byte_len (last events) = total_bytes (butlast events)"
    using remove_at_butlast [OF last(1)] assms(3) by simp
  have "set (butlast events) \<subseteq> set events"
    by (meson in_set_butlastD subsetI)
  then show ?thesis
    using assms(1,3-5) last(1) hd total
    by (auto simp: enqueue_motion_def enqueue_keeps_def restore_coalesced_def Let_def total_bytes_def
        split: if_splits)
qed

lemma take_coalesced_spec:
  assumes "take_coalesced ev events bytes = (events', bytes', replaced)"
    and "bytes = total_bytes events" "\<forall>e\<in>set events. constructible e" "constructible ev"
  shows "bytes' = total_bytes events' \<and> set events' \<subseteq> set events
    \<and> (events \<noteq> [] \<and> ev_kind (hd events) = Release \<longrightarrow> events' \<noteq> [] \<and> hd events' = hd events)
    \<and> (replaced = None \<longrightarrow> events' = events)
    \<and> (ev_kind ev \<noteq> Mutation \<longrightarrow> replaced = None)
    \<and> (\<forall>i p. replaced = Some (i, p) \<longrightarrow> constructible p \<and> ev_kind p = Mutation \<and> queued_byte_len p = 0
         \<and> length events = Suc (length events')
         \<and> (ev_kind (hd events) = Release \<longrightarrow> 0 < i))"
  using assms(1)
proof (cases rule: take_coalesced_cases)
  case keep
  then show ?thesis
    using assms by simp
next
  case (replace before previous after)
  have previous: "constructible previous" "ev_kind previous = Mutation" "queued_byte_len previous = 0"
    using replace assms(3) constructible_keyed [of previous] by auto
  moreover have "ev_kind ev = Mutation"
    using constructible_keyed [OF assms(4)] replace by simp
  moreover have "hd (before @ after) = hd events \<and> before \<noteq> []" if "ev_kind (hd events) = Release"
    using that replace(1) previous(2) by (cases before) auto
  ultimately show ?thesis
    using replace assms(2) by (auto simp: total_bytes_def)
qed

lemma enqueue_bounded_unfold:
  assumes "enqueue_bounded_with_evictions events bytes r ev capacity max_bytes = Some result"
    and "take_coalesced ev events bytes = (events1, bytes1, replaced)"
    and "\<not> same_input_tail Motion ev events1"
  obtains room events2 bytes2 evicted where
    "evict_motions capacity max_bytes
       (length events1 + reservations_len r + of_bool (\<not> same_input_tail Ordered ev events1)
          + of_bool (ev_kind ev = Press) - of_bool (consumes_reservation r ev))
       (bytes1 + queued_byte_len ev
          + (reservations_len r + of_bool (ev_kind ev = Press)) * RESERVED_RELEASE_BYTES
          - of_bool (consumes_reservation r ev) * RESERVED_RELEASE_BYTES)
       events1 bytes1 [] = (room, events2, bytes2, evicted)"
    and "\<not> room \<Longrightarrow> \<exists>events3 bytes3. restore_coalesced replaced events2 bytes2 = Some (events3, bytes3)
       \<and> result = (\<lparr>oc_accepted = False, oc_evicted = evicted, oc_superseded = None\<rparr>, events3, bytes3, r)"
    and "room \<Longrightarrow> \<exists>r' ev'. commit_reservation r ev = Some (r', ev')
       \<and> result = (\<lparr>oc_accepted = True, oc_evicted = evicted,
             oc_superseded = Option.bind replaced (\<lambda>(_, previous). ev_superseded previous)\<rparr>,
          if same_input_tail Ordered ev events1
          then butlast events2 @ [(last events2)\<lparr>ev_bytes := ev_bytes (last events2) @ ev_bytes ev'\<rparr>]
          else events2 @ [ev'],
          bytes2 + queued_byte_len ev', r')"
proof -
  let ?p = "length events1 + reservations_len r + of_bool (\<not> same_input_tail Ordered ev events1)
          + of_bool (ev_kind ev = Press) - of_bool (consumes_reservation r ev)"
  let ?b = "bytes1 + queued_byte_len ev
          + (reservations_len r + of_bool (ev_kind ev = Press)) * RESERVED_RELEASE_BYTES
          - of_bool (consumes_reservation r ev) * RESERVED_RELEASE_BYTES"
  obtain room events2 bytes2 evicted where
    run: "evict_motions capacity max_bytes ?p ?b events1 bytes1 [] = (room, events2, bytes2, evicted)"
    by (cases "evict_motions capacity max_bytes ?p ?b events1 bytes1 []") auto
  have p: "?p = (if consumes_reservation r ev then length events1 + reservations_len r
        + of_bool (\<not> same_input_tail Ordered ev events1) + of_bool (ev_kind ev = Press) - 1
      else length events1 + reservations_len r + of_bool (\<not> same_input_tail Ordered ev events1)
        + of_bool (ev_kind ev = Press))"
    by simp
  have b: "?b = (if consumes_reservation r ev then bytes1 + queued_byte_len ev
          + (reservations_len r + of_bool (ev_kind ev = Press)) * RESERVED_RELEASE_BYTES - RESERVED_RELEASE_BYTES
      else bytes1 + queued_byte_len ev + (reservations_len r + of_bool (ev_kind ev = Press)) * RESERVED_RELEASE_BYTES)"
    by simp
  note unfolded = assms(1) [unfolded enqueue_bounded_with_evictions_def Let_def assms(2) prod.case]
  have rest: "(if \<not> room
      then map_option (\<lambda>(events, bytes). (\<lparr>oc_accepted = False, oc_evicted = evicted, oc_superseded = None\<rparr>, events, bytes, r))
             (restore_coalesced replaced events2 bytes2)
      else Option.bind (commit_reservation r ev) (\<lambda>(r', ev').
        Some (\<lparr>oc_accepted = True, oc_evicted = evicted,
               oc_superseded = Option.bind replaced (\<lambda>(_, previous). ev_superseded previous)\<rparr>,
          if same_input_tail Ordered ev events1
          then butlast events2 @ [(last events2)\<lparr>ev_bytes := ev_bytes (last events2) @ ev_bytes ev'\<rparr>]
          else events2 @ [ev'],
          bytes2 + queued_byte_len ev', r'))) = Some result"
    using unfolded assms(3) by (simp only: if_False p [symmetric] b [symmetric] run prod.case)
  show thesis
  proof (rule that [OF run])
    show "\<exists>events3 bytes3. restore_coalesced replaced events2 bytes2 = Some (events3, bytes3)
       \<and> result = (\<lparr>oc_accepted = False, oc_evicted = evicted, oc_superseded = None\<rparr>, events3, bytes3, r)"
      if "\<not> room"
      using rest that by auto
    show "\<exists>r' ev'. commit_reservation r ev = Some (r', ev')
       \<and> result = (\<lparr>oc_accepted = True, oc_evicted = evicted,
             oc_superseded = Option.bind replaced (\<lambda>(_, previous). ev_superseded previous)\<rparr>,
          if same_input_tail Ordered ev events1
          then butlast events2 @ [(last events2)\<lparr>ev_bytes := ev_bytes (last events2) @ ev_bytes ev'\<rparr>]
          else events2 @ [ev'],
          bytes2 + queued_byte_len ev', r')"
      if room: room
    proof -
      obtain r' ev' where "commit_reservation r ev = Some (r', ev')"
        using rest room by (cases "commit_reservation r ev") auto
      then show ?thesis
        using rest room by (intro exI [of _ r'] exI [of _ ev']) simp
    qed
  qed
qed

lemma commit_reservation_event:
  "commit_reservation r ev = Some (r', ev') \<Longrightarrow>
     constructible ev' = constructible ev \<and> queued_byte_len ev' = queued_byte_len ev \<and> ev_kind ev' = ev_kind ev
     \<and> ev_bytes ev' = ev_bytes ev \<and> ordering_lane ev' = ordering_lane ev \<and> ev_generation ev' = ev_generation ev"
  using commit_reservation_len [of r ev r' ev']
  by (auto simp: ordering_lane_def ordering_surface_id_def)

text \<open>The projected use of the loop bounds the use after the reservation is committed.\<close>

lemma enqueue_room:
  assumes len: "reservations_len r' + of_bool (consumes_reservation r ev)
      \<le> reservations_len r + of_bool (ev_kind ev = Press)"
    and slots: "n1 + reservations_len r + of_bool (\<not> merge) + of_bool (ev_kind ev = Press)
      - of_bool (consumes_reservation r ev) \<le> capacity + (n1 - n2)" and "n2 \<le> n1"
    and load: "b1 + q + (reservations_len r + of_bool (ev_kind ev = Press)) * RESERVED_RELEASE_BYTES
      - of_bool (consumes_reservation r ev) * RESERVED_RELEASE_BYTES \<le> max_bytes + (b1 - b2)" and "b2 \<le> b1"
  shows "n2 + of_bool (\<not> merge) + reservations_len r' \<le> capacity"
    and "b2 + q + reservations_len r' * RESERVED_RELEASE_BYTES \<le> max_bytes"
proof -
  have press: "ev_kind ev \<noteq> Press" if "consumes_reservation r ev"
    using that by (simp add: consumes_reservation_def)
  show "n2 + of_bool (\<not> merge) + reservations_len r' \<le> capacity"
    using len slots \<open>n2 \<le> n1\<close> by (cases "consumes_reservation r ev") auto
  show "b2 + q + reservations_len r' * RESERVED_RELEASE_BYTES \<le> max_bytes"
    using len load \<open>b2 \<le> b1\<close> press
    by (cases "consumes_reservation r ev"; cases "ev_kind ev = Press") (auto simp: RESERVED_RELEASE_BYTES_def)
qed

lemma enqueue_accepted_keeps:
  assumes ok: "\<forall>e\<in>set events2. constructible e" "constructible ev" and total: "bytes2 = total_bytes events2"
    and head: "events \<noteq> [] \<Longrightarrow> ev_kind (hd events) = Release \<Longrightarrow> events2 \<noteq> [] \<and> hd events2 = hd events"
    and commit: "commit_reservation r ev = Some (r', ev')"
    and room: "length events2 + of_bool (\<not> merge) + reservations_len r' \<le> capacity"
      "bytes2 + queued_byte_len ev' + reservations_len r' * RESERVED_RELEASE_BYTES \<le> max_bytes"
    and max: "max_bytes < 2 ^ 64 - 1"
    and tail: "merge \<Longrightarrow> events2 \<noteq> [] \<and> ev_kind (last events2) = Ordered \<and> ev_kind ev = Ordered"
  shows "enqueue_keeps events bytes r capacity max_bytes
    (\<lparr>oc_accepted = True, oc_evicted = evicted, oc_superseded = superseded\<rparr>,
     if merge then butlast events2 @ [(last events2)\<lparr>ev_bytes := ev_bytes (last events2) @ ev_bytes ev'\<rparr>]
     else events2 @ [ev'], bytes2 + queued_byte_len ev', r')"
proof (cases merge)
  case False
  then show ?thesis
    using room head ok commit_reservation_event [OF commit] total by (auto simp: enqueue_keeps_def total_bytes_def)
next
  case merge: True
  note ev' = commit_reservation_event [OF commit]
  have last: "events2 \<noteq> []" "ev_kind (last events2) = Ordered" "ev_kind ev' = Ordered"
    using tail [OF merge] ev' by auto
  then have okl: "constructible (last events2)" "constructible ev'"
    using ok ev' by auto
  let ?tail = "(last events2)\<lparr>ev_bytes := ev_bytes (last events2) @ ev_bytes ev'\<rparr>"
  have "queued_byte_len (last events2) \<le> bytes2"
    using remove_at_butlast [OF last(1)] total by simp
  then have "queued_byte_len ?tail = queued_byte_len (last events2) + queued_byte_len ev'"
    using merge_total [OF okl last(2,3)] room(2) max by linarith
  then have "bytes2 + queued_byte_len ev' = total_bytes (butlast events2 @ [?tail])"
    using remove_at_butlast [OF last(1)] total by (simp add: total_bytes_def)
  moreover have "constructible ?tail"
    using okl(1) last(2) by (simp add: constructible_def)
  moreover have "hd (butlast events2 @ [?tail]) = hd events" if "events \<noteq> []" "ev_kind (hd events) = Release"
    using that head last hd_butlast_append [of events2 ?tail] by fastforce
  moreover have "set (butlast events2) \<subseteq> set events2"
    by (meson in_set_butlastD subsetI)
  moreover have "length (butlast events2 @ [?tail]) = length events2"
    using last(1) by (cases events2 rule: rev_cases) auto
  ultimately show ?thesis
    using room ok merge by (auto simp: enqueue_keeps_def)
qed

lemma enqueue_bounded_keeps:
  assumes enq: "enqueue_bounded_with_evictions events bytes r ev capacity max_bytes = Some result"
    and bytes: "bytes = total_bytes events" and ok: "\<forall>e\<in>set events. constructible e" "constructible ev"
    and max: "max_bytes < 2 ^ 64 - 1"
  shows "enqueue_keeps events bytes r capacity max_bytes result"
proof -
  obtain events1 bytes1 replaced where take: "take_coalesced ev events bytes = (events1, bytes1, replaced)"
    by (cases "take_coalesced ev events bytes") auto
  note t = take_coalesced_spec [OF take bytes ok]
  show ?thesis
  proof (cases "same_input_tail Motion ev events1")
    case True
    then have "replaced = None"
      using t by (simp add: same_input_tail_def)
    moreover have "enqueue_motion events1 bytes1 r ev max_bytes replaced = Some result"
      using enq True by (simp add: enqueue_bounded_with_evictions_def take)
    ultimately show ?thesis
      using enqueue_motion_keeps [of events1 bytes1 r ev max_bytes result capacity] t True ok bytes by auto
  next
    case False
    obtain room events2 bytes2 evicted where
      run: "evict_motions capacity max_bytes
       (length events1 + reservations_len r + of_bool (\<not> same_input_tail Ordered ev events1)
          + of_bool (ev_kind ev = Press) - of_bool (consumes_reservation r ev))
       (bytes1 + queued_byte_len ev
          + (reservations_len r + of_bool (ev_kind ev = Press)) * RESERVED_RELEASE_BYTES
          - of_bool (consumes_reservation r ev) * RESERVED_RELEASE_BYTES)
       events1 bytes1 [] = (room, events2, bytes2, evicted)"
      and refused: "\<not> room \<Longrightarrow> \<exists>events3 bytes3. restore_coalesced replaced events2 bytes2 = Some (events3, bytes3)
       \<and> result = (\<lparr>oc_accepted = False, oc_evicted = evicted, oc_superseded = None\<rparr>, events3, bytes3, r)"
      and accepted: "room \<Longrightarrow> \<exists>r' ev'. commit_reservation r ev = Some (r', ev')
       \<and> result = (\<lparr>oc_accepted = True, oc_evicted = evicted,
             oc_superseded = Option.bind replaced (\<lambda>(_, previous). ev_superseded previous)\<rparr>,
          if same_input_tail Ordered ev events1
          then butlast events2 @ [(last events2)\<lparr>ev_bytes := ev_bytes (last events2) @ ev_bytes ev'\<rparr>]
          else events2 @ [ev'],
          bytes2 + queued_byte_len ev', r')"
      using enqueue_bounded_unfold [OF enq take False] by metis
    note m = evict_motions_spec [OF run conjunct1 [OF t]]
    note ends = evict_motions_ends [OF run]
    have head: "events2 \<noteq> [] \<and> hd events2 = hd events" if "events \<noteq> []" "ev_kind (hd events) = Release"
      using that t ends by auto
    have ok2: "\<forall>e\<in>set events2. constructible e"
      using m t ok(1) by blast
    show ?thesis
    proof (cases room)
      case False
      obtain events3 bytes3 where r3: "restore_coalesced replaced events2 bytes2 = Some (events3, bytes3)"
        and result: "result = (\<lparr>oc_accepted = False, oc_evicted = evicted, oc_superseded = None\<rparr>, events3, bytes3, r)"
        using refused [OF False] by blast
      note r = restore_coalesced_spec [OF r3 conjunct1 [OF m]]
      show ?thesis
      proof (cases replaced)
        case None
        then show ?thesis
          using r m t head ok2 bytes result by (auto simp: enqueue_keeps_def)
      next
        case (Some ip)
        then obtain i p where replaced: "replaced = Some (i, p)"
          by (cases ip) auto
        have p: "constructible p" "queued_byte_len p = 0" "length events = Suc (length events1)"
            "ev_kind (hd events) = Release \<Longrightarrow> 0 < i"
          using t replaced by auto
        have restored: "i \<le> length events2" "events3 = insert_at i p events2"
          using r replaced by auto
        have "bytes1 \<le> bytes"
          using take by (auto simp: take_coalesced_def split: option.splits)
        then show ?thesis
          using restored p m r head ok2 result hd_insert_at [of i events2 p]
          by (auto simp: enqueue_keeps_def total_insert_at)
      qed
    next
      case True
      obtain r' ev' where commit: "commit_reservation r ev = Some (r', ev')"
        and result: "result = (\<lparr>oc_accepted = True, oc_evicted = evicted,
             oc_superseded = Option.bind replaced (\<lambda>(_, previous). ev_superseded previous)\<rparr>,
          if same_input_tail Ordered ev events1
          then butlast events2 @ [(last events2)\<lparr>ev_bytes := ev_bytes (last events2) @ ev_bytes ev'\<rparr>]
          else events2 @ [ev'],
          bytes2 + queued_byte_len ev', r')"
        using accepted [OF True] by metis
      note len = conjunct1 [OF commit_reservation_len [OF commit]]
      note ev' = commit_reservation_event [OF commit]
      have tail: "events2 \<noteq> [] \<and> ev_kind (last events2) = Ordered \<and> ev_kind ev = Ordered"
        if "same_input_tail Ordered ev events1"
        using that ends by (auto simp: same_input_tail_def)
      have room: "length events2 + of_bool (\<not> same_input_tail Ordered ev events1) + reservations_len r' \<le> capacity"
        "bytes2 + queued_byte_len ev' + reservations_len r' * RESERVED_RELEASE_BYTES \<le> max_bytes"
      proof -
        have "length events1 + reservations_len r + of_bool (\<not> same_input_tail Ordered ev events1)
          + of_bool (ev_kind ev = Press) - of_bool (consumes_reservation r ev)
          \<le> capacity + (length events1 - length events2)" "length events2 \<le> length events1"
          "bytes1 + queued_byte_len ev
          + (reservations_len r + of_bool (ev_kind ev = Press)) * RESERVED_RELEASE_BYTES
          - of_bool (consumes_reservation r ev) * RESERVED_RELEASE_BYTES \<le> max_bytes + (bytes1 - bytes2)"
          "bytes2 \<le> bytes1"
          using m True by blast+
        from enqueue_room [OF len this] show
          "length events2 + of_bool (\<not> same_input_tail Ordered ev events1) + reservations_len r' \<le> capacity"
          "bytes2 + queued_byte_len ev' + reservations_len r' * RESERVED_RELEASE_BYTES \<le> max_bytes"
          using ev' by simp_all
      qed
      show ?thesis
        unfolding result using ok2 ok(2) conjunct1 [OF m] head commit room max tail
        by (rule enqueue_accepted_keeps)
    qed
  qed
qed

section \<open>The bounds of the queue\<close>

definition usage_ok :: "pty_event list \<Rightarrow> release_reservations \<Rightarrow> (pty_lane \<times> nat) list \<Rightarrow> bool" where
  "usage_ok events r ops =
     (length events + reservations_len r + length ops \<le> PTY_OPERATION_QUEUE_CAPACITY \<and>
      total_bytes events + reservations_len r * RESERVED_RELEASE_BYTES + sum_list (map snd ops) \<le> MAX_QUEUED_BYTES)"

definition in_bounds :: "queue_state \<Rightarrow> bool" where
  "in_bounds q = usage_ok (q_events q) (q_reservations q) (q_operations q)"

text \<open>A release put back after a timeout: it stands in front, its lane is free, and the
  queue behind it is within its bounds.\<close>

definition retry_pending :: "queue_state \<Rightarrow> bool" where
  "retry_pending q = (case q_events q of
       [] \<Rightarrow> False
     | ev # rest \<Rightarrow> ev_kind ev = Release \<and> queued_byte_len ev \<le> MAX_QUEUED_BYTES
         \<and> ordering_lane ev \<notin> Some ` fst ` set (q_operations q)
         \<and> usage_ok rest (q_reservations q) (q_operations q))"

definition queue_ok :: "queue_state \<Rightarrow> bool" where
  "queue_ok q = (q_bytes q = total_bytes (q_events q) \<and> (\<forall>ev\<in>set (q_events q). constructible ev))"

lemma usage_ok_mono:
  "usage_ok events r ops \<Longrightarrow> length events' \<le> length events \<Longrightarrow> total_bytes events' \<le> total_bytes events
   \<Longrightarrow> reservations_len r' \<le> reservations_len r \<Longrightarrow> usage_ok events' r' ops"
  by (auto simp: usage_ok_def RESERVED_RELEASE_BYTES_def)

lemma total_filter_le: "total_bytes (filter P xs) \<le> total_bytes xs"
  by (induction xs) (auto simp: total_bytes_def)

text \<open>Everything but an enqueue, a dequeue and a requeue only lets go of events and
  reservations.\<close>

definition shrinks :: "queue_state \<Rightarrow> queue_state \<Rightarrow> bool" where
  "shrinks q q' \<longleftrightarrow>
     (\<exists>keep. q_events q' = filter keep (q_events q)) \<and> q_bytes q' = total_bytes (q_events q')
     \<and> reservations_len (q_reservations q') \<le> reservations_len (q_reservations q)
     \<and> q_operations q' = q_operations q \<and> q_in_flight q' = q_in_flight q"

lemma shrinks_trans: "shrinks p q \<Longrightarrow> shrinks q q2 \<Longrightarrow> shrinks p q2"
  unfolding shrinks_def by (metis filter_filter le_trans)

lemma shrinks_refl: "queue_ok q \<Longrightarrow> shrinks q q"
  unfolding shrinks_def queue_ok_def by (metis filter_True order_refl)

lemma shrinks_queue_ok: "shrinks q q' \<Longrightarrow> queue_ok q \<Longrightarrow> queue_ok q'"
  by (auto simp: shrinks_def queue_ok_def)

lemma shrinks_in_bounds: "shrinks q q' \<Longrightarrow> in_bounds q \<Longrightarrow> in_bounds q'"
  unfolding shrinks_def in_bounds_def by (metis length_filter_le total_filter_le usage_ok_mono)

lemma shrinks_retry:
  assumes "shrinks q q'" and "retry_pending q"
  shows "in_bounds q' \<or> retry_pending q'"
proof -
  obtain ev rest where q: "q_events q = ev # rest" "ev_kind ev = Release" "queued_byte_len ev \<le> MAX_QUEUED_BYTES"
      "ordering_lane ev \<notin> Some ` fst ` set (q_operations q)"
      "usage_ok rest (q_reservations q) (q_operations q)"
    using assms(2) by (auto simp: retry_pending_def split: list.splits)
  obtain keep where keep: "q_events q' = filter keep (ev # rest)"
    and same: "q_operations q' = q_operations q"
      "reservations_len (q_reservations q') \<le> reservations_len (q_reservations q)"
    using assms(1) q(1) by (auto simp: shrinks_def)
  have "usage_ok (filter keep rest) (q_reservations q') (q_operations q')"
    using usage_ok_mono [OF q(5), of "filter keep rest" "q_reservations q'"] same total_filter_le by simp
  then show ?thesis
    using keep same q by (cases "keep ev") (auto simp: in_bounds_def retry_pending_def)
qed

lemma reservations_retain_le: "reservations_len (retain_reservations keep r) \<le> reservations_len r"
  by (simp add: retain_reservations_def reservations_len_def)

lemma reservations_cancel_le: "reservations_len (cancel i r) \<le> reservations_len r"
  by (simp add: cancel_def reservations_len_def length_delete_le)

lemma shrinks_retain:
  "shrinks q ((retain_events keep q)\<lparr>q_reservations := retain_reservations keep' (q_reservations q)\<rparr>)"
  by (auto simp: shrinks_def retain_events_def Let_def reservations_retain_le)

lemma shrinks_cancel: "queue_ok q \<Longrightarrow> shrinks q (cancel_release_reservation i q)"
  using shrinks_refl [of q] by (auto simp: shrinks_def cancel_release_reservation_def reservations_cancel_le)

lemma shrinks_retire: "shrinks q (retire_surface g sid q)"
  by (auto simp: shrinks_def retire_surface_def Let_def reservations_retain_le)

lemma shrinks_activate: "queue_ok q \<Longrightarrow> shrinks q (activate_session_generation g q)"
  using shrinks_refl [of q]
  by (auto simp: shrinks_def activate_session_generation_def retain_generation_def reservations_retain_le)

lemma shrinks_close: "queue_ok q \<Longrightarrow> shrinks q (shutdown_close q)"
  using shrinks_refl [of q] by (auto simp: shrinks_def shutdown_close_def)

lemma shrinks_prune:
  "prune_failed_generation g err q = (cs, q') \<Longrightarrow> shrinks q q'"
  "prune_to_recovery_releases g err q = (cs, q') \<Longrightarrow> shrinks q q'"
  "prune_failed_lane lane recovery err q = (cs, q') \<Longrightarrow> shrinks q q'"
  "prune_lane_to_recovery_releases lane err q = (cs, q') \<Longrightarrow> shrinks q q'"
  by (auto simp: prune_failed_generation_def prune_to_recovery_releases_def prune_failed_lane_def
      prune_lane_to_recovery_releases_def Let_def shrinks_retain)

lemma shrinks_prune_generations:
  "prune_generations gs q = (cs, q') \<Longrightarrow> queue_ok q \<Longrightarrow> shrinks q q'"
proof (induction gs arbitrary: q cs)
  case Nil
  then show ?case
    by (simp add: shrinks_refl)
next
  case (Cons g gs)
  obtain fs q1 fs' where step: "prune_to_recovery_releases g ''canceled after the shutdown drain timed out'' q = (fs, q1)"
    and rest: "prune_generations gs q1 = (fs', q')"
    using Cons.prems(1) by (auto split: prod.splits)
  then show ?case
    using Cons.IH [OF rest] shrinks_prune(2) [OF step] shrinks_queue_ok shrinks_trans Cons.prems(2) by blast
qed

lemma shrinks_deadline: "shutdown_deadline q = (done, ns, q') \<Longrightarrow> queue_ok q \<Longrightarrow> shrinks q q'"
proof -
  assume run: "shutdown_deadline q = (done, ns, q')" and ok: "queue_ok q"
  show ?thesis
  proof (cases "drained q")
    case True
    then show ?thesis
      using run ok by (simp add: shutdown_deadline_def shrinks_refl)
  next
    case False
    then obtain fs where "prune_generations (remdups (map ev_generation (q_events q))) (q\<lparr>q_release_drain := True\<rparr>) = (fs, q')"
      using run by (auto simp: shutdown_deadline_def split: prod.splits)
    from shrinks_prune_generations [OF this] show ?thesis
      using ok by (auto simp: queue_ok_def shrinks_def)
  qed
qed

lemma shrinks_drop: "queue_ok q \<Longrightarrow> shrinks q (drop_dispatcher q)"
  using shrinks_refl [of q]
  by (auto simp: shrinks_def drop_dispatcher_def Let_def clear_reservations_def reservations_len_def total_bytes_def
      intro: exI [of _ "\<lambda>_. False"])

lemma shrinks_same:
  "queue_ok q \<Longrightarrow> q_events q' = q_events q \<Longrightarrow> q_bytes q' = q_bytes q \<Longrightarrow> q_reservations q' = q_reservations q
   \<Longrightarrow> q_operations q' = q_operations q \<Longrightarrow> q_in_flight q' = q_in_flight q \<Longrightarrow> shrinks q q'"
  using shrinks_refl [of q] by (simp add: shrinks_def)

lemma shrinks_fail_lane: "queue_ok q \<Longrightarrow> shrinks q (fail_lane g lane q)"
  by (auto simp: fail_lane_def intro: shrinks_same)

lemma shrinks_undelivered: "queue_ok q \<Longrightarrow> shrinks q (drop_undelivered_press ev r q)"
  by (auto simp: drop_undelivered_press_def shrinks_cancel shrinks_refl split: option.splits)

lemma shrinks_transport:
  assumes "settle_transport_failure ev r q = (cs, q')" and "queue_ok q"
  shows "shrinks q q'"
proof -
  let ?q = "if q_active_generation q = ev_generation ev
      then q\<lparr>q_failed_generations := insert (ev_generation ev) (q_failed_generations q)\<rparr> else q"
  have "shrinks q ?q"
    using assms(2) by (auto intro: shrinks_same)
  moreover have "shrinks ?q q'"
    using assms(1) shrinks_prune(1) unfolding settle_transport_failure_def Let_def by blast
  ultimately show ?thesis
    by (rule shrinks_trans)
qed

lemma shrinks_ambiguous:
  assumes "settle_ambiguous_failure ev retired q = (cs, q')" and "queue_ok q"
  shows "shrinks q q'"
proof (cases "ordering_lane ev = None \<or> retired")
  case True
  then show ?thesis
    using assms by (auto simp: settle_ambiguous_failure_def shrinks_refl split: option.splits)
next
  case False
  then obtain lane where "ordering_lane ev = Some lane"
    by auto
  then have "shrinks (fail_lane (ev_generation ev) lane q) q'"
    using assms(1) False shrinks_prune(3) by (simp add: settle_ambiguous_failure_def)
  then show ?thesis
    using shrinks_fail_lane [OF assms(2)] shrinks_trans by blast
qed

text \<open>A timeout first puts the release back, if it may be retried.\<close>

abbreviation requeued :: "pty_event \<Rightarrow> queue_state \<Rightarrow> queue_state" where
  "requeued ev q \<equiv> requeue_ambiguous_release (ev\<lparr>ev_mutation := None, ev_after := None\<rparr>) q"

lemma shrinks_timeout:
  assumes "settle_timeout ev r retired q = (cs, q')" and "queue_ok q"
    and "retry_ambiguous_release ev r \<Longrightarrow> queue_ok (requeued ev q)"
  shows "shrinks q q' \<or> (retry_ambiguous_release ev r \<and> shrinks (requeued ev q) q')"
proof -
  define q1 where "q1 = (if \<not> retired \<and> retry_ambiguous_release ev r \<and> (\<not> q_closed q \<or> q_release_drain q)
      then requeued ev q else q)"
  have q1: "q1 = q \<or> (retry_ambiguous_release ev r \<and> q1 = requeued ev q)" "queue_ok q1"
    using assms(2,3) by (auto simp: q1_def)
  have "shrinks q1 q'"
  proof (cases "ordering_lane ev")
    case None
    then show ?thesis
      using assms(1) shrinks_prune(2) unfolding settle_timeout_def Let_def q1_def [symmetric] by auto
  next
    case (Some lane)
    let ?q2 = "if \<not> retry_ambiguous_release ev r then fail_lane (ev_generation ev) lane q1 else q1"
    have "shrinks q1 ?q2"
      using shrinks_fail_lane [OF q1(2)] shrinks_refl [OF q1(2)] by simp
    moreover have "shrinks ?q2 q'" if "\<not> retired"
      using assms(1) Some that shrinks_prune(4) unfolding settle_timeout_def Let_def q1_def [symmetric] by auto
    moreover have "q' = q1" if retired
      using assms(1) Some that unfolding settle_timeout_def Let_def q1_def [symmetric] by auto
    ultimately show ?thesis
      using shrinks_trans shrinks_refl [OF q1(2)] by (cases retired) blast+
  qed
  then show ?thesis
    using q1(1) by auto
qed

lemma shrinks_settle:
  assumes "settle_failure ev r retired q = (cs, q')" and "queue_ok q"
    and "retry_ambiguous_release ev r \<Longrightarrow> queue_ok (requeued ev q)"
  shows "shrinks q q' \<or> (retry_ambiguous_release ev r \<and> shrinks (requeued ev q) q')"
  using assms(1) shrinks_transport [OF _ assms(2)] shrinks_timeout [OF _ assms(2,3)]
    shrinks_ambiguous [OF _ assms(2)] shrinks_refl [OF assms(2)]
  unfolding settle_failure_def by (auto split: if_splits)

lemma retry_is_release:
  "retry_ambiguous_release ev r \<Longrightarrow> ev_kind ev = Release"
  by (simp add: retry_ambiguous_release_def ambiguous_release_def)

text \<open>A completed operation leaves a queue that has shrunk, or one with its release put
  back that has then shrunk; after that it gives up its slot.\<close>

lemma count_attempt_fields [simp]:
  "constructible (count_attempt ev) = constructible ev"
  "queued_byte_len (count_attempt ev) = queued_byte_len ev"
  "ordering_lane (count_attempt ev) = ordering_lane ev"
  "ev_kind (count_attempt ev) = ev_kind ev"
  "ev_concurrent (count_attempt ev) = ev_concurrent ev"
  by (simp_all add: count_attempt_def constructible_def queued_byte_len_def ordering_lane_def ordering_surface_id_def)

lemma leave_flight_count_attempt [simp]: "leave_flight (count_attempt ev) q = leave_flight ev q"
  by (cases "ev_concurrent ev"; cases "ordering_lane ev") (simp_all add: leave_flight_def)

lemma process_event_cases:
  assumes "process_event ev r q = (ns, q')" and "queue_ok q" and "constructible ev"
  obtains (shrunk) q1 where "shrinks q q1" "q' = leave_flight ev q1"
  | (retried) q1 q2 where "ev_kind ev = Release" "shrinks q q1"
      "shrinks (requeued (count_attempt ev) q1) q2" "q' = leave_flight ev q2"
proof -
  let ?ev = "count_attempt ev"
  define retired where "retired = (case ordering_lane ?ev of None \<Rightarrow> False | Some lane \<Rightarrow> lane \<in> q_retired_lanes q)"
  define q0 where "q0 = q\<lparr>q_retired_lanes := (case ordering_lane ?ev of None \<Rightarrow> q_retired_lanes q
      | Some lane \<Rightarrow> q_retired_lanes q - {lane})\<rparr>"
  define q1 where "q1 = drop_undelivered_press ?ev r q0"
  obtain cs q2 where settle: "settle_failure ?ev r retired q1 = (cs, q2)"
    by (cases "settle_failure ?ev r retired q1")
  have q0: "shrinks q q0" "queue_ok q0"
    using assms(2) by (auto simp: q0_def queue_ok_def intro: shrinks_same)
  have q1: "shrinks q q1" "queue_ok q1"
    using shrinks_trans [OF q0(1) shrinks_undelivered [OF q0(2)]] shrinks_queue_ok assms(2)
    by (auto simp: q1_def)
  have "queue_ok (requeued ?ev q1)" if "retry_ambiguous_release ?ev r"
    using that q1(2) assms(3) retry_is_release [OF that]
    by (auto simp: queue_ok_def requeue_ambiguous_release_def total_bytes_def queued_byte_len_def constructible_def count_attempt_def)
  note settled = shrinks_settle [OF settle q1(2) this]
  have q': "q' = leave_flight ev q2"
    using assms(1) settle
    by (auto simp: process_event_def Let_def q0_def q1_def retired_def split: prod.splits)
  show thesis
  proof (cases "shrinks q1 q2")
    case True
    then show ?thesis
      using shrunk q' shrinks_trans q1(1) by blast
  next
    case False
    then have "retry_ambiguous_release ?ev r" "shrinks (requeued ?ev q1) q2"
      using settled by auto
    then show ?thesis
      using retried [OF _ q1(1)] q' retry_is_release by fastforce
  qed
qed

section \<open>Which event starts next\<close>

definition session_barrier :: "pty_event \<Rightarrow> bool" where
  "session_barrier ev = (ev_kind ev = Mutation \<and> \<not> ev_concurrent ev)"

lemma ready_index_spec:
  assumes "ready_index ops i blocked events = Some (Some k)"
  shows "\<exists>before ev after. events = before @ ev # after \<and> k = i + length before
    \<and> (\<forall>e\<in>set before. \<not> session_barrier e \<and> ordering_lane e \<noteq> ordering_lane ev)
    \<and> (if session_barrier ev then k = 0 \<and> ops = []
       else \<exists>lane. ordering_lane ev = Some lane \<and> lane \<notin> blocked \<and> map_of ops lane = None
         \<and> (ev_concurrent ev \<longrightarrow> length ops < MAX_CONCURRENT_SURFACE_OPERATIONS))"
  using assms
proof (induction events arbitrary: i blocked)
  case (Cons ev rest)
  show ?case
  proof (cases "session_barrier ev")
    case True
    then show ?thesis
      using Cons.prems by (intro exI [of _ "[]"]) (auto simp: session_barrier_def split: if_splits)
  next
    case no_barrier: False
    then obtain lane where lane: "ordering_lane ev = Some lane"
      using Cons.prems by (cases "ordering_lane ev") (auto simp: session_barrier_def)
    let ?busy = "lane \<in> blocked \<or> map_of ops lane \<noteq> None
      \<or> (ev_concurrent ev \<and> MAX_CONCURRENT_SURFACE_OPERATIONS \<le> length ops)"
    show ?thesis
    proof (cases ?busy)
      case False
      then show ?thesis
        using Cons.prems no_barrier lane
        by (intro exI [of _ "[]"] exI [of _ ev] exI [of _ rest]) (auto simp: session_barrier_def split: if_splits)
    next
      case True
      have "ready_index ops (Suc i) (insert lane blocked) rest = Some (Some k)"
        using Cons.prems no_barrier lane True by (auto simp: session_barrier_def insert_absorb split: if_splits)
      from Cons.IH [OF this] obtain before ev' after where ih: "rest = before @ ev' # after"
        "k = Suc i + length before" "\<forall>e\<in>set before. \<not> session_barrier e \<and> ordering_lane e \<noteq> ordering_lane ev'"
        "if session_barrier ev' then k = 0 \<and> ops = []
         else \<exists>l. ordering_lane ev' = Some l \<and> l \<notin> insert lane blocked \<and> map_of ops l = None
           \<and> (ev_concurrent ev' \<longrightarrow> length ops < MAX_CONCURRENT_SURFACE_OPERATIONS)"
        by blast
      then have "\<not> session_barrier ev'"
        by auto
      then show ?thesis
        using ih no_barrier lane by (intro exI [of _ "ev # before"] exI [of _ ev'] exI [of _ after]) auto
    qed
  qed
qed simp

lemma constructible_lane:
  "constructible ev \<Longrightarrow> \<not> session_barrier ev \<Longrightarrow> \<exists>lane. ordering_lane ev = Some lane"
  by (auto simp: constructible_def session_barrier_def ordering_lane_def ordering_surface_id_def split: if_splits)

lemma session_barrier_lane: "session_barrier ev \<Longrightarrow> ordering_lane ev = None"
  by (simp add: session_barrier_def ordering_lane_def ordering_surface_id_def)

lemma ready_index_total:
  "\<forall>ev\<in>set events. constructible ev \<Longrightarrow> ready_index ops i blocked events \<noteq> None"
proof (induction events arbitrary: i blocked)
  case (Cons ev rest)
  then show ?case
    using constructible_lane [of ev] by (auto simp: session_barrier_def)
qed simp

text \<open>The dequeued event, and what the queue becomes.\<close>

lemma dequeue_spec:
  assumes "dequeue_ready_event q = Some (Some ev, q')" and "queue_ok q"
  obtains before after where "q_events q = before @ ev # after" "q_events q' = before @ after"
    "q_bytes q' = total_bytes (before @ after)" "q_reservations q' = q_reservations q"
    "\<forall>e\<in>set before. \<not> session_barrier e \<and> ordering_lane e \<noteq> ordering_lane ev"
    "ordering_lane ev \<notin> Some ` fst ` set (q_operations q)"
    "session_barrier ev \<Longrightarrow> before = [] \<and> q_operations q = []"
    "\<not> ev_concurrent ev \<Longrightarrow> q_operations q' = q_operations q
       \<and> q_in_flight q' = Some \<lparr>fl_lane = ordering_lane ev, fl_kind = ev_kind ev\<rparr>"
    "ev_concurrent ev \<Longrightarrow> \<exists>lane. ordering_lane ev = Some lane
       \<and> q_operations q' = q_operations q @ [(lane, queued_byte_len ev)]
       \<and> q_in_flight q' = q_in_flight q \<and> length (q_operations q) < MAX_CONCURRENT_SURFACE_OPERATIONS"
    "\<forall>r rest. q_events q = r # rest \<longrightarrow> ev_kind r = Release \<longrightarrow>
       ordering_lane r \<notin> Some ` fst ` set (q_operations q) \<longrightarrow> before = []"
proof -
  obtain i where i: "ready_index (q_operations q) 0 {} (q_events q) = Some (Some i)"
    using assms(1) by (auto simp: dequeue_ready_event_def split: option.splits)
  obtain before ev' after where split: "q_events q = before @ ev' # after" "i = length before"
    "\<forall>e\<in>set before. \<not> session_barrier e \<and> ordering_lane e \<noteq> ordering_lane ev'"
    "if session_barrier ev' then i = 0 \<and> q_operations q = []
     else \<exists>lane. ordering_lane ev' = Some lane \<and> lane \<notin> {} \<and> map_of (q_operations q) lane = None
       \<and> (ev_concurrent ev' \<longrightarrow> length (q_operations q) < MAX_CONCURRENT_SURFACE_OPERATIONS)"
    using ready_index_spec [OF i] by auto
  have free: "ordering_lane ev' \<notin> Some ` fst ` set (q_operations q)"
    using split(4) session_barrier_lane [of ev']
    by (auto simp: map_of_eq_None_iff split: if_splits) (metis fst_conv image_eqI)+
  have append: "AList.update lane n ops = ops @ [(lane, n)]" if "map_of ops lane = None" for lane and n :: nat and ops
    using that by (induction ops) (auto split: if_splits)
  have nth: "q_events q ! i = ev'" "remove_at i (q_events q) = before @ after"
    by (simp_all add: split(1,2) remove_at_def nth_append)
  have bytes: "q_bytes q - queued_byte_len ev' = total_bytes (before @ after)"
    using assms(2) by (simp add: queue_ok_def split(1) total_bytes_def)
  have result: "ev = ev' \<and> q_events q' = before @ after \<and> q_bytes q' = total_bytes (before @ after)
    \<and> q_reservations q' = q_reservations q
    \<and> (\<not> ev_concurrent ev \<longrightarrow> q_operations q' = q_operations q
        \<and> q_in_flight q' = Some \<lparr>fl_lane = ordering_lane ev, fl_kind = ev_kind ev\<rparr>)
    \<and> (ev_concurrent ev \<longrightarrow> (\<exists>lane. ordering_lane ev = Some lane
       \<and> q_operations q' = q_operations q @ [(lane, queued_byte_len ev)] \<and> q_in_flight q' = q_in_flight q))"
    using assms(1) i nth bytes append by (auto simp: dequeue_ready_event_def Let_def split: option.splits if_splits)
  show thesis
  proof (rule that [of before after])
    have "before = []" if front: "q_events q = r # rest" "ev_kind r = Release"
        "ordering_lane r \<notin> Some ` fst ` set (q_operations q)" for r rest
    proof -
      obtain lane where "ordering_lane r = Some lane"
        using front(2) by (auto simp: ordering_lane_def ordering_surface_id_def)
      then have "ready_index (q_operations q) 0 {} (q_events q) = Some (Some 0)
          \<or> ev_concurrent r"
        using front by (auto simp: map_of_eq_None_iff)
      moreover have "\<not> ev_concurrent r"
        using front(1,2) assms(2) by (auto simp: queue_ok_def constructible_def)
      ultimately have "i = 0"
        using i by auto
      then show ?thesis
        using split(2) by simp
    qed
    then show "\<forall>r rest. q_events q = r # rest \<longrightarrow> ev_kind r = Release \<longrightarrow>
       ordering_lane r \<notin> Some ` fst ` set (q_operations q) \<longrightarrow> before = []"
      by blast
  qed (use result split free in \<open>auto simp: session_barrier_def split: if_splits\<close>)
qed

lemma dequeue_total:
  assumes "queue_ok q"
  shows "dequeue_ready_event q \<noteq> None"
proof -
  obtain k where k: "ready_index (q_operations q) 0 {} (q_events q) = Some k"
    using ready_index_total [of "q_events q" "q_operations q" 0 "{}"] assms by (auto simp: queue_ok_def)
  show ?thesis
  proof (cases k)
    case None
    then show ?thesis
      using k by (simp add: dequeue_ready_event_def)
  next
    case (Some i)
    obtain before ev after where split: "q_events q = before @ ev # after" "i = length before"
      "if session_barrier ev then i = 0 \<and> q_operations q = []
       else \<exists>lane. ordering_lane ev = Some lane \<and> lane \<notin> {} \<and> map_of (q_operations q) lane = None
         \<and> (ev_concurrent ev \<longrightarrow> length (q_operations q) < MAX_CONCURRENT_SURFACE_OPERATIONS)"
      using ready_index_spec [OF k [unfolded Some]] by auto
    then have nth: "q_events q ! i = ev"
      by simp
    show ?thesis
      using k Some split(3)
      by (auto simp: dequeue_ready_event_def Let_def nth session_barrier_def split: if_splits)
  qed
qed

text \<open>With no operation running, the first event starts.\<close>

lemma dequeue_progress:
  assumes "queue_ok q" and "q_events q \<noteq> []" and "q_operations q = []"
  shows "\<exists>ev q'. dequeue_ready_event q = Some (Some ev, q')"
proof -
  obtain ev rest where events: "q_events q = ev # rest"
    using assms(2) by (cases "q_events q") auto
  then have "ready_index [] 0 {} (ev # rest) = Some (Some 0)"
    using assms(1) constructible_lane [of ev]
    by (auto simp: queue_ok_def session_barrier_def MAX_CONCURRENT_SURFACE_OPERATIONS_def)
  then show ?thesis
    using dequeue_total [OF assms(1)] events assms(3) by (auto simp: dequeue_ready_event_def Let_def split: option.splits)
qed

section \<open>The invariant of the scheduler\<close>

definition flight_of :: "pty_event \<Rightarrow> in_flight_input" where
  "flight_of ev = \<lparr>fl_lane = ordering_lane ev, fl_kind = ev_kind ev\<rparr>"

definition inline_ok :: "pty_event \<Rightarrow> scheduler \<Rightarrow> bool" where
  "inline_ok ev s = (constructible ev \<and> \<not> ev_concurrent ev \<and> queued_byte_len ev \<le> MAX_QUEUED_BYTES
     \<and> ordering_lane ev \<notin> Some ` fst ` set (q_operations (sc_queue s))
     \<and> (session_barrier ev \<longrightarrow> sc_running s = []))"

definition running_ok :: "pty_event list \<Rightarrow> (pty_lane \<times> nat) list \<Rightarrow> bool" where
  "running_ok running ops = ((\<forall>ev\<in>set running. constructible ev \<and> ev_concurrent ev \<and> ordering_lane ev \<noteq> None)
     \<and> distinct (map ordering_lane running)
     \<and> Some ` fst ` set ops = ordering_lane ` set running \<and> length ops = length running
     \<and> length ops \<le> MAX_CONCURRENT_SURFACE_OPERATIONS)"

definition bounded :: "scheduler \<Rightarrow> bool" where
  "bounded s = (in_bounds (sc_queue s) \<or> sc_inline s = None \<and> retry_pending (sc_queue s))"

definition scheduler_ok :: "scheduler \<Rightarrow> bool" where
  "scheduler_ok s = (queue_ok (sc_queue s)
     \<and> q_in_flight (sc_queue s) = map_option flight_of (sc_inline s)
     \<and> (\<forall>ev. sc_inline s = Some ev \<longrightarrow> inline_ok ev s)
     \<and> running_ok (sc_running s) (q_operations (sc_queue s))
     \<and> bounded s)"

lemma scheduler_new_ok: "scheduler_ok scheduler_new"
  by (simp add: scheduler_ok_def scheduler_new_def queue_new_def queue_ok_def running_ok_def bounded_def
      in_bounds_def usage_ok_def total_bytes_def reservations_new_def reservations_len_def)

lemma shrink_scheduler_ok:
  assumes "scheduler_ok s" and "shrinks (sc_queue s) q"
  shows "scheduler_ok (s\<lparr>sc_queue := q\<rparr>)"
proof -
  have "bounded (s\<lparr>sc_queue := q\<rparr>)"
    using assms shrinks_in_bounds shrinks_retry by (auto simp: scheduler_ok_def bounded_def)
  then show ?thesis
    using assms shrinks_queue_ok [OF assms(2)] by (auto simp: scheduler_ok_def shrinks_def inline_ok_def)
qed

text \<open>An enqueue.\<close>

lemma enqueue_cases:
  assumes "enqueue_with_reservation g ev q = Some (res, ns, q')"
  obtains (refused) "q' = q" "fst res \<noteq> Accepted"
  | (bounded) outcome events bytes r where
      "enqueue_bounded_with_evictions (q_events q) (q_bytes q) (q_reservations q) (ev\<lparr>ev_generation := g\<rparr>)
         (PTY_OPERATION_QUEUE_CAPACITY - length (q_operations q))
         (MAX_QUEUED_BYTES - sum_list (map snd (q_operations q))) = Some (outcome, events, bytes, r)"
      "q' = q\<lparr>q_events := events, q_bytes := bytes, q_reservations := r\<rparr>"
      "fst res = Accepted \<longleftrightarrow> oc_accepted outcome"
      "ns = superseded_notice (oc_superseded outcome) @ map Failure (oc_evicted outcome)"
      "fst res = Accepted \<Longrightarrow> ev_kind ev = Press \<Longrightarrow> snd res = Some (next_id r)"
      "queued_byte_len ev \<le> MAX_QUEUED_BYTES"
proof -
  let ?ev = "ev\<lparr>ev_generation := g\<rparr>"
  let ?refused = "q_closed q \<or> q_active_generation q \<noteq> g \<or> (g \<in> q_failed_generations q \<and> ev_remote ?ev)
    \<or> ((case ordering_lane ?ev of None \<Rightarrow> False | Some lane \<Rightarrow> lane \<in> q_failed_lanes q)
        \<and> \<not> consumes_reservation (q_reservations q) ?ev)
    \<or> MAX_QUEUED_BYTES < queued_byte_len ?ev"
  let ?run = "enqueue_bounded_with_evictions (q_events q) (q_bytes q) (q_reservations q) ?ev
         (PTY_OPERATION_QUEUE_CAPACITY - length (q_operations q))
         (MAX_QUEUED_BYTES - sum_list (map snd (q_operations q)))"
  show thesis
  proof (cases ?refused)
    case True
    have "q' = q \<and> fst res \<noteq> Accepted"
      using assms True unfolding enqueue_with_reservation_def Let_def by (elim disjE) (simp_all split: if_splits, auto)
    then show thesis
      using refused by simp
  next
    case False
    have run: "(case ?run of None \<Rightarrow> None
         | Some (outcome, events, bytes, r) \<Rightarrow>
             Some (if oc_accepted outcome
                   then (Accepted, if ev_kind ?ev = Press then Some (next_id r) else None)
                   else (Saturated, None),
               superseded_notice (oc_superseded outcome) @ map Failure (oc_evicted outcome),
               q\<lparr>q_events := events, q_bytes := bytes, q_reservations := r\<rparr>)) = Some (res, ns, q')"
      using assms False unfolding enqueue_with_reservation_def Let_def by (simp only: de_Morgan_disj if_False simp_thms)
    then obtain outcome events bytes r where result: "?run = Some (outcome, events, bytes, r)"
      by (cases ?run) auto
    show thesis
      using run False unfolding result
      by (intro bounded [OF result]) (auto simp: queued_byte_len_def split: if_splits)
  qed
qed

lemma constructible_generation [simp]: "constructible (ev\<lparr>ev_generation := g\<rparr>) = constructible ev"
  by (simp add: constructible_def)

lemma MAX_QUEUED_BYTES_small: "MAX_QUEUED_BYTES - n < 2 ^ 64 - 1"
  by (simp add: MAX_QUEUED_BYTES_def)

lemma enqueue_bounds:
  assumes keeps: "enqueue_keeps (q_events q) (q_bytes q) (q_reservations q)
         (PTY_OPERATION_QUEUE_CAPACITY - length (q_operations q))
         (MAX_QUEUED_BYTES - sum_list (map snd (q_operations q))) (outcome, events, bytes, r)"
    and q': "q' = q\<lparr>q_events := events, q_bytes := bytes, q_reservations := r\<rparr>"
    and ok: "queue_ok q"
  shows "in_bounds q \<Longrightarrow> in_bounds q'" and "retry_pending q \<Longrightarrow> in_bounds q' \<or> retry_pending q'"
proof -
  show "in_bounds q'" if "in_bounds q"
    using keeps q' ok that by (auto simp: enqueue_keeps_def in_bounds_def usage_ok_def queue_ok_def)
  show "in_bounds q' \<or> retry_pending q'" if "retry_pending q"
  proof -
    obtain ev rest where q: "q_events q = ev # rest" "ev_kind ev = Release" "queued_byte_len ev \<le> MAX_QUEUED_BYTES"
        "ordering_lane ev \<notin> Some ` fst ` set (q_operations q)"
        "usage_ok rest (q_reservations q) (q_operations q)"
      using \<open>retry_pending q\<close> by (auto simp: retry_pending_def split: list.splits)
    obtain rest' where events: "events = ev # rest'"
      using keeps q(1,2) by (cases events) (auto simp: enqueue_keeps_def)
    have total: "bytes = queued_byte_len ev + total_bytes rest'" "q_bytes q = queued_byte_len ev + total_bytes rest"
      using keeps ok q(1) events by (auto simp: enqueue_keeps_def queue_ok_def total_bytes_def)
    show ?thesis
    proof (cases "oc_accepted outcome \<and> length events + reservations_len r
          \<le> PTY_OPERATION_QUEUE_CAPACITY - length (q_operations q)")
      case True
      then have "in_bounds q'"
        using keeps q' q(5) by (auto simp: enqueue_keeps_def in_bounds_def usage_ok_def)
      then show ?thesis ..
    next
      case False
      then have "usage_ok rest' r (q_operations q)"
        using keeps q(1,5) events total by (cases "oc_accepted outcome") (auto simp: enqueue_keeps_def usage_ok_def)
      then have "retry_pending q'"
        using q' q events by (simp add: retry_pending_def)
      then show ?thesis ..
    qed
  qed
qed

lemma enqueue_scheduler_ok:
  assumes "scheduler_ok s" and "constructible ev"
    and "enqueue_with_reservation g ev (sc_queue s) = Some (res, ns, q)"
  shows "scheduler_ok (s\<lparr>sc_queue := q\<rparr>)"
  using assms(3)
proof (cases rule: enqueue_cases)
  case refused
  then show ?thesis
    using assms(1) by simp
next
  case (bounded outcome events bytes r)
  have ok: "queue_ok (sc_queue s)"
    using assms(1) by (simp add: scheduler_ok_def)
  have keeps: "enqueue_keeps (q_events (sc_queue s)) (q_bytes (sc_queue s)) (q_reservations (sc_queue s))
         (PTY_OPERATION_QUEUE_CAPACITY - length (q_operations (sc_queue s)))
         (MAX_QUEUED_BYTES - sum_list (map snd (q_operations (sc_queue s)))) (outcome, events, bytes, r)"
    using enqueue_bounded_keeps [OF bounded(1)] ok assms(2) MAX_QUEUED_BYTES_small
    by (auto simp: queue_ok_def)
  have "queue_ok q"
    using keeps bounded(2) by (simp add: enqueue_keeps_def queue_ok_def)
  then show ?thesis
    using assms(1) bounded(2) enqueue_bounds [OF keeps bounded(2) ok]
    by (auto simp: scheduler_ok_def bounded_def inline_ok_def)
qed

text \<open>The worker takes an event.\<close>

lemma total_mem_le: "ev \<in> set events \<Longrightarrow> queued_byte_len ev \<le> total_bytes events"
  by (induction events) (auto simp: total_bytes_def)

lemma not_in_bounds_front:
  assumes "scheduler_ok s" "\<not> in_bounds (sc_queue s)"
  obtains r rest where "q_events (sc_queue s) = r # rest" "ev_kind r = Release" "queued_byte_len r \<le> MAX_QUEUED_BYTES"
    "ordering_lane r \<notin> Some ` fst ` set (q_operations (sc_queue s))"
    "usage_ok rest (q_reservations (sc_queue s)) (q_operations (sc_queue s))"
  using assms by (auto simp: scheduler_ok_def bounded_def retry_pending_def split: list.splits)

lemma taken_event_ok:
  assumes ok: "scheduler_ok s" and events: "q_events (sc_queue s) = before @ ev # after"
    and front: "\<forall>r rest. q_events (sc_queue s) = r # rest \<longrightarrow> ev_kind r = Release \<longrightarrow>
       ordering_lane r \<notin> Some ` fst ` set (q_operations (sc_queue s)) \<longrightarrow> before = []"
  shows "queued_byte_len ev \<le> MAX_QUEUED_BYTES"
    and "usage_ok (before @ after) (q_reservations (sc_queue s)) (q_operations (sc_queue s))"
    and "ev_kind ev = Release \<or> usage_ok (before @ ev # after) (q_reservations (sc_queue s)) (q_operations (sc_queue s))"
proof -
  have "queued_byte_len ev \<le> MAX_QUEUED_BYTES
    \<and> usage_ok (before @ after) (q_reservations (sc_queue s)) (q_operations (sc_queue s))
    \<and> (ev_kind ev = Release \<or> usage_ok (before @ ev # after) (q_reservations (sc_queue s)) (q_operations (sc_queue s)))"
  proof (cases "in_bounds (sc_queue s)")
    case True
    then show ?thesis
      using events by (auto simp: in_bounds_def usage_ok_def total_bytes_def)
  next
    case False
    then obtain r rest where r: "q_events (sc_queue s) = r # rest" "ev_kind r = Release"
      "queued_byte_len r \<le> MAX_QUEUED_BYTES"
      "ordering_lane r \<notin> Some ` fst ` set (q_operations (sc_queue s))"
      "usage_ok rest (q_reservations (sc_queue s)) (q_operations (sc_queue s))"
      using not_in_bounds_front [OF ok] by blast
    then show ?thesis
      using front events r(1) by simp
  qed
  then show "queued_byte_len ev \<le> MAX_QUEUED_BYTES"
    and "usage_ok (before @ after) (q_reservations (sc_queue s)) (q_operations (sc_queue s))"
    and "ev_kind ev = Release \<or> usage_ok (before @ ev # after) (q_reservations (sc_queue s)) (q_operations (sc_queue s))"
    by blast+
qed

lemma take_inline_ok:
  assumes ok: "scheduler_ok s" and free: "sc_inline s = None"
    and deq: "dequeue_ready_event (sc_queue s) = Some (Some ev, q)" and inline: "\<not> ev_concurrent ev"
  shows "scheduler_ok (s\<lparr>sc_queue := q, sc_inline := Some ev\<rparr>)"
proof -
  have q_ok: "queue_ok (sc_queue s)"
    using ok by (simp add: scheduler_ok_def)
  show ?thesis
    using deq q_ok
  proof (rule dequeue_spec)
    fix before after
    assume events: "q_events (sc_queue s) = before @ ev # after"
      and q: "q_events q = before @ after" "q_bytes q = total_bytes (before @ after)"
        "q_reservations q = q_reservations (sc_queue s)"
      and lane: "ordering_lane ev \<notin> Some ` fst ` set (q_operations (sc_queue s))"
      and barrier: "session_barrier ev \<Longrightarrow> before = [] \<and> q_operations (sc_queue s) = []"
      and ops: "\<not> ev_concurrent ev \<Longrightarrow> q_operations q = q_operations (sc_queue s)
         \<and> q_in_flight q = Some \<lparr>fl_lane = ordering_lane ev, fl_kind = ev_kind ev\<rparr>"
      and front: "\<forall>r rest. q_events (sc_queue s) = r # rest \<longrightarrow> ev_kind r = Release \<longrightarrow>
       ordering_lane r \<notin> Some ` fst ` set (q_operations (sc_queue s)) \<longrightarrow> before = []"
    note taken = taken_event_ok [OF ok events front]
    have "inline_ok ev (s\<lparr>sc_queue := q, sc_inline := Some ev\<rparr>)"
      using taken(1) events q_ok lane ops inline barrier ok
      by (auto simp: inline_ok_def queue_ok_def scheduler_ok_def running_ok_def)
    then show ?thesis
      using ok q ops inline events taken(2)
      by (auto simp: scheduler_ok_def queue_ok_def flight_of_def bounded_def in_bounds_def)
  qed
qed

lemma spawn_ok:
  assumes ok: "scheduler_ok s" and free: "sc_inline s = None"
    and deq: "dequeue_ready_event (sc_queue s) = Some (Some ev, q)" and conc: "ev_concurrent ev"
  shows "scheduler_ok (s\<lparr>sc_queue := q, sc_running := ev # sc_running s\<rparr>)"
proof -
  have q_ok: "queue_ok (sc_queue s)"
    using ok by (simp add: scheduler_ok_def)
  show ?thesis
    using deq q_ok
  proof (rule dequeue_spec)
    fix before after
    assume events: "q_events (sc_queue s) = before @ ev # after"
      and q: "q_events q = before @ after" "q_bytes q = total_bytes (before @ after)"
        "q_reservations q = q_reservations (sc_queue s)"
      and lane: "ordering_lane ev \<notin> Some ` fst ` set (q_operations (sc_queue s))"
      and ops: "ev_concurrent ev \<Longrightarrow> \<exists>lane. ordering_lane ev = Some lane
         \<and> q_operations q = q_operations (sc_queue s) @ [(lane, queued_byte_len ev)]
         \<and> q_in_flight q = q_in_flight (sc_queue s)
         \<and> length (q_operations (sc_queue s)) < MAX_CONCURRENT_SURFACE_OPERATIONS"
      and front: "\<forall>r rest. q_events (sc_queue s) = r # rest \<longrightarrow> ev_kind r = Release \<longrightarrow>
       ordering_lane r \<notin> Some ` fst ` set (q_operations (sc_queue s)) \<longrightarrow> before = []"
    note taken = taken_event_ok [OF ok events front]
    have ev: "constructible ev" "ev_kind ev \<noteq> Release"
      using q_ok events conc by (auto simp: queue_ok_def constructible_def split: if_splits)
    obtain l where l: "ordering_lane ev = Some l"
        "q_operations q = q_operations (sc_queue s) @ [(l, queued_byte_len ev)]"
        "q_in_flight q = q_in_flight (sc_queue s)"
        "length (q_operations (sc_queue s)) < MAX_CONCURRENT_SURFACE_OPERATIONS"
      using ops [OF conc] by blast
    have "running_ok (ev # sc_running s) (q_operations q)"
      using ok lane l conc ev by (auto simp: scheduler_ok_def running_ok_def)
    moreover have "in_bounds q"
      using taken(3) ev(2) l(2) q by (auto simp: in_bounds_def usage_ok_def total_bytes_def)
    ultimately show ?thesis
      using ok q events free l(3) by (auto simp: scheduler_ok_def queue_ok_def bounded_def)
  qed
qed

text \<open>An operation ends.\<close>

lemma sum_delete_le: "sum_list (map snd (AList.delete l ops)) \<le> sum_list (map snd (ops :: ('k \<times> nat) list))"
  by (induction ops) auto

lemma usage_ok_delete: "usage_ok events r ops \<Longrightarrow> usage_ok events r (AList.delete l ops)"
  using length_delete_le [of l ops] sum_delete_le [of l ops] by (simp add: usage_ok_def)

lemma keys_delete: "Some ` fst ` set (AList.delete l ops) = Some ` fst ` set ops - {Some l}"
  using arg_cong [OF delete_keys [of l ops], of set] by (auto simp: image_iff)

lemma operation_left_ok:
  assumes ok: "scheduler_ok s" and ev: "ev \<in> set (sc_running s)" and lane: "ordering_lane ev = Some l"
    and q: "q_events q = q_events (sc_queue s)" "q_bytes q = q_bytes (sc_queue s)"
      "q_reservations q = q_reservations (sc_queue s)" "q_in_flight q = q_in_flight (sc_queue s)"
      "q_operations q = AList.delete l (q_operations (sc_queue s))"
  shows "scheduler_ok (s\<lparr>sc_queue := q, sc_running := remove1 ev (sc_running s)\<rparr>)"
proof -
  have run: "running_ok (sc_running s) (q_operations (sc_queue s))"
    using ok by (simp add: scheduler_ok_def)
  obtain xs ys where split: "sc_running s = xs @ ev # ys" "ev \<notin> set xs"
    using split_list_first [OF ev] by blast
  have others: "ordering_lane ` set (xs @ ys) = ordering_lane ` set (sc_running s) - {Some l}"
    "distinct (map ordering_lane (xs @ ys))"
    using run lane by (auto simp: running_ok_def split(1)) (metis image_eqI)+
  have "distinct (map ordering_lane (sc_running s))" "length (q_operations (sc_queue s)) = length (sc_running s)"
    "Some ` fst ` set (q_operations (sc_queue s)) = set (map ordering_lane (sc_running s))"
    using run by (auto simp: running_ok_def)
  then have "card (Some ` set (map fst (q_operations (sc_queue s)))) = length (q_operations (sc_queue s))"
    by (metis distinct_card length_map set_map)
  then have keys: "distinct (map fst (q_operations (sc_queue s)))"
    by (metis card_distinct card_image inj_Some length_map)
  have "Some l \<in> ordering_lane ` set (sc_running s)"
    using ev lane by (metis image_eqI)
  then have "Some l \<in> Some ` fst ` set (q_operations (sc_queue s))"
    using run by (simp add: running_ok_def)
  then have "l \<in> set (map fst (q_operations (sc_queue s)))"
    by auto
  then have "length (AList.delete l (q_operations (sc_queue s))) = length (q_operations (sc_queue s)) - 1"
    using keys by (metis delete_keys distinct_remove1_removeAll length_map length_remove1)
  then have "running_ok (xs @ ys) (AList.delete l (q_operations (sc_queue s)))"
    using run others keys_delete [of l "q_operations (sc_queue s)"] by (auto simp: running_ok_def split(1))
  moreover have "remove1 ev (sc_running s) = xs @ ys"
    using split by (simp add: remove1_append)
  moreover have "bounded (s\<lparr>sc_queue := q, sc_running := xs @ ys\<rparr>)"
    using ok q keys_delete [of l "q_operations (sc_queue s)"]
    by (auto simp: scheduler_ok_def bounded_def in_bounds_def retry_pending_def usage_ok_delete split: list.splits)
  moreover have "inline_ok ev' (s\<lparr>sc_queue := q, sc_running := xs @ ys\<rparr>)" if "sc_inline s = Some ev'" for ev'
    using ok q that keys_delete [of l "q_operations (sc_queue s)"] ev
    by (auto simp: scheduler_ok_def inline_ok_def split(1))
  ultimately show ?thesis
    using ok q by (auto simp: scheduler_ok_def queue_ok_def)
qed

lemma inline_left_ok:
  assumes ok: "scheduler_ok s" and q1: "queue_ok q1" "in_bounds q1 \<or> retry_pending q1"
    and ops: "q_operations q1 = q_operations (sc_queue s)" and ev: "\<not> ev_concurrent ev"
  shows "scheduler_ok (s\<lparr>sc_queue := leave_flight ev q1, sc_inline := None\<rparr>)"
proof -
  have "leave_flight ev q1 = q1\<lparr>q_in_flight := None\<rparr>"
    using ev by (simp add: leave_flight_def)
  then show ?thesis
    using ok q1 ops
    by (auto simp: scheduler_ok_def queue_ok_def bounded_def in_bounds_def retry_pending_def split: list.splits)
qed

lemma inline_done_ok:
  assumes ok: "scheduler_ok s" and inline: "sc_inline s = Some ev"
    and run: "process_event ev r (sc_queue s) = (ns, q)"
  shows "scheduler_ok (s\<lparr>sc_queue := q, sc_inline := None\<rparr>)"
proof -
  have q_ok: "queue_ok (sc_queue s)" "in_bounds (sc_queue s)" and ev: "inline_ok ev s"
    using ok inline by (auto simp: scheduler_ok_def bounded_def)
  then have ev': "constructible ev" "\<not> ev_concurrent ev"
    by (auto simp: inline_ok_def)
  show ?thesis
    using run q_ok(1) ev'(1)
  proof (cases rule: process_event_cases)
    case (shrunk q1)
    then show ?thesis
      using inline_left_ok [OF ok _ _ _ ev'(2), of q1] shrinks_queue_ok [OF shrunk(1) q_ok(1)]
        shrinks_in_bounds [OF shrunk(1) q_ok(2)] by (simp add: shrinks_def)
  next
    case (retried q1 q2)
    let ?q = "requeued (count_attempt ev) q1"
    have q1: "queue_ok q1" "in_bounds q1" "q_operations q1 = q_operations (sc_queue s)"
      using shrinks_queue_ok [OF retried(2) q_ok(1)] shrinks_in_bounds [OF retried(2) q_ok(2)] retried(2)
      by (simp_all add: shrinks_def)
    have front: "q_events ?q = (count_attempt ev)\<lparr>ev_mutation := None, ev_after := None\<rparr> # q_events q1"
      by (simp add: requeue_ambiguous_release_def)
    have same: "queued_byte_len ((count_attempt ev)\<lparr>ev_mutation := None, ev_after := None\<rparr>) = queued_byte_len ev"
      "ordering_lane ((count_attempt ev)\<lparr>ev_mutation := None, ev_after := None\<rparr>) = ordering_lane ev"
      "constructible ((count_attempt ev)\<lparr>ev_mutation := None, ev_after := None\<rparr>)"
      using ev'(1) retried(1)
      by (auto simp: count_attempt_def queued_byte_len_def ordering_lane_def ordering_surface_id_def constructible_def)
    have "queue_ok ?q"
      using q1(1) same by (auto simp: queue_ok_def requeue_ambiguous_release_def total_bytes_def)
    moreover have "retry_pending ?q"
      using front same q1 retried(1) ev
      by (simp add: retry_pending_def inline_ok_def in_bounds_def requeue_ambiguous_release_def)
    moreover have "q_operations ?q = q_operations (sc_queue s)"
      using q1(3) by (simp add: requeue_ambiguous_release_def)
    ultimately show ?thesis
      using inline_left_ok [OF ok _ _ _ ev'(2), of q2] retried(3,4) shrinks_queue_ok [OF retried(3)]
        shrinks_retry [OF retried(3)] by (simp add: shrinks_def)
  qed
qed

lemma operation_done_ok:
  assumes ok: "scheduler_ok s" and ev: "ev \<in> set (sc_running s)"
    and run: "process_event ev r (sc_queue s) = (ns, q)"
  shows "scheduler_ok (s\<lparr>sc_queue := q, sc_running := remove1 ev (sc_running s)\<rparr>)"
proof -
  have q_ok: "queue_ok (sc_queue s)"
    using ok by (simp add: scheduler_ok_def)
  have ev': "constructible ev" "ev_concurrent ev" "ev_kind ev \<noteq> Release"
    using ok ev by (auto simp: scheduler_ok_def running_ok_def constructible_def split: if_splits)
  obtain l where l: "ordering_lane ev = Some l"
    using ok ev by (auto simp: scheduler_ok_def running_ok_def)
  obtain q1 where q1: "shrinks (sc_queue s) q1" "q = leave_flight ev q1"
    using run q_ok ev'(1) ev'(3) by (cases rule: process_event_cases) auto
  have "scheduler_ok (s\<lparr>sc_queue := q1\<rparr>)"
    by (rule shrink_scheduler_ok [OF ok q1(1)])
  from operation_left_ok [OF this _ l, of q] show ?thesis
    using ev l ev'(2) q1(2) by (simp add: leave_flight_def)
qed

lemma spawn_failed_ok:
  assumes ok: "scheduler_ok s" and ev: "ev \<in> set (sc_running s)"
    and run: "fail_surface_operation_spawn ev err (sc_queue s) = Some (ns, q)"
  shows "scheduler_ok (s\<lparr>sc_queue := q, sc_running := remove1 ev (sc_running s)\<rparr>)"
  using run operation_left_ok [OF ok ev]
  by (auto simp: fail_surface_operation_spawn_def split: option.splits)

lemma pty_step_ok: "pty_step s t \<Longrightarrow> scheduler_ok s \<Longrightarrow> scheduler_ok t"
proof (induction rule: pty_step.induct)
  case (enqueue ev g s res ns q)
  from enqueue(3,1,2) show ?case
    by (rule enqueue_scheduler_ok)
next
  case (take_inline s ev q)
  from take_inline(4,1-3) show ?case
    by (rule take_inline_ok)
next
  case (spawn s ev q)
  from spawn(4,1-3) show ?case
    by (rule spawn_ok)
next
  case (spawn_failed ev s err ns q)
  from spawn_failed(3,1,2) show ?case
    by (rule spawn_failed_ok)
next
  case (inline_done s ev r ns q)
  from inline_done(3,1,2) show ?case
    by (rule inline_done_ok)
next
  case (operation_done ev s r ns q)
  from operation_done(3,1,2) show ?case
    by (rule operation_done_ok)
next
  case (cancel_reservation s i)
  then show ?case
    using shrinks_cancel by (intro shrink_scheduler_ok) (auto simp: scheduler_ok_def)
next
  case (retire s g sid)
  then show ?case
    by (intro shrink_scheduler_ok shrinks_retire)
next
  case (activate s g)
  then show ?case
    using shrinks_activate by (intro shrink_scheduler_ok) (auto simp: scheduler_ok_def)
next
  case (close s)
  then show ?case
    using shrinks_close by (intro shrink_scheduler_ok) (auto simp: scheduler_ok_def)
next
  case (deadline s ok ns q)
  then show ?case
    using shrinks_deadline by (intro shrink_scheduler_ok) (auto simp: scheduler_ok_def)
next
  case (drop s)
  then show ?case
    using shrinks_drop by (intro shrink_scheduler_ok) (auto simp: scheduler_ok_def)
qed

lemma pty_reachable_ok: "pty_reachable s \<Longrightarrow> scheduler_ok s"
  by (induction rule: pty_reachable.induct) (simp_all add: scheduler_new_ok pty_step_ok)

end
