(* ===== verification/PtyStreams.thy ===== *)
theory PtyStreams
  imports PtyInv
begin

text \<open>
  The bytes each surface is sent, pointer motion aside: what an enqueue, a dequeue and a run without
  failures do to the stream of a lane.
\<close>

section \<open>Streams of a surface\<close>

text \<open>The bytes of a lane that are not pointer motion, in order.\<close>

definition lane_stream :: "pty_lane \<Rightarrow> pty_event list \<Rightarrow> bytes" where
  "lane_stream l events =
     concat (map ev_bytes (filter (\<lambda>ev. ordering_lane ev = Some l \<and> \<not> is_motion ev) events))"

lemma lane_stream_simps [simp]:
  "lane_stream l [] = []"
  "lane_stream l (ev # events) =
     (if ordering_lane ev = Some l \<and> \<not> is_motion ev then ev_bytes ev else []) @ lane_stream l events"
  "lane_stream l (xs @ ys) = lane_stream l xs @ lane_stream l ys"
  by (simp_all add: lane_stream_def)

lemma lane_stream_motions:
  "filter (\<lambda>ev. \<not> is_motion ev) xs = filter (\<lambda>ev. \<not> is_motion ev) ys \<Longrightarrow> lane_stream l xs = lane_stream l ys"
proof -
  assume same: "filter (\<lambda>ev. \<not> is_motion ev) xs = filter (\<lambda>ev. \<not> is_motion ev) ys"
  have split: "filter (\<lambda>ev. ordering_lane ev = Some l \<and> \<not> is_motion ev) zs
      = filter (\<lambda>ev. ordering_lane ev = Some l) (filter (\<lambda>ev. \<not> is_motion ev) zs)" for zs
    by (simp add: conj_commute)
  show ?thesis
    unfolding lane_stream_def split same ..
qed

lemma lane_stream_mutation:
  "ev_bytes ev = [] \<Longrightarrow> lane_stream l (xs @ ev # ys) = lane_stream l (xs @ ys)"
  by simp

lemma lane_stream_insert:
  "ev_bytes ev = [] \<Longrightarrow> lane_stream l (insert_at i ev xs) = lane_stream l xs"
  unfolding insert_at_def using lane_stream_mutation [of ev l "take i xs" "drop i xs"] by (simp del: lane_stream_simps)

lemma take_coalesced_stream:
  assumes "take_coalesced ev events bytes = (events', bytes', replaced)"
    and "\<forall>e\<in>set events. constructible e"
  shows "lane_stream l events' = lane_stream l events
    \<and> (\<forall>i p. replaced = Some (i, p) \<longrightarrow> ev_bytes p = [])"
  using assms(1)
proof (cases rule: take_coalesced_cases)
  case (replace before previous after)
  then have "ev_bytes previous = []"
    using assms(2) constructible_keyed [of previous] by auto
  then show ?thesis
    using replace by simp
qed simp

lemma restore_coalesced_stream:
  assumes "restore_coalesced replaced events bytes = Some (events', bytes')"
    and "\<forall>i p. replaced = Some (i, p) \<longrightarrow> ev_bytes p = []"
  shows "lane_stream l events' = lane_stream l events"
  using assms by (auto simp: restore_coalesced_def lane_stream_insert split: option.splits if_splits)

lemma lane_stream_last:
  "events \<noteq> [] \<Longrightarrow> lane_stream l events = lane_stream l (butlast events) @ lane_stream l [last events]"
  by (metis append_butlast_last_id lane_stream_simps(3))

lemma enqueue_bounded_stream:
  assumes enq: "enqueue_bounded_with_evictions events bytes r ev capacity max_bytes = Some (outcome, events', bytes', r')"
    and bytes: "bytes = total_bytes events" and ok: "\<forall>e\<in>set events. constructible e" "constructible ev"
  shows "lane_stream l events' = lane_stream l events @ (if oc_accepted outcome then lane_stream l [ev] else [])"
proof -
  obtain events1 bytes1 replaced where take: "take_coalesced ev events bytes = (events1, bytes1, replaced)"
    by (cases "take_coalesced ev events bytes") auto
  note t = take_coalesced_spec [OF take bytes ok] take_coalesced_stream [OF take ok(1), of l]
  show ?thesis
  proof (cases "same_input_tail Motion ev events1")
    case True
    then have tail: "events1 \<noteq> []" "is_motion (last events1)" "is_motion ev"
      by (auto simp: same_input_tail_def)
    have "enqueue_motion events1 bytes1 r ev max_bytes replaced = Some (outcome, events', bytes', r')"
      using enq True by (simp add: enqueue_bounded_with_evictions_def take)
    moreover have "replaced = None"
      using t tail by simp
    ultimately show ?thesis
      using t tail lane_stream_last [OF tail(1), of l]
      by (auto simp: enqueue_motion_def restore_coalesced_def Let_def split: if_splits)
  next
    case False
    show ?thesis
    proof (rule enqueue_bounded_unfold [OF enq take False])
      fix room events2 bytes2 evicted
      assume run: "evict_motions capacity max_bytes
       (length events1 + reservations_len r + of_bool (\<not> same_input_tail Ordered ev events1)
          + of_bool (ev_kind ev = Press) - of_bool (consumes_reservation r ev))
       (bytes1 + queued_byte_len ev
          + (reservations_len r + of_bool (ev_kind ev = Press)) * RESERVED_RELEASE_BYTES
          - of_bool (consumes_reservation r ev) * RESERVED_RELEASE_BYTES)
       events1 bytes1 [] = (room, events2, bytes2, evicted)"
      and refused: "\<not> room \<Longrightarrow> \<exists>events3 bytes3. restore_coalesced replaced events2 bytes2 = Some (events3, bytes3)
       \<and> (outcome, events', bytes', r')
         = (\<lparr>oc_accepted = False, oc_evicted = evicted, oc_superseded = None\<rparr>, events3, bytes3, r)"
      and accepted: "room \<Longrightarrow> \<exists>r'' ev'. commit_reservation r ev = Some (r'', ev')
       \<and> (outcome, events', bytes', r') = (\<lparr>oc_accepted = True, oc_evicted = evicted,
             oc_superseded = Option.bind replaced (\<lambda>(_, previous). ev_superseded previous)\<rparr>,
          if same_input_tail Ordered ev events1
          then butlast events2 @ [(last events2)\<lparr>ev_bytes := ev_bytes (last events2) @ ev_bytes ev'\<rparr>]
          else events2 @ [ev'],
          bytes2 + queued_byte_len ev', r'')"
      have stream2: "lane_stream l events2 = lane_stream l events"
        using evict_motions_spec [OF run conjunct1 [OF t(1)]] lane_stream_motions t(2) by metis
      show ?thesis
      proof (cases room)
        case False
        then show ?thesis
          using refused stream2 restore_coalesced_stream t(2) by auto
      next
        case True
        then obtain ev' where commit: "commit_reservation r ev = Some (r', ev')"
          and events': "events' = (if same_input_tail Ordered ev events1
            then butlast events2 @ [(last events2)\<lparr>ev_bytes := ev_bytes (last events2) @ ev_bytes ev'\<rparr>]
            else events2 @ [ev'])" and acc: "oc_accepted outcome"
          using accepted by auto
        note ev' = commit_reservation_event [OF commit]
        have appended: "lane_stream l [ev'] = lane_stream l [ev]"
          using ev' by simp
        show ?thesis
        proof (cases "same_input_tail Ordered ev events1")
          case False
          then show ?thesis
            using events' acc appended stream2 by simp
        next
          case merge: True
          then have "events2 \<noteq> [] \<and> last events2 = last events1"
            using evict_motions_ends [OF run] by (auto simp: same_input_tail_def)
          then have tail: "events2 \<noteq> []" "\<not> is_motion (last events2)" "ordering_lane (last events2) = ordering_lane ev"
              "\<not> is_motion ev"
            using merge by (auto simp: same_input_tail_def ordering_lane_def ordering_surface_id_def)
          have lane: "ordering_lane ((last events2)\<lparr>ev_bytes := bs\<rparr>) = ordering_lane (last events2)" for bs
            by (simp add: ordering_lane_def ordering_surface_id_def)
          show ?thesis
            using events' merge acc stream2 lane_stream_last [OF tail(1), of l] tail lane ev' by auto
        qed
      qed
    qed
  qed
qed

lemma enqueue_stream:
  assumes "enqueue_with_reservation g ev q = Some (res, ns, q')" and "queue_ok q" and "constructible ev"
  shows "lane_stream l (q_events q') = lane_stream l (q_events q)
    @ (if fst res = Accepted then lane_stream l [ev\<lparr>ev_generation := g\<rparr>] else [])"
  using assms(1)
proof (cases rule: enqueue_cases)
  case (bounded outcome events bytes r)
  then show ?thesis
    using enqueue_bounded_stream [OF bounded(1), of l] assms(2,3) by (simp add: queue_ok_def)
qed simp

lemma settled_events:
  "process_event ev None q = (ns, q') \<Longrightarrow> q_events q' = q_events q"
  by (auto simp: process_event_def Let_def settle_failure_def remote_transport_failed_def remote_timed_out_def
      exhausted_ambiguous_release_def ambiguous_release_def ambiguous_surface_failure_def
      drop_undelivered_press_def completion_failure_def leave_flight_def
      split: prod.splits option.splits bool.splits)

section \<open>Runs without failures\<close>

text \<open>A run in which operations succeed, with the lanes retired so far, the events accepted and those
  taken by the worker. The steps that lose events on purpose are left out: an operation that fails,
  the shutdown deadline and dropping the dispatcher.\<close>

inductive pty_flow :: "scheduler \<Rightarrow> pty_lane set \<Rightarrow> pty_event list \<Rightarrow> pty_event list \<Rightarrow> bool" where
  flow_start: "pty_flow scheduler_new {} [] []"
| flow_enqueue: "pty_flow s ret acc out \<Longrightarrow> constructible ev
    \<Longrightarrow> enqueue_with_reservation g ev (sc_queue s) = Some (res, ns, q)
    \<Longrightarrow> pty_flow (s\<lparr>sc_queue := q\<rparr>) ret (if fst res = Accepted then acc @ [ev\<lparr>ev_generation := g\<rparr>] else acc) out"
| flow_inline: "pty_flow s ret acc out \<Longrightarrow> sc_inline s = None \<Longrightarrow> dequeue_ready_event (sc_queue s) = Some (Some ev, q)
    \<Longrightarrow> \<not> ev_concurrent ev \<Longrightarrow> pty_flow (s\<lparr>sc_queue := q, sc_inline := Some ev\<rparr>) ret acc (out @ [ev])"
| flow_spawn: "pty_flow s ret acc out \<Longrightarrow> sc_inline s = None \<Longrightarrow> dequeue_ready_event (sc_queue s) = Some (Some ev, q)
    \<Longrightarrow> ev_concurrent ev \<Longrightarrow> pty_flow (s\<lparr>sc_queue := q, sc_running := ev # sc_running s\<rparr>) ret acc (out @ [ev])"
| flow_inline_done: "pty_flow s ret acc out \<Longrightarrow> sc_inline s = Some ev
    \<Longrightarrow> process_event ev None (sc_queue s) = (ns, q) \<Longrightarrow> pty_flow (s\<lparr>sc_queue := q, sc_inline := None\<rparr>) ret acc out"
| flow_operation_done: "pty_flow s ret acc out \<Longrightarrow> ev \<in> set (sc_running s)
    \<Longrightarrow> process_event ev None (sc_queue s) = (ns, q)
    \<Longrightarrow> pty_flow (s\<lparr>sc_queue := q, sc_running := remove1 ev (sc_running s)\<rparr>) ret acc out"
| flow_cancel: "pty_flow s ret acc out
    \<Longrightarrow> pty_flow (s\<lparr>sc_queue := cancel_release_reservation i (sc_queue s)\<rparr>) ret acc out"
| flow_activate: "pty_flow s ret acc out
    \<Longrightarrow> pty_flow (s\<lparr>sc_queue := activate_session_generation g (sc_queue s)\<rparr>) ret acc out"
| flow_close: "pty_flow s ret acc out \<Longrightarrow> pty_flow (s\<lparr>sc_queue := shutdown_close (sc_queue s)\<rparr>) ret acc out"
| flow_retire: "pty_flow s ret acc out \<Longrightarrow> pty_flow (s\<lparr>sc_queue := retire_surface g sid (sc_queue s)\<rparr>)
      (insert \<lparr>lane_generation = g, lane_surface = sid\<rparr> ret) acc out"

lemma pty_flow_ok: "pty_flow s ret acc out \<Longrightarrow> scheduler_ok s"
proof (induction rule: pty_flow.induct)
  case (flow_enqueue s ret acc out ev g res ns q)
  from flow_enqueue(4,2,3) show ?case
    by (rule enqueue_scheduler_ok)
next
  case (flow_inline s ret acc out ev q)
  from flow_inline(5,2-4) show ?case
    by (rule take_inline_ok)
next
  case (flow_spawn s ret acc out ev q)
  from flow_spawn(5,2-4) show ?case
    by (rule spawn_ok)
next
  case (flow_inline_done s ret acc out ev ns q)
  from flow_inline_done(4,2,3) show ?case
    by (rule inline_done_ok)
next
  case (flow_operation_done s ret acc out ev ns q)
  from flow_operation_done(4,2,3) show ?case
    by (rule operation_done_ok)
next
  case (flow_cancel s ret acc out i)
  from pty_step.cancel_reservation flow_cancel(2) show ?case
    by (rule pty_step_ok)
next
  case (flow_activate s ret acc out g)
  from pty_step.activate flow_activate(2) show ?case
    by (rule pty_step_ok)
next
  case (flow_close s ret acc out)
  from pty_step.close flow_close(2) show ?case
    by (rule pty_step_ok)
next
  case (flow_retire s ret acc out g sid)
  from pty_step.retire flow_retire(2) show ?case
    by (rule pty_step_ok)
qed (rule scheduler_new_ok)

text \<open>Taking an event of a lane takes the first of its stream.\<close>

lemma dequeue_stream:
  assumes "dequeue_ready_event q = Some (Some ev, q')" and "queue_ok q"
  shows "lane_stream l (q_events q) = lane_stream l [ev] @ lane_stream l (q_events q')"
  using assms
proof (rule dequeue_spec)
  fix before after
  assume events: "q_events q = before @ ev # after" "q_events q' = before @ after"
    and before: "\<forall>e\<in>set before. \<not> session_barrier e \<and> ordering_lane e \<noteq> ordering_lane ev"
  have "lane_stream l before = []" if "ordering_lane ev = Some l"
    using before that by (induction before) auto
  then show ?thesis
    using events by auto
qed

lemma retire_stream:
  "l \<noteq> \<lparr>lane_generation = g, lane_surface = sid\<rparr> \<Longrightarrow>
     lane_stream l (q_events (retire_surface g sid q)) = lane_stream l (q_events q)"
proof -
  assume other: "l \<noteq> \<lparr>lane_generation = g, lane_surface = sid\<rparr>"
  have "lane_stream l (filter (\<lambda>ev. ordering_lane ev \<noteq> Some \<lparr>lane_generation = g, lane_surface = sid\<rparr>) events)
      = lane_stream l events" for events
    using other by (induction events) auto
  then show ?thesis
    by (simp add: retire_surface_def Let_def)
qed

lemma pty_flow_streams:
  "pty_flow s ret acc out \<Longrightarrow> l \<notin> ret \<Longrightarrow> lane_stream l acc = lane_stream l out @ lane_stream l (q_events (sc_queue s))"
proof (induction rule: pty_flow.induct)
  case flow_start
  then show ?case
    by (simp add: scheduler_new_def queue_new_def)
next
  case (flow_enqueue s ret acc out ev g res ns q)
  have "queue_ok (sc_queue s)"
    using pty_flow_ok [OF flow_enqueue(1)] by (simp add: scheduler_ok_def)
  from enqueue_stream [OF flow_enqueue(3) this flow_enqueue(2), of l] show ?case
    using flow_enqueue(4) [OF flow_enqueue(5)] by (simp del: lane_stream_simps(2))
next
  case (flow_inline s ret acc out ev q)
  have "queue_ok (sc_queue s)"
    using pty_flow_ok [OF flow_inline(1)] by (simp add: scheduler_ok_def)
  from dequeue_stream [OF flow_inline(3) this, of l] show ?case
    using flow_inline(5) [OF flow_inline(6)] by (simp del: lane_stream_simps(2))
next
  case (flow_spawn s ret acc out ev q)
  have "queue_ok (sc_queue s)"
    using pty_flow_ok [OF flow_spawn(1)] by (simp add: scheduler_ok_def)
  from dequeue_stream [OF flow_spawn(3) this, of l] show ?case
    using flow_spawn(5) [OF flow_spawn(6)] by (simp del: lane_stream_simps(2))
next
  case (flow_inline_done s ret acc out ev ns q)
  then show ?case
    using settled_events [OF flow_inline_done(3)] by simp
next
  case (flow_operation_done s ret acc out ev ns q)
  then show ?case
    using settled_events [OF flow_operation_done(3)] by simp
next
  case (flow_retire s ret acc out g sid)
  then show ?case
    by (simp add: retire_stream)
qed (simp_all add: cancel_release_reservation_def activate_session_generation_def shutdown_close_def)

end
