(* ===== verification/PtyProps.thy ===== *)
theory PtyProps
  imports PtyStreams
begin

text \<open>
  The theorems of the input scheduler: its bounds, the exclusion and order of operations,
  the streams of bytes each surface receives, and the capacity reserved for mouse releases,
  with the two situations in which a release put back after a timeout breaks the bounds.
\<close>

section \<open>Reserved releases\<close>

lemma evict_nothing:
  "p \<le> capacity \<Longrightarrow> pb \<le> max_bytes
   \<Longrightarrow> evict_motions capacity max_bytes p pb events bytes evicted = (True, events, bytes, evicted)"
  by (subst evict_motions.simps) simp

lemma release_fields [simp]:
  "ev_kind (release_event sid h bs i) = Release" "ev_reservation (release_event sid h bs i) = Some i"
  "ev_coalesce (release_event sid h bs i) = None" "ev_remote (release_event sid h bs i) = is_remote h"
  "ordering_lane ((release_event sid h bs i)\<lparr>ev_generation := g\<rparr>) = Some \<lparr>lane_generation = g, lane_surface = sid\<rparr>"
  by (simp_all add: release_event_def input_event_def ordering_lane_def ordering_surface_id_def)

lemma release_bytes:
  "length bs \<le> 64 \<Longrightarrow> queued_byte_len ((release_event sid h bs i)\<lparr>ev_generation := g\<rparr>) = length bs"
  by (simp add: release_event_def input_event_def queued_byte_len_def)

text \<open>The bounded enqueue of a release that holds a reservation, in a queue within its bounds.\<close>

lemma enqueue_reserved_release:
  assumes "in_bounds q" "queue_ok q" "length bs \<le> 64"
    and "map_of (outstanding (q_reservations q)) i = Some \<lparr>lane_generation = g, lane_surface = sid\<rparr>"
  shows "enqueue_bounded_with_evictions (q_events q) (q_bytes q) (q_reservations q)
      ((release_event sid h bs i)\<lparr>ev_generation := g\<rparr>)
      (PTY_OPERATION_QUEUE_CAPACITY - length (q_operations q)) (MAX_QUEUED_BYTES - sum_list (map snd (q_operations q)))
    = Some (\<lparr>oc_accepted = True, oc_evicted = [], oc_superseded = None\<rparr>,
        q_events q @ [(release_event sid h bs i)\<lparr>ev_generation := g\<rparr>], q_bytes q + length bs,
        cancel i (q_reservations q))"
proof -
  let ?ev = "(release_event sid h bs i)\<lparr>ev_generation := g\<rparr>"
  have take: "take_coalesced ?ev (q_events q) (q_bytes q) = (q_events q, q_bytes q, None)"
    by (simp add: take_coalesced_def)
  have tails: "\<not> same_input_tail Motion ?ev (q_events q)" "\<not> same_input_tail Ordered ?ev (q_events q)"
    by (simp_all add: same_input_tail_def)
  have consumes: "consumes_reservation (q_reservations q) ?ev"
    using assms(4) by (simp add: consumes_reservation_def)
  have commit: "commit_reservation (q_reservations q) ?ev = Some (cancel i (q_reservations q), ?ev)"
    using consumes assms(4) by (simp add: commit_reservation_def consume_id_def cancel_def)
  have one: "1 \<le> reservations_len (q_reservations q)"
    using assms(4) by (cases "outstanding (q_reservations q)") (auto simp: reservations_len_def)
  have room: "evict_motions (PTY_OPERATION_QUEUE_CAPACITY - length (q_operations q))
      (MAX_QUEUED_BYTES - sum_list (map snd (q_operations q)))
      (length (q_events q) + reservations_len (q_reservations q) + 1 + 0 - 1)
      (q_bytes q + length bs + (reservations_len (q_reservations q) + 0) * RESERVED_RELEASE_BYTES - RESERVED_RELEASE_BYTES)
      (q_events q) (q_bytes q) [] = (True, q_events q, q_bytes q, [])"
  proof (rule evict_nothing)
    show "length (q_events q) + reservations_len (q_reservations q) + 1 + 0 - 1
        \<le> PTY_OPERATION_QUEUE_CAPACITY - length (q_operations q)"
      using assms(1) by (auto simp: in_bounds_def usage_ok_def)
    show "q_bytes q + length bs + (reservations_len (q_reservations q) + 0) * RESERVED_RELEASE_BYTES - RESERVED_RELEASE_BYTES
        \<le> MAX_QUEUED_BYTES - sum_list (map snd (q_operations q))"
      using assms(1-3) one by (auto simp: in_bounds_def usage_ok_def queue_ok_def RESERVED_RELEASE_BYTES_def)
  qed
  show ?thesis
    using room release_bytes [OF assms(3), of g sid h i]
    by (simp add: enqueue_bounded_with_evictions_def take tails consumes commit restore_coalesced_def)
qed

section \<open>A queue with a release in flight\<close>

text \<open>Surfaces 1 and 2 of a remote session: both were pressed and the release of the first
  is being sent while \<open>n\<close> session mutations wait.\<close>

definition demo_lane :: "surface_id \<Rightarrow> pty_lane" where
  "demo_lane sid = \<lparr>lane_generation = 1, lane_surface = sid\<rparr>"

definition demo_press :: "surface_id \<Rightarrow> pty_event" where
  "demo_press sid = input_event sid (Remote PtySurface) [0x1b, 0x4d] Press"

definition demo_release :: "surface_id \<Rightarrow> pty_event" where
  "demo_release sid = release_event sid (Remote PtySurface) [0x1b, 0x6d] (word_of_nat sid)"

definition demo_mutation :: pty_event where
  "demo_mutation = mutation_for_surface ''rename'' default_identity True None (Some 0) 0"

definition demo_filled :: "nat \<Rightarrow> scheduler" where
  "demo_filled n = \<lparr>sc_queue = queue_new\<lparr>q_events := replicate n demo_mutation,
       q_reservations := \<lparr>next_id = 2, outstanding = [(2, demo_lane 2)]\<rparr>,
       q_in_flight := Some \<lparr>fl_lane = Some (demo_lane 1), fl_kind = Release\<rparr>\<rparr>,
     sc_inline = Some (demo_release 1), sc_running = []\<rparr>"

lemmas demo_defs = demo_press_def demo_release_def demo_mutation_def demo_lane_def input_event_def release_event_def
  mutation_for_surface_def default_identity_def

lemmas queue_run_defs = enqueue_with_reservation_def enqueue_bounded_with_evictions_def take_coalesced_def
  same_input_tail_def consumes_reservation_def commit_reservation_def consume_id_def reserve_def
  ordering_lane_def ordering_surface_id_def queued_byte_len_def reservations_len_def
  PTY_OPERATION_QUEUE_CAPACITY_def MAX_QUEUED_BYTES_def RESERVED_RELEASE_BYTES_def
  dequeue_ready_event_def remove_at_def is_remote_def evict_nothing restore_coalesced_def

lemmas process_run_defs = process_event_def count_attempt_def settle_failure_def remote_transport_failed_def
  remote_timed_out_def ambiguous_release_def retry_ambiguous_release_def exhausted_ambiguous_release_def
  ambiguous_surface_failure_def known_not_delivered_def completion_failure_def suppress_mutation_timeout_def
  drop_undelivered_press_def leave_flight_def settled_notice_def ordering_lane_def ordering_surface_id_def
  handle_kind_def underlying_operation_error_def is_remote_timeout_def is_remote_transport_failure_def Let_def

text \<open>One press, delivered: the worker takes it and completes it.\<close>

definition demo_idle :: "release_reservations \<Rightarrow> scheduler" where
  "demo_idle r = scheduler_new\<lparr>sc_queue := queue_new\<lparr>q_reservations := r\<rparr>\<rparr>"

lemma demo_pressed:
  assumes "pty_reachable (demo_idle r)" and "length (outstanding r) < 8"
  shows "pty_reachable (demo_idle (fst (reserve r (demo_lane sid))))"
proof -
  let ?ev = "(demo_press sid)\<lparr>ev_reservation := Some (next_id r + 1)\<rparr>"
  let ?r = "fst (reserve r (demo_lane sid))"
  have len: "length (outstanding r) + 2 \<le> 512" "(length (outstanding r) + 1) * 64 + 2 \<le> 4 * 1024 * 1024"
    using assms(2) by auto
  have "enqueue_with_reservation 1 (demo_press sid) (sc_queue (demo_idle r)) =
     Some ((Accepted, Some (next_id r + 1)), [], queue_new\<lparr>q_events := [?ev], q_bytes := 2, q_reservations := ?r\<rparr>)"
    using len by (simp add: queue_run_defs demo_defs demo_idle_def scheduler_new_def queue_new_def superseded_notice_def Let_def)
  from pty_reachable.step [OF assms(1) pty_step.enqueue [OF _ this]]
  have queued: "pty_reachable (scheduler_new\<lparr>sc_queue := queue_new\<lparr>q_events := [?ev], q_bytes := 2, q_reservations := ?r\<rparr>\<rparr>)"
    by (simp add: demo_idle_def constructible_def demo_defs)
  let ?flight = "queue_new\<lparr>q_reservations := ?r, q_in_flight := Some \<lparr>fl_lane = Some (demo_lane sid), fl_kind = Press\<rparr>\<rparr>"
  have deq: "dequeue_ready_event (queue_new\<lparr>q_events := [?ev], q_bytes := 2, q_reservations := ?r\<rparr>) = Some (Some ?ev, ?flight)"
    by (simp add: queue_run_defs demo_defs queue_new_def Let_def)
  from pty_reachable.step [OF queued pty_step.take_inline [of _ ?ev ?flight]]
  have taken: "pty_reachable (scheduler_new\<lparr>sc_queue := ?flight, sc_inline := Some ?ev\<rparr>)"
    using deq by (simp add: scheduler_new_def demo_defs)
  have fin: "process_event ?ev None ?flight = ([], queue_new\<lparr>q_reservations := ?r\<rparr>)"
    by (simp add: process_run_defs demo_defs queue_new_def)
  from pty_reachable.step [OF taken pty_step.inline_done [of _ ?ev None]]
  show ?thesis
    using fin by (simp add: scheduler_new_def demo_idle_def)
qed

lemma demo_filled_0: "pty_reachable (demo_filled 0)"
proof -
  let ?r = "\<lparr>next_id = 2, outstanding = [(1, demo_lane 1), (2, demo_lane 2)]\<rparr>"
  have "pty_reachable (demo_idle reservations_new)"
    using pty_reachable.start by (simp add: demo_idle_def scheduler_new_def queue_new_def)
  from demo_pressed [OF demo_pressed [OF this, of 1], of 2]
  have idle: "pty_reachable (demo_idle ?r)"
    by (simp add: reserve_def reservations_new_def)
  let ?q = "queue_new\<lparr>q_events := [demo_release 1], q_bytes := 2,
      q_reservations := \<lparr>next_id = 2, outstanding = [(2, demo_lane 2)]\<rparr>\<rparr>"
  have "enqueue_with_reservation 1 (demo_release 1) (sc_queue (demo_idle ?r)) = Some ((Accepted, None), [], ?q)"
    by (simp add: queue_run_defs demo_defs demo_idle_def scheduler_new_def queue_new_def superseded_notice_def Let_def)
  from pty_reachable.step [OF idle pty_step.enqueue [OF _ this]]
  have queued: "pty_reachable (scheduler_new\<lparr>sc_queue := ?q\<rparr>)"
    by (simp add: demo_idle_def constructible_def demo_defs)
  have deq: "dequeue_ready_event ?q = Some (Some (demo_release 1), sc_queue (demo_filled 0))"
    by (simp add: queue_run_defs demo_defs demo_filled_def queue_new_def Let_def)
  from pty_reachable.step [OF queued pty_step.take_inline [of _ "demo_release 1" "sc_queue (demo_filled 0)"]]
  show ?thesis
    using deq by (simp add: scheduler_new_def demo_filled_def demo_defs)
qed

lemma demo_filled: "n \<le> 511 \<Longrightarrow> pty_reachable (demo_filled n)"
proof (induction n)
  case 0
  show ?case
    by (rule demo_filled_0)
next
  case (Suc n)
  have "enqueue_with_reservation 1 demo_mutation (sc_queue (demo_filled n)) =
      Some ((Accepted, None), [], sc_queue (demo_filled (Suc n)))"
    using Suc.prems
    by (simp add: queue_run_defs demo_defs demo_filled_def queue_new_def superseded_notice_def Let_def
        replicate_append_same)
  from pty_step.enqueue [OF _ this] have "pty_step (demo_filled n) (demo_filled (Suc n))"
    by (simp add: constructible_def demo_defs demo_filled_def)
  then show ?case
    using Suc pty_reachable.step by simp
qed

text \<open>The release of surface 1 times out: it goes back in front.\<close>

definition demo_retried :: "nat \<Rightarrow> scheduler" where
  "demo_retried n = \<lparr>sc_queue = queue_new\<lparr>q_events := (demo_release 1)\<lparr>ev_attempts := 1\<rparr> # replicate n demo_mutation,
       q_bytes := 2, q_reservations := \<lparr>next_id = 2, outstanding = [(2, demo_lane 2)]\<rparr>\<rparr>,
     sc_inline = None, sc_running = []\<rparr>"

lemma demo_retried: "n \<le> 511 \<Longrightarrow> pty_reachable (demo_retried n)"
proof -
  assume n: "n \<le> 511"
  have attempt: "sat_add 0 1 = (1 :: u8)" "(1 :: u8) < 3"
    by (simp_all add: sat_add_def)
  have "process_event (demo_release 1) (Some (RemoteError RequestTimeout)) (sc_queue (demo_filled n))
      = ([], sc_queue (demo_retried n))"
    by (simp add: process_run_defs demo_defs demo_filled_def demo_retried_def queue_new_def settle_timeout_def
        requeue_ambiguous_release_def prune_lane_to_recovery_releases_def retain_events_def retain_release_def
        retain_reservations_def press_reservations_def total_bytes_def queued_byte_len_def is_remote_def
        REMOTE_RELEASE_MAX_ATTEMPTS_def attempt sum_list_replicate)
  from pty_step.inline_done [OF _ this] have "pty_step (demo_filled n) (demo_retried n)"
    by (simp add: demo_filled_def demo_retried_def)
  then show ?thesis
    using demo_filled [OF n] pty_reachable.step by blast
qed

section \<open>Two consequences of the overfull queue\<close>

lemma position_no_motion: "\<forall>ev\<in>set events. \<not> is_motion ev \<Longrightarrow> position (\<lambda>queued. is_motion queued) events = None"
  by (simp add: position_None_iff)

text \<open>With the retried release in front of a queue filled to capacity, the release of
  surface 2 is refused although its press reserved it.\<close>

lemma reserved_release_refused:
  "\<exists>s. pty_reachable s
     \<and> map_of (outstanding (q_reservations (sc_queue s))) 2 = Some \<lparr>lane_generation = 1, lane_surface = 2\<rparr>
     \<and> enqueue_with_reservation 1 (demo_release 2) (sc_queue s) = Some ((Saturated, None), [], sc_queue s)"
proof -
  have full: "evict_motions 512 (4 * 1024 * 1024) 513 4 ((demo_release 1)\<lparr>ev_attempts := 1\<rparr> # replicate 511 demo_mutation) 2 []
      = (False, (demo_release 1)\<lparr>ev_attempts := 1\<rparr> # replicate 511 demo_mutation, 2, [])"
    by (subst evict_motions.simps) (simp add: position_no_motion demo_defs)
  have "enqueue_with_reservation 1 (demo_release 2) (sc_queue (demo_retried 511))
      = Some ((Saturated, None), [], sc_queue (demo_retried 511))"
    using full by (simp add: queue_run_defs demo_defs demo_retried_def queue_new_def superseded_notice_def Let_def)
  moreover have "map_of (outstanding (q_reservations (sc_queue (demo_retried 511)))) 2
      = Some \<lparr>lane_generation = 1, lane_surface = 2\<rparr>"
    by (simp add: demo_retried_def demo_lane_def)
  ultimately show ?thesis
    using demo_retried [of 511] by auto
qed

definition demo_motion :: pty_event where
  "demo_motion = input_event 3 (Remote PtySurface) [0x1b] Motion"

definition demo_paste :: pty_event where
  "demo_paste = mutation_for_surface ''paste'' (retained_identity 4 4194239) True None None 0"

definition demo_focus :: pty_event where
  "demo_focus = mutation_for_surface ''focus'' (default_identity\<lparr>mi_coalesce := Some (''focus'', 1, 0)\<rparr>) True
     (Some 1) (Some 2) 0"

definition demo_heavy :: "pty_event list \<Rightarrow> nat \<Rightarrow> in_flight_input option \<Rightarrow> queue_state" where
  "demo_heavy events bytes flight = queue_new\<lparr>q_events := events, q_bytes := bytes,
     q_reservations := \<lparr>next_id = 2, outstanding = [(2, demo_lane 2)]\<rparr>, q_in_flight := flight\<rparr>"

lemmas demo_heavy_defs = demo_motion_def demo_paste_def demo_focus_def demo_heavy_def retained_identity_def

text \<open>With the retried release in front of a queue filled to its bytes, replacing a
  coalesced mutation evicts the motions, fails, and reinserts the old mutation past the end.\<close>

lemma coalescing_can_panic:
  "\<exists>s. pty_reachable s \<and> enqueue_with_reservation 1 demo_focus (sc_queue s) = None"
proof -
  let ?fl = "Some \<lparr>fl_lane = Some (demo_lane 1), fl_kind = Release\<rparr>"
  let ?s = "\<lambda>q. \<lparr>sc_queue = q, sc_inline = Some (demo_release 1), sc_running = []\<rparr>"
  let ?r1 = "(demo_release 1)\<lparr>ev_attempts := 1\<rparr>"
  let ?q1 = "demo_heavy [demo_motion] 1 ?fl"
  let ?q2 = "demo_heavy [demo_motion, demo_paste] 4194240 ?fl"
  let ?q3 = "demo_heavy [demo_motion, demo_paste, demo_focus] 4194240 ?fl"
  let ?q4 = "demo_heavy [?r1, demo_motion, demo_paste, demo_focus] 4194242 None"
  have "enqueue_with_reservation 1 demo_motion (sc_queue (demo_filled 0)) = Some ((Accepted, None), [], ?q1)"
    by (simp add: queue_run_defs demo_defs demo_heavy_defs demo_filled_def queue_new_def superseded_notice_def Let_def)
  from pty_reachable.step [OF demo_filled_0 pty_step.enqueue [OF _ this]]
  have r1: "pty_reachable (?s ?q1)"
    by (simp add: demo_filled_def constructible_def demo_defs demo_heavy_defs)
  have "enqueue_with_reservation 1 demo_paste ?q1 = Some ((Accepted, None), [], ?q2)"
    by (simp add: queue_run_defs demo_defs demo_heavy_defs queue_new_def superseded_notice_def Let_def)
  then have "pty_step (?s ?q1) (?s ?q2)"
    using pty_step.enqueue [of demo_paste 1 "?s ?q1"] by (simp add: constructible_def demo_defs demo_paste_def retained_identity_def)
  note r2 = pty_reachable.step [OF r1 this]
  have "enqueue_with_reservation 1 demo_focus ?q2 = Some ((Accepted, None), [], ?q3)"
    by (simp add: queue_run_defs demo_defs demo_heavy_defs queue_new_def superseded_notice_def Let_def)
  then have "pty_step (?s ?q2) (?s ?q3)"
    using pty_step.enqueue [of demo_focus 1 "?s ?q2"] by (simp add: constructible_def demo_defs demo_focus_def)
  note r3 = pty_reachable.step [OF r2 this]
  have attempt: "sat_add 0 1 = (1 :: u8)" "(1 :: u8) < 3"
    by (simp_all add: sat_add_def)
  have "process_event (demo_release 1) (Some (RemoteError RequestTimeout)) ?q3 = ([], ?q4)"
    by (simp add: process_run_defs demo_defs demo_heavy_defs queue_new_def settle_timeout_def
        requeue_ambiguous_release_def prune_lane_to_recovery_releases_def retain_events_def retain_release_def
        retain_reservations_def press_reservations_def total_bytes_def queued_byte_len_def is_remote_def
        REMOTE_RELEASE_MAX_ATTEMPTS_def attempt)
  then have "pty_step (?s ?q3) \<lparr>sc_queue = ?q4, sc_inline = None, sc_running = []\<rparr>"
    using pty_step.inline_done [of "?s ?q3" "demo_release 1"] by simp
  note r4 = pty_reachable.step [OF r3 this]
  have "evict_motions 512 4194304 (Suc (Suc (Suc (Suc (Suc 0))))) 4194306 [?r1, demo_motion, demo_paste] 4194242 []
      = (False, [?r1, demo_paste], 4194241, [eviction demo_motion])"
    by (subst evict_motions.simps, simp add: demo_defs demo_heavy_defs queued_byte_len_def remove_at_def)
      (subst evict_motions.simps, simp add: demo_defs demo_heavy_defs)
  then have "enqueue_with_reservation 1 demo_focus ?q4 = None"
    by (simp add: queue_run_defs demo_defs demo_heavy_defs queue_new_def superseded_notice_def Let_def)
  then show ?thesis
    using r4 by (intro exI [of _ "\<lparr>sc_queue = ?q4, sc_inline = None, sc_running = []\<rparr>"]) simp
qed

section \<open>Properties\<close>

lemma pty_bounds:
  assumes "pty_reachable s"
  shows "length (q_events (sc_queue s)) + reservations_len (q_reservations (sc_queue s))
      + length (q_operations (sc_queue s)) \<le> 512 + of_bool (sc_inline s = None)"
    and "q_bytes (sc_queue s) + 64 * reservations_len (q_reservations (sc_queue s))
      + sum_list (map snd (q_operations (sc_queue s))) \<le> 4194304 + 4194304 * of_bool (sc_inline s = None)"
    and "q_bytes (sc_queue s) = sum_list (map queued_byte_len (q_events (sc_queue s)))"
    and "length (q_operations (sc_queue s)) \<le> 32"
    and "dequeue_ready_event (sc_queue s) \<noteq> None"
proof -
  let ?q = "sc_queue s"
  have ok: "scheduler_ok s"
    by (rule pty_reachable_ok [OF assms])
  then have q: "queue_ok ?q" "bounded s" "running_ok (sc_running s) (q_operations ?q)"
    by (auto simp: scheduler_ok_def)
  have "length (q_events ?q) + reservations_len (q_reservations ?q) + length (q_operations ?q)
       \<le> 512 + of_bool (sc_inline s = None)
    \<and> q_bytes ?q + 64 * reservations_len (q_reservations ?q) + sum_list (map snd (q_operations ?q))
       \<le> 4194304 + 4194304 * of_bool (sc_inline s = None)"
    using q(1,2)
    by (auto simp: bounded_def in_bounds_def retry_pending_def usage_ok_def queue_ok_def total_bytes_def
        PTY_OPERATION_QUEUE_CAPACITY_def MAX_QUEUED_BYTES_def RESERVED_RELEASE_BYTES_def split: list.splits)
  then show "length (q_events ?q) + reservations_len (q_reservations ?q) + length (q_operations ?q)
       \<le> 512 + of_bool (sc_inline s = None)"
    and "q_bytes ?q + 64 * reservations_len (q_reservations ?q) + sum_list (map snd (q_operations ?q))
       \<le> 4194304 + 4194304 * of_bool (sc_inline s = None)"
    by blast+
  show "q_bytes ?q = sum_list (map queued_byte_len (q_events ?q))"
    using q(1) by (simp add: queue_ok_def total_bytes_def)
  show "length (q_operations ?q) \<le> 32"
    using q(3) by (simp add: running_ok_def MAX_CONCURRENT_SURFACE_OPERATIONS_def)
  show "dequeue_ready_event ?q \<noteq> None"
    by (rule dequeue_total [OF q(1)])
qed

text \<open>C15. In every reachable state of the client's input scheduler at most 513 events, release reservations
  and running surface operations exist, and at most 512 of them with 4 MiB of bytes while the worker is
  busy (the excess is one retried mouse release, below twice the bytes); the byte counter is exact, at
  most 32 surface operations run, and the worker's scan never panics.\<close>

theorem pty_queue_is_bounded:
  assumes "pty_reachable s"
  shows "(length (q_events (sc_queue s)) + reservations_len (q_reservations (sc_queue s))
      + length (q_operations (sc_queue s)) \<le> 512 + of_bool (sc_inline s = None))
    \<and> (q_bytes (sc_queue s) + 64 * reservations_len (q_reservations (sc_queue s))
      + sum_list (map snd (q_operations (sc_queue s))) \<le> 4194304 + 4194304 * of_bool (sc_inline s = None))
    \<and> (q_bytes (sc_queue s) = sum_list (map queued_byte_len (q_events (sc_queue s))))
    \<and> (length (q_operations (sc_queue s)) \<le> 32)
    \<and> (dequeue_ready_event (sc_queue s) \<noteq> None)"
  using pty_bounds [OF assms] by (intro conjI)

lemma pty_order:
  assumes "pty_reachable s"
  shows "distinct (map ordering_lane (sc_running s))"
    and "\<forall>ev. sc_inline s = Some ev \<longrightarrow> ordering_lane ev \<notin> ordering_lane ` set (sc_running s)
      \<and> (session_barrier ev \<longrightarrow> sc_running s = [])"
    and "\<forall>ev q. dequeue_ready_event (sc_queue s) = Some (Some ev, q) \<longrightarrow>
      (\<exists>before after. q_events (sc_queue s) = before @ ev # after \<and> q_events q = before @ after
        \<and> (\<forall>e\<in>set before. \<not> session_barrier e \<and> ordering_lane e \<noteq> ordering_lane ev)
        \<and> ordering_lane ev \<notin> ordering_lane ` set (sc_running s)
        \<and> (session_barrier ev \<longrightarrow> before = [] \<and> sc_running s = []))"
    and "q_events (sc_queue s) \<noteq> [] \<longrightarrow> sc_running s = [] \<longrightarrow>
      (\<exists>ev q. dequeue_ready_event (sc_queue s) = Some (Some ev, q))"
proof -
  have ok: "scheduler_ok s"
    by (rule pty_reachable_ok [OF assms])
  then have q: "queue_ok (sc_queue s)" and run: "running_ok (sc_running s) (q_operations (sc_queue s))"
    by (auto simp: scheduler_ok_def)
  show "distinct (map ordering_lane (sc_running s))"
    using run by (simp add: running_ok_def)
  have lanes: "ordering_lane ` set (sc_running s) = Some ` fst ` set (q_operations (sc_queue s))"
    and idle: "q_operations (sc_queue s) = [] \<longleftrightarrow> sc_running s = []"
    using run by (auto simp: running_ok_def)
  show "\<forall>ev. sc_inline s = Some ev \<longrightarrow> ordering_lane ev \<notin> ordering_lane ` set (sc_running s)
      \<and> (session_barrier ev \<longrightarrow> sc_running s = [])"
    using ok unfolding lanes by (simp add: scheduler_ok_def inline_ok_def)
  have "\<exists>before after. q_events (sc_queue s) = before @ ev # after \<and> q_events q' = before @ after
        \<and> (\<forall>e\<in>set before. \<not> session_barrier e \<and> ordering_lane e \<noteq> ordering_lane ev)
        \<and> ordering_lane ev \<notin> ordering_lane ` set (sc_running s)
        \<and> (session_barrier ev \<longrightarrow> before = [] \<and> sc_running s = [])"
    if "dequeue_ready_event (sc_queue s) = Some (Some ev, q')" for ev q'
    using that q unfolding lanes idle [symmetric] by (rule dequeue_spec) blast
  then show "\<forall>ev q. dequeue_ready_event (sc_queue s) = Some (Some ev, q) \<longrightarrow>
      (\<exists>before after. q_events (sc_queue s) = before @ ev # after \<and> q_events q = before @ after
        \<and> (\<forall>e\<in>set before. \<not> session_barrier e \<and> ordering_lane e \<noteq> ordering_lane ev)
        \<and> ordering_lane ev \<notin> ordering_lane ` set (sc_running s)
        \<and> (session_barrier ev \<longrightarrow> before = [] \<and> sc_running s = []))"
    by blast
  show "q_events (sc_queue s) \<noteq> [] \<longrightarrow> sc_running s = [] \<longrightarrow>
      (\<exists>ev q. dequeue_ready_event (sc_queue s) = Some (Some ev, q))"
    using dequeue_progress [OF q] idle by simp
qed

text \<open>C16. In every reachable state the surface operations in progress are for different lanes, and the event the
  worker is sending itself is for none of them; while a session mutation runs nothing else does. The next
  event the worker starts is the first of its lane, behind no session mutation; and whenever events wait and
  nothing is in progress, the worker starts one.\<close>

theorem pty_worker_keeps_order:
  assumes "pty_reachable s"
  shows "(distinct (map ordering_lane (sc_running s)))
    \<and> (\<forall>ev. sc_inline s = Some ev \<longrightarrow> ordering_lane ev \<notin> ordering_lane ` set (sc_running s)
      \<and> (session_barrier ev \<longrightarrow> sc_running s = []))
    \<and> (\<forall>ev q. dequeue_ready_event (sc_queue s) = Some (Some ev, q) \<longrightarrow>
      (\<exists>before after. q_events (sc_queue s) = before @ ev # after \<and> q_events q = before @ after
        \<and> (\<forall>e\<in>set before. \<not> session_barrier e \<and> ordering_lane e \<noteq> ordering_lane ev)
        \<and> ordering_lane ev \<notin> ordering_lane ` set (sc_running s)
        \<and> (session_barrier ev \<longrightarrow> before = [] \<and> sc_running s = [])))
    \<and> (q_events (sc_queue s) \<noteq> [] \<longrightarrow> sc_running s = [] \<longrightarrow>
      (\<exists>ev q. dequeue_ready_event (sc_queue s) = Some (Some ev, q)))"
  using pty_order [OF assms] by (intro conjI)

text \<open>C17. Two restrictions: pointer motion is left out of the streams, since an accepted motion may be
  coalesced with a later one or evicted; and the runs are those in which every operation succeeds, that is
  enqueues, starts, successful completions, canceled reservations, activated generations, closing, and
  retired surfaces, but no failed operation, no shutdown deadline and no dropped dispatcher, each of which
  discards queued events on purpose. In such a run every surface that was not retired is sent exactly the
  non-motion bytes accepted for it, once and in the order of acceptance, whatever senders, coalescing,
  eviction, merging and concurrent operations interleave: the accepted stream of its lane is what was taken
  followed by what is queued.\<close>

theorem pty_streams_in_order:
  assumes "pty_flow s retired accepted taken" and "lane \<notin> retired"
  shows "lane_stream lane accepted = lane_stream lane taken @ lane_stream lane (q_events (sc_queue s))"
  by (rule pty_flow_streams [OF assms])

text \<open>C18. A mouse release of at most 64 bytes whose press reserved its place is accepted without evicting
  anything, at the end of the queue, and uses up its reservation, even in a lane that failed, whenever
  the worker is busy or the queue is within its bounds.\<close>

theorem reserved_release_accepted:
  assumes "pty_reachable s" and "sc_inline s \<noteq> None \<or> in_bounds (sc_queue s)"
    and "\<not> q_closed (sc_queue s)" and "q_active_generation (sc_queue s) = g"
    and "g \<notin> q_failed_generations (sc_queue s)"
    and "map_of (outstanding (q_reservations (sc_queue s))) i = Some \<lparr>lane_generation = g, lane_surface = sid\<rparr>"
    and "length bs \<le> 64"
  shows "enqueue_with_reservation g (release_event sid h bs i) (sc_queue s) =
    Some ((Accepted, None), [],
      (sc_queue s)\<lparr>q_events := q_events (sc_queue s) @ [(release_event sid h bs i)\<lparr>ev_generation := g\<rparr>],
        q_bytes := q_bytes (sc_queue s) + length bs,
        q_reservations := cancel i (q_reservations (sc_queue s))\<rparr>)"
proof -
  have ok: "queue_ok (sc_queue s)" "in_bounds (sc_queue s)"
    using pty_reachable_ok [OF assms(1)] assms(2) by (auto simp: scheduler_ok_def bounded_def)
  have "consumes_reservation (q_reservations (sc_queue s)) ((release_event sid h bs i)\<lparr>ev_generation := g\<rparr>)"
    using assms(6) by (simp add: consumes_reservation_def)
  moreover have "\<not> MAX_QUEUED_BYTES < queued_byte_len ((release_event sid h bs i)\<lparr>ev_generation := g\<rparr>)"
    using release_bytes [OF assms(7)] assms(7) by (simp add: MAX_QUEUED_BYTES_def)
  ultimately show ?thesis
    using enqueue_reserved_release [OF ok(2,1) assms(7,6), of h] assms(3-5)
    by (simp add: enqueue_with_reservation_def Let_def superseded_notice_def)
qed

section \<open>Witnesses\<close>

theorem pty_queue_is_bounded_witness:
  "q_bytes (sc_queue (demo_filled 511)) + 64 * reservations_len (q_reservations (sc_queue (demo_filled 511)))
      + sum_list (map snd (q_operations (sc_queue (demo_filled 511))))
      \<le> 4194304 + 4194304 * of_bool (sc_inline (demo_filled 511) = None)
    \<and> length (q_events (sc_queue (demo_filled 511))) = 511 \<and> sc_inline (demo_filled 511) \<noteq> None"
  using pty_queue_is_bounded [OF demo_filled [of 511, OF order_refl]] by (simp add: demo_filled_def)

theorem pty_worker_keeps_order_witness:
  "ordering_lane (demo_release 1) \<notin> ordering_lane ` set (sc_running (demo_filled 1))
   \<and> (\<exists>ev q. dequeue_ready_event (sc_queue (demo_retried 1)) = Some (Some ev, q))"
proof -
  have "sc_inline (demo_filled 1) = Some (demo_release 1)"
    by (simp add: demo_filled_def)
  moreover have "q_events (sc_queue (demo_retried 1)) \<noteq> []" "sc_running (demo_retried 1) = []"
    by (simp_all add: demo_retried_def)
  ultimately show ?thesis
    using pty_worker_keeps_order [OF demo_filled [of 1]] pty_worker_keeps_order [OF demo_retried [of 1]] by simp
qed

definition demo_input :: "u8 \<Rightarrow> pty_event" where
  "demo_input b = input_event 1 (Remote PtySurface) [b] Ordered"

text \<open>Two bytes for surface 1, the first already taken.\<close>

definition demo_typing :: scheduler where
  "demo_typing = \<lparr>sc_queue = queue_new\<lparr>q_events := [demo_input 2], q_bytes := 1,
       q_in_flight := Some \<lparr>fl_lane = Some (demo_lane 1), fl_kind = Ordered\<rparr>\<rparr>,
     sc_inline = Some (demo_input 1), sc_running = []\<rparr>"

lemma demo_typing: "pty_flow demo_typing {demo_lane 2} [demo_input 1, demo_input 2] [demo_input 1]"
proof -
  let ?fl = "queue_new\<lparr>q_in_flight := Some \<lparr>fl_lane = Some (demo_lane 1), fl_kind = Ordered\<rparr>\<rparr>"
  let ?q = "queue_new\<lparr>q_events := [demo_input 1], q_bytes := 1\<rparr>"
  have ok: "constructible (demo_input b)" "(demo_input b)\<lparr>ev_generation := 1\<rparr> = demo_input b" for b
    by (simp_all add: demo_input_def constructible_def demo_defs)
  have start: "pty_flow scheduler_new {demo_lane 2} [] []"
    using flow_retire [OF flow_start, of 1 2]
    by (simp add: scheduler_new_def retire_surface_def queue_new_def total_bytes_def demo_lane_def reservations_new_def
        retain_reservations_def)
  have "enqueue_with_reservation 1 (demo_input 1) queue_new = Some ((Accepted, None), [], ?q)"
    by (simp add: queue_run_defs demo_defs demo_input_def queue_new_def reservations_new_def superseded_notice_def Let_def)
  then have first: "pty_flow (scheduler_new\<lparr>sc_queue := ?q\<rparr>) {demo_lane 2} [demo_input 1] []"
    using flow_enqueue [OF start ok(1) [of 1], of 1 "(Accepted, None)" "[]" ?q] ok(2) by (simp add: scheduler_new_def)
  have deq: "dequeue_ready_event ?q = Some (Some (demo_input 1), ?fl)"
    by (simp add: queue_run_defs demo_defs demo_input_def queue_new_def Let_def)
  have second: "pty_flow (scheduler_new\<lparr>sc_queue := ?fl, sc_inline := Some (demo_input 1)\<rparr>) {demo_lane 2} [demo_input 1] [demo_input 1]"
    using flow_inline [OF first, of "demo_input 1" ?fl] deq by (simp add: scheduler_new_def demo_input_def input_event_def)
  have "enqueue_with_reservation 1 (demo_input 2) ?fl = Some ((Accepted, None), [], sc_queue demo_typing)"
    by (simp add: queue_run_defs demo_defs demo_input_def demo_typing_def queue_new_def reservations_new_def
        superseded_notice_def Let_def)
  then show ?thesis
    using flow_enqueue [OF second ok(1) [of 2], of 1 "(Accepted, None)" "[]" "sc_queue demo_typing"] ok(2)
    by (simp add: scheduler_new_def demo_typing_def)
qed

theorem pty_streams_in_order_witness:
  "lane_stream (demo_lane 1) [demo_input 1, demo_input 2]
      = lane_stream (demo_lane 1) [demo_input 1] @ lane_stream (demo_lane 1) (q_events (sc_queue demo_typing))
   \<and> lane_stream (demo_lane 1) [demo_input 1, demo_input 2] = [1, 2]"
  using pty_streams_in_order [OF demo_typing, of "demo_lane 1"]
  by (simp add: demo_input_def demo_defs ordering_lane_def ordering_surface_id_def)

theorem reserved_release_accepted_witness:
  "fst (the (enqueue_with_reservation 1 (release_event 2 (Remote PtySurface) [0x1b] 2) (sc_queue (demo_filled 511))))
     = (Accepted, None)"
proof -
  have "map_of (outstanding (q_reservations (sc_queue (demo_filled 511)))) 2 = Some \<lparr>lane_generation = 1, lane_surface = 2\<rparr>"
    "sc_inline (demo_filled 511) \<noteq> None" "\<not> q_closed (sc_queue (demo_filled 511))"
    "q_active_generation (sc_queue (demo_filled 511)) = 1" "1 \<notin> q_failed_generations (sc_queue (demo_filled 511))"
    by (simp_all add: demo_filled_def demo_lane_def queue_new_def)
  then show ?thesis
    using reserved_release_accepted [OF demo_filled [of 511, OF order_refl], of 1 2 2 "[0x1b]" "Remote PtySurface"] by simp
qed

end
