(* ===== verification/Spec2Isabelle.thy ===== *)
theory Spec2Isabelle
  imports ScreenProps SessionProps SelectorProps HostProps HandshakeProps EventProps ShortIds PairingProps PtyProps
begin

text \<open>
  cmux for Windows keeps terminal sessions in a server and draws them in clients. The core of the server
  is the crate \<open>cmux-tui/crates/cmux-tui-core\<close>: a session is a list of workspaces, a workspace a list of
  screens, a screen a tree of panes, a pane a list of tabs, and a tab shows one terminal or browser. Clients
  address these by public ids and selectors, subscribe to events, and pair with a challenge; the terminals
  run in separate host processes that talk to the server in framed messages. This library models that
  core: data as the code has it, every operation with its error paths, machine integers and floating
  point at their width where the code depends on it.

  \<^bold>\<open>Foundations.\<close> \<open>Prelude\<close> has Rust's saturating and wrapping arithmetic on words, \<open>Result\<close> as a sum with
  \<open>rbind\<close>, and the operations of \<open>Vec\<close> the code uses. \<open>Floats\<close> defines \<open>f32\<close> and \<open>f64\<close> by exact
  rationals rounded half to even, so that split arithmetic is the code's. \<open>Bytes\<close> has little-endian
  integers and UTF-8.

  \<^bold>\<open>Layout of a screen\<close> (\<open>model.rs\<close>, \<open>layout.rs\<close>). \<open>SplitTree\<close> is \<open>Node\<close> and \<open>StackPanes\<close>: splitting,
  removing, swapping, ratios, stacks. \<open>Geometry\<close> is \<open>Rect\<close> with the four searches for a neighbor. \<open>Layout\<close>
  is \<open>layout_screen\<close>, \<open>EdgeSearch\<close> the way back from a border to its split, \<open>ViewportLayout\<close> the layout
  with columns beyond the screen, \<open>ZellijLayout\<close> the automatic trees. Shown: the panes tile the area, in
  tree order, cell by cell; the neighbor found is the pane that lies in the direction asked for, with
  the longest shared extent, then at the least gap, in terms of intervals of cells; the split at a border is
  the innermost one whose line is that border of the pane; splitting and closing are inverse.

  \<^bold>\<open>Screens\<close> (\<open>model.rs\<close>, \<open>mux.rs\<close>, \<open>mux/resource_topology.rs\<close>). \<open>Screen\<close> and \<open>ScreenOps\<close> are the layout
  state with its columns and undo history and the transactions on it: attaching, removing, resizing,
  swapping, focusing, zooming, undoing. \<open>ScreenInv\<close>, \<open>ScreenUndo\<close> and \<open>ScreenProps\<close> prove one layout
  invariant through all of them, that the two ways the code recomputes the projection of the columns
  agree, that recording never panics, that undo restores the layout, and that each column is drawn in a
  band of its own as wide as it asks for.

  \<^bold>\<open>Sessions\<close> (\<open>model.rs\<close>, \<open>mux.rs\<close>). \<open>Session\<close> is \<open>State\<close>: workspaces, panes, tabs, surfaces and the
  indexes, with lookups, workspace operations, tab moves and surface removal. \<open>SessionIndex\<close> rebuilds the
  indexes from the tree. \<open>SessionInv\<close>, \<open>SessionMoves\<close> and \<open>SessionTabs\<close> prove the invariant; \<open>SessionProps\<close>
  states a locale of machines that never fail and account for their content, interprets it on the
  session, and concludes for all sequences of operations.

  \<^bold>\<open>Resource protocol\<close> (\<open>resource.rs\<close>, \<open>resource_selector.rs\<close>). \<open>Operations\<close> is the table of operations and
  their classes; \<open>Resource\<close> the decimals, public ids, selectors, envelopes and the journal of deltas;
  \<open>ErrorCatalog\<close> the matcher that every constructed error must pass and the part of
  \<open>cmux-tui/spec/resource-operations-v2.json\<close> that errors reach; \<open>ResourceSelector\<close> resolves the selectors of a
  request against a session. \<open>ResourceProps\<close>, \<open>ErrorProps\<close> and \<open>SelectorProps\<close> show that wire forms are
  canonical, when building an error panics, that the resolver never does, that what it returns is the whole chain
  of the indexes down to the target, agreeing with every selector given, except for a terminal that no tab
  shows, and that \<open>current\<close> is the active tab.

  \<^bold>\<open>Terminal hosts\<close> (\<open>terminal_host_protocol.rs\<close>). \<open>HostProtocol\<close> has frames, headers and payloads,
  \<open>HostStream\<close> the blocking reader and the incremental decoder, \<open>HostProps\<close> the round trips and that both
  readers compute the parse of the whole stream for any chunking. \<open>HostHandshake\<close> (\<open>terminal_host.rs\<close>) has
  identities, capabilities, the payloads of the handshake and the bootstrap; \<open>HandshakeProps\<close> shows that
  payloads have one spelling and, for every run of the store, that a capability lets in one client within
  what it was minted for.

  \<^bold>\<open>Events\<close> (\<open>event_bus.rs\<close>). \<open>EventBus\<close> has filters, mailboxes, the broadcaster and receivers; \<open>EventBusInv\<close>
  and \<open>EventProps\<close> refine a mailbox to a bounded queue with coalescing and show delivery.

  \<^bold>\<open>Client input\<close> (\<open>cmux-tui/src/pty_input.rs\<close>). \<open>PtyInput\<close> is the bounded scheduler between the event loop of
  the client and its surfaces: coalescing, merging and eviction on enqueue, reservations for mouse
  releases, the worker's choice of the next event, every branch after a failed operation, shutdown; its
  threads are the step relation \<open>pty_step\<close>. \<open>PtyInv\<close> proves the invariant of all steps, \<open>PtyStreams\<close> follows
  the bytes of a surface, pointer motion aside, through the runs in which no operation fails, and \<open>PtyProps\<close> concludes bounds, exclusion, order and delivery, and shows the two
  reachable states in which a retried release overfills the queue and breaks a promise.

  \<^bold>\<open>Pairing and short ids\<close> (\<open>pairing.rs\<close>, \<open>short_id.rs\<close>). \<open>Pairing\<close> is the broker, \<open>PairingProps\<close> its runs as an
  inductive relation with the rate limit and the exact lifetime of credentials, for steps whose instants do not decrease
  in the order of the lock. \<open>ShortIds\<close> assigns
  six-character codes with an unbounded probing loop; the codes depend on the set of ids only.

  \<^bold>\<open>Parameters.\<close> Random numbers, the clock, the durable commit of a credential, the identity of a
  surface, the length of a batch as JSON, the outcome of an operation and the results of reads are arguments of the definitions that
  use them; nothing is assumed of them except where a statement says so.

  \<^bold>\<open>Termination and fuel.\<close> Loops are structural or have measures. \<open>ShortIds.probe\<close> is a partial function;
  it is shown to return exactly while a code is free. The matcher of \<open>ErrorCatalog\<close> follows references
  by name, so it takes fuel: five steps settle every contract of the catalog, and more fuel never changes
  a verdict (\<open>errors_meet_contract\<close>).

  \<^bold>\<open>Panics\<close> are values: \<open>None\<close>, \<open>LayoutPanic\<close>, \<open>SessionPanic\<close> and \<open>ResourcePanic\<close> stand for \<open>expect\<close>,
  indexing out of range and failed assertions, and the properties say where they cannot be reached. Debug
  assertions are those of a release build, that is none, except in \<open>insert_pane\<close>, where the assertion has an effect and
  the build is an argument.

  \<^bold>\<open>Not modelled.\<close> The server's sockets and threads (\<open>server.rs\<close>), the processes and pseudo-terminals behind
  surfaces (\<open>surface.rs\<close>, \<open>terminal_host_runtime.rs\<close>, \<open>platform.rs\<close>, \<open>browser.rs\<close>), the SQLite registry
  (\<open>workspace_registry\<close>), whose program is its SQL, and the orchestration of all of these under the locks of
  \<open>Mux\<close>; JSON projections and dispatch (\<open>resource_router\<close>, \<open>resource_api.rs\<close>); the rest of the
  clients: drawing, input devices, command line and configuration (crate \<open>cmux-tui\<close>); the bindings to the terminal library and
  the browser protocol. A section run under a lock is one step here, and concurrency enters only where the
  modelled code has it: in the mailboxes of events, as changes between two steps of a receiver, and in the
  client's scheduler, as interleaved steps of its threads. Sentences
  for the user are left out of errors; codes and details are kept.
\<close>

end
